(* ===== verification/Sqlglot.thy ===== *)
theory Sqlglot
  imports Prelude
begin

text \<open>
  What the code uses of the \<open>sqlglot\<close> parser, which is not part of the repository: the
  record of functions below is an argument of every definition that parses SQL, over a type
  of syntax nodes that is left open. \<open>sg_isa\<close> is \<open>isinstance\<close> against the node classes the
  code names; \<open>find_all\<close> is the library's documented filter over \<open>walk\<close>. A small concrete
  instance, \<open>toy\<close>, makes the theorems that take the record evaluate on examples.
\<close>

datatype sql_class =
    SExpression | SSelect | SUnion | SIntersect | SExcept
  | SInsert | SUpdate | SDelete | SMerge | SCreate | SDrop | SAlter | STruncateTable
  | SGrant | SCopy | SCommand | SLock
  | STable | SColumn | SCTE | SSubquery | SAlias | SLimit | SLiteral

record 'n sqlglot =
  sg_parse :: "string \<Rightarrow> string + 'n option list"
  sg_parse_one :: "string \<Rightarrow> string + 'n"
  sg_isa :: "'n \<Rightarrow> sql_class \<Rightarrow> bool"
  sg_walk :: "'n \<Rightarrow> 'n list"
  sg_parent :: "'n \<Rightarrow> 'n option"
  sg_key :: "'n \<Rightarrow> string"
  sg_name :: "'n \<Rightarrow> string"
  sg_alias :: "'n \<Rightarrow> string"
  sg_alias_or_name :: "'n \<Rightarrow> string"
  sg_qualifier :: "'n \<Rightarrow> string"
  sg_this :: "'n \<Rightarrow> 'n"
  sg_expressions :: "'n \<Rightarrow> 'n list"
  sg_expression :: "'n \<Rightarrow> 'n"
  sg_arg :: "'n \<Rightarrow> string \<Rightarrow> 'n option"
  sg_is_int :: "'n \<Rightarrow> bool"
  sg_int :: "'n \<Rightarrow> int option"
  sg_with_limit :: "'n \<Rightarrow> int \<Rightarrow> 'n"
  sg_sql :: "'n \<Rightarrow> string"

definition find_all :: "'n sqlglot \<Rightarrow> sql_class \<Rightarrow> 'n \<Rightarrow> 'n list" where
  "find_all G c n = filter (\<lambda>m. sg_isa G m c) (sg_walk G n)"

section \<open>A concrete instance\<close>

text \<open>
  A node is its class, its names, the value of an integer literal, its named arguments and its
  children. The texts the examples parse are looked up in a table.
\<close>

datatype toy_node =
  Toy (toy_class: sql_class) (toy_name: string) (toy_alias: string) (toy_qual: string)
      (toy_int: "int option") (toy_args: "(string \<times> toy_node) list") (toy_kids: "toy_node list")

fun toy_walk :: "nat \<Rightarrow> toy_node \<Rightarrow> toy_node list" where
  "toy_walk 0 n = [n]"
| "toy_walk (Suc d) n = n # concat (map (toy_walk d) (map snd (toy_args n) @ toy_kids n))"

definition toy_set_limit :: "toy_node \<Rightarrow> int \<Rightarrow> toy_node" where
  "toy_set_limit n k =
     Toy (toy_class n) (toy_name n) (toy_alias n) (toy_qual n) (toy_int n)
       (dict_set (toy_args n) ''limit''
          (Toy SLimit [] [] [] None [] [Toy SLiteral (show_int k) [] [] (Some k) [] []]))
       (toy_kids n)"

definition toy_sql :: "toy_node \<Rightarrow> string" where
  "toy_sql n = toy_name n @
     (case map_of (toy_args n) ''limit'' of None \<Rightarrow> []
      | Some l \<Rightarrow> '' LIMIT '' @ (case toy_kids l of [] \<Rightarrow> [] | v # _ \<Rightarrow> toy_name v))"

definition toy :: "(string \<Rightarrow> string + toy_node option list) \<Rightarrow> toy_node sqlglot" where
  "toy parse =
     \<lparr>sg_parse = parse,
      sg_parse_one = (\<lambda>s. case parse s of Inl m \<Rightarrow> Inl m
         | Inr (Some n # _) \<Rightarrow> Inr n | Inr _ \<Rightarrow> Inl ''no expression''),
      sg_isa = (\<lambda>n c. c = SExpression \<or> toy_class n = c),
      sg_walk = toy_walk 8,
      sg_parent = (\<lambda>n. None),
      sg_key = (\<lambda>n. toy_name n),
      sg_name = toy_name,
      sg_alias = toy_alias,
      sg_alias_or_name = (\<lambda>n. if toy_alias n \<noteq> [] then toy_alias n else toy_name n),
      sg_qualifier = toy_qual,
      sg_this = (\<lambda>n. case toy_kids n of [] \<Rightarrow> n | k # _ \<Rightarrow> k),
      sg_expressions = toy_kids,
      sg_expression = (\<lambda>n. case toy_kids n of [] \<Rightarrow> n | k # _ \<Rightarrow> k),
      sg_arg = (\<lambda>n k. map_of (toy_args n) k),
      sg_is_int = (\<lambda>n. toy_int n \<noteq> None),
      sg_int = toy_int,
      sg_with_limit = toy_set_limit,
      sg_sql = toy_sql\<rparr>"

end
