(* ===== verification/Comparison.thy ===== *)
theory Comparison
  imports Sqlglot "HOL-Library.List_Lexorder" "HOL-Library.Countable"
begin

text \<open>
  The result-set comparison of \<open>src/evals/comparison.py\<close>, on which every accuracy number of
  the benchmark rests: values are reduced to a canonical form, columns are matched by a pruned
  search over permutations, rows are compared as lists or as multisets. Two things of the Python
  runtime are arguments: \<open>fl\<close>, the rounding of an exact number to a float, and \<open>pr\<close>, the
  \<open>repr\<close> of a canonical value, which is the sort key of a column's signature. The specification
  is \<open>same_answer\<close>, which names neither signatures nor a search.
\<close>

section \<open>Values\<close>

datatype db_value =
    VNull
  | VBool bool
  | VInt int
  | VDecimal rat
  | VFloat rat
  | VNan
  | VInf bool
  | VMoment string
  | VBytes string
  | VText string
  | VSeq "db_value list"
  | VDict "(string \<times> db_value) list"
  | VOther string

text \<open>What \<open>canonical\<close> returns: Python tuples are \<open>CTuple\<close>. A bare \<open>True\<close> inside the tag pair
  equals \<open>1.0\<close> in Python, so it is the number here.\<close>

datatype canon = CNone | CNum rat | CStr string | CBytes string | CTuple "canon list" | COpaque string

definition float_places :: nat where
  "float_places = 6"

definition canonical_number :: "(rat \<Rightarrow> rat) \<Rightarrow> rat \<Rightarrow> canon" where
  "canonical_number fl x = CNum (fl (round_places float_places (fl x)))"

function canonical :: "(rat \<Rightarrow> rat) \<Rightarrow> db_value \<Rightarrow> canon" where
  "canonical fl VNull = CNone"
| "canonical fl (VBool b) = CTuple [CStr ''bool'', CNum (if b then 1 else 0)]"
| "canonical fl (VInt i) = canonical_number fl (of_int i)"
| "canonical fl (VDecimal x) = canonical_number fl x"
| "canonical fl (VFloat x) = canonical_number fl x"
| "canonical fl VNan = CStr ''nan''"
| "canonical fl (VInf pos) = CStr (if pos then ''inf'' else ''-inf'')"
| "canonical fl (VMoment t) = CStr t"
| "canonical fl (VBytes b) = CBytes b"
| "canonical fl (VText s) = CStr s"
| "canonical fl (VSeq vs) = CTuple (map (canonical fl) vs)"
| "canonical fl (VDict d) =
     CTuple (map (\<lambda>kc. CTuple [CStr (fst kc), snd kc])
       (sort_key (\<lambda>kc. map code (fst kc)) (map (\<lambda>kv. (fst kv, canonical fl (snd kv))) d)))"
| "canonical fl (VOther s) = COpaque s"
  by pat_completeness auto
termination
  by (relation "measure (\<lambda>(fl, v). size v)")
     (auto simp: less_Suc_eq_le size_list_estimation' size_prod_simp
        dest!: size_list_estimation' [OF _ order_refl, where f = size])

section \<open>The comparison\<close>

datatype verdict = MATCH | SHAPE_MISMATCH | VALUE_MISMATCH | ORDER_MISMATCH | NO_COLUMN_BIJECTION

record comparison =
  cmp_verdict :: verdict
  cmp_matched :: bool
  cmp_detail :: string
  order_enforced :: bool
  positional_fallback :: bool

definition max_columns_for_permutation :: nat where
  "max_columns_for_permutation = 8"

definition order_matters :: "'n sqlglot \<Rightarrow> string option \<Rightarrow> bool" where
  "order_matters G gold_sql =
     (if \<not> truthy gold_sql then False
      else case sg_parse_one G (the gold_sql) of
        Inl _ \<Rightarrow> False
      | Inr st \<Rightarrow> sg_arg G st ''order'' \<noteq> None)"

definition columns_of_rows :: "(rat \<Rightarrow> rat) \<Rightarrow> db_value list list \<Rightarrow> nat \<Rightarrow> canon list list" where
  "columns_of_rows fl rows width =
     map (\<lambda>i. map (\<lambda>row. canonical fl (row ! i)) rows) [0..<width]"

text \<open>\<open>list(zip(*columns))\<close> for columns of one length; no columns give no rows.\<close>

definition zip_columns :: "'a list list \<Rightarrow> 'a list list" where
  "zip_columns cols =
     (case cols of [] \<Rightarrow> [] | c # _ \<Rightarrow> map (\<lambda>i. map (\<lambda>d. d ! i) cols) [0..<length c])"

definition rows_equal :: "bool \<Rightarrow> 'a list list \<Rightarrow> 'a list list \<Rightarrow> bool" where
  "rows_equal ordered pred gold =
     (if ordered then zip_columns pred = zip_columns gold
      else mset (zip_columns pred) = mset (zip_columns gold))"

definition counter_items :: "'a list \<Rightarrow> ('a \<times> nat) list" where
  "counter_items xs = map (\<lambda>x. (x, count_list xs x)) (fromkeys xs)"

definition signature_unordered :: "('a \<Rightarrow> string) \<Rightarrow> 'a list \<Rightarrow> ('a \<times> nat) list" where
  "signature_unordered pr column = sort_key (\<lambda>item. map code (pr (fst item))) (counter_items column)"

text \<open>\<open>itertools.permutations\<close>, in its order.\<close>

function permutations :: "'a list \<Rightarrow> 'a list list" where
  "permutations xs =
     (if xs = [] then [[]]
      else concat (map (\<lambda>i. map (\<lambda>p. (xs ! i) # p) (permutations (take i xs @ drop (Suc i) xs)))
             [0..<length xs]))"
  by pat_completeness auto
termination
  by (relation "measure length") auto

declare permutations.simps [simp del]

text \<open>\<open>sig\<close> is one signature function on columns: their value list when ordered, else the
  sorted counter.\<close>

definition assignments :: "('a list \<Rightarrow> 's) \<Rightarrow> 'a list list \<Rightarrow> 'a list list \<Rightarrow> 'a list list list" where
  "assignments sig pred gold =
     (let gs = map sig gold; ps = map sig pred in
      if mset gs \<noteq> mset ps then []
      else map (\<lambda>order. map (\<lambda>i. pred ! i) order)
        (filter (\<lambda>order. \<forall>i \<in> set [0..<length order]. ps ! (order ! i) = gs ! i)
           (permutations [0..<length pred])))"

definition candidate_orderings ::
  "('a \<Rightarrow> string) \<Rightarrow> bool \<Rightarrow> 'a list list \<Rightarrow> 'a list list \<Rightarrow> 'a list list list" where
  "candidate_orderings pr ordered pred gold =
     pred # (if ordered then assignments (\<lambda>c. c) pred gold
             else assignments (signature_unordered pr) pred gold)"

definition diagnose :: "('a \<Rightarrow> string) \<Rightarrow> 'a list list \<Rightarrow> 'a list list \<Rightarrow> bool \<Rightarrow> verdict" where
  "diagnose pr pred gold ordered =
     (if ordered \<and> rows_equal False pred gold then ORDER_MISMATCH
      else if mset (map (signature_unordered pr) pred) \<noteq> mset (map (signature_unordered pr) gold)
      then NO_COLUMN_BIJECTION else VALUE_MISMATCH)"

definition explain_mismatch :: "'a list list \<Rightarrow> 'a list list \<Rightarrow> bool \<Rightarrow> string" where
  "explain_mismatch pred gold ordered =
     (if ordered \<and> rows_equal False pred gold
      then ''same rows in a different order, and the gold query is ordered''
      else ''no assignment of predicted columns to gold columns matches'')"

definition outcome :: "bool \<Rightarrow> verdict \<Rightarrow> string \<Rightarrow> comparison" where
  "outcome enforced v detail = \<lparr>cmp_verdict = v, cmp_matched = (v = MATCH), cmp_detail = detail,
     order_enforced = enforced, positional_fallback = False\<rparr>"

definition compare ::
  "'n sqlglot \<Rightarrow> (rat \<Rightarrow> rat) \<Rightarrow> (canon \<Rightarrow> string) \<Rightarrow> string option \<Rightarrow> bool option
     \<Rightarrow> db_value list list \<Rightarrow> db_value list list \<Rightarrow> comparison" where
  "compare G fl pr gold_sql order predicted gold =
     (let enforced = (case order of None \<Rightarrow> order_matters G gold_sql | Some b \<Rightarrow> b) in
      if length predicted \<noteq> length gold
      then outcome enforced SHAPE_MISMATCH
             (show_nat (length predicted) @ '' rows, expected '' @ show_nat (length gold))
      else if gold = [] then outcome enforced MATCH []
      else let width = length (hd gold) in
        if (\<exists>row \<in> set gold. length row \<noteq> width) \<or> (\<exists>row \<in> set predicted. length row \<noteq> width)
        then outcome enforced SHAPE_MISMATCH ''ragged rows''
        else let pc = columns_of_rows fl predicted width; gc = columns_of_rows fl gold width in
          if width > max_columns_for_permutation
          then (if rows_equal enforced pc gc
                then (outcome enforced MATCH [])\<lparr>positional_fallback := True\<rparr>
                else (outcome enforced VALUE_MISMATCH
                       (''no positional match across '' @ show_nat width @ '' columns''))
                     \<lparr>positional_fallback := True\<rparr>)
          else if \<exists>cand \<in> set (candidate_orderings pr enforced pc gc). rows_equal enforced cand gc
          then outcome enforced MATCH []
          else outcome enforced (diagnose pr pc gc enforced) (explain_mismatch pc gc enforced))"

section \<open>What it is meant to decide\<close>

definition agree :: "bool \<Rightarrow> 'a list list \<Rightarrow> 'a list list \<Rightarrow> bool" where
  "agree ordered rows gold = (if ordered then rows = gold else mset rows = mset gold)"

definition reorder :: "nat list \<Rightarrow> 'a list \<Rightarrow> 'a list" where
  "reorder p row = map (\<lambda>i. row ! i) p"

definition uniform :: "nat \<Rightarrow> 'a list list \<Rightarrow> bool" where
  "uniform w rows \<longleftrightarrow> (\<forall>row \<in> set rows. length row = w)"

definition same_answer :: "bool \<Rightarrow> nat \<Rightarrow> 'a list list \<Rightarrow> 'a list list \<Rightarrow> bool" where
  "same_answer ordered w rows gold \<longleftrightarrow>
     (\<exists>p. mset p = mset [0..<w] \<and> agree ordered (map (reorder p) rows) gold)"

section \<open>Facts\<close>

lemma mset_remove_nth:
  "i < length xs \<Longrightarrow> add_mset (xs ! i) (mset (take i xs @ drop (Suc i) xs)) = mset xs"
  by (metis append_take_drop_id Cons_nth_drop_Suc mset.simps(2) mset_append union_mset_add_mset_right)

lemma permutations_sound: "p \<in> set (permutations xs) \<Longrightarrow> mset p = mset xs"
proof (induction xs arbitrary: p rule: permutations.induct)
  case (1 xs)
  show ?case
  proof (cases "xs = []")
    case True
    then show ?thesis using 1(2) by (simp add: permutations.simps)
  next
    case False
    then obtain i q where i: "i < length xs" "p = xs ! i # q"
        "q \<in> set (permutations (take i xs @ drop (Suc i) xs))"
      using 1(2) by (subst (asm) permutations.simps) auto
    then have "mset q = mset (take i xs @ drop (Suc i) xs)" using 1(1) [OF False] by simp
    then show ?thesis using mset_remove_nth [OF i(1)] i(2) by simp
  qed
qed

lemma permutations_complete: "mset p = mset xs \<Longrightarrow> p \<in> set (permutations xs)"
proof (induction xs arbitrary: p rule: permutations.induct)
  case (1 xs)
  show ?case
  proof (cases "xs = []")
    case True
    then show ?thesis using 1(2) by (simp add: permutations.simps)
  next
    case False
    then obtain x q where p: "p = x # q" using 1(2) by (cases p) auto
    then have "x \<in> set xs" using 1(2) by (metis list.set_intros(1) set_mset_mset)
    then obtain i where i: "i < length xs" "xs ! i = x" by (auto simp: in_set_conv_nth)
    then have "add_mset x (mset q) = add_mset x (mset (take i xs @ drop (Suc i) xs))"
      using 1(2) p mset_remove_nth [OF i(1)] by simp
    then have "mset q = mset (take i xs @ drop (Suc i) xs)"
      by (metis add_mset_remove_trivial)
    then have "q \<in> set (permutations (take i xs @ drop (Suc i) xs))"
      using 1(1) [OF False] i(1) by simp
    then show ?thesis
      using False i p by (subst permutations.simps) (auto intro!: bexI [of _ i])
  qed
qed

lemma count_list_mset: "count_list xs x = count (mset xs) x"
  by (induction xs) auto

lemma signature_mset:
  assumes "inj pr" and "mset a = mset b"
  shows "signature_unordered pr a = signature_unordered pr b"
proof -
  have "mset (counter_items a) = mset (counter_items b)"
  proof -
    have "set a = set b" using assms(2) by (metis set_mset_mset)
    then have "mset (fromkeys a) = mset (fromkeys b)"
      using set_eq_iff_mset_eq_distinct [of "fromkeys a" "fromkeys b"] by simp
    then show ?thesis
      using assms(2) by (simp add: counter_items_def count_list_mset)
  qed
  moreover have "inj_on (\<lambda>item. map code (pr (fst item))) (set (counter_items a))"
  proof (rule inj_onI)
    fix x y assume xy: "x \<in> set (counter_items a)" "y \<in> set (counter_items a)"
      "map code (pr (fst x)) = map code (pr (fst y))"
    have "inj code" by (rule injI) (simp add: code_inject)
    then have "fst x = fst y" using xy(3) assms(1) by (metis inj_map_eq_map injD)
    then show "x = y" using xy(1,2) by (auto simp: counter_items_def)
  qed
  ultimately show ?thesis
    unfolding signature_unordered_def
    by (intro sort_key_inj_key_eq) (simp_all add: sorted_sort_key)
qed

lemma mset_upt_range: "mset p = mset [0..<w] \<Longrightarrow> length p = w \<and> (\<forall>i \<in> set p. i < w)"
  by (metis atLeastLessThan_iff diff_zero length_upt mset_eq_length set_mset_mset set_upt)

lemma zip_columns_reorder:
  assumes "uniform w rows" "mset p = mset [0..<w]" "0 < w"
  shows "zip_columns (map (\<lambda>i. columns_of_rows fl rows w ! i) p)
    = map (reorder p) (map (map (canonical fl)) rows)"
proof -
  have p: "length p = w" "\<forall>i \<in> set p. i < w" using mset_upt_range [OF assms(2)] by auto
  then obtain i q where iq: "p = i # q" using assms(3) by (cases p) auto
  then have "zip_columns (map (\<lambda>i. columns_of_rows fl rows w ! i) p)
      = map (\<lambda>k. map (\<lambda>i. columns_of_rows fl rows w ! i ! k) p) [0..<length rows]"
    using p by (simp add: zip_columns_def columns_of_rows_def comp_def)
  also have "\<dots> = map (reorder p) (map (map (canonical fl)) rows)"
  proof (rule nth_equalityI)
    fix k assume "k < length (map (\<lambda>k. map (\<lambda>i. columns_of_rows fl rows w ! i ! k) p) [0..<length rows])"
    then have k: "k < length rows" by simp
    then have "length (rows ! k) = w" using assms(1) by (simp add: uniform_def)
    then show "map (\<lambda>k. map (\<lambda>i. columns_of_rows fl rows w ! i ! k) p) [0..<length rows] ! k
        = map (reorder p) (map (map (canonical fl)) rows) ! k"
      using k p by (auto simp: reorder_def columns_of_rows_def)
  qed simp
  finally show ?thesis .
qed

lemma reorder_id: "length row = w \<Longrightarrow> reorder [0..<w] row = row"
  by (auto simp: reorder_def intro: nth_equalityI)

lemma map_nth_upt: "length xs = w \<Longrightarrow> map (\<lambda>i. xs ! i) [0..<w] = xs"
  by (auto intro: nth_equalityI)

lemma zip_columns_id:
  assumes "uniform w rows" "0 < w"
  shows "zip_columns (columns_of_rows fl rows w) = map (map (canonical fl)) rows"
proof -
  have "map (\<lambda>i. columns_of_rows fl rows w ! i) [0..<w] = columns_of_rows fl rows w"
    by (rule map_nth_upt) (simp add: columns_of_rows_def)
  then show ?thesis
    using zip_columns_reorder [OF assms(1) refl assms(2), of fl] assms(1)
    by (auto simp: uniform_def reorder_id)
qed

lemma column_of_reordered:
  assumes "uniform w rows" "mset p = mset [0..<w]" "i < w"
  shows "columns_of_rows fl rows w ! (p ! i)
    = map (\<lambda>r. r ! i) (map (reorder p) (map (map (canonical fl)) rows))"
proof -
  have p: "length p = w" "\<forall>j \<in> set p. j < w" using mset_upt_range [OF assms(2)] by auto
  then have "p ! i < w" using assms(3) by simp
  then show ?thesis
    using assms(1,3) p(1) by (auto simp: columns_of_rows_def reorder_def uniform_def)
qed

lemma assignments_complete:
  assumes p: "mset p = mset [0..<w]" and w: "length pred = w" "length gold = w"
    and cols: "\<And>i. i < w \<Longrightarrow> sig (pred ! (p ! i)) = sig (gold ! i)"
  shows "map (\<lambda>i. pred ! i) p \<in> set (assignments sig pred gold)"
proof -
  have lp: "length p = w" "\<forall>j \<in> set p. j < w" using mset_upt_range [OF p] by auto
  have "map sig gold = map (\<lambda>i. map sig pred ! i) p"
    using lp w cols by (auto intro!: nth_equalityI)
  then have "mset (map sig gold) = image_mset (\<lambda>i. map sig pred ! i) (mset [0..<w])"
    using p by (metis mset_map)
  also have "\<dots> = mset (map (\<lambda>i. map sig pred ! i) [0..<w])" by simp
  also have "\<dots> = mset (map sig pred)" using map_nth_upt [of "map sig pred" w] w(1) by simp
  finally have "mset (map sig gold) = mset (map sig pred)" .
  moreover have "p \<in> set (permutations [0..<length pred])"
    by (rule permutations_complete) (simp add: p w(1))
  ultimately show ?thesis
    using lp w cols by (auto simp: assignments_def Let_def)
qed

lemma assignments_sound:
  "cand \<in> set (assignments sig pred gold) \<Longrightarrow>
     \<exists>p. mset p = mset [0..<length pred] \<and> cand = map (\<lambda>i. pred ! i) p"
  using permutations_sound [of _ "[0..<length pred]"]
  by (fastforce simp: assignments_def Let_def simp del: mset_upt split: if_splits)

lemma length_columns [simp]: "length (columns_of_rows fl rows w) = w"
  by (simp add: columns_of_rows_def)

lemma search_decides:
  assumes pr: "inj pr" and P: "uniform w P" and Q: "uniform w Q" and w: "0 < w"
  shows "(\<exists>cand \<in> set (candidate_orderings pr ordered (columns_of_rows fl P w) (columns_of_rows fl Q w)).
             rows_equal ordered cand (columns_of_rows fl Q w))
    \<longleftrightarrow> same_answer ordered w (map (map (canonical fl)) P) (map (map (canonical fl)) Q)"
    (is "?search \<longleftrightarrow> ?same")
proof
  let ?pc = "columns_of_rows fl P w" and ?gc = "columns_of_rows fl Q w"
  assume ?search
  then obtain cand where cand: "cand \<in> set (candidate_orderings pr ordered ?pc ?gc)"
    "rows_equal ordered cand ?gc" by blast
  have "\<exists>p. mset p = mset [0..<w] \<and> cand = map (\<lambda>i. ?pc ! i) p"
  proof (cases "cand = ?pc")
    case True
    then show ?thesis using map_nth_upt [of ?pc w] by (intro exI [of _ "[0..<w]"]) simp
  next
    case False
    then have "cand \<in> set (assignments (\<lambda>c. c) ?pc ?gc)
        \<or> cand \<in> set (assignments (signature_unordered pr) ?pc ?gc)"
      using cand(1) by (auto simp: candidate_orderings_def split: if_splits)
    then show ?thesis using assignments_sound [of cand _ ?pc ?gc] by (metis length_columns)
  qed
  then obtain p where p: "mset p = mset [0..<w]" "cand = map (\<lambda>i. ?pc ! i) p" by blast
  then show ?same
    using cand(2) zip_columns_reorder [OF P p(1) w, of fl] zip_columns_id [OF Q w, of fl]
    by (auto simp: same_answer_def rows_equal_def agree_def simp del: map_map intro!: exI [of _ p])
next
  let ?pc = "columns_of_rows fl P w" and ?gc = "columns_of_rows fl Q w"
  let ?S = "map (map (canonical fl)) Q"
  assume ?same
  then obtain p where p: "mset p = mset [0..<w]"
    and ag: "agree ordered (map (reorder p) (map (map (canonical fl)) P)) ?S"
    by (auto simp: same_answer_def)
  let ?R = "map (reorder p) (map (map (canonical fl)) P)"
  have gold: "?gc ! i = map (\<lambda>r. r ! i) ?S" if "i < w" for i
    using that Q by (auto simp: columns_of_rows_def uniform_def)
  have cols: "if ordered then ?pc ! (p ! i) = ?gc ! i
      else signature_unordered pr (?pc ! (p ! i)) = signature_unordered pr (?gc ! i)" if "i < w" for i
    using column_of_reordered [OF P p that, of fl] gold [OF that] ag
    by (auto simp: agree_def simp del: map_map intro!: signature_mset [OF pr])
  have "map (\<lambda>i. ?pc ! i) p \<in> set (candidate_orderings pr ordered ?pc ?gc)"
    using assignments_complete [OF p, of ?pc ?gc "\<lambda>c. c"]
      assignments_complete [OF p, of ?pc ?gc "signature_unordered pr"] cols
    by (auto simp: candidate_orderings_def)
  moreover have "rows_equal ordered (map (\<lambda>i. ?pc ! i) p) ?gc"
    using ag by (simp only: rows_equal_def agree_def zip_columns_reorder [OF P p w] zip_columns_id [OF Q w])
  ultimately show ?search by blast
qed

lemma reorder_inverse:
  assumes "mset p = mset [0..<w]"
  obtains q where "mset q = mset [0..<w]" "\<And>row. length row = w \<Longrightarrow> reorder q (reorder p row) = row"
proof -
  have p: "length p = w" "set p = {..<w}" "distinct p"
    using mset_upt_range [OF assms] mset_eq_setD [OF assms] mset_eq_imp_distinct_iff [OF assms]
    by (simp_all add: atLeast0LessThan)
  have bij: "bij_betw (\<lambda>i. p ! i) {..<w} {..<w}" using bij_betw_nth [OF p(3)] p by auto
  define q where "q = map (inv_into {..<w} (\<lambda>i. p ! i)) [0..<w]"
  have "bij_betw (inv_into {..<w} (\<lambda>i. p ! i)) {..<w} {..<w}" by (rule bij_betw_inv_into [OF bij])
  then have "distinct q" "set q = {..<w}"
    by (auto simp: q_def distinct_map bij_betw_def atLeast0LessThan)
  then have "mset q = mset [0..<w]"
    using set_eq_iff_mset_eq_distinct [of q "[0..<w]"] by (simp add: atLeast0LessThan)
  moreover have "reorder q (reorder p row) = row" if row: "length row = w" for row :: "'b list"
  proof (rule nth_equalityI)
    show "length (reorder q (reorder p row)) = length row" using row by (simp add: reorder_def q_def)
    fix i assume "i < length (reorder q (reorder p row))"
    then have i: "i < w" by (simp add: reorder_def q_def)
    then have "inv_into {..<w} (\<lambda>i. p ! i) i < w" "p ! inv_into {..<w} (\<lambda>i. p ! i) i = i"
      using bij_betw_inv_into_right [OF bij, of i] bij_betw_inv_into [OF bij]
      by (auto simp: bij_betw_def)
    then show "reorder q (reorder p row) ! i = row ! i"
      using i p(1) by (simp add: reorder_def q_def)
  qed
  ultimately show thesis by (rule that)
qed

lemma same_answer_sym:
  assumes "uniform w R" "same_answer ordered w R S"
  shows "same_answer ordered w S R"
proof -
  obtain p where p: "mset p = mset [0..<w]" "agree ordered (map (reorder p) R) S"
    using assms(2) by (auto simp: same_answer_def)
  obtain q where q: "mset q = mset [0..<w]"
      "\<And>row :: 'a list. length row = w \<Longrightarrow> reorder q (reorder p row) = row"
    using reorder_inverse [OF p(1)] by metis
  have inv: "map (reorder q) (map (reorder p) R) = R"
    using assms(1) q(2) by (auto simp: uniform_def intro: map_idI)
  have "agree ordered (map (reorder q) S) R"
  proof (cases ordered)
    case True
    then show ?thesis using p(2) inv by (auto simp: agree_def)
  next
    case False
    then have "mset (map (reorder q) S) = mset (map (reorder q) (map (reorder p) R))"
      using p(2) by (simp add: agree_def del: map_map)
    then show ?thesis using False by (simp only: agree_def inv if_False)
  qed
  then show ?thesis using q(1) by (auto simp: same_answer_def)
qed

lemma uniform_0: "uniform 0 rows \<Longrightarrow> rows = replicate (length rows) []"
  by (induction rows) (auto simp: uniform_def)

lemma outcome_matched [simp]: "cmp_matched (outcome e v d) = (v = MATCH)"
  by (simp add: outcome_def)

lemma diagnose_not_match [simp]: "diagnose pr p g b \<noteq> MATCH"
  by (simp add: diagnose_def)

lemma compare_matched_unfold:
  assumes "length predicted = length gold" "gold \<noteq> []"
    and "uniform (length (hd gold)) gold" "uniform (length (hd gold)) predicted"
  shows "cmp_matched (compare G fl pr gold_sql order predicted gold) \<longleftrightarrow>
    (let b = (case order of None \<Rightarrow> order_matters G gold_sql | Some x \<Rightarrow> x); w = length (hd gold) in
      if w > max_columns_for_permutation
      then rows_equal b (columns_of_rows fl predicted w) (columns_of_rows fl gold w)
      else \<exists>cand \<in> set (candidate_orderings pr b (columns_of_rows fl predicted w) (columns_of_rows fl gold w)).
             rows_equal b cand (columns_of_rows fl gold w))"
proof -
  have rect: "((\<exists>row \<in> set gold. length row \<noteq> length (hd gold))
      \<or> (\<exists>row \<in> set predicted. length row \<noteq> length (hd gold))) = False"
    using assms(3,4) by (auto simp: uniform_def)
  show ?thesis
    unfolding compare_def Let_def rect if_False
    using assms(1,2) by simp
qed

lemma compare_matched_iff:
  assumes pr: "inj pr" and b: "b = (case order of None \<Rightarrow> order_matters G gold_sql | Some x \<Rightarrow> x)"
    and w: "w = length (hd gold)"
  shows "cmp_matched (compare G fl pr gold_sql order predicted gold) \<longleftrightarrow>
    length predicted = length gold \<and>
    (gold = [] \<or> uniform w gold \<and> uniform w predicted
      \<and> (if w \<le> max_columns_for_permutation
         then same_answer b w (map (map (canonical fl)) predicted) (map (map (canonical fl)) gold)
         else agree b (map (map (canonical fl)) predicted) (map (map (canonical fl)) gold)))"
proof (cases "length predicted = length gold \<and> gold \<noteq> [] \<and> uniform w gold \<and> uniform w predicted")
  case False
  then consider "length predicted \<noteq> length gold" | "length predicted = length gold" "gold = []"
    | "length predicted = length gold" "gold \<noteq> []" "\<not> (uniform w gold \<and> uniform w predicted)" by blast
  then show ?thesis
  proof cases
    case 3
    have ragged: "((\<exists>row \<in> set gold. length row \<noteq> length (hd gold))
        \<or> (\<exists>row \<in> set predicted. length row \<noteq> length (hd gold))) = True"
      using 3(3) unfolding uniform_def w by blast
    show ?thesis
      unfolding compare_def Let_def ragged if_True using 3 by auto
  qed (simp_all add: compare_def Let_def)
next
  case True
  let ?R = "map (map (canonical fl)) predicted" and ?S = "map (map (canonical fl)) gold"
  have P: "uniform w predicted" and Q: "uniform w gold" and len: "length predicted = length gold"
    and ne: "gold \<noteq> []" using True by auto
  have unf: "cmp_matched (compare G fl pr gold_sql order predicted gold) \<longleftrightarrow>
      (if w > max_columns_for_permutation
       then rows_equal b (columns_of_rows fl predicted w) (columns_of_rows fl gold w)
       else \<exists>cand \<in> set (candidate_orderings pr b (columns_of_rows fl predicted w) (columns_of_rows fl gold w)).
              rows_equal b cand (columns_of_rows fl gold w))"
    by (rule compare_matched_unfold [where G = G and fl = fl and pr = pr and gold_sql = gold_sql
          and order = order, OF len ne Q [unfolded w] P [unfolded w], unfolded Let_def, folded w b])
  show ?thesis
  proof (cases "w = 0")
    case True
    have reps: "predicted = replicate (length gold) []" "gold = replicate (length gold) []"
      using uniform_0 P Q len True by metis+
    have "?R = ?S" by (subst reps(1), subst (2) reps(2)) simp
    moreover have "map (reorder []) ?R = ?R"
      by (subst (1 2) reps(1)) (simp add: reorder_def)
    ultimately have "same_answer b w ?R ?S"
      unfolding same_answer_def agree_def by (intro exI [of _ "[]"]) (simp only: True upt_0 mset.simps if_cancel refl simp_thms)
    then show ?thesis
      using True P Q len ne unf
      by (simp add: max_columns_for_permutation_def columns_of_rows_def candidate_orderings_def
          rows_equal_def zip_columns_def)
  next
    case False
    then have w0: "0 < w" by simp
    show ?thesis
      using P Q len ne unf search_decides [OF pr P Q w0, of b fl] zip_columns_id [OF P w0, of fl]
        zip_columns_id [OF Q w0, of fl]
      by (simp add: rows_equal_def agree_def del: map_map)
  qed
qed

section \<open>Properties\<close>

text \<open>C7: the comparison decides its specification. Two results match exactly when they have the same
  number of rows and, unless both are empty, all rows have one width and some renaming of the
  predicted columns turns the canonical predicted rows into the canonical gold rows, as lists when
  order is enforced and as multisets otherwise; above eight columns only the identity renaming
  counts. The pruning of the search by column signatures loses no match, given that \<open>repr\<close>
  separates canonical values.\<close>

theorem compare_decides:
  assumes pr: "inj pr" and b: "b = (case order of None \<Rightarrow> order_matters G gold_sql | Some x \<Rightarrow> x)"
    and w: "w = length (hd gold)"
  shows "cmp_matched (compare G fl pr gold_sql order predicted gold) \<longleftrightarrow>
    length predicted = length gold \<and>
    (gold = [] \<or> uniform w gold \<and> uniform w predicted
      \<and> (if w \<le> max_columns_for_permutation
         then same_answer b w (map (map (canonical fl)) predicted) (map (map (canonical fl)) gold)
         else agree b (map (map (canonical fl)) predicted) (map (map (canonical fl)) gold)))"
  by (rule compare_matched_iff [OF pr b w])

text \<open>A separating \<open>repr\<close>, and two two-column results whose columns and rows are both swapped.\<close>

instance canon :: countable
  by countable_datatype

definition toy_repr :: "canon \<Rightarrow> string" where
  "toy_repr x = replicate (to_nat x) (CHR ''a'')"

lemma inj_toy_repr: "inj toy_repr"
  by (rule injI) (simp add: toy_repr_def)

theorem compare_decides_witness:
  "cmp_matched (compare (toy (\<lambda>_. Inl [])) (\<lambda>x. x) toy_repr None None
      [[VInt 1, VText ''a''], [VInt 2, VText ''b'']] [[VText ''b'', VDecimal 2], [VText ''a'', VFloat 1]])"
proof -
  have "reorder [Suc 0, 0] = (\<lambda>row :: canon list. [row ! 1, row ! 0])"
    by (simp add: reorder_def fun_eq_iff)
  then have "same_answer False 2
      (map (map (canonical (\<lambda>x. x))) [[VInt 1, VText ''a''], [VInt 2, VText ''b'']])
      (map (map (canonical (\<lambda>x. x))) [[VText ''b'', VDecimal 2], [VText ''a'', VFloat 1]])"
    unfolding same_answer_def
    by (intro exI [of _ "[Suc 0, 0]"])
       (simp add: agree_def canonical_number_def eval_nat_numeral add_mset_commute)
  then show ?thesis
    unfolding compare_decides [OF inj_toy_repr refl refl]
    by (simp add: uniform_def max_columns_for_permutation_def order_matters_def truthy_def numeral_2_eq_2)
qed

text \<open>Which side is called predicted does not change whether two results match.\<close>

theorem compare_symmetric:
  assumes "inj pr"
  shows "cmp_matched (compare G fl pr sql (Some b) xs ys) = cmp_matched (compare G fl pr sql (Some b) ys xs)"
proof (cases "xs = [] \<or> ys = []")
  case True
  then show ?thesis by (auto simp: compare_def outcome_def)
next
  case False
  have canon: "uniform w (map (map (canonical fl)) r) = uniform w r" for w r
    by (simp add: uniform_def)
  show ?thesis
  proof (cases "uniform (length (hd ys)) xs")
    case True
    then have hd: "length (hd xs) = length (hd ys)" using False by (simp add: uniform_def)
    show ?thesis
      unfolding compare_matched_iff [OF assms refl refl] hd
      using False same_answer_sym [OF canon [THEN iffD2]]
      by (auto simp: agree_def)
  next
    case bad: False
    then have "\<not> (uniform (length (hd xs)) xs \<and> uniform (length (hd xs)) ys)"
      using False by (auto simp: uniform_def)
    then show ?thesis
      unfolding compare_matched_iff [OF assms refl refl] using False bad by auto
  qed
qed

theorem compare_symmetric_witness:
  "cmp_matched (compare (toy (\<lambda>_. Inl [])) (\<lambda>x. x) toy_repr None (Some False) [[VInt 1]] [[VText ''1'']])
   = cmp_matched (compare (toy (\<lambda>_. Inl [])) (\<lambda>x. x) toy_repr None (Some False) [[VText ''1'']] [[VInt 1]])"
  by (rule compare_symmetric [OF inj_toy_repr])

end
