(* ===== verification/Exceptions.thy ===== *)
theory Exceptions
  imports Prelude
begin

text \<open>
  The exception hierarchy of \<open>src/core/exceptions.py\<close>, with the two exceptions other
  modules add to it (\<open>generation/generator.py\<close> and \<open>api/errors.py\<close>) and the two
  foreign kinds the code handles: a database driver error, of which the code reads
  \<open>sqlstate\<close> and \<open>diag.message_primary\<close>, and any other exception, of which it reads the
  class name and the text. \<open>isinst\<close> is Python's \<open>isinstance\<close>, decided by walking the
  base classes.
\<close>

section \<open>Token usage, carried by a refusal\<close>

record usage =
  input_tokens :: int
  output_tokens :: int
  cache_read_tokens :: int

definition no_usage :: usage where
  "no_usage = \<lparr>input_tokens = 0, output_tokens = 0, cache_read_tokens = 0\<rparr>"

section \<open>Classes and their bases\<close>

datatype exn_class =
    CBaseException | CException | CTextToSQLError | CConfigurationError
  | CLLMError | CLLMUnavailableError | CLLMQuotaExceededError | CLLMResponseError
  | CUnanswerableQuestionError
  | CRetrievalError | CEmbeddingModelMismatchError
  | CSQLValidationError
  | CExecutionError | CStatementTimeoutError | CPermissionDeniedError
  | CProfilingError | CUnknownTableError
  | CBenchmarkError | CArtifactIntegrityError | CUnsafeArchiveError
  | CUnsafeIdentifierError | CConversionError
  | CAgentError | CBudgetExhaustedError
  | CApiError | CDriverError | COther | CCancelled

fun base_class :: "exn_class \<Rightarrow> exn_class option" where
  "base_class CBaseException = None"
| "base_class CException = Some CBaseException"
| "base_class CCancelled = Some CBaseException"
| "base_class CTextToSQLError = Some CException"
| "base_class CApiError = Some CException"
| "base_class CDriverError = Some CException"
| "base_class COther = Some CException"
| "base_class CConfigurationError = Some CTextToSQLError"
| "base_class CLLMError = Some CTextToSQLError"
| "base_class CLLMUnavailableError = Some CLLMError"
| "base_class CLLMQuotaExceededError = Some CLLMUnavailableError"
| "base_class CLLMResponseError = Some CLLMError"
| "base_class CUnanswerableQuestionError = Some CLLMResponseError"
| "base_class CRetrievalError = Some CTextToSQLError"
| "base_class CEmbeddingModelMismatchError = Some CRetrievalError"
| "base_class CSQLValidationError = Some CTextToSQLError"
| "base_class CExecutionError = Some CTextToSQLError"
| "base_class CStatementTimeoutError = Some CExecutionError"
| "base_class CPermissionDeniedError = Some CExecutionError"
| "base_class CProfilingError = Some CTextToSQLError"
| "base_class CUnknownTableError = Some CProfilingError"
| "base_class CBenchmarkError = Some CTextToSQLError"
| "base_class CArtifactIntegrityError = Some CBenchmarkError"
| "base_class CUnsafeArchiveError = Some CBenchmarkError"
| "base_class CUnsafeIdentifierError = Some CBenchmarkError"
| "base_class CConversionError = Some CBenchmarkError"
| "base_class CAgentError = Some CTextToSQLError"
| "base_class CBudgetExhaustedError = Some CAgentError"

text \<open>How deep a class sits below \<open>BaseException\<close>; only the termination proof reads it.\<close>

fun class_depth :: "exn_class \<Rightarrow> nat" where
  "class_depth CBaseException = 0"
| "class_depth c =
     (if c \<in> {CException, CCancelled} then 1
      else if c \<in> {CTextToSQLError, CApiError, CDriverError, COther} then 2
      else if c \<in> {CConfigurationError, CLLMError, CRetrievalError, CSQLValidationError,
                   CExecutionError, CProfilingError, CBenchmarkError, CAgentError} then 3
      else if c \<in> {CLLMQuotaExceededError, CUnanswerableQuestionError} then 5 else 4)"

lemma class_depth_base: "base_class c = Some b \<Longrightarrow> class_depth b < class_depth c"
  by (cases c) auto

function mro :: "exn_class \<Rightarrow> exn_class list" where
  "mro c = c # (case base_class c of None \<Rightarrow> [] | Some b \<Rightarrow> mro b)"
  by pat_completeness auto
termination
  by (relation "measure class_depth") (auto intro: class_depth_base)

declare mro.simps [simp del]

section \<open>Exception values\<close>

datatype exn =
    TextToSQLError string
  | ConfigurationError string
  | LLMError string
  | LLMUnavailableError string
  | LLMQuotaExceededError string
  | LLMResponseError string
  | UnanswerableQuestionError string usage string
  | RetrievalError string
  | EmbeddingModelMismatchError string
  | SQLValidationError (sv_type: string) (sv_message: string) (sv_identifier: "string option")
  | ExecutionError string
  | StatementTimeoutError string
  | PermissionDeniedError string
  | ProfilingError string
  | UnknownTableError (ut_table: string) (ut_suggestion: "string option")
  | BenchmarkError string
  | ArtifactIntegrityError string
  | UnsafeArchiveError string
  | UnsafeIdentifierError string
  | ConversionError string
  | AgentError string
  | BudgetExhaustedError string int
  | ApiError (ae_status: int) (ae_code: string) (ae_message: string)
  | DriverError (de_sqlstate: "string option") (de_primary: "string option") (de_text: string)
  | OtherError (oe_class: string) (oe_text: string)
  | CancelledError

fun class_of :: "exn \<Rightarrow> exn_class" where
  "class_of (TextToSQLError _) = CTextToSQLError"
| "class_of (ConfigurationError _) = CConfigurationError"
| "class_of (LLMError _) = CLLMError"
| "class_of (LLMUnavailableError _) = CLLMUnavailableError"
| "class_of (LLMQuotaExceededError _) = CLLMQuotaExceededError"
| "class_of (LLMResponseError _) = CLLMResponseError"
| "class_of (UnanswerableQuestionError _ _ _) = CUnanswerableQuestionError"
| "class_of (RetrievalError _) = CRetrievalError"
| "class_of (EmbeddingModelMismatchError _) = CEmbeddingModelMismatchError"
| "class_of (SQLValidationError _ _ _) = CSQLValidationError"
| "class_of (ExecutionError _) = CExecutionError"
| "class_of (StatementTimeoutError _) = CStatementTimeoutError"
| "class_of (PermissionDeniedError _) = CPermissionDeniedError"
| "class_of (ProfilingError _) = CProfilingError"
| "class_of (UnknownTableError _ _) = CUnknownTableError"
| "class_of (BenchmarkError _) = CBenchmarkError"
| "class_of (ArtifactIntegrityError _) = CArtifactIntegrityError"
| "class_of (UnsafeArchiveError _) = CUnsafeArchiveError"
| "class_of (UnsafeIdentifierError _) = CUnsafeIdentifierError"
| "class_of (ConversionError _) = CConversionError"
| "class_of (AgentError _) = CAgentError"
| "class_of (BudgetExhaustedError _ _) = CBudgetExhaustedError"
| "class_of (ApiError _ _ _) = CApiError"
| "class_of (DriverError _ _ _) = CDriverError"
| "class_of (OtherError _ _) = COther"
| "class_of CancelledError = CCancelled"

definition isinst :: "exn \<Rightarrow> exn_class \<Rightarrow> bool" where
  "isinst e c \<longleftrightarrow> c \<in> set (mro (class_of e))"

text \<open>\<open>str(exc)\<close>, as the constructors of the two structured exceptions build it.\<close>

fun exn_str :: "exn \<Rightarrow> string" where
  "exn_str (TextToSQLError m) = m"
| "exn_str (ConfigurationError m) = m"
| "exn_str (LLMError m) = m"
| "exn_str (LLMUnavailableError m) = m"
| "exn_str (LLMQuotaExceededError m) = m"
| "exn_str (LLMResponseError m) = m"
| "exn_str (UnanswerableQuestionError m _ _) = m"
| "exn_str (RetrievalError m) = m"
| "exn_str (EmbeddingModelMismatchError m) = m"
| "exn_str (SQLValidationError _ m _) = m"
| "exn_str (ExecutionError m) = m"
| "exn_str (StatementTimeoutError m) = m"
| "exn_str (PermissionDeniedError m) = m"
| "exn_str (ProfilingError m) = m"
| "exn_str (UnknownTableError t s) =
     ''table '' @ py_repr t @ '' is not in the catalog''
     @ (case s of None \<Rightarrow> [] | Some x \<Rightarrow>
          (if x = [] then [] else ''; did you mean '' @ py_repr x @ ''?''))"
| "exn_str (BenchmarkError m) = m"
| "exn_str (ArtifactIntegrityError m) = m"
| "exn_str (UnsafeArchiveError m) = m"
| "exn_str (UnsafeIdentifierError m) = m"
| "exn_str (ConversionError m) = m"
| "exn_str (AgentError m) = m"
| "exn_str (BudgetExhaustedError b l) = b @ '' budget exhausted after '' @ show_int l"
| "exn_str (ApiError _ _ m) = m"
| "exn_str (DriverError _ _ t) = t"
| "exn_str (OtherError _ t) = t"
| "exn_str CancelledError = []"

text \<open>\<open>type(exc).__name__\<close>; a foreign exception carries its own name.\<close>

fun class_name :: "exn_class \<Rightarrow> string" where
  "class_name CBaseException = ''BaseException''"
| "class_name CException = ''Exception''"
| "class_name CTextToSQLError = ''TextToSQLError''"
| "class_name CConfigurationError = ''ConfigurationError''"
| "class_name CLLMError = ''LLMError''"
| "class_name CLLMUnavailableError = ''LLMUnavailableError''"
| "class_name CLLMQuotaExceededError = ''LLMQuotaExceededError''"
| "class_name CLLMResponseError = ''LLMResponseError''"
| "class_name CUnanswerableQuestionError = ''UnanswerableQuestionError''"
| "class_name CRetrievalError = ''RetrievalError''"
| "class_name CEmbeddingModelMismatchError = ''EmbeddingModelMismatchError''"
| "class_name CSQLValidationError = ''SQLValidationError''"
| "class_name CExecutionError = ''ExecutionError''"
| "class_name CStatementTimeoutError = ''StatementTimeoutError''"
| "class_name CPermissionDeniedError = ''PermissionDeniedError''"
| "class_name CProfilingError = ''ProfilingError''"
| "class_name CUnknownTableError = ''UnknownTableError''"
| "class_name CBenchmarkError = ''BenchmarkError''"
| "class_name CArtifactIntegrityError = ''ArtifactIntegrityError''"
| "class_name CUnsafeArchiveError = ''UnsafeArchiveError''"
| "class_name CUnsafeIdentifierError = ''UnsafeIdentifierError''"
| "class_name CConversionError = ''ConversionError''"
| "class_name CAgentError = ''AgentError''"
| "class_name CBudgetExhaustedError = ''BudgetExhaustedError''"
| "class_name CApiError = ''ApiError''"
| "class_name CDriverError = ''Error''"
| "class_name COther = ''Exception''"
| "class_name CCancelled = ''CancelledError''"

definition type_name :: "exn \<Rightarrow> string" where
  "type_name e = (case e of OtherError n _ \<Rightarrow> n | _ \<Rightarrow> class_name (class_of e))"

definition domain_error :: "exn \<Rightarrow> bool" where
  "domain_error e \<longleftrightarrow> isinst e CTextToSQLError"

section \<open>Facts\<close>

lemmas mro_eval = mro.simps [of CBaseException] mro.simps [of CException]
  mro.simps [of CTextToSQLError] mro.simps [of CConfigurationError] mro.simps [of CLLMError]
  mro.simps [of CLLMUnavailableError] mro.simps [of CLLMQuotaExceededError]
  mro.simps [of CLLMResponseError] mro.simps [of CUnanswerableQuestionError]
  mro.simps [of CRetrievalError] mro.simps [of CEmbeddingModelMismatchError]
  mro.simps [of CSQLValidationError] mro.simps [of CExecutionError]
  mro.simps [of CStatementTimeoutError] mro.simps [of CPermissionDeniedError]
  mro.simps [of CProfilingError] mro.simps [of CUnknownTableError]
  mro.simps [of CBenchmarkError] mro.simps [of CArtifactIntegrityError]
  mro.simps [of CUnsafeArchiveError] mro.simps [of CUnsafeIdentifierError]
  mro.simps [of CConversionError] mro.simps [of CAgentError] mro.simps [of CBudgetExhaustedError]
  mro.simps [of CApiError] mro.simps [of CDriverError] mro.simps [of COther]
  mro.simps [of CCancelled]

lemma mro_self [simp]: "c \<in> set (mro c)"
  by (subst mro.simps) simp

lemma mro_trans: "b \<in> set (mro a) \<Longrightarrow> c \<in> set (mro b) \<Longrightarrow> c \<in> set (mro a)"
proof (induction a rule: mro.induct)
  case (1 a)
  show ?case
  proof (cases "b = a")
    case True
    with "1.prems" show ?thesis by simp
  next
    case False
    with "1.prems"(1) obtain p where p: "base_class a = Some p" "b \<in> set (mro p)"
      by (cases "base_class a") (auto simp: mro.simps [of a])
    then have "c \<in> set (mro p)" using "1.IH" "1.prems"(2) by blast
    with p(1) show ?thesis by (subst mro.simps) simp
  qed
qed

text \<open>An instance of a class is an instance of every class above it.\<close>

lemma isinst_super: "isinst e b \<Longrightarrow> c \<in> set (mro b) \<Longrightarrow> isinst e c"
  by (auto simp: isinst_def intro: mro_trans)

lemma isinst_own [simp]: "isinst e (class_of e)"
  by (simp add: isinst_def)

lemmas isinst_simps = isinst_def mro_eval

lemma domain_error_cases:
  "domain_error e \<longleftrightarrow> (case e of ApiError _ _ _ \<Rightarrow> False | DriverError _ _ _ \<Rightarrow> False
     | OtherError _ _ \<Rightarrow> False | CancelledError \<Rightarrow> False | _ \<Rightarrow> True)"
  by (cases e) (simp_all add: domain_error_def isinst_simps)

end
