(* ===== verification/Json.thy ===== *)
theory Json
  imports Prelude
begin

text \<open>
  JSON values as the code handles them, and \<open>json.dumps\<close> as it calls it: either compact
  (\<open>separators=(",", ":")\<close>) or indented, always with \<open>ensure_ascii\<close>. The shortest decimal
  of a float is an argument \<open>fr\<close> of the printer; \<open>float_text\<close> is what the code relies on.
\<close>

datatype json =
    JNull
  | JBool bool
  | JInt int
  | JFloat rat
  | JStr string
  | JArr "json list"
  | JObj "(string \<times> json) list"

text \<open>Truth value of a JSON value in a Python condition.\<close>

fun jtruthy :: "json \<Rightarrow> bool" where
  "jtruthy JNull = False"
| "jtruthy (JBool b) = b"
| "jtruthy (JInt i) = (i \<noteq> 0)"
| "jtruthy (JFloat r) = (r \<noteq> 0)"
| "jtruthy (JStr s) = (s \<noteq> [])"
| "jtruthy (JArr xs) = (xs \<noteq> [])"
| "jtruthy (JObj d) = (d \<noteq> [])"

definition hex2 :: "nat \<Rightarrow> string" where
  "hex2 n = [hex_digit (n div 16), hex_digit (n mod 16)]"

definition escape_char :: "char \<Rightarrow> string" where
  "escape_char c =
     (if c = dquote \<or> c = backslash then [backslash, c]
      else if code c = 10 then [backslash, CHR ''n'']
      else if code c = 13 then [backslash, CHR ''r'']
      else if code c = 9 then [backslash, CHR ''t'']
      else if code c = 8 then [backslash, CHR ''b'']
      else if code c = 12 then [backslash, CHR ''f'']
      else if 32 \<le> code c \<and> code c \<le> 126 then [c]
      else [backslash, CHR ''u'', CHR ''0'', CHR ''0''] @ hex2 (code c))"

definition json_string :: "string \<Rightarrow> string" where
  "json_string s = dquote # concat (map escape_char s) @ [dquote]"

function dumps :: "(rat \<Rightarrow> string) \<Rightarrow> json \<Rightarrow> string" where
  "dumps fr JNull = ''null''"
| "dumps fr (JBool b) = (if b then ''true'' else ''false'')"
| "dumps fr (JInt i) = show_int i"
| "dumps fr (JFloat r) = fr r"
| "dumps fr (JStr s) = json_string s"
| "dumps fr (JArr xs) = ''['' @ join '','' (map (dumps fr) xs) @ '']''"
| "dumps fr (JObj d) =
     ''{'' @ join '','' (map (\<lambda>kv. json_string (fst kv) @ '':'' @ dumps fr (snd kv)) d) @ ''}''"
  by pat_completeness auto
termination
  by (relation "measure (\<lambda>(fr, j). size j)")
     (auto simp: less_Suc_eq_le size_list_estimation' size_prod_simp
        dest!: size_list_estimation' [OF _ order_refl, where f = size])

definition float_text :: "(rat \<Rightarrow> string) \<Rightarrow> bool" where
  "float_text fr \<longleftrightarrow> (\<forall>r. fr r \<noteq> [] \<and>
     (\<forall>c \<in> set (fr r). is_digit c \<or> c \<in> {CHR ''.'', CHR ''-'', CHR ''+'', CHR ''e''}))"

section \<open>Printed JSON is one line of printable ASCII\<close>

definition ascii_line :: "string \<Rightarrow> bool" where
  "ascii_line s \<longleftrightarrow> (\<forall>c \<in> set s. 32 \<le> code c \<and> code c \<le> 126)"

lemma ascii_line_append [simp]: "ascii_line (s @ t) \<longleftrightarrow> ascii_line s \<and> ascii_line t"
  by (auto simp: ascii_line_def)

lemma ascii_line_Cons [simp]:
  "ascii_line (c # s) \<longleftrightarrow> 32 \<le> code c \<and> code c \<le> 126 \<and> ascii_line s"
  by (auto simp: ascii_line_def)

lemma ascii_line_Nil [simp]: "ascii_line []"
  by (simp add: ascii_line_def)

lemma ascii_line_concat [simp]: "ascii_line (concat xss) \<longleftrightarrow> (\<forall>xs \<in> set xss. ascii_line xs)"
  by (induction xss) auto

lemma ascii_line_join:
  "ascii_line sep \<Longrightarrow> \<forall>x \<in> set xs. ascii_line x \<Longrightarrow> ascii_line (join sep xs)"
  by (induction sep xs rule: join.induct) auto

lemma hex_digit_ascii: "d < 16 \<Longrightarrow> 32 \<le> code (hex_digit d) \<and> code (hex_digit d) \<le> 126"
  by (auto simp: hex_digit_def)

lemma hex2_ascii: "n < 256 \<Longrightarrow> ascii_line (hex2 n)"
  by (simp add: hex2_def hex_digit_ascii)

lemma escape_ascii: "ascii_line (escape_char c)"
proof -
  have "code dquote = 34" "code backslash = 92"
    by (simp_all add: dquote_def backslash_def code_def)
  then show ?thesis
    by (auto simp: escape_char_def hex2_ascii) (auto simp: code_def)
qed

lemma json_string_ascii [simp]: "ascii_line (json_string s)"
  by (auto simp: json_string_def escape_ascii) (simp_all add: dquote_def code_def)

lemma show_nat_ascii [simp]: "ascii_line (show_nat n)"
proof (induction n rule: show_nat.induct)
  case (1 n)
  then show ?case by (subst show_nat.simps) (auto simp: digit_char_def)
qed

lemma show_int_ascii [simp]: "ascii_line (show_int i)"
  by (simp add: show_int_def) (simp add: code_def)

lemma float_text_ascii: "float_text fr \<Longrightarrow> ascii_line (fr r)"
  by (force simp: float_text_def ascii_line_def is_digit_def code_def)

lemma dumps_ascii: "float_text fr \<Longrightarrow> ascii_line (dumps fr j)"
proof (induction fr j rule: dumps.induct)
  case (6 fr xs)
  then show ?case by (auto intro!: ascii_line_join simp: code_def)
next
  case (7 fr d)
  then show ?case by (auto intro!: ascii_line_join simp: code_def)
qed (auto simp: float_text_ascii code_def)

lemma ascii_line_no_break: "ascii_line s \<Longrightarrow> newline \<notin> set s \<and> return_char \<notin> set s"
  by (auto simp: ascii_line_def newline_def return_char_def code_def)

end
