(* ===== verification/Llm.thy ===== *)
theory Llm
  imports Exceptions Json
begin

text \<open>
  The model clients: the port of \<open>src/core/ports/llm.py\<close>, the scripted client of
  \<open>adapters/llm/fake.py\<close>, the provider client of \<open>adapters/llm/openai_compatible.py\<close> and the
  fallback chain of \<open>adapters/llm/fallback.py\<close>. A client is a state, the model it reports and a
  function from a request to an outcome and the next state. The locale \<open>llm_client\<close> states
  the contract of the port; all three clients are interpreted, the chain for any lawful client.
  What the provider answers to a wire request, and \<open>json.loads\<close>, are arguments.
\<close>

section \<open>The port\<close>

datatype role = SYSTEM | USER | ASSISTANT | TOOL

record message =
  msg_role :: role
  msg_content :: string
  msg_tool_call_id :: "string option"

record tool_spec =
  ts_name :: string
  ts_description :: string
  ts_input_schema :: json

record tool_call =
  tc_id :: string
  tc_name :: string
  tc_arguments :: "(string \<times> json) list"

record llm_response =
  lr_text :: string
  lr_tool_calls :: "tool_call list"
  lr_usage :: usage
  lr_model :: string
  lr_truncated :: bool

definition wants_tool_call :: "llm_response \<Rightarrow> bool" where
  "wants_tool_call r \<longleftrightarrow> lr_tool_calls r \<noteq> []"

record llm_request =
  rq_messages :: "message list"
  rq_tools :: "tool_spec list option"
  rq_max_tokens :: "int option"
  rq_timeout_ms :: "int option"

type_synonym 's complete = "llm_request \<Rightarrow> 's \<Rightarrow> (exn + llm_response) \<times> 's"

locale llm_client =
  fixes call :: "'s complete"
    and ready :: "'s \<Rightarrow> bool"
  assumes fails_as_llm: "ready s \<Longrightarrow> fst (call rq s) = Inl e \<Longrightarrow> isinst e CLLMError"
    and stays_ready: "ready s \<Longrightarrow> ready (snd (call rq s))"

section \<open>The scripted client\<close>

record fake_client =
  fk_responses :: "llm_response list"
  fk_model :: string
  fk_tools :: bool
  fk_calls :: "message list list"

definition fake_queue :: "llm_response list \<Rightarrow> fake_client \<Rightarrow> fake_client" where
  "fake_queue rs c = c\<lparr>fk_responses := fk_responses c @ rs\<rparr>"

definition fake_complete :: "fake_client complete" where
  "fake_complete rq c =
     (let c1 = c\<lparr>fk_calls := fk_calls c @ [rq_messages rq]\<rparr> in
      case fk_responses c1 of
        [] \<Rightarrow> (Inl (LLMResponseError (''FakeLLMClient exhausted after ''
                 @ show_nat (length (fk_calls c1))
                 @ '' call(s) -- queue more responses, or the code under test is looping'')), c1)
      | r # rs \<Rightarrow> (Inr r, c1\<lparr>fk_responses := rs\<rparr>))"

definition text_response :: "string \<Rightarrow> string \<Rightarrow> llm_response" where
  "text_response text model = \<lparr>lr_text = text, lr_tool_calls = [],
     lr_usage = no_usage\<lparr>input_tokens := 1, output_tokens := 1\<rparr>, lr_model = model, lr_truncated = False\<rparr>"

section \<open>The provider client\<close>

record openai_client =
  oc_model :: string
  oc_max_tokens :: int
  oc_temperature :: rat
  oc_tools :: bool

definition default_max_tokens :: int where
  "default_max_tokens = 4096"

definition make_openai :: "string \<Rightarrow> int \<Rightarrow> rat \<Rightarrow> bool \<Rightarrow> exn + openai_client" where
  "make_openai model max_tokens temperature tools =
     (if model = [] then Inl (LLMResponseError ''a model id is required'')
      else Inr \<lparr>oc_model = model, oc_max_tokens = max_tokens, oc_temperature = temperature,
                oc_tools = tools\<rparr>)"

text \<open>A failure of the SDK: the HTTP status it carries, if any, and its class name. A response:
  its choices, each with the text, the raw tool calls and the finish reason, the usage counts and
  the model.\<close>

record provider_exn =
  pe_status :: "int option"
  pe_class :: string

record raw_call =
  rc_id :: "string option"
  rc_function :: "(string \<times> string option) option"

record choice =
  ch_content :: "string option"
  ch_tool_calls :: "raw_call list"
  ch_finish_reason :: "string option"

record raw_usage =
  ru_prompt :: "int option"
  ru_completion :: "int option"
  ru_cached :: "int option"

record wire_response =
  wr_choices :: "choice list"
  wr_usage :: "raw_usage option"
  wr_model :: "string option"

record wire_request =
  wq_model :: string
  wq_messages :: "json list"
  wq_max_tokens :: int
  wq_temperature :: rat
  wq_tools :: "json list option"
  wq_timeout_s :: "rat option"

fun role_text :: "role \<Rightarrow> string" where
  "role_text SYSTEM = ''system''"
| "role_text USER = ''user''"
| "role_text ASSISTANT = ''assistant''"
| "role_text TOOL = ''tool''"

definition to_wire :: "message \<Rightarrow> json" where
  "to_wire m = JObj ([(''role'', JStr (role_text (msg_role m))), (''content'', JStr (msg_content m))]
     @ (case msg_tool_call_id m of None \<Rightarrow> [] | Some i \<Rightarrow> [(''tool_call_id'', JStr i)]))"

definition tool_to_wire :: "tool_spec \<Rightarrow> json" where
  "tool_to_wire t = JObj [(''type'', JStr ''function''), (''function'',
     JObj [(''name'', JStr (ts_name t)), (''description'', JStr (ts_description t)),
           (''parameters'', ts_input_schema t)])]"

definition status_hints :: "(int, string) dict" where
  "status_hints =
    [(400, ''the provider rejected the request as malformed''),
     (401, ''the API key was rejected. Check LLM_API_KEY''),
     (403, ''the key is valid but not permitted to use this model''),
     (404, ''no such model at this endpoint. Check LLM_MODEL and LLM_BASE_URL''),
     (413, ''the request was too large for this endpoint. On a free tier this is almost always LLM_MAX_TOKENS above the model''
           @ [squote] @ ''s completion cap rather than an oversized prompt -- lower it''),
     (500, ''the provider failed internally''),
     (503, ''the provider is overloaded'')]"

definition unavailable_message :: "provider_exn \<Rightarrow> string \<Rightarrow> string" where
  "unavailable_message e model =
     (case pe_status e of
        Some status \<Rightarrow>
          (case dict_get status_hints status of
             Some hint \<Rightarrow> py_repr model @ '': HTTP '' @ show_int status @ '' -- '' @ hint
           | None \<Rightarrow> py_repr model @ '': the provider returned HTTP '' @ show_int status)
      | None \<Rightarrow> ''the model provider could not be reached ('' @ pe_class e @ '')'')"

definition is_quota_error :: "provider_exn \<Rightarrow> bool" where
  "is_quota_error e \<longleftrightarrow> pe_status e = Some 429 \<or> contains (casefold (pe_class e)) ''ratelimit''"

fun json_type_name :: "json \<Rightarrow> string" where
  "json_type_name JNull = ''NoneType''"
| "json_type_name (JBool _) = ''bool''"
| "json_type_name (JInt _) = ''int''"
| "json_type_name (JFloat _) = ''float''"
| "json_type_name (JStr _) = ''str''"
| "json_type_name (JArr _) = ''list''"
| "json_type_name (JObj _) = ''dict''"

fun read_tool_calls :: "(string \<Rightarrow> json option) \<Rightarrow> raw_call list \<Rightarrow> exn + tool_call list" where
  "read_tool_calls loads [] = Inr []"
| "read_tool_calls loads (item # items) =
     (case rc_function item of
        None \<Rightarrow> read_tool_calls loads items
      | Some (name, args) \<Rightarrow>
          (case loads (if truthy args then the args else ''{}'') of
             None \<Rightarrow> Inl (LLMResponseError
               (''the model returned unparseable arguments for tool '' @ py_repr name))
           | Some (JObj parsed) \<Rightarrow>
               (case read_tool_calls loads items of
                  Inl e \<Rightarrow> Inl e
                | Inr calls \<Rightarrow> Inr (\<lparr>tc_id = of_option [] (rc_id item), tc_name = name,
                                     tc_arguments = parsed\<rparr> # calls))
           | Some other \<Rightarrow> Inl (LLMResponseError
               (''tool arguments must be an object, got '' @ json_type_name other))))"

definition read_usage :: "raw_usage option \<Rightarrow> usage" where
  "read_usage u =
     (case u of None \<Rightarrow> no_usage
      | Some r \<Rightarrow> \<lparr>input_tokens = of_option 0 (ru_prompt r),
                  output_tokens = of_option 0 (ru_completion r),
                  cache_read_tokens = of_option 0 (ru_cached r)\<rparr>)"

definition from_wire :: "(string \<Rightarrow> json option) \<Rightarrow> wire_response \<Rightarrow> string \<Rightarrow> exn + llm_response" where
  "from_wire loads r fallback_model =
     (case wr_choices r of
        [] \<Rightarrow> Inl (LLMResponseError ''the provider returned no choices'')
      | c # _ \<Rightarrow>
          (case read_tool_calls loads (ch_tool_calls c) of
             Inl e \<Rightarrow> Inl e
           | Inr calls \<Rightarrow> Inr \<lparr>lr_text = of_option [] (ch_content c), lr_tool_calls = calls,
               lr_usage = read_usage (wr_usage r),
               lr_model = (if truthy (wr_model r) then the (wr_model r) else fallback_model),
               lr_truncated = (ch_finish_reason c = Some ''length'')\<rparr>))"

definition wire_of :: "openai_client \<Rightarrow> llm_request \<Rightarrow> wire_request" where
  "wire_of c rq = \<lparr>wq_model = oc_model c, wq_messages = map to_wire (rq_messages rq),
     wq_max_tokens = (case rq_max_tokens rq of None \<Rightarrow> oc_max_tokens c
                      | Some m \<Rightarrow> if m = 0 then oc_max_tokens c else m),
     wq_temperature = oc_temperature c,
     wq_tools = (case rq_tools rq of Some (t # ts) \<Rightarrow>
                   if oc_tools c then Some (map tool_to_wire (t # ts)) else None | _ \<Rightarrow> None),
     wq_timeout_s = map_option (\<lambda>ms. of_int ms / 1000) (rq_timeout_ms rq)\<rparr>"

definition openai_complete ::
  "(string \<Rightarrow> json option) \<Rightarrow> (wire_request \<Rightarrow> provider_exn + wire_response) \<Rightarrow> openai_client complete" where
  "openai_complete loads send rq c =
     ((case send (wire_of c rq) of
         Inl e \<Rightarrow>
           if is_quota_error e
           then Inl (LLMQuotaExceededError
             (''model '' @ py_repr (oc_model c) @ '' is rate limited or out of quota''))
           else Inl (LLMUnavailableError (unavailable_message e (oc_model c)))
       | Inr r \<Rightarrow> from_wire loads r (oc_model c)), c)"

section \<open>The fallback chain\<close>

record 's chain =
  ch_clients :: "'s list"
  ch_active :: nat

definition make_chain :: "'s list \<Rightarrow> exn + 's chain" where
  "make_chain cs =
     (if cs = [] then Inl (OtherError ''ValueError'' ''a fallback chain needs at least one client'')
      else Inr \<lparr>ch_clients = cs, ch_active = 0\<rparr>)"

definition chain_model :: "('s \<Rightarrow> string) \<Rightarrow> 's chain \<Rightarrow> string" where
  "chain_model model_of k = model_of (ch_clients k ! ch_active k)"

definition chain_models :: "('s \<Rightarrow> string) \<Rightarrow> 's chain \<Rightarrow> string list" where
  "chain_models model_of k = map model_of (ch_clients k)"

text \<open>The loop over the indices from the active one: \<open>i\<close> is the index, \<open>exhausted\<close> the models
  already passed over. A quota error goes on to the next client, any other outcome ends it.\<close>

function chain_loop ::
  "'s complete \<Rightarrow> ('s \<Rightarrow> string) \<Rightarrow> llm_request \<Rightarrow> nat \<Rightarrow> string list \<Rightarrow> 's chain
     \<Rightarrow> (exn + llm_response) \<times> 's chain" where
  "chain_loop call model_of rq i exhausted k =
     (if i < length (ch_clients k) then
        (let (out, s') = call rq (ch_clients k ! i);
             k' = k\<lparr>ch_clients := (ch_clients k)[i := s']\<rparr> in
         case out of
           Inr r \<Rightarrow> (Inr r, k'\<lparr>ch_active := i\<rparr>)
         | Inl e \<Rightarrow>
             if isinst e CLLMQuotaExceededError
             then chain_loop call model_of rq (Suc i) (exhausted @ [model_of s']) k'
             else (Inl e, k'))
      else (Inl (LLMUnavailableError
             (''every model in the fallback chain is rate limited or out of quota: ''
              @ (if join '', '' exhausted = [] then ''none configured'' else join '', '' exhausted))), k))"
  by pat_completeness auto
termination
  by (relation "measure (\<lambda>(c, m, rq, i, ex, k). length (ch_clients k) - i)") auto

declare chain_loop.simps [simp del]

definition chain_complete :: "'s complete \<Rightarrow> ('s \<Rightarrow> string) \<Rightarrow> 's chain complete" where
  "chain_complete call model_of rq k = chain_loop call model_of rq (ch_active k) [] k"

section \<open>The contract\<close>

interpretation fake: llm_client fake_complete "\<lambda>_. True"
  by unfold_locales
     (auto simp: fake_complete_def Let_def isinst_simps split: list.splits)

lemma read_tool_calls_error: "read_tool_calls loads cs = Inl e \<Longrightarrow> class_of e = CLLMResponseError"
  by (induction loads cs rule: read_tool_calls.induct)
     (auto split: option.splits json.splits sum.splits prod.splits)

lemma from_wire_error: "from_wire loads r m = Inl e \<Longrightarrow> class_of e = CLLMResponseError"
  by (auto simp: from_wire_def dest: read_tool_calls_error split: list.splits sum.splits)

interpretation openai: llm_client "openai_complete loads send" "\<lambda>c. oc_model c \<noteq> []"
  for loads :: "string \<Rightarrow> json option" and send :: "wire_request \<Rightarrow> provider_exn + wire_response"
  by unfold_locales
     (auto simp: openai_complete_def isinst_simps dest!: from_wire_error split: sum.splits if_splits)

definition quota_spent :: "'s complete \<Rightarrow> llm_request \<Rightarrow> 's \<Rightarrow> bool" where
  "quota_spent call rq s =
     (case fst (call rq s) of Inl e \<Rightarrow> isinst e CLLMQuotaExceededError | Inr _ \<Rightarrow> False)"

lemma chain_loop_step:
  assumes "i < length (ch_clients k)"
  shows "chain_loop call model_of rq i ex k =
    (let s' = snd (call rq (ch_clients k ! i)); k' = k\<lparr>ch_clients := (ch_clients k)[i := s']\<rparr> in
     if quota_spent call rq (ch_clients k ! i)
     then chain_loop call model_of rq (Suc i) (ex @ [model_of s']) k'
     else (fst (call rq (ch_clients k ! i)),
           case fst (call rq (ch_clients k ! i)) of Inr _ \<Rightarrow> k'\<lparr>ch_active := i\<rparr> | Inl _ \<Rightarrow> k'))"
  using assms
  by (subst chain_loop.simps) (auto simp: quota_spent_def Let_def split: prod.splits sum.splits)

lemma chain_loop_end:
  "\<not> i < length (ch_clients k) \<Longrightarrow>
     \<exists>m. chain_loop call model_of rq i ex k = (Inl (LLMUnavailableError m), k)"
  by (subst chain_loop.simps) simp

text \<open>What the loop does from index \<open>i\<close>: the client \<open>j\<close> that ends it.\<close>

definition ends_at ::
  "'s complete \<Rightarrow> llm_request \<Rightarrow> nat \<Rightarrow> 's chain \<Rightarrow> (exn + llm_response) \<times> 's chain \<Rightarrow> nat \<Rightarrow> bool" where
  "ends_at call rq i k out j \<longleftrightarrow>
     i \<le> j \<and> j \<le> length (ch_clients k)
     \<and> (\<forall>m. i \<le> m \<and> m < j \<longrightarrow> quota_spent call rq (ch_clients k ! m))
     \<and> length (ch_clients (snd out)) = length (ch_clients k)
     \<and> (\<forall>m < length (ch_clients k). ch_clients (snd out) ! m =
          (if i \<le> m \<and> m \<le> j then snd (call rq (ch_clients k ! m)) else ch_clients k ! m))
     \<and> (if j < length (ch_clients k)
        then \<not> quota_spent call rq (ch_clients k ! j) \<and> fst out = fst (call rq (ch_clients k ! j))
          \<and> ch_active (snd out) = (case fst out of Inr _ \<Rightarrow> j | Inl _ \<Rightarrow> ch_active k)
        else (\<exists>m. fst out = Inl (LLMUnavailableError m)) \<and> ch_active (snd out) = ch_active k)"

lemma chain_loop_ends:
  "i \<le> length (ch_clients k) \<Longrightarrow> \<exists>j. ends_at call rq i k (chain_loop call model_of rq i ex k) j"
proof (induction "length (ch_clients k) - i" arbitrary: i ex k)
  case 0
  then show ?case
    using chain_loop_end [of i k call model_of rq ex]
    by (auto simp: ends_at_def intro!: exI [of _ i])
next
  case (Suc n)
  then have i: "i < length (ch_clients k)" by simp
  let ?s = "snd (call rq (ch_clients k ! i))"
  let ?k = "k\<lparr>ch_clients := (ch_clients k)[i := ?s]\<rparr>"
  show ?case
  proof (cases "quota_spent call rq (ch_clients k ! i)")
    case False
    then show ?thesis
      using i by (intro exI [of _ i])
        (auto simp: ends_at_def chain_loop_step Let_def nth_list_update split: sum.splits)
  next
    case True
    have "\<exists>j. ends_at call rq (Suc i) ?k (chain_loop call model_of rq (Suc i) (ex @ [model_of ?s]) ?k) j"
      using Suc.hyps(2) i by (intro Suc.hyps(1)) auto
    then obtain j where j: "ends_at call rq (Suc i) ?k
        (chain_loop call model_of rq i ex k) j"
      using True i by (auto simp: chain_loop_step Let_def)
    have "ends_at call rq i k (chain_loop call model_of rq i ex k) j"
      unfolding ends_at_def
      using j True i by (auto simp: ends_at_def nth_list_update le_less_Suc_eq Suc_le_eq less_Suc_eq_le
          dest: le_neq_implies_less cong: sum.case_cong split: if_splits)
    then show ?thesis by blast
  qed
qed

definition chain_ready :: "('s \<Rightarrow> bool) \<Rightarrow> 's chain \<Rightarrow> bool" where
  "chain_ready ready k \<longleftrightarrow> ch_active k < length (ch_clients k) \<and> (\<forall>s \<in> set (ch_clients k). ready s)"

context llm_client
begin

lemma chain_lawful: "llm_client (chain_complete call model_of) (chain_ready ready)"
proof
  fix rq k and e :: exn
  assume k: "chain_ready ready k"
  then obtain j where j: "ends_at call rq (ch_active k) k (chain_complete call model_of rq k) j"
    using chain_loop_ends [of "ch_active k" k call rq model_of "[]"]
    by (auto simp: chain_ready_def chain_complete_def)
  have r: "ready (ch_clients k ! m)" if "m < length (ch_clients k)" for m
    using that k by (simp add: chain_ready_def)
  show "isinst e CLLMError" if "fst (chain_complete call model_of rq k) = Inl e"
    using that j fails_as_llm [OF r, of j rq e]
    by (auto simp: ends_at_def isinst_simps split: if_splits)
  show "chain_ready ready (snd (chain_complete call model_of rq k))"
  proof -
    let ?out = "chain_complete call model_of rq k"
    have len: "length (ch_clients (snd ?out)) = length (ch_clients k)"
      and nth: "\<forall>m < length (ch_clients k). ch_clients (snd ?out) ! m =
          (if ch_active k \<le> m \<and> m \<le> j then snd (call rq (ch_clients k ! m)) else ch_clients k ! m)"
      using j by (simp_all add: ends_at_def)
    have "ready (ch_clients (snd ?out) ! m)" if "m < length (ch_clients k)" for m
      using nth that r [OF that] stays_ready [OF r [OF that]] by simp
    moreover have "ch_active (snd ?out) < length (ch_clients k)"
      using j k by (auto simp: ends_at_def chain_ready_def split: if_splits sum.splits)
    ultimately show ?thesis
      by (auto simp: chain_ready_def len in_set_conv_nth)
  qed
qed

end

interpretation fake_chain: llm_client "chain_complete fake_complete fk_model" "chain_ready (\<lambda>_. True)"
  by (rule fake.chain_lawful)

interpretation openai_chain: llm_client "chain_complete (openai_complete loads send) oc_model"
    "chain_ready (\<lambda>c. oc_model c \<noteq> [])"
  for loads :: "string \<Rightarrow> json option" and send :: "wire_request \<Rightarrow> provider_exn + wire_response"
  by (rule openai.chain_lawful)

section \<open>Properties\<close>

text \<open>C8: the chain asks its clients in order from the active one, each exactly once, and stops at the
  first whose outcome is not a spent quota: that outcome is the chain's, an answer makes that
  client the active one, any other failure leaves the active one where it was, and clients before
  the active one or after the stop are not asked. When every quota is spent it fails as
  unavailable. The active index stays inside the chain.\<close>

theorem chain_asks_in_order:
  assumes "ch_active k < length (ch_clients k)"
  shows "\<exists>j. ends_at call rq (ch_active k) k (chain_complete call model_of rq k) j
    \<and> ch_active (snd (chain_complete call model_of rq k)) < length (ch_clients k)"
proof -
  obtain j where "ends_at call rq (ch_active k) k (chain_complete call model_of rq k) j"
    using chain_loop_ends [of "ch_active k" k call rq model_of "[]"] assms
    by (auto simp: chain_complete_def)
  then show ?thesis
    using assms by (intro exI [of _ j]) (auto simp: ends_at_def split: if_splits sum.splits)
qed

definition toy_request :: llm_request where
  "toy_request = \<lparr>rq_messages = [], rq_tools = None, rq_max_tokens = None, rq_timeout_ms = None\<rparr>"

theorem chain_asks_in_order_witness:
  "ch_active (snd (chain_complete
      (\<lambda>rq spent. (if spent then Inl (LLMQuotaExceededError []) else Inr (text_response ''ok'' ''m''), spent))
      (\<lambda>_. ''m'') toy_request \<lparr>ch_clients = [True, False], ch_active = 0\<rparr>)) < 2"
  using chain_asks_in_order [of "\<lparr>ch_clients = [True, False], ch_active = 0\<rparr>"
    "\<lambda>rq spent. (if spent then Inl (LLMQuotaExceededError []) else Inr (text_response ''ok'' ''m''), spent)"
    toy_request "\<lambda>_. ''m''"] by simp

text \<open>A provider failure never puts anything of the request into the error: the error raised
  depends on the failure's status and class and on the model name alone, and is an
  \<open>LLMError\<close>; a rate limit is told apart so that a chain can go on.\<close>

theorem provider_errors_disclose_nothing:
  assumes "send (wire_of c rq) = Inl e" and "send' (wire_of c' rq') = Inl e"
    and "oc_model c = oc_model c'"
  shows "fst (openai_complete loads send rq c) = fst (openai_complete loads' send' rq' c')
    \<and> (\<exists>x. fst (openai_complete loads send rq c) = Inl x \<and> isinst x CLLMUnavailableError
         \<and> (isinst x CLLMQuotaExceededError \<longleftrightarrow> is_quota_error e))"
  using assms by (simp add: openai_complete_def isinst_simps)

theorem provider_errors_disclose_nothing_witness:
  "isinst (the (case fst (openai_complete (\<lambda>_. None) (\<lambda>_. Inl \<lparr>pe_status = Some 429, pe_class = ''E''\<rparr>)
       toy_request \<lparr>oc_model = ''m'', oc_max_tokens = 1, oc_temperature = 0, oc_tools = True\<rparr>) of
     Inl x \<Rightarrow> Some x | Inr _ \<Rightarrow> None)) CLLMQuotaExceededError"
proof -
  have "is_quota_error \<lparr>pe_status = Some 429, pe_class = ''E''\<rparr>" by (simp add: is_quota_error_def)
  then show ?thesis
    using provider_errors_disclose_nothing [where send = "\<lambda>_. Inl \<lparr>pe_status = Some 429, pe_class = ''E''\<rparr>"
      and send' = "\<lambda>_. Inl \<lparr>pe_status = Some 429, pe_class = ''E''\<rparr>" and rq = toy_request and rq' = toy_request
      and c = "\<lparr>oc_model = ''m'', oc_max_tokens = 1, oc_temperature = 0, oc_tools = True\<rparr>"
      and c' = "\<lparr>oc_model = ''m'', oc_max_tokens = 1, oc_temperature = 0, oc_tools = True\<rparr>"
      and loads = "\<lambda>_. None" and loads' = "\<lambda>_. None"]
    by auto
qed

end
