(* ===== verification/Serialization.thy ===== *)
theory Serialization
  imports Prelude
begin

text \<open>
  The catalog's data model (\<open>src/schema/models.py\<close>), the sensitive-name rule
  (\<open>src/schema/sensitivity.py\<close>) and the text that is embedded for each element
  (\<open>src/schema/serialization.py\<close>).
\<close>

section \<open>Data model\<close>

record column =
  col_table :: string
  col_name :: string
  col_data_type :: string
  col_is_nullable :: bool
  col_comment :: "string option"
  col_sample_values :: "string list"

definition qualified_name :: "column \<Rightarrow> string" where
  "qualified_name c = col_table c @ ''.'' @ col_name c"

record table =
  tab_name :: string
  tab_comment :: "string option"
  tab_columns :: "column list"

record foreign_key =
  from_table :: string
  from_column :: string
  to_table :: string
  to_column :: string
  constraint_name :: "string option"

record schema_snapshot =
  snap_tables :: "table list"
  snap_foreign_keys :: "foreign_key list"

definition column_count :: "schema_snapshot \<Rightarrow> nat" where
  "column_count s = sum_list (map (\<lambda>t. length (tab_columns t)) (snap_tables s))"

section \<open>Sensitive names\<close>

definition default_sensitive_patterns :: "string list" where
  "default_sensitive_patterns = [
    ''password'', ''passwd'', ''secret'', ''token'', ''api_key'', ''apikey'',
    ''private_key'', ''credential'', ''session_id'', ''ssn'', ''social_security'',
    ''national_id'', ''tax_id'', ''passport'', ''license_no'', ''licence_no'',
    ''driver_license'', ''credit_card'', ''card_number'', ''cardno'', ''cvv'', ''iban'',
    ''swift'', ''account_number'', ''routing_number'', ''email'', ''phone'', ''mobile'',
    ''address'', ''postcode'', ''zipcode'', ''zip_code'', ''latitude'', ''longitude'',
    ''dob'', ''birth'', ''salary'', ''compensation'', ''income'', ''diagnosis'',
    ''medical'', ''biometric'']"

definition is_sensitive :: "string \<Rightarrow> string list \<Rightarrow> bool" where
  "is_sensitive column_name patterns \<longleftrightarrow>
     (let lowered = casefold column_name in \<exists>p \<in> set patterns. contains lowered p)"

section \<open>Serialization\<close>

definition dash :: string where
  "dash = [CHR '' '', CHR 0x97, CHR '' '']"

definition max_serialized_chars :: nat where
  "max_serialized_chars = 512"

definition max_columns_listed :: nat where
  "max_columns_listed = 40"

definition flatten :: "string \<Rightarrow> string" where
  "flatten text = join '' '' (split_ws text)"

definition truncate_text :: "string \<Rightarrow> string" where
  "truncate_text text =
     (if length text \<le> max_serialized_chars then text
      else rstrip (take (max_serialized_chars - 3) text) @ ''...'')"

definition serialize_column :: "string list \<Rightarrow> column \<Rightarrow> string" where
  "serialize_column patterns c =
     truncate_text
       (col_table c @ ''.'' @ col_name c @ '' ('' @ col_data_type c @ '')''
        @ (if truthy (col_comment c) then dash @ flatten (the (col_comment c)) else [])
        @ (if col_sample_values c \<noteq> [] \<and> \<not> is_sensitive (col_name c) patterns
           then ''. Examples: '' @ join '', '' (map flatten (col_sample_values c)) else []))"

definition serialize_table :: "table \<Rightarrow> string" where
  "serialize_table t =
     truncate_text
       (tab_name t @ '' (table)''
        @ (if truthy (tab_comment t) then dash @ flatten (the (tab_comment t)) else [])
        @ (if tab_columns t \<noteq> [] then
             (let listed = map col_name (take max_columns_listed (tab_columns t));
                  remainder = length (tab_columns t) - length listed
              in ''. Columns: '' @ join '', '' listed
                 @ (if remainder > 0 then '', and '' @ show_nat remainder @ '' more'' else []))
           else []))"

section \<open>Facts\<close>

lemma truncate_length [simp]: "length (truncate_text s) \<le> max_serialized_chars"
proof -
  have "length (rstrip (take 509 s)) \<le> 509"
    using length_rstrip [of "take 509 s"] by simp
  then show ?thesis by (simp add: truncate_text_def max_serialized_chars_def)
qed

lemma flatten_space: "c \<in> set (flatten s) \<Longrightarrow> py_space c \<Longrightarrow> c = CHR '' ''"
  by (auto simp: flatten_def dest!: set_join split_ws_no_space)

lemma flatten_newline [simp]: "newline \<notin> set (flatten s)"
  using flatten_space [of newline s] by (auto simp: newline_def py_space_def code_def)

lemma truncate_newline: "newline \<notin> set s \<Longrightarrow> newline \<notin> set (truncate_text s)"
  using set_rstrip [of "take (max_serialized_chars - 3) s"]
    set_take_subset [of "max_serialized_chars - 3" s]
  by (auto simp: truncate_text_def newline_def)

lemma join_newline:
  "newline \<notin> set sep \<Longrightarrow> \<forall>x \<in> set xs. newline \<notin> set x \<Longrightarrow> newline \<notin> set (join sep xs)"
  by (auto dest: set_join)

lemma sensitive_case: "is_sensitive (casefold n) ps = is_sensitive n ps"
  by (simp add: is_sensitive_def)

lemma sensitive_mono: "set ps \<subseteq> set qs \<Longrightarrow> is_sensitive n ps \<Longrightarrow> is_sensitive n qs"
  by (auto simp: is_sensitive_def Let_def)

section \<open>Properties\<close>

text \<open>The text embedded for a column never exceeds its ceiling, whatever the comment and
  the samples hold, and it is one line whenever the names and the type are.\<close>

theorem serialize_column_bounded:
  assumes "newline \<notin> set (col_table c)" "newline \<notin> set (col_name c)"
    "newline \<notin> set (col_data_type c)"
  shows "length (serialize_column ps c) \<le> 512 \<and> newline \<notin> set (serialize_column ps c)"
proof
  show "length (serialize_column ps c) \<le> 512"
    using truncate_length [unfolded max_serialized_chars_def]
    by (simp add: serialize_column_def)
  have "newline \<notin> set (join '', '' (map flatten (col_sample_values c)))"
    by (rule join_newline) (auto simp: newline_def flatten_newline [unfolded newline_def])
  with assms show "newline \<notin> set (serialize_column ps c)"
    unfolding serialize_column_def
    by (intro truncate_newline) (auto simp: dash_def newline_def flatten_newline [unfolded newline_def])
qed

theorem serialize_column_bounded_witness:
  "length (serialize_column [] \<lparr>col_table = ''t'', col_name = ''c'', col_data_type = ''text'',
     col_is_nullable = True, col_comment = Some ''x'', col_sample_values = []\<rparr>) \<le> 512"
  by (rule conjunct1, rule serialize_column_bounded) (simp_all add: newline_def)

text \<open>The sampled values of a column whose name matches a sensitive pattern do not reach
  the embedded text: replacing them by any others leaves it unchanged, and so does spelling the
  column name in another case.\<close>

theorem sensitive_samples_dropped:
  assumes "is_sensitive (col_name c) ps"
  shows "serialize_column ps (c\<lparr>col_sample_values := vs\<rparr>)
       = serialize_column ps (c\<lparr>col_sample_values := ws\<rparr>)
    \<and> is_sensitive (casefold (col_name c)) ps"
  using assms by (simp add: serialize_column_def sensitive_case)

theorem sensitive_samples_dropped_witness:
  "is_sensitive (casefold ''user_EMAIL'') default_sensitive_patterns"
proof -
  let ?c = "\<lparr>col_table = ''t'', col_name = ''user_EMAIL'', col_data_type = ''text'',
     col_is_nullable = True, col_comment = None, col_sample_values = [''a'']\<rparr>"
  have "is_sensitive (col_name ?c) default_sensitive_patterns"
    by (simp add: is_sensitive_def default_sensitive_patterns_def contains_def casefold_def
        fold_char_def Let_def sublist_code char_eval)
  from conjunct2 [OF sensitive_samples_dropped [OF this, of "[]" "[]"]] show ?thesis by simp
qed

end
