(* ===== verification/Indexer.thy ===== *)
theory Indexer
  imports Serialization Exceptions
begin

text \<open>
  The schema catalog's store and its writer, \<open>src/schema/indexer.py\<close>. The two tables of
  \<open>agent_meta\<close> are lists of rows; the upsert, the deletion of stale rows and the replacement of
  the edges are the statements the indexer runs, with the unique constraint of the migrations
  (dataset, table, column, model, nulls equal) as the key. The embedder is an argument: its model
  version, its width and its batch function.
\<close>

section \<open>The store\<close>

record 'v element =
  el_id :: nat
  el_dataset :: string
  el_type :: string
  el_table :: string
  el_column :: "string option"
  el_data_type :: "string option"
  el_comment :: "string option"
  el_serialized :: string
  el_embedding :: 'v
  el_model :: string

type_synonym element_key = "string \<times> string \<times> string option \<times> string"

definition el_key :: "'v element \<Rightarrow> element_key" where
  "el_key e = (el_dataset e, el_table e, el_column e, el_model e)"

record 'v store =
  st_elements :: "'v element list"
  st_edges :: "(string \<times> foreign_key) list"
  st_next :: nat

text \<open>\<open>INSERT ... ON CONFLICT DO UPDATE ... RETURNING id\<close>; \<open>r\<close> is the new row, its id unused.\<close>

definition upsert :: "'v element \<Rightarrow> 'v store \<Rightarrow> nat \<times> 'v store" where
  "upsert r S =
     (case find (\<lambda>e. el_key e = el_key r) (st_elements S) of
        Some old \<Rightarrow> (el_id old, S\<lparr>st_elements := map (\<lambda>e.
            if el_key e = el_key r then r\<lparr>el_id := el_id e\<rparr> else e) (st_elements S)\<rparr>)
      | None \<Rightarrow> (st_next S, S\<lparr>st_elements := st_elements S @ [r\<lparr>el_id := st_next S\<rparr>],
                             st_next := Suc (st_next S)\<rparr>))"

fun upsert_all :: "'v element list \<Rightarrow> 'v store \<Rightarrow> nat list \<times> 'v store" where
  "upsert_all [] S = ([], S)"
| "upsert_all (r # rs) S =
     (let (i, S1) = upsert r S; (ids, S2) = upsert_all rs S1 in (i # ids, S2))"

definition stale :: "string \<Rightarrow> string \<Rightarrow> nat list \<Rightarrow> 'v element \<Rightarrow> bool" where
  "stale dataset model ids e \<longleftrightarrow> el_dataset e = dataset \<and> el_model e = model \<and> el_id e \<notin> set ids"

definition delete_stale :: "string \<Rightarrow> string \<Rightarrow> nat list \<Rightarrow> 'v store \<Rightarrow> 'v store" where
  "delete_stale dataset model ids S =
     S\<lparr>st_elements := filter (\<lambda>e. \<not> stale dataset model ids e) (st_elements S)\<rparr>"

section \<open>The indexer\<close>

record 'v embedder =
  em_model :: string
  em_dimensions :: nat
  em_embed :: "string list \<Rightarrow> exn + 'v list"

record index_report =
  ir_model :: string
  ir_tables :: nat
  ir_columns :: nat
  ir_written :: nat
  ir_removed :: nat
  ir_edges :: nat

text \<open>The tuple \<open>_build_rows\<close> makes: dataset, type, table, column, data type, comment, text.\<close>

type_synonym row = "string \<times> string \<times> string \<times> string option \<times> string option \<times> string option \<times> string"

definition build_rows :: "string \<Rightarrow> string list \<Rightarrow> schema_snapshot \<Rightarrow> row list" where
  "build_rows dataset patterns snap =
     concat (map (\<lambda>t. (dataset, ''table'', tab_name t, None, None, tab_comment t, serialize_table t)
       # map (\<lambda>c. (dataset, ''column'', col_table c, Some (col_name c), Some (col_data_type c),
           col_comment c, serialize_column patterns c)) (tab_columns t)) (snap_tables snap))"

definition row_text :: "row \<Rightarrow> string" where
  "row_text r = (case r of (_, _, _, _, _, _, s) \<Rightarrow> s)"

definition row_element :: "string \<Rightarrow> row \<Rightarrow> 'v \<Rightarrow> 'v element" where
  "row_element model r v = (case r of (ds, ty, tab, col, dt, cm, s) \<Rightarrow>
     \<lparr>el_id = 0, el_dataset = ds, el_type = ty, el_table = tab, el_column = col, el_data_type = dt,
      el_comment = cm, el_serialized = s, el_embedding = v, el_model = model\<rparr>)"

definition edge_key :: "foreign_key \<Rightarrow> string \<times> string \<times> string \<times> string" where
  "edge_key fk = (from_table fk, from_column fk, to_table fk, to_column fk)"

definition distinct_edges :: "foreign_key list \<Rightarrow> foreign_key list" where
  "distinct_edges fks = map snd (foldl (\<lambda>seen fk. dict_setdefault seen (edge_key fk) fk) [] fks)"

text \<open>The width in \<open>vector(n)\<close>; the pattern's final anchor allows one line feed.\<close>

definition read_width :: "string \<Rightarrow> nat option" where
  "read_width s =
     (let t = (if s \<noteq> [] \<and> last s = newline then butlast s else s);
          ds = drop 7 (butlast t) in
      if prefix ''vector('' t \<and> 7 < length t \<and> last t = CHR '')'' \<and> ds \<noteq> [] \<and> list_all is_digit ds
      then Some (foldl (\<lambda>n d. 10 * n + (code d - 48)) 0 ds) else None)"

definition assert_dimensions :: "string option \<Rightarrow> 'v embedder \<Rightarrow> exn option" where
  "assert_dimensions width_row em =
     (case width_row of
        None \<Rightarrow> Some (EmbeddingModelMismatchError
          ''agent_meta.schema_elements.embedding not found -- run migrations first'')
      | Some t \<Rightarrow>
         (case read_width t of
            None \<Rightarrow> Some (EmbeddingModelMismatchError
              (''embedding column has unexpected type '' @ py_repr t))
          | Some expected \<Rightarrow>
             if em_dimensions em \<noteq> expected
             then Some (EmbeddingModelMismatchError (''embedder '' @ py_repr (em_model em) @ '' produces ''
               @ show_nat (em_dimensions em)
               @ ''-dimensional vectors but agent_meta.schema_elements.embedding is vector(''
               @ show_nat expected
               @ ''). Changing the retriever'' @ [squote] @ ''s width is a migration, not a config change.''))
             else None))"

definition write_index ::
  "string \<Rightarrow> string \<Rightarrow> 'v element list \<Rightarrow> foreign_key list \<Rightarrow> 'v store \<Rightarrow> nat \<times> nat \<times> 'v store" where
  "write_index dataset model rows edges S =
     (let (ids, S1) = upsert_all rows S;
          S2 = delete_stale dataset model ids S1;
          removed = length (st_elements S1) - length (st_elements S2);
          kept = filter (\<lambda>e. fst e \<noteq> dataset) (st_edges S2)
      in (length ids, removed, S2\<lparr>st_edges := kept @ map (Pair dataset) edges\<rparr>))"

definition index ::
  "string option \<Rightarrow> string \<Rightarrow> string list \<Rightarrow> 'v embedder \<Rightarrow> schema_snapshot \<Rightarrow> 'v store
     \<Rightarrow> (exn + index_report) \<times> 'v store" where
  "index width_row dataset patterns em snap S =
     (case assert_dimensions width_row em of
        Some e \<Rightarrow> (Inl e, S)
      | None \<Rightarrow>
         (let rows = build_rows dataset patterns snap in
          if rows = [] then (Inr \<lparr>ir_model = em_model em, ir_tables = 0, ir_columns = 0,
            ir_written = 0, ir_removed = 0, ir_edges = 0\<rparr>, S)
          else case em_embed em (map row_text rows) of
            Inl e \<Rightarrow> (Inl e, S)
          | Inr vectors \<Rightarrow>
              if length vectors \<noteq> length rows
              then (Inl (EmbeddingModelMismatchError (''embedder returned '' @ show_nat (length vectors)
                     @ '' vectors for '' @ show_nat (length rows) @ '' elements'')), S)
              else let edges = distinct_edges (snap_foreign_keys snap);
                  (written, removed, S') = write_index dataset (em_model em)
                    (map (\<lambda>(r, v). row_element (em_model em) r v) (zip rows vectors)) edges S
                in (Inr \<lparr>ir_model = em_model em, ir_tables = length (snap_tables snap),
                      ir_columns = column_count snap, ir_written = written, ir_removed = removed,
                      ir_edges = length edges\<rparr>, S')))"

definition assert_catalog_ready :: "string \<Rightarrow> string \<Rightarrow> 'v store \<Rightarrow> exn + nat" where
  "assert_catalog_ready dataset model S =
     (let count = length (filter (\<lambda>e. el_dataset e = dataset \<and> el_model e = model) (st_elements S)) in
      if count = 0 then Inl (EmbeddingModelMismatchError
        (''no schema elements indexed for dataset '' @ py_repr dataset @ '' with model ''
         @ py_repr model @ ''. Run the indexer, or point RETRIEVER_MODEL at a model that has been indexed.''))
      else Inr count)"

section \<open>Facts\<close>

definition store_ok :: "'v store \<Rightarrow> bool" where
  "store_ok S \<longleftrightarrow> distinct (map el_key (st_elements S)) \<and> distinct (map el_id (st_elements S))
     \<and> (\<forall>e \<in> set (st_elements S). el_id e < st_next S)"

definition keys_of :: "'v store \<Rightarrow> element_key set" where
  "keys_of S = el_key ` set (st_elements S)"

lemma el_key_id [simp]: "el_key (r\<lparr>el_id := i\<rparr>) = el_key r"
  by (simp add: el_key_def)

lemma find_key_None: "find (\<lambda>e. el_key e = k) es = None \<longleftrightarrow> k \<notin> el_key ` set es"
  by (auto simp: find_None_iff)

lemma find_key_Some: "find (\<lambda>e. el_key e = k) es = Some e \<Longrightarrow> e \<in> set es \<and> el_key e = k"
  by (metis (mono_tags, lifting) find_Some_iff nth_mem)

lemma map_key_overwrite:
  "map el_key (map (\<lambda>e. if el_key e = el_key r then r\<lparr>el_id := el_id e\<rparr> else e) es) = map el_key es"
  "map el_id (map (\<lambda>e. if el_key e = el_key r then r\<lparr>el_id := el_id e\<rparr> else e) es) = map el_id es"
  by auto

lemma upsert_keys: "keys_of (snd (upsert r S)) = insert (el_key r) (keys_of S)"
proof (cases "find (\<lambda>e. el_key e = el_key r) (st_elements S)")
  case None
  then show ?thesis by (auto simp: upsert_def keys_of_def)
next
  case (Some old)
  have "keys_of (snd (upsert r S)) = set (map el_key (st_elements S))"
    using Some arg_cong [OF map_key_overwrite(1) [of r "st_elements S"], of set]
    by (simp add: upsert_def keys_of_def del: map_map)
  moreover have "el_key r \<in> keys_of S"
    using find_key_Some [OF Some] unfolding keys_of_def by (metis imageI)
  ultimately show ?thesis by (auto simp: keys_of_def)
qed

lemma upsert_ok: "store_ok S \<Longrightarrow> store_ok (snd (upsert r S))"
proof (cases "find (\<lambda>e. el_key e = el_key r) (st_elements S)")
  case None
  assume ok: "store_ok S"
  have "el_key r \<notin> el_key ` set (st_elements S)" using None by (simp add: find_key_None)
  then show ?thesis using ok None by (auto simp: upsert_def store_ok_def)
next
  case (Some old)
  assume ok: "store_ok S"
  then show ?thesis
    using Some map_key_overwrite [of r "st_elements S"]
    by (auto simp: upsert_def store_ok_def simp del: map_map)
qed

definition key_ids :: "'v store \<Rightarrow> (element_key \<times> nat) set" where
  "key_ids S = (\<lambda>e. (el_key e, el_id e)) ` set (st_elements S)"

lemma upsert_key_ids:
  "key_ids S \<subseteq> key_ids (snd (upsert r S))" "(el_key r, fst (upsert r S)) \<in> key_ids (snd (upsert r S))"
proof -
  have map: "map (\<lambda>e. (el_key e, el_id e)) (map (\<lambda>e. if el_key e = el_key r then r\<lparr>el_id := el_id e\<rparr> else e) es)
      = map (\<lambda>e. (el_key e, el_id e)) es" for es by auto
  show "key_ids S \<subseteq> key_ids (snd (upsert r S))"
    using map [of "st_elements S"]
    by (auto simp: upsert_def key_ids_def set_map [symmetric] simp del: set_map map_map split: option.splits)
  show "(el_key r, fst (upsert r S)) \<in> key_ids (snd (upsert r S))"
  proof (cases "find (\<lambda>e. el_key e = el_key r) (st_elements S)")
    case None
    then show ?thesis by (auto simp: upsert_def key_ids_def)
  next
    case (Some old)
    have "(el_key old, el_id old) \<in> key_ids S"
      unfolding key_ids_def using conjunct1 [OF find_key_Some [OF Some]] by (rule imageI)
    then have "(el_key r, el_id old) \<in> key_ids S" using find_key_Some [OF Some] by simp
    then show ?thesis
      using Some map [of "st_elements S"]
      by (simp add: upsert_def key_ids_def set_map [symmetric] del: set_map map_map)
  qed
qed

lemma upsert_content:
  assumes "e \<in> set (st_elements (snd (upsert r S)))"
  shows "if el_key e = el_key r then e = r\<lparr>el_id := el_id e\<rparr> else e \<in> set (st_elements S)"
  using assms
  by (auto simp: upsert_def find_key_None image_iff split: option.splits if_splits)

lemma upsert_others:
  "el_key r \<in> K \<Longrightarrow> filter (\<lambda>e. el_key e \<notin> K) (st_elements (snd (upsert r S)))
     = filter (\<lambda>e. el_key e \<notin> K) (st_elements S)"
proof -
  assume k: "el_key r \<in> K"
  have "filter (\<lambda>e. el_key e \<notin> K) (map (\<lambda>e. if el_key e = el_key r then r\<lparr>el_id := el_id e\<rparr> else e) es)
      = filter (\<lambda>e. el_key e \<notin> K) es" for es
    using k by (induction es) auto
  then show ?thesis using k by (simp add: upsert_def split: option.splits)
qed

subsection \<open>A whole batch\<close>

definition last_row :: "'v element list \<Rightarrow> element_key \<Rightarrow> 'v element option" where
  "last_row rows k = find (\<lambda>r. el_key r = k) (rev rows)"

lemma last_row_snoc:
  "last_row (rows @ [r]) k = (if el_key r = k then Some r else last_row rows k)"
  by (simp add: last_row_def)

lemma last_row_None: "last_row rows k = None \<longleftrightarrow> k \<notin> el_key ` set rows"
  by (simp add: last_row_def find_key_None)

lemma upsert_all_snoc:
  "upsert_all (rs @ [r]) S =
     (fst (upsert_all rs S) @ [fst (upsert r (snd (upsert_all rs S)))],
      snd (upsert r (snd (upsert_all rs S))))"
  by (induction rs S rule: upsert_all.induct) (auto simp: Let_def split: prod.splits)

lemma upsert_all_facts:
  assumes "store_ok S"
  shows "store_ok (snd (upsert_all rs S))"
    and "keys_of (snd (upsert_all rs S)) = el_key ` set rs \<union> keys_of S"
    and "length (fst (upsert_all rs S)) = length rs"
    and "\<forall>i < length rs. (el_key (rs ! i), fst (upsert_all rs S) ! i) \<in> key_ids (snd (upsert_all rs S))"
    and "\<forall>e \<in> set (st_elements (snd (upsert_all rs S))).
           (case last_row rs (el_key e) of Some r \<Rightarrow> e = r\<lparr>el_id := el_id e\<rparr> | None \<Rightarrow> e \<in> set (st_elements S))"
    and "el_key ` set rs \<subseteq> K \<Longrightarrow> filter (\<lambda>e. el_key e \<notin> K) (st_elements (snd (upsert_all rs S)))
           = filter (\<lambda>e. el_key e \<notin> K) (st_elements S)"
    and "st_edges (snd (upsert_all rs S)) = st_edges S"
proof (induction rs rule: rev_induct)
  case Nil
  {
    case 1 then show ?case using assms by simp
  next
    case 2 then show ?case by simp
  next
    case 3 then show ?case by simp
  next
    case 4 then show ?case by simp
  next
    case 5 then show ?case by (simp add: last_row_def)
  next
    case 6 then show ?case by simp
  next
    case 7 then show ?case by simp
  }
next
  case (snoc r rs)
  let ?S = "snd (upsert_all rs S)"
  {
    case 1 then show ?case using snoc(1) by (simp add: upsert_all_snoc upsert_ok)
  next
    case 2 then show ?case using snoc(2) by (auto simp: upsert_all_snoc upsert_keys)
  next
    case 3 then show ?case using snoc(3) by (simp add: upsert_all_snoc)
  next
    case 4 then show ?case
      using snoc(3,4) upsert_key_ids [where S = ?S and r = r]
      by (auto simp: upsert_all_snoc nth_append less_Suc_eq)
  next
    case 5 then show ?case
      using snoc(5) upsert_content [where r = r and S = ?S]
      by (fastforce simp: upsert_all_snoc last_row_snoc)
  next
    case 6 then show ?case using snoc(6) upsert_others [of r K ?S] by (simp add: upsert_all_snoc)
  next
    case 7 then show ?case using snoc(7) by (simp add: upsert_all_snoc upsert_def split: option.splits)
  }
qed

lemma upsert_present:
  assumes "el_key r \<in> keys_of S"
  shows "snd (upsert r S) = S\<lparr>st_elements := map (\<lambda>e.
    if el_key e = el_key r then r\<lparr>el_id := el_id e\<rparr> else e) (st_elements S)\<rparr>"
proof (cases "find (\<lambda>e. el_key e = el_key r) (st_elements S)")
  case None
  then show ?thesis using assms by (simp add: find_key_None keys_of_def)
qed (simp add: upsert_def)

definition settle :: "'v element list \<Rightarrow> 'v element \<Rightarrow> 'v element" where
  "settle rows e = (case last_row rows (el_key e) of Some r \<Rightarrow> r\<lparr>el_id := el_id e\<rparr> | None \<Rightarrow> e)"

lemma last_row_key: "last_row rows k = Some r \<Longrightarrow> el_key r = k"
  unfolding last_row_def by (drule find_key_Some) simp

lemma settle_key [simp]: "el_key (settle rows e) = el_key e"
  by (auto simp: settle_def dest: last_row_key split: option.splits)

lemma settle_snoc:
  "settle (rows @ [r]) e =
     (if el_key e = el_key r then r\<lparr>el_id := el_id e\<rparr> else settle rows e)"
  by (auto simp: settle_def last_row_snoc)

lemma settle_id [simp]: "el_id (settle rows e) = el_id e"
  by (auto simp: settle_def split: option.splits)

lemma upsert_all_present:
  "el_key ` set rows \<subseteq> keys_of S \<Longrightarrow>
     snd (upsert_all rows S) = S\<lparr>st_elements := map (settle rows) (st_elements S)\<rparr>"
proof (induction rows rule: rev_induct)
  case Nil
  then show ?case by (simp add: settle_def last_row_def)
next
  case (snoc r rows)
  let ?T = "S\<lparr>st_elements := map (settle rows) (st_elements S)\<rparr>"
  have T: "snd (upsert_all rows S) = ?T" using snoc by simp
  have "keys_of ?T = keys_of S" by (simp add: keys_of_def image_image)
  then have "el_key r \<in> keys_of ?T" using snoc(2) by simp
  then show ?case
    by (simp add: upsert_all_snoc T upsert_present comp_def settle_snoc)
qed

lemma written_ids:
  assumes "store_ok S" "e \<in> set (st_elements (snd (upsert_all rows S)))"
  shows "el_id e \<in> set (fst (upsert_all rows S)) \<longleftrightarrow> el_key e \<in> el_key ` set rows"
proof -
  let ?T = "snd (upsert_all rows S)" and ?ids = "fst (upsert_all rows S)"
  note facts = upsert_all_facts [OF assms(1), of rows]
  have inj: "inj_on el_key (set (st_elements ?T))" "inj_on el_id (set (st_elements ?T))"
    using facts(1) by (auto simp: store_ok_def distinct_map)
  have len: "length ?ids = length rows" by (rule facts(3))
  have row: "\<exists>e' \<in> set (st_elements ?T). el_key e' = el_key (rows ! i) \<and> el_id e' = ?ids ! i"
    if "i < length rows" for i
  proof -
    have "(el_key (rows ! i), ?ids ! i) \<in> key_ids ?T" using facts(4) that by blast
    then obtain e' where "(el_key (rows ! i), ?ids ! i) = (el_key e', el_id e')" "e' \<in> set (st_elements ?T)"
      unfolding key_ids_def by (rule imageE)
    then show ?thesis by (intro bexI [of _ e']) simp_all
  qed
  show ?thesis
  proof
    assume "el_id e \<in> set ?ids"
    then obtain i where i: "i < length rows" "?ids ! i = el_id e"
      using len by (auto simp: in_set_conv_nth)
    then obtain e' where "e' \<in> set (st_elements ?T)" "el_key e' = el_key (rows ! i)" "el_id e' = el_id e"
      using row [OF i(1)] by auto
    then show "el_key e \<in> el_key ` set rows"
      using inj(2) assms(2) i(1) by (metis inj_onD imageI nth_mem)
  next
    assume "el_key e \<in> el_key ` set rows"
    then obtain i where i: "i < length rows" "el_key (rows ! i) = el_key e"
      by (metis (no_types, lifting) imageE in_set_conv_nth)
    then obtain e' where "e' \<in> set (st_elements ?T)" "el_key e' = el_key e" "el_id e' = ?ids ! i"
      using row [OF i(1)] by auto
    then show "el_id e \<in> set ?ids"
      using inj(1) assms(2) i(1) len by (metis inj_onD nth_mem)
  qed
qed

definition belongs :: "string \<Rightarrow> string \<Rightarrow> 'v element \<Rightarrow> bool" where
  "belongs dataset model e \<longleftrightarrow> el_dataset e = dataset \<and> el_model e = model"

lemma belongs_key: "el_key e = el_key r \<Longrightarrow> belongs ds mv e = belongs ds mv r"
  by (auto simp: belongs_def el_key_def)

lemma delete_stale_elements:
  assumes "store_ok S"
  shows "st_elements (delete_stale ds mv (fst (upsert_all rows S)) (snd (upsert_all rows S)))
    = filter (\<lambda>e. belongs ds mv e \<longrightarrow> el_key e \<in> el_key ` set rows) (st_elements (snd (upsert_all rows S)))"
  using written_ids [OF assms]
  by (auto simp: delete_stale_def stale_def belongs_def intro!: filter_cong)

lemma image_preimage: "K \<subseteq> f ` A \<Longrightarrow> f ` {x \<in> A. f x \<in> K} = K"
  by auto

lemma write_index_facts:
  assumes ok: "store_ok S" and rows: "\<forall>r \<in> set rows. belongs ds mv r"
    and w: "write_index ds mv rows edges S = (n, removed, S')"
  shows "store_ok S'" and "n = length rows"
    and "el_key ` {e \<in> set (st_elements S'). belongs ds mv e} = el_key ` set rows"
    and "\<forall>e \<in> set (st_elements S'). belongs ds mv e \<longrightarrow>
           (\<exists>r. last_row rows (el_key e) = Some r \<and> e = r\<lparr>el_id := el_id e\<rparr>)"
    and "filter (\<lambda>e. \<not> belongs ds mv e) (st_elements S') = filter (\<lambda>e. \<not> belongs ds mv e) (st_elements S)"
    and "st_edges S' = filter (\<lambda>e. fst e \<noteq> ds) (st_edges S) @ map (Pair ds) edges"
proof -
  let ?T = "snd (upsert_all rows S)" and ?K = "el_key ` set rows"
  note facts = upsert_all_facts [OF ok, of rows]
  have K: "belongs ds mv e" if "el_key e \<in> ?K" for e
    using that rows belongs_key by (metis imageE)
  have S': "st_elements S' = filter (\<lambda>e. belongs ds mv e \<longrightarrow> el_key e \<in> ?K) (st_elements ?T)"
      "st_next S' = st_next ?T"
    using w delete_stale_elements [OF ok, of ds mv rows]
    by (auto simp: write_index_def Let_def delete_stale_def split: prod.splits)
  show "n = length rows" "st_edges S' = filter (\<lambda>e. fst e \<noteq> ds) (st_edges S) @ map (Pair ds) edges"
    using w facts(3,7) by (auto simp: write_index_def Let_def delete_stale_def split: prod.splits)
  show "store_ok S'"
    using facts(1) unfolding store_ok_def S' by (simp add: distinct_map_filter)
  have "{e \<in> set (st_elements S'). belongs ds mv e} = {e \<in> set (st_elements ?T). el_key e \<in> ?K}"
    unfolding S'(1) set_filter using K by blast
  moreover have "?K \<subseteq> el_key ` set (st_elements ?T)"
    using facts(2) by (simp add: keys_of_def)
  then have "el_key ` {e \<in> set (st_elements ?T). el_key e \<in> ?K} = ?K" by (rule image_preimage)
  ultimately show "el_key ` {e \<in> set (st_elements S'). belongs ds mv e} = ?K" by simp
  show "\<forall>e \<in> set (st_elements S'). belongs ds mv e \<longrightarrow>
           (\<exists>r. last_row rows (el_key e) = Some r \<and> e = r\<lparr>el_id := el_id e\<rparr>)"
  proof (intro ballI impI)
    fix e assume "e \<in> set (st_elements S')" "belongs ds mv e"
    then have e: "e \<in> set (st_elements ?T)" "el_key e \<in> ?K" by (simp_all add: S'(1))
    then obtain r where r: "last_row rows (el_key e) = Some r"
      using last_row_None [of rows "el_key e"] by (cases "last_row rows (el_key e)") auto
    show "\<exists>r. last_row rows (el_key e) = Some r \<and> e = r\<lparr>el_id := el_id e\<rparr>"
      using facts(5) [rule_format, OF e(1), unfolded r option.case] r by blast
  qed
  have "filter (\<lambda>e. \<not> belongs ds mv e) (st_elements S') = filter (\<lambda>e. \<not> belongs ds mv e) (st_elements ?T)"
    by (auto simp: S' intro: filter_cong)
  also have "\<dots> = filter (\<lambda>e. \<not> belongs ds mv e) (filter (\<lambda>e. el_key e \<notin> ?K) (st_elements ?T))"
    using K by (auto intro: filter_cong)
  also have "\<dots> = filter (\<lambda>e. \<not> belongs ds mv e) (filter (\<lambda>e. el_key e \<notin> ?K) (st_elements S))"
    using facts(6) [of ?K] by simp
  also have "\<dots> = filter (\<lambda>e. \<not> belongs ds mv e) (st_elements S)"
    using K by (auto intro: filter_cong)
  finally show "filter (\<lambda>e. \<not> belongs ds mv e) (st_elements S') = filter (\<lambda>e. \<not> belongs ds mv e) (st_elements S)" .
qed

lemma write_index_again:
  assumes ok: "store_ok S" and rows: "\<forall>r \<in> set rows. belongs ds mv r"
    and w: "write_index ds mv rows edges S = (n, removed, S')"
  shows "write_index ds mv rows edges S' = (n, 0, S')"
proof -
  note facts = write_index_facts [OF ok rows w]
  have keys: "el_key ` set rows \<subseteq> keys_of S'" using facts(3) by (auto simp: keys_of_def)
  have "settle rows e = e" if "e \<in> set (st_elements S')" for e
  proof (cases "last_row rows (el_key e)")
    case (Some r)
    then have "el_key e \<in> el_key ` set rows" using last_row_None [of rows "el_key e"] by auto
    then have "belongs ds mv e" using rows belongs_key by (metis imageE)
    then have "e = r\<lparr>el_id := el_id e\<rparr>" using facts(4) that Some by (metis option.inject)
    then show ?thesis unfolding settle_def Some option.case by (rule sym)
  qed (simp add: settle_def)
  then have "map (settle rows) (st_elements S') = st_elements S'" by (simp add: map_idI)
  then have T: "snd (upsert_all rows S') = S'" using upsert_all_present [OF keys] by simp
  have "filter (\<lambda>e. belongs ds mv e \<longrightarrow> el_key e \<in> el_key ` set rows) (st_elements S') = st_elements S'"
    using facts(3) by (intro filter_True) blast
  then have "st_elements (delete_stale ds mv (fst (upsert_all rows S')) S') = st_elements S'"
    using delete_stale_elements [OF facts(1), of ds mv rows] T by simp
  then have D: "delete_stale ds mv (fst (upsert_all rows S')) S' = S'"
    by (simp add: delete_stale_def)
  have E: "filter (\<lambda>e. fst e \<noteq> ds) (st_edges S') @ map (Pair ds) edges = st_edges S'"
    by (simp add: facts(6) filter_empty_conv)
  show ?thesis
    using T D E upsert_all_facts(3) [OF facts(1), of rows] facts(2)
    by (simp add: write_index_def Let_def case_prod_unfold)
qed

lemma row_element_belongs:
  "r \<in> set (build_rows ds patterns snap) \<Longrightarrow> belongs ds mv (row_element mv r v)"
  by (auto simp: build_rows_def row_element_def belongs_def)

text \<open>A run that writes, in terms of \<open>write_index\<close>.\<close>

lemma index_writes:
  assumes "fst (index width ds patterns em snap S) = Inr rep" and "build_rows ds patterns snap \<noteq> []"
  obtains vs where "em_embed em (map row_text (build_rows ds patterns snap)) = Inr vs"
    "length vs = length (build_rows ds patterns snap)"
    "\<And>S'. index width ds patterns em snap S' =
       (let (n, removed, T) = write_index ds (em_model em)
          (map (\<lambda>(r, v). row_element (em_model em) r v) (zip (build_rows ds patterns snap) vs))
          (distinct_edges (snap_foreign_keys snap)) S'
        in (Inr \<lparr>ir_model = em_model em, ir_tables = length (snap_tables snap),
              ir_columns = column_count snap, ir_written = n, ir_removed = removed,
              ir_edges = length (distinct_edges (snap_foreign_keys snap))\<rparr>, T))"
proof -
  obtain vs where "em_embed em (map row_text (build_rows ds patterns snap)) = Inr vs"
      "length vs = length (build_rows ds patterns snap)" "assert_dimensions width em = None"
    using assms by (auto simp: index_def Let_def split: option.splits sum.splits if_splits)
  then show thesis using assms(2) by (intro that [of vs]) (simp_all add: index_def Let_def)
qed

lemma index_effect:
  assumes ok: "store_ok S" and run: "index width ds patterns em snap S = (Inr rep, S')"
    and rows: "build_rows ds patterns snap \<noteq> []"
  shows "\<exists>vs. em_embed em (map row_text (build_rows ds patterns snap)) = Inr vs
    \<and> (let written = map (\<lambda>(r, v). row_element (em_model em) r v) (zip (build_rows ds patterns snap) vs) in
       store_ok S' \<and> ir_written rep = length (build_rows ds patterns snap)
       \<and> el_key ` {e \<in> set (st_elements S'). belongs ds (em_model em) e} = el_key ` set written
       \<and> (\<forall>e \<in> set (st_elements S'). belongs ds (em_model em) e \<longrightarrow>
            (\<exists>r. last_row written (el_key e) = Some r \<and> e = r\<lparr>el_id := el_id e\<rparr>))
       \<and> filter (\<lambda>e. \<not> belongs ds (em_model em) e) (st_elements S')
           = filter (\<lambda>e. \<not> belongs ds (em_model em) e) (st_elements S)
       \<and> st_edges S' = filter (\<lambda>e. fst e \<noteq> ds) (st_edges S)
           @ map (Pair ds) (distinct_edges (snap_foreign_keys snap)))"
proof -
  let ?rows = "build_rows ds patterns snap"
  have "fst (index width ds patterns em snap S) = Inr rep" using run by simp
  then obtain vs where vs: "em_embed em (map row_text ?rows) = Inr vs" "length vs = length ?rows"
    and w: "\<And>S'. index width ds patterns em snap S' =
       (let (n, removed, T) = write_index ds (em_model em)
          (map (\<lambda>(r, v). row_element (em_model em) r v) (zip ?rows vs))
          (distinct_edges (snap_foreign_keys snap)) S'
        in (Inr \<lparr>ir_model = em_model em, ir_tables = length (snap_tables snap),
              ir_columns = column_count snap, ir_written = n, ir_removed = removed,
              ir_edges = length (distinct_edges (snap_foreign_keys snap))\<rparr>, T))"
    using rows by (rule index_writes) auto
  let ?W = "map (\<lambda>(r, v). row_element (em_model em) r v) (zip ?rows vs)"
  obtain n removed T where wr: "write_index ds (em_model em) ?W (distinct_edges (snap_foreign_keys snap)) S
      = (n, removed, T)" by (metis prod_cases3)
  have T: "S' = T" "ir_written rep = n" using run w [of S] wr by auto
  have bel: "\<forall>r \<in> set ?W. belongs ds (em_model em) r"
    by (auto intro: row_element_belongs dest: set_zip_leftD)
  show ?thesis
    using write_index_facts [OF ok bel wr] vs T
    by (intro exI [of _ vs]) (simp add: Let_def)
qed

section \<open>Properties\<close>

text \<open>Indexing replaces one catalog and touches no other. After a run that wrote, the rows of this
  dataset and model have exactly the keys of the snapshot's elements, each holding the text and
  vector of the last element with its key; rows of any other dataset or model are unchanged; the
  dataset's edges are the snapshot's distinct edges; keys and ids stay unique.\<close>

theorem index_replaces:
  assumes ok: "store_ok S" and run: "index width ds patterns em snap S = (Inr rep, S')"
    and rows: "build_rows ds patterns snap \<noteq> []"
  shows "\<exists>vs. em_embed em (map row_text (build_rows ds patterns snap)) = Inr vs
    \<and> (let written = map (\<lambda>(r, v). row_element (em_model em) r v) (zip (build_rows ds patterns snap) vs) in
       store_ok S' \<and> ir_written rep = length (build_rows ds patterns snap)
       \<and> el_key ` {e \<in> set (st_elements S'). belongs ds (em_model em) e} = el_key ` set written
       \<and> (\<forall>e \<in> set (st_elements S'). belongs ds (em_model em) e \<longrightarrow>
            (\<exists>r. last_row written (el_key e) = Some r \<and> e = r\<lparr>el_id := el_id e\<rparr>))
       \<and> filter (\<lambda>e. \<not> belongs ds (em_model em) e) (st_elements S')
           = filter (\<lambda>e. \<not> belongs ds (em_model em) e) (st_elements S)
       \<and> st_edges S' = filter (\<lambda>e. fst e \<noteq> ds) (st_edges S)
           @ map (Pair ds) (distinct_edges (snap_foreign_keys snap)))"
  by (rule index_effect [OF ok run rows])

text \<open>Indexing the same snapshot again changes nothing: the store after the second run is the store
  after the first, ids included, and the second report counts no removal.\<close>

theorem index_idempotent:
  assumes ok: "store_ok S" and run: "index width ds patterns em snap S = (Inr rep, S')"
  shows "\<exists>rep'. index width ds patterns em snap S' = (Inr rep', S') \<and> ir_removed rep' = 0"
proof (cases "build_rows ds patterns snap = []")
  case True
  then show ?thesis using run by (auto simp: index_def Let_def split: option.splits)
next
  case rows: False
  let ?rows = "build_rows ds patterns snap"
  have "fst (index width ds patterns em snap S) = Inr rep" using run by simp
  then obtain vs where w: "\<And>S'. index width ds patterns em snap S' =
       (let (n, removed, T) = write_index ds (em_model em)
          (map (\<lambda>(r, v). row_element (em_model em) r v) (zip ?rows vs))
          (distinct_edges (snap_foreign_keys snap)) S'
        in (Inr \<lparr>ir_model = em_model em, ir_tables = length (snap_tables snap),
              ir_columns = column_count snap, ir_written = n, ir_removed = removed,
              ir_edges = length (distinct_edges (snap_foreign_keys snap))\<rparr>, T))"
    using rows by (rule index_writes) auto
  let ?W = "map (\<lambda>(r, v). row_element (em_model em) r v) (zip ?rows vs)"
  obtain n removed T where wr: "write_index ds (em_model em) ?W (distinct_edges (snap_foreign_keys snap)) S
      = (n, removed, T)" by (metis prod_cases3)
  have T: "S' = T" using run w [of S] wr by auto
  have bel: "\<forall>r \<in> set ?W. belongs ds (em_model em) r"
    by (auto intro: row_element_belongs dest: set_zip_leftD)
  show ?thesis using write_index_again [OF ok bel wr] w [of T] by (simp add: T)
qed

text \<open>A store with a stale row of the same catalog and a row of another dataset; a snapshot of one
  table with one column.\<close>

definition toy_embedder :: "nat embedder" where
  "toy_embedder = \<lparr>em_model = ''m'', em_dimensions = 3, em_embed = (\<lambda>ts. Inr (map length ts))\<rparr>"

definition toy_store :: "nat store" where
  "toy_store = \<lparr>st_elements = [
     \<lparr>el_id = 0, el_dataset = ''d'', el_type = ''table'', el_table = ''old'', el_column = None,
      el_data_type = None, el_comment = None, el_serialized = [], el_embedding = 0, el_model = ''m''\<rparr>,
     \<lparr>el_id = 1, el_dataset = ''e'', el_type = ''table'', el_table = ''t'', el_column = None,
      el_data_type = None, el_comment = None, el_serialized = [], el_embedding = 0, el_model = ''m''\<rparr>],
     st_edges = [], st_next = 2\<rparr>"

definition toy_snapshot :: schema_snapshot where
  "toy_snapshot = \<lparr>snap_tables = [\<lparr>tab_name = ''t'', tab_comment = None, tab_columns = []\<rparr>],
     snap_foreign_keys = []\<rparr>"

lemma toy_store_ok: "store_ok toy_store"
  by (simp add: store_ok_def toy_store_def el_key_def)

lemma toy_index: "\<exists>rep. index (Some ''vector(3)'') ''d'' [] toy_embedder toy_snapshot toy_store
    = (Inr rep, snd (index (Some ''vector(3)'') ''d'' [] toy_embedder toy_snapshot toy_store))"
proof -
  have "read_width ''vector(3)'' = Some 3"
    by (simp add: read_width_def Let_def newline_def is_digit_def char_eval)
  then have "assert_dimensions (Some ''vector(3)'') toy_embedder = None"
    by (simp add: assert_dimensions_def toy_embedder_def)
  then show ?thesis
    by (simp add: index_def Let_def toy_embedder_def toy_snapshot_def build_rows_def split: prod.splits)
qed

theorem index_replaces_witness:
  "el_table ` {e \<in> set (st_elements (snd (index (Some ''vector(3)'') ''d'' [] toy_embedder toy_snapshot
      toy_store))). belongs ''d'' ''m'' e} = {''t''}"
proof -
  let ?S' = "snd (index (Some ''vector(3)'') ''d'' [] toy_embedder toy_snapshot toy_store)"
  obtain rep where run: "index (Some ''vector(3)'') ''d'' [] toy_embedder toy_snapshot toy_store
      = (Inr rep, ?S')" using toy_index by blast
  have "build_rows ''d'' [] toy_snapshot \<noteq> []" by (simp add: build_rows_def toy_snapshot_def)
  from index_replaces [OF toy_store_ok run this]
  have "el_key ` {e \<in> set (st_elements ?S'). belongs ''d'' ''m'' e} = {(''d'', ''t'', None, ''m'')}"
    by (auto simp: toy_embedder_def build_rows_def toy_snapshot_def row_element_def el_key_def Let_def)
  then have "(\<lambda>k. fst (snd k)) ` (el_key ` {e \<in> set (st_elements ?S'). belongs ''d'' ''m'' e}) = {''t''}"
    by simp
  then show ?thesis by (simp add: image_image el_key_def)
qed

theorem index_idempotent_witness:
  "snd (index (Some ''vector(3)'') ''d'' [] toy_embedder toy_snapshot
      (snd (index (Some ''vector(3)'') ''d'' [] toy_embedder toy_snapshot toy_store)))
   = snd (index (Some ''vector(3)'') ''d'' [] toy_embedder toy_snapshot toy_store)"
proof -
  obtain rep where run: "index (Some ''vector(3)'') ''d'' [] toy_embedder toy_snapshot toy_store
      = (Inr rep, snd (index (Some ''vector(3)'') ''d'' [] toy_embedder toy_snapshot toy_store))"
    using toy_index by blast
  from index_idempotent [OF toy_store_ok run] show ?thesis by auto
qed

end
