(* ===== verification/Retrieval.thy ===== *)
theory Retrieval
  imports Indexer "HOL-Library.List_Lexorder" "HOL-Library.Product_Lexorder"
begin

text \<open>
  Schema retrieval, \<open>src/schema/retrieval.py\<close>, on the store the indexer writes. The nearest
  neighbour statement is answered by the vector extension and is an argument: its parameters are
  a record, its answer the list of returned rows with their scores. The join-path statement is
  plain SQL over the stored edges and is modelled as it is written.
\<close>

section \<open>Bounds and arguments\<close>

definition default_k :: int where
  "default_k = 10"

definition max_k :: int where
  "max_k = 50"

definition max_table_filter :: nat where
  "max_table_filter = 50"

definition max_ef_search :: int where
  "max_ef_search = 1000"

definition clamp :: "int \<Rightarrow> int \<Rightarrow> int \<Rightarrow> int" where
  "clamp v low high = max low (min v high)"

definition clean_table_filter :: "string list option \<Rightarrow> exn + string list option" where
  "clean_table_filter table_filter =
     (case table_filter of
        None \<Rightarrow> Inr None
      | Some names \<Rightarrow>
         (let cleaned = fromkeys (map strip names) in
          if cleaned = [] \<or> (\<exists>n \<in> set cleaned. n = [])
          then Inl (OtherError ''ValueError''
            ''table_filter must contain non-empty table names, or be None'')
          else if length cleaned > max_table_filter
          then Inl (OtherError ''ValueError''
            (''table_filter accepts at most '' @ show_nat max_table_filter @ '' tables''))
          else Inr (Some cleaned)))"

section \<open>Results\<close>

record retrieved_element =
  re_type :: string
  re_table :: string
  re_column :: "string option"
  re_data_type :: "string option"
  re_comment :: "string option"
  re_serialized :: string
  re_score :: rat

definition element_name :: "retrieved_element \<Rightarrow> string" where
  "element_name e = (case re_column e of None \<Rightarrow> re_table e | Some c \<Rightarrow> re_table e @ ''.'' @ c)"

record retrieval_result =
  rr_elements :: "retrieved_element list"
  rr_foreign_keys :: "foreign_key list"

definition result_tables :: "retrieval_result \<Rightarrow> string list" where
  "result_tables r = fromkeys (map re_table (rr_elements r))"

text \<open>The sort key: best score first, then table, then column, a table element's column being
  the empty text. Text compares by code point.\<close>

definition rank_key :: "retrieved_element \<Rightarrow> rat \<times> nat list \<times> nat list" where
  "rank_key e = (- re_score e, map code (re_table e), map code (of_option [] (re_column e)))"

definition rank :: "retrieved_element list \<Rightarrow> retrieved_element list" where
  "rank rows = sort_key rank_key rows"

section \<open>The retriever\<close>

record 'v search_params =
  sp_vec :: 'v
  sp_dataset :: string
  sp_model :: string
  sp_k :: int
  sp_tables :: "string list option"
  sp_ef_search :: int
  sp_iterative :: bool

record 'v retriever =
  rt_embedder :: "'v embedder"
  rt_is_zero :: "'v \<Rightarrow> bool"
  rt_dataset :: string
  rt_default_k :: int
  rt_ef_search :: int
  rt_iterative :: bool
  rt_nearest :: "'v search_params \<Rightarrow> exn + retrieved_element list"

definition make_retriever ::
  "'v embedder \<Rightarrow> ('v \<Rightarrow> bool) \<Rightarrow> string \<Rightarrow> int \<Rightarrow> int \<Rightarrow> bool
     \<Rightarrow> ('v search_params \<Rightarrow> exn + retrieved_element list) \<Rightarrow> 'v retriever" where
  "make_retriever em zero dataset k ef iterative nearest =
     \<lparr>rt_embedder = em, rt_is_zero = zero, rt_dataset = dataset, rt_default_k = clamp k 1 max_k,
      rt_ef_search = clamp ef 1 max_ef_search, rt_iterative = iterative, rt_nearest = nearest\<rparr>"

definition embed_query :: "'v retriever \<Rightarrow> string \<Rightarrow> exn + 'v" where
  "embed_query R text =
     (case em_embed (rt_embedder R) [text] of
        Inl e \<Rightarrow> Inl e
      | Inr vectors \<Rightarrow>
         (case vectors of
            [v] \<Rightarrow>
              if rt_is_zero R v
              then Inl (RetrievalError (''query '' @ py_repr text
                @ '' produced a zero vector -- it is too short or has no content the retriever recognises''))
              else Inr v
          | _ \<Rightarrow> Inl (RetrievalError
              (''embedder returned '' @ show_nat (length vectors) @ '' vectors for one query''))))"

text \<open>The join paths with both ends among the tables, ordered by their four names.\<close>

definition edge_sort_key :: "foreign_key \<Rightarrow> nat list \<times> nat list \<times> nat list \<times> nat list" where
  "edge_sort_key fk = (map code (from_table fk), map code (from_column fk),
     map code (to_table fk), map code (to_column fk))"

definition foreign_keys :: "string \<Rightarrow> 'v store \<Rightarrow> string list \<Rightarrow> foreign_key list" where
  "foreign_keys dataset S tables =
     (if tables = [] then []
      else sort_key edge_sort_key (map snd (filter (\<lambda>(d, fk). d = dataset
             \<and> from_table fk \<in> set tables \<and> to_table fk \<in> set tables) (st_edges S))))"

definition search ::
  "'v retriever \<Rightarrow> 'v store \<Rightarrow> string \<Rightarrow> int option \<Rightarrow> string list option \<Rightarrow> exn + retrieval_result" where
  "search R S query k table_filter =
     (let text = strip query in
      if text = [] then Inl (OtherError ''ValueError'' ''query must not be blank'')
      else case clean_table_filter table_filter of
        Inl e \<Rightarrow> Inl e
      | Inr tables \<Rightarrow>
         (let limit = clamp (case k of None \<Rightarrow> rt_default_k R | Some n \<Rightarrow> n) 1 max_k in
          case embed_query R text of
            Inl e \<Rightarrow> Inl e
          | Inr v \<Rightarrow>
             (case rt_nearest R \<lparr>sp_vec = v, sp_dataset = rt_dataset R, sp_model = em_model (rt_embedder R),
                  sp_k = limit, sp_tables = tables, sp_ef_search = max (rt_ef_search R) limit,
                  sp_iterative = rt_iterative R\<rparr> of
                Inl e \<Rightarrow> Inl e
              | Inr rows \<Rightarrow>
                 (let elements = rank rows in
                  Inr \<lparr>rr_elements = elements,
                    rr_foreign_keys = foreign_keys (rt_dataset R) S
                      (fromkeys (map re_table elements))\<rparr>))))"

section \<open>What the search statement answers\<close>

text \<open>The WHERE and LIMIT clauses: at most \<open>k\<close> rows, each a row of the store for this dataset and
  model whose table passes the filter. Which rows, and their scores, is the extension's choice.\<close>

definition from_store :: "'v store \<Rightarrow> 'v search_params \<Rightarrow> retrieved_element \<Rightarrow> bool" where
  "from_store S p e \<longleftrightarrow> (\<exists>x \<in> set (st_elements S). belongs (sp_dataset p) (sp_model p) x
     \<and> re_table e = el_table x \<and> re_column e = el_column x \<and> re_serialized e = el_serialized x)
     \<and> (case sp_tables p of None \<Rightarrow> True | Some ts \<Rightarrow> re_table e \<in> set ts)"

definition nearest_ok :: "'v store \<Rightarrow> ('v search_params \<Rightarrow> exn + retrieved_element list) \<Rightarrow> bool" where
  "nearest_ok S nearest \<longleftrightarrow> (\<forall>p rows. nearest p = Inr rows \<longrightarrow>
     int (length rows) \<le> max 0 (sp_k p) \<and> (\<forall>e \<in> set rows. from_store S p e))"

section \<open>Facts\<close>

lemma clamp_range: "low \<le> high \<Longrightarrow> low \<le> clamp v low high \<and> clamp v low high \<le> high"
  by (simp add: clamp_def)

lemma set_rank [simp]: "set (rank rows) = set rows"
  by (simp add: rank_def)

lemma rank_mset: "mset (rank rows) = mset rows"
  by (simp add: rank_def)

lemma clean_table_filter_ok:
  "clean_table_filter f = Inr (Some ts) \<Longrightarrow>
     \<exists>names. f = Some names \<and> set ts = strip ` set names \<and> ts \<noteq> [] \<and> [] \<notin> set ts \<and> length ts \<le> 50"
  by (auto simp: clean_table_filter_def Let_def max_table_filter_def split: option.splits if_splits)

lemma clean_table_filter_none: "clean_table_filter f = Inr None \<Longrightarrow> f = None"
  by (auto simp: clean_table_filter_def Let_def split: option.splits if_splits)

lemma set_foreign_keys:
  "set (foreign_keys ds S ts) = {fk. (ds, fk) \<in> set (st_edges S) \<and> from_table fk \<in> set ts \<and> to_table fk \<in> set ts}"
proof -
  have "snd ` {x \<in> E. case x of (d, fk) \<Rightarrow> d = ds \<and> P fk \<and> Q fk} = {fk. (ds, fk) \<in> E \<and> P fk \<and> Q fk}"
    for E :: "(string \<times> foreign_key) set" and P Q by force
  then show ?thesis by (simp add: foreign_keys_def)
qed

lemma search_success:
  assumes "search R S query k tf = Inr res"
  obtains v tables rows where "strip query \<noteq> []" "clean_table_filter tf = Inr tables"
    "embed_query R (strip query) = Inr v"
    "rt_nearest R \<lparr>sp_vec = v, sp_dataset = rt_dataset R, sp_model = em_model (rt_embedder R),
       sp_k = clamp (case k of None \<Rightarrow> rt_default_k R | Some n \<Rightarrow> n) 1 max_k, sp_tables = tables,
       sp_ef_search = max (rt_ef_search R) (clamp (case k of None \<Rightarrow> rt_default_k R | Some n \<Rightarrow> n) 1 max_k),
       sp_iterative = rt_iterative R\<rparr> = Inr rows"
    "res = \<lparr>rr_elements = rank rows, rr_foreign_keys = foreign_keys (rt_dataset R) S
       (fromkeys (map re_table (rank rows)))\<rparr>"
  using assms by (auto simp: search_def Let_def split: if_splits sum.splits)

lemma search_elements:
  assumes near: "nearest_ok S (rt_nearest R)" and run: "search R S query k tf = Inr res"
    and e: "e \<in> set (rr_elements res)"
  shows "\<exists>x \<in> set (st_elements S). belongs (rt_dataset R) (em_model (rt_embedder R)) x
     \<and> re_table e = el_table x \<and> re_column e = el_column x \<and> re_serialized e = el_serialized x"
proof -
  obtain p rows where rows: "rt_nearest R p = Inr rows" "res = \<lparr>rr_elements = rank rows,
      rr_foreign_keys = foreign_keys (rt_dataset R) S (fromkeys (map re_table (rank rows)))\<rparr>"
    and p: "sp_dataset p = rt_dataset R" "sp_model p = em_model (rt_embedder R)"
    using search_success [OF run] by (metis search_params.select_convs(2,3))
  have "from_store S p e" using near rows e by (simp add: nearest_ok_def)
  then show ?thesis by (auto simp: from_store_def p)
qed

lemma search_edges:
  "search R S query k tf = Inr res \<Longrightarrow> set (rr_foreign_keys res) = {fk. (rt_dataset R, fk) \<in> set (st_edges S)
     \<and> from_table fk \<in> re_table ` set (rr_elements res) \<and> to_table fk \<in> re_table ` set (rr_elements res)}"
  by (erule search_success) (simp add: set_foreign_keys)

section \<open>Properties\<close>

text \<open>C9: a successful search returns at most the clamped number of elements and never more than
  fifty, best score first with ties in name order, each taken from the catalog of the retriever's
  own dataset and model and, under a filter, from a named table; and the join paths are exactly
  the dataset's edges both of whose tables were retrieved.\<close>

theorem search_is_contained:
  assumes near: "nearest_ok S (rt_nearest R)" and run: "search R S query k tf = Inr res"
  shows "int (length (rr_elements res)) \<le> clamp (case k of None \<Rightarrow> rt_default_k R | Some n \<Rightarrow> n) 1 max_k
    \<and> length (rr_elements res) \<le> 50
    \<and> sorted (map rank_key (rr_elements res))
    \<and> (\<forall>e \<in> set (rr_elements res).
         (\<exists>x \<in> set (st_elements S). belongs (rt_dataset R) (em_model (rt_embedder R)) x
            \<and> re_table e = el_table x \<and> re_column e = el_column x \<and> re_serialized e = el_serialized x)
         \<and> (\<forall>names. tf = Some names \<longrightarrow> re_table e \<in> strip ` set names))
    \<and> set (rr_foreign_keys res) = {fk. (rt_dataset R, fk) \<in> set (st_edges S)
         \<and> from_table fk \<in> set (result_tables res) \<and> to_table fk \<in> set (result_tables res)}"
proof -
  let ?limit = "clamp (case k of None \<Rightarrow> rt_default_k R | Some n \<Rightarrow> n) 1 max_k"
  obtain v tables rows where tables: "clean_table_filter tf = Inr tables"
    and n: "rt_nearest R \<lparr>sp_vec = v, sp_dataset = rt_dataset R, sp_model = em_model (rt_embedder R),
       sp_k = ?limit, sp_tables = tables, sp_ef_search = max (rt_ef_search R) ?limit,
       sp_iterative = rt_iterative R\<rparr> = Inr rows"
    and res: "res = \<lparr>rr_elements = rank rows, rr_foreign_keys = foreign_keys (rt_dataset R) S
       (fromkeys (map re_table (rank rows)))\<rparr>"
    using search_success [OF run] by metis
  have lim: "1 \<le> ?limit" "?limit \<le> 50"
    using clamp_range [of 1 max_k "case k of None \<Rightarrow> rt_default_k R | Some n \<Rightarrow> n"]
    by (simp_all add: max_k_def)
  have rows: "int (length rows) \<le> ?limit"
    "\<forall>e \<in> set rows. (\<exists>x \<in> set (st_elements S). belongs (rt_dataset R) (em_model (rt_embedder R)) x
            \<and> re_table e = el_table x \<and> re_column e = el_column x \<and> re_serialized e = el_serialized x)
       \<and> (case tables of None \<Rightarrow> True | Some ts \<Rightarrow> re_table e \<in> set ts)"
    using near n lim by (fastforce simp: nearest_ok_def from_store_def)+
  have filter: "re_table e \<in> strip ` set names" if "e \<in> set rows" "tf = Some names" for e names
    using rows(2) that tables clean_table_filter_ok [of tf] clean_table_filter_none [of tf]
    by (cases tables) fastforce+
  have len: "length (rank rows) = length rows" by (simp add: rank_def)
  have edges: "set (rr_foreign_keys res) = {fk. (rt_dataset R, fk) \<in> set (st_edges S)
         \<and> from_table fk \<in> set (result_tables res) \<and> to_table fk \<in> set (result_tables res)}"
    by (simp add: res set_foreign_keys result_tables_def del: set_rank)
  show ?thesis
    using rows lim filter len edges by (simp add: res) (simp add: rank_def)
qed

definition toy_retriever :: "nat retriever" where
  "toy_retriever = make_retriever (toy_embedder\<lparr>em_model := ''m''\<rparr>) (\<lambda>v. v = 0) ''e'' 10 40 True
     (\<lambda>p. if sp_dataset p = ''e'' \<and> sp_model p = ''m'' \<and> sp_tables p = None \<and> 1 \<le> sp_k p
        then Inr [\<lparr>re_type = ''table'', re_table = ''t'', re_column = None, re_data_type = None,
          re_comment = None, re_serialized = [], re_score = 1\<rparr>] else Inr [])"

theorem search_is_contained_witness:
  "\<exists>res. search toy_retriever toy_store ''q'' (Some 80) None = Inr res \<and> length (rr_elements res) \<le> 50"
proof -
  have q: "strip ''q'' = ''q''" by (simp add: strip_def lstrip_def rstrip_def py_space_def code_def)
  obtain res where run: "search toy_retriever toy_store ''q'' (Some 80) None = Inr res"
    by (simp add: search_def Let_def q clean_table_filter_def toy_retriever_def make_retriever_def
        embed_query_def toy_embedder_def clamp_def max_k_def max_ef_search_def)
  have "nearest_ok toy_store (rt_nearest toy_retriever)"
    by (simp add: nearest_ok_def from_store_def toy_retriever_def make_retriever_def toy_store_def
        belongs_def)
  from search_is_contained [OF this run] run show ?thesis by blast
qed

end
