(* ===== verification/Settings.thy ===== *)
theory Settings
  imports Exceptions
begin

text \<open>
  The validated settings of \<open>src/core/settings.py\<close>: the field ranges pydantic enforces
  (\<open>..._fields\<close>), the model validators (\<open>check_...\<close>), the clamps every caller-supplied
  bound goes through, and the safety check of the model endpoint. The locale
  \<open>request_clamp\<close> is the contract the clamps share.
  URL parsing, name resolution and the classification of an address are arguments.
\<close>

section \<open>Limits on one query\<close>

record execution_settings =
  max_rows_default :: int
  max_rows_ceiling :: int
  statement_timeout_ms :: int
  statement_timeout_ceiling_ms :: int
  max_estimated_cost :: rat

definition execution_fields :: "execution_settings \<Rightarrow> bool" where
  "execution_fields s \<longleftrightarrow> 1 \<le> max_rows_default s \<and> 1 \<le> max_rows_ceiling s
     \<and> 100 \<le> statement_timeout_ms s \<and> 100 \<le> statement_timeout_ceiling_ms s
     \<and> 0 < max_estimated_cost s"

definition check_ceilings :: "execution_settings \<Rightarrow> exn + execution_settings" where
  "check_ceilings s =
     (if max_rows_default s > max_rows_ceiling s
      then Inl (ConfigurationError ''MAX_ROWS_DEFAULT must be <= MAX_ROWS_CEILING'')
      else if statement_timeout_ms s > statement_timeout_ceiling_ms s
      then Inl (ConfigurationError
             ''STATEMENT_TIMEOUT_MS must be <= STATEMENT_TIMEOUT_CEILING_MS'')
      else Inr s)"

text \<open>What the constructor of the class lets through.\<close>

definition execution_ok :: "execution_settings \<Rightarrow> bool" where
  "execution_ok s \<longleftrightarrow> execution_fields s \<and> check_ceilings s = Inr s"

definition clamp_rows :: "execution_settings \<Rightarrow> int option \<Rightarrow> int" where
  "clamp_rows s requested =
     (case requested of None \<Rightarrow> max_rows_default s
      | Some r \<Rightarrow> max 1 (min r (max_rows_ceiling s)))"

definition clamp_timeout_ms :: "execution_settings \<Rightarrow> int option \<Rightarrow> int" where
  "clamp_timeout_ms s requested =
     (case requested of None \<Rightarrow> statement_timeout_ms s
      | Some r \<Rightarrow> max 100 (min r (statement_timeout_ceiling_ms s)))"

definition default_execution :: execution_settings where
  "default_execution = \<lparr>max_rows_default = 500, max_rows_ceiling = 5000,
     statement_timeout_ms = 30000, statement_timeout_ceiling_ms = 60000,
     max_estimated_cost = 1000000\<rparr>"

section \<open>Bounds on a table profile\<close>

record profiling_settings =
  profile_scan_limit :: int
  profile_max_columns :: int
  profile_max_value_chars :: int
  profile_top_k :: int
  profile_min_value_frequency :: int
  profile_allow_value_sampling :: bool
  profile_sample_rows :: int
  profile_timeout_ms :: int

definition profiling_fields :: "profiling_settings \<Rightarrow> bool" where
  "profiling_fields s \<longleftrightarrow>
     1 \<le> profile_scan_limit s \<and> profile_scan_limit s \<le> 1000000
     \<and> 1 \<le> profile_max_columns s \<and> profile_max_columns s \<le> 200
     \<and> 1 \<le> profile_max_value_chars s \<and> profile_max_value_chars s \<le> 200
     \<and> 0 \<le> profile_top_k s \<and> profile_top_k s \<le> 20
     \<and> 2 \<le> profile_min_value_frequency s \<and> profile_min_value_frequency s \<le> 100000
     \<and> 0 \<le> profile_sample_rows s \<and> profile_sample_rows s \<le> 20
     \<and> 100 \<le> profile_timeout_ms s \<and> profile_timeout_ms s \<le> 120000"

definition default_profiling :: profiling_settings where
  "default_profiling = \<lparr>profile_scan_limit = 5000, profile_max_columns = 30,
     profile_max_value_chars = 40, profile_top_k = 5, profile_min_value_frequency = 5,
     profile_allow_value_sampling = False, profile_sample_rows = 5,
     profile_timeout_ms = 10000\<rparr>"

definition clamp_sample_rows :: "profiling_settings \<Rightarrow> int option \<Rightarrow> int" where
  "clamp_sample_rows s requested =
     (if \<not> profile_allow_value_sampling s then 0
      else case requested of None \<Rightarrow> profile_sample_rows s
      | Some r \<Rightarrow> max 0 (min r (profile_sample_rows s)))"

definition clamp_columns :: "profiling_settings \<Rightarrow> int option \<Rightarrow> int" where
  "clamp_columns s requested =
     (case requested of None \<Rightarrow> profile_max_columns s
      | Some r \<Rightarrow> max 1 (min r (profile_max_columns s)))"

section \<open>The contract of a clamp\<close>

text \<open>
  A clamp reads an optional request against a floor, a ceiling and a default. Valid
  settings keep the default between the two.
\<close>

locale request_clamp =
  fixes ok :: "'s \<Rightarrow> bool"
    and clamp :: "'s \<Rightarrow> int option \<Rightarrow> int"
    and floor_of ceiling_of default_of :: "'s \<Rightarrow> int"
  assumes clamp_None: "ok s \<Longrightarrow> clamp s None = default_of s"
    and clamp_Some: "ok s \<Longrightarrow> clamp s (Some r) = max (floor_of s) (min r (ceiling_of s))"
    and default_low: "ok s \<Longrightarrow> floor_of s \<le> default_of s"
    and default_high: "ok s \<Longrightarrow> default_of s \<le> ceiling_of s"
begin

lemma in_range: "ok s \<Longrightarrow> floor_of s \<le> clamp s r \<and> clamp s r \<le> ceiling_of s"
  using default_low [of s] default_high [of s]
  by (cases r) (auto simp: clamp_None clamp_Some)

lemma never_widens: "ok s \<Longrightarrow> floor_of s \<le> r \<Longrightarrow> clamp s (Some r) \<le> r"
  by (simp add: clamp_Some)

lemma honours: "ok s \<Longrightarrow> floor_of s \<le> r \<Longrightarrow> r \<le> ceiling_of s \<Longrightarrow> clamp s (Some r) = r"
  by (simp add: clamp_Some)

lemma idempotent: "ok s \<Longrightarrow> clamp s (Some (clamp s r)) = clamp s r"
  using in_range [of s r] by (intro honours) auto

end

lemma execution_okD:
  assumes "execution_ok s"
  shows "1 \<le> max_rows_default s" "max_rows_default s \<le> max_rows_ceiling s"
    "100 \<le> statement_timeout_ms s" "statement_timeout_ms s \<le> statement_timeout_ceiling_ms s"
    "0 < max_estimated_cost s"
  using assms
  by (auto simp: execution_ok_def execution_fields_def check_ceilings_def split: if_splits)

interpretation rows_clamp: request_clamp execution_ok clamp_rows "\<lambda>_. 1" max_rows_ceiling
  max_rows_default
  by unfold_locales (auto simp: clamp_rows_def dest: execution_okD)

interpretation timeout_clamp: request_clamp execution_ok clamp_timeout_ms "\<lambda>_. 100"
  statement_timeout_ceiling_ms statement_timeout_ms
  by unfold_locales (auto simp: clamp_timeout_ms_def dest: execution_okD)

interpretation columns_clamp: request_clamp profiling_fields clamp_columns "\<lambda>_. 1"
  profile_max_columns profile_max_columns
  by unfold_locales (auto simp: clamp_columns_def profiling_fields_def)

interpretation sample_clamp: request_clamp
  "\<lambda>s. profiling_fields s \<and> profile_allow_value_sampling s" clamp_sample_rows "\<lambda>_. 0"
  profile_sample_rows profile_sample_rows
  by unfold_locales (auto simp: clamp_sample_rows_def profiling_fields_def)

lemma default_execution_ok [simp]: "execution_ok default_execution"
  by (simp add: execution_ok_def execution_fields_def check_ceilings_def default_execution_def)

lemma default_profiling_ok [simp]: "profiling_fields default_profiling"
  by (simp add: profiling_fields_def default_profiling_def)

end
