(* ===== verification/Catalog.thy ===== *)
theory Catalog
  imports Settings
begin

text \<open>
  The identifier index of \<open>src/schema/catalog.py\<close>. A catalog is an insertion-ordered
  dictionary from folded table names to the sets of their folded columns; \<open>load_catalog\<close>
  builds it from the rows of the catalog query. The suggestion is computed as
  \<open>difflib.get_close_matches\<close> computes it with \<open>n=1\<close>: the candidate of the greatest
  similarity ratio, ties broken by the greater string, if the ratio reaches the cutoff.
  The locale \<open>name_index\<close> is what validation and profiling rely on.
\<close>

type_synonym schema_catalog = "(string, string set) dict"

section \<open>Similarity\<close>

fun common_prefix :: "string \<Rightarrow> string \<Rightarrow> nat" where
  "common_prefix (x # xs) (y # ys) = (if x = y then Suc (common_prefix xs ys) else 0)"
| "common_prefix _ _ = 0"

text \<open>
  \<open>SequenceMatcher.find_longest_match\<close>: the longest block, earliest in the first text and
  then in the second. Texts of 200 characters and more, where \<open>difflib\<close> drops popular
  characters, are outside the model.
\<close>

definition blocks :: "string \<Rightarrow> string \<Rightarrow> (nat \<times> nat \<times> nat) list" where
  "blocks a b = concat (map (\<lambda>i. map (\<lambda>j. (i, j, common_prefix (drop i a) (drop j b)))
     [0..<length b]) [0..<length a])"

definition longest_match :: "string \<Rightarrow> string \<Rightarrow> nat \<times> nat \<times> nat" where
  "longest_match a b = foldl (\<lambda>best cand. if snd (snd best) < snd (snd cand) then cand else best)
     (0, 0, 0) (blocks a b)"

function match_total :: "string \<Rightarrow> string \<Rightarrow> nat" where
  "match_total a b =
     (let (i, j, k) = longest_match a b in
      if k = 0 \<or> length a \<le> i then 0
      else k + match_total (take i a) (take j b) + match_total (drop (i + k) a) (drop (j + k) b))"
  by pat_completeness auto
termination
  by (relation "measure (\<lambda>(a, b). length a)") auto

declare match_total.simps [simp del]

definition ratio :: "string \<Rightarrow> string \<Rightarrow> rat" where
  "ratio a b =
     (if a = [] \<and> b = [] then 1
      else 2 * of_nat (match_total a b) / of_nat (length a + length b))"

definition suggestion_cutoff :: rat where
  "suggestion_cutoff = 6 / 10"

text \<open>Lexicographic order on text by code point, as Python compares strings.\<close>

fun text_less :: "string \<Rightarrow> string \<Rightarrow> bool" where
  "text_less _ [] = False"
| "text_less [] (y # ys) = True"
| "text_less (x # xs) (y # ys) =
     (code x < code y \<or> code x = code y \<and> text_less xs ys)"

definition better_match :: "string \<Rightarrow> string \<Rightarrow> string \<Rightarrow> bool" where
  "better_match word x y \<longleftrightarrow>
     ratio x word < ratio y word \<or> ratio x word = ratio y word \<and> text_less x y"

fun best_match :: "string \<Rightarrow> string list \<Rightarrow> string option" where
  "best_match word [] = None"
| "best_match word (x # xs) =
     (if ratio x word < suggestion_cutoff then best_match word xs
      else case best_match word xs of
        None \<Rightarrow> Some x
      | Some y \<Rightarrow> if better_match word y x then Some x else Some y)"

definition nearest :: "string \<Rightarrow> string list \<Rightarrow> string option" where
  "nearest name candidates = best_match (casefold name) candidates"

section \<open>The catalog\<close>

definition catalog_tables :: "schema_catalog \<Rightarrow> string set" where
  "catalog_tables cat = set (map fst cat)"

definition is_empty :: "schema_catalog \<Rightarrow> bool" where
  "is_empty cat \<longleftrightarrow> cat = []"

definition has_table :: "schema_catalog \<Rightarrow> string \<Rightarrow> bool" where
  "has_table cat name \<longleftrightarrow> dict_get cat (casefold name) \<noteq> None"

definition columns_or_empty :: "schema_catalog \<Rightarrow> string \<Rightarrow> string set" where
  "columns_or_empty cat table = of_option {} (dict_get cat (casefold table))"

definition has_column :: "schema_catalog \<Rightarrow> string \<Rightarrow> string \<Rightarrow> bool" where
  "has_column cat table column \<longleftrightarrow> casefold column \<in> columns_or_empty cat table"

definition columns_of :: "schema_catalog \<Rightarrow> string list \<Rightarrow> string set" where
  "columns_of cat tables = fold (\<lambda>t found. found \<union> columns_or_empty cat t) tables {}"

definition suggest_table :: "schema_catalog \<Rightarrow> string \<Rightarrow> string option" where
  "suggest_table cat name = nearest name (map fst cat)"

text \<open>
  \<open>list(candidates)\<close> enumerates a set in an order Python does not fix; the choice does not
  depend on it, so the model takes the enumeration as an argument.
\<close>

definition suggest_column ::
  "(string set \<Rightarrow> string list) \<Rightarrow> schema_catalog \<Rightarrow> string \<Rightarrow> string list \<Rightarrow> string option" where
  "suggest_column enum cat name tables = nearest name (enum (columns_of cat tables))"

definition add_row :: "schema_catalog \<Rightarrow> string \<times> string option \<Rightarrow> schema_catalog" where
  "add_row cat row =
     (let key = casefold (fst row); cat' = dict_setdefault cat key {} in
      case snd row of None \<Rightarrow> cat'
      | Some c \<Rightarrow> dict_set cat' key (insert (casefold c) (of_option {} (dict_get cat' key))))"

definition load_catalog :: "(string \<times> string option) list \<Rightarrow> schema_catalog" where
  "load_catalog rows = foldl add_row [] rows"

section \<open>The interface\<close>

text \<open>
  What the clients rely on: names resolve up to case, a column is found only under a table
  that is there, the reachable columns are the union over the tables, and a suggestion is a
  name of the catalog.
\<close>

locale name_index =
  fixes knows :: "'c \<Rightarrow> string \<Rightarrow> bool"
    and knows_col :: "'c \<Rightarrow> string \<Rightarrow> string \<Rightarrow> bool"
    and reach :: "'c \<Rightarrow> string list \<Rightarrow> string set"
    and suggest :: "'c \<Rightarrow> string \<Rightarrow> string option"
  assumes knows_fold: "knows c (casefold t) = knows c t"
    and col_fold: "knows_col c (casefold t) (casefold x) = knows_col c t x"
    and col_table: "knows_col c t x \<Longrightarrow> knows c t"
    and reach_iff: "casefold x \<in> reach c ts \<longleftrightarrow> (\<exists>t \<in> set ts. knows_col c t x)"
    and suggest_known: "suggest c n = Some s \<Longrightarrow> knows c s"
begin

lemma reach_mono: "set ts \<subseteq> set us \<Longrightarrow> casefold x \<in> reach c ts \<Longrightarrow> casefold x \<in> reach c us"
  by (auto simp: reach_iff)

lemma unknown_not_reached: "\<forall>t \<in> set ts. \<not> knows c t \<Longrightarrow> casefold x \<notin> reach c ts"
  by (auto simp: reach_iff dest: col_table)

lemma reach_single: "casefold x \<in> reach c [t] \<longleftrightarrow> knows_col c t x"
  by (simp add: reach_iff)

end

section \<open>Facts\<close>

lemma common_prefix_le: "common_prefix a b \<le> length a" "common_prefix a b \<le> length b"
  by (induction a b rule: common_prefix.induct) auto

lemma best_match_in: "best_match w xs = Some s \<Longrightarrow> s \<in> set xs \<and> \<not> ratio s w < suggestion_cutoff"
proof (induction xs arbitrary: s)
  case Nil
  then show ?case by simp
next
  case (Cons x xs)
  then show ?case
    by (cases "ratio x w < suggestion_cutoff"; cases "best_match w xs") (auto split: if_splits)
qed

lemma best_match_None: "best_match w xs = None \<longleftrightarrow> (\<forall>x \<in> set xs. ratio x w < suggestion_cutoff)"
  by (induction w xs rule: best_match.induct) (auto split: if_splits option.splits)

lemma best_match_max:
  "best_match w xs = Some s \<Longrightarrow> x \<in> set xs \<Longrightarrow> ratio x w \<le> ratio s w"
proof (induction w xs arbitrary: s rule: best_match.induct)
  case (1 w)
  then show ?case by simp
next
  case (2 w y ys)
  show ?case
  proof (cases "ratio y w < suggestion_cutoff")
    case True
    with "2.prems"(1) have "best_match w ys = Some s" by simp
    with True show ?thesis
      using "2.IH"(1) [OF True] "2.prems"(2) best_match_in [of w ys s] by fastforce
  next
    case False
    with "2" show ?thesis
      by (cases "best_match w ys")
         (force simp: best_match_None better_match_def split: if_splits)+
  qed
qed

lemma dict_get_tables: "dict_get cat t \<noteq> None \<longleftrightarrow> t \<in> catalog_tables cat"
  by (auto simp: catalog_tables_def map_of_eq_None_iff)

lemma columns_of_iff: "c \<in> columns_of cat ts \<longleftrightarrow> (\<exists>t \<in> set ts. c \<in> columns_or_empty cat t)"
proof -
  have "fold (\<lambda>t found. found \<union> columns_or_empty cat t) ts S
        = S \<union> (\<Union>t \<in> set ts. columns_or_empty cat t)" for S
    by (induction ts arbitrary: S) auto
  then show ?thesis by (auto simp: columns_of_def)
qed

lemma columns_or_empty_fold [simp]: "columns_or_empty cat (casefold t) = columns_or_empty cat t"
  by (simp add: columns_or_empty_def)

lemma columns_or_empty_known: "c \<in> columns_or_empty cat t \<Longrightarrow> has_table cat t"
  by (auto simp: columns_or_empty_def has_table_def of_option_def split: option.splits)

text \<open>A catalog that was loaded holds folded names only.\<close>

definition folded :: "schema_catalog \<Rightarrow> bool" where
  "folded cat \<longleftrightarrow> distinct (map fst cat)
     \<and> (\<forall>(t, cols) \<in> set cat. casefold t = t \<and> (\<forall>c \<in> cols. casefold c = c))"

lemma suggest_table_known: "folded cat \<Longrightarrow> suggest_table cat n = Some s \<Longrightarrow> has_table cat s"
proof -
  assume cat: "folded cat" and s: "suggest_table cat n = Some s"
  from s have "s \<in> set (map fst cat)"
    unfolding suggest_table_def nearest_def by (blast dest: best_match_in)
  then obtain cols where m: "(s, cols) \<in> set cat" by auto
  with cat have "casefold s = s" by (auto simp: folded_def)
  with m show "has_table cat s"
    by (force simp: has_table_def map_of_eq_None_iff)
qed

lemma set_dict_set: "set (dict_set d k v) \<subseteq> insert (k, v) (set d)"
  by (induction d k v rule: dict_set.induct) auto

lemma folded_setdefault:
  "folded cat \<Longrightarrow> folded (dict_setdefault cat (casefold t) {})"
  unfolding folded_def
  by (auto intro: distinct_dict_setdefault) (auto simp: dict_setdefault_def split: option.splits)

lemma folded_insert:
  "folded cat \<Longrightarrow> folded (dict_set cat (casefold t)
     (insert (casefold c) (of_option {} (dict_get cat (casefold t)))))"
  unfolding folded_def
  by (auto intro: distinct_dict_set simp: of_option_def split: option.splits
           dest!: set_dict_set [THEN subsetD] map_of_SomeD)

lemma folded_add_row: "folded cat \<Longrightarrow> folded (add_row cat row)"
  by (auto simp: add_row_def Let_def intro!: folded_insert folded_setdefault split: option.splits)

lemma folded_load: "folded (load_catalog rows)"
proof -
  have "folded (foldl add_row cat rows)" if "folded cat" for cat
    using that by (induction rows arbitrary: cat) (auto simp: folded_add_row)
  moreover have "folded []" by (simp add: folded_def)
  ultimately show ?thesis by (simp add: load_catalog_def)
qed

lemma add_row_get:
  "dict_get (add_row cat row) t =
     (if t = casefold (fst row)
      then Some (set_option (map_option casefold (snd row)) \<union> of_option {} (dict_get cat t))
      else dict_get cat t)"
  by (auto simp: add_row_def Let_def map_of_dict_setdefault of_option_def split: option.splits)

lemma load_snoc: "load_catalog (rows @ [row]) = add_row (load_catalog rows) row"
  by (simp add: load_catalog_def)

interpretation catalog_index: name_index
  "\<lambda>rows. has_table (load_catalog rows)" "\<lambda>rows. has_column (load_catalog rows)"
  "\<lambda>rows. columns_of (load_catalog rows)" "\<lambda>rows. suggest_table (load_catalog rows)"
  by unfold_locales
     (auto simp: has_table_def has_column_def columns_of_iff
           intro: suggest_table_known [OF folded_load]
           dest: columns_or_empty_known [unfolded has_table_def]
                 suggest_table_known [OF folded_load, unfolded has_table_def])

end
