(* ===== verification/Validation.thy ===== *)
theory Validation
  imports Catalog Sqlglot Json
begin

text \<open>
  The five-stage validator of \<open>src/validation/validator.py\<close>. Each stage is a definition;
  \<open>validate_static\<close> runs the first four in the code's order and \<open>validate\<close> adds the
  planner stage, whose database traffic is returned as a log of statements next to the
  outcome. The database is an argument: the answer to one query under one timeout.
  \<open>stage_ok\<close> states each stage without the order of the code, and the stage reported by a
  failed validation is proved to be the least stage that does not hold.
\<close>

section \<open>Stages and results\<close>

datatype stage = PARSE | SINGLE_STATEMENT | READ_ONLY | IDENTIFIERS | EXPLAIN

fun stage_index :: "stage \<Rightarrow> nat" where
  "stage_index PARSE = 0"
| "stage_index SINGLE_STATEMENT = 1"
| "stage_index READ_ONLY = 2"
| "stage_index IDENTIFIERS = 3"
| "stage_index EXPLAIN = 4"

instantiation stage :: linorder
begin

definition less_eq_stage :: "stage \<Rightarrow> stage \<Rightarrow> bool" where
  "less_eq_stage a b \<longleftrightarrow> stage_index a \<le> stage_index b"

definition less_stage :: "stage \<Rightarrow> stage \<Rightarrow> bool" where
  "less_stage a b \<longleftrightarrow> stage_index a < stage_index b"

instance
proof
  fix a b c :: stage
  show "(a < b) = (a \<le> b \<and> \<not> b \<le> a)" by (auto simp: less_eq_stage_def less_stage_def)
  show "a \<le> a" by (simp add: less_eq_stage_def)
  show "a \<le> b \<Longrightarrow> b \<le> c \<Longrightarrow> a \<le> c" by (simp add: less_eq_stage_def)
  show "a \<le> b \<Longrightarrow> b \<le> a \<Longrightarrow> a = b" by (cases a; cases b) (simp_all add: less_eq_stage_def)
  show "a \<le> b \<or> b \<le> a" by (auto simp: less_eq_stage_def)
qed

end

record validation_result =
  valid :: bool
  vr_sql :: string
  stage_failed :: "stage option"
  vr_error_type :: "string option"
  vr_message :: "string option"
  vr_identifier :: "string option"
  vr_suggestion :: "string option"
  estimated_cost :: "rat option"
  plan_summary :: "string option"
  vr_tables :: "string list"

definition ok_result :: "string \<Rightarrow> string list \<Rightarrow> validation_result" where
  "ok_result sql tables = \<lparr>valid = True, vr_sql = sql, stage_failed = None,
     vr_error_type = None, vr_message = None, vr_identifier = None, vr_suggestion = None,
     estimated_cost = None, plan_summary = None, vr_tables = tables\<rparr>"

definition fail :: "string \<Rightarrow> stage \<Rightarrow> string \<Rightarrow> string \<Rightarrow> validation_result" where
  "fail sql st error_type message = \<lparr>valid = False, vr_sql = sql, stage_failed = Some st,
     vr_error_type = Some error_type, vr_message = Some message, vr_identifier = None,
     vr_suggestion = None, estimated_cost = None, plan_summary = None, vr_tables = []\<rparr>"

definition feedback :: "validation_result \<Rightarrow> string" where
  "feedback r =
     (if valid r then ''valid''
      else join '' ''
        ((if truthy (vr_message r) then the (vr_message r) else ''validation failed'')
         # (if truthy (vr_suggestion r) then [''Nearest match: '' @ the (vr_suggestion r)]
            else [])))"

definition max_sql_chars :: nat where
  "max_sql_chars = 100000"

definition explain_prefix :: string where
  "explain_prefix = ''EXPLAIN (FORMAT JSON) ''"

definition allowed_roots :: "sql_class list" where
  "allowed_roots = [SSelect, SUnion, SIntersect, SExcept]"

definition forbidden_nodes :: "sql_class list" where
  "forbidden_nodes = [SInsert, SUpdate, SDelete, SMerge, SCreate, SDrop, SAlter,
     STruncateTable, SGrant, SCopy, SCommand]"

definition isa_any :: "'n sqlglot \<Rightarrow> 'n \<Rightarrow> sql_class list \<Rightarrow> bool" where
  "isa_any G n cs \<longleftrightarrow> (\<exists>c \<in> set cs. sg_isa G n c)"

text \<open>\<open>_first_line\<close>: the first line of a parser message.\<close>

definition line_break :: "char \<Rightarrow> bool" where
  "line_break c \<longleftrightarrow> code c \<in> set [10, 11, 12, 13, 28, 29, 30, 133]"

definition first_line :: "string \<Rightarrow> string" where
  "first_line text =
     strip (if strip text \<noteq> [] then takeWhile (\<lambda>c. \<not> line_break c) (strip text)
            else ''could not parse the query'')"

section \<open>Stage 3: read-only\<close>

fun scan_nodes :: "'n sqlglot \<Rightarrow> string \<Rightarrow> 'n list \<Rightarrow> validation_result option" where
  "scan_nodes G sql [] = None"
| "scan_nodes G sql (n # ns) =
     (if isa_any G n forbidden_nodes
      then Some (fail sql READ_ONLY ''not_read_only''
        (py_upper (sg_key G n) @ '' is not permitted anywhere in the query, including inside a CTE or subquery''))
      else if sg_isa G n SLock
      then Some (fail sql READ_ONLY ''not_read_only''
        ''row locking (FOR UPDATE / FOR SHARE) is not permitted'')
      else scan_nodes G sql ns)"

definition check_read_only :: "'n sqlglot \<Rightarrow> string \<Rightarrow> 'n \<Rightarrow> validation_result option" where
  "check_read_only G sql st =
     (if \<not> isa_any G st allowed_roots
      then Some (fail sql READ_ONLY ''not_read_only''
        (''only SELECT statements are permitted, got '' @ py_upper (sg_key G st)))
      else case scan_nodes G sql (sg_walk G st) of
        Some r \<Rightarrow> Some r
      | None \<Rightarrow>
         (if sg_arg G st ''into'' \<noteq> None
          then Some (fail sql READ_ONLY ''not_read_only''
            ''SELECT ... INTO creates a table and is not permitted; use a plain SELECT'')
          else None))"

section \<open>Stage 4: identifiers\<close>

definition referenced_tables :: "'n sqlglot \<Rightarrow> 'n \<Rightarrow> string list" where
  "referenced_tables G st =
     fromkeys (filter (\<lambda>n. n \<noteq> []) (map (sg_name G) (find_all G STable st)))"

definition folded_names :: "string list \<Rightarrow> string set" where
  "folded_names ns = set (map casefold (filter (\<lambda>n. n \<noteq> []) ns))"

definition local_names :: "'n sqlglot \<Rightarrow> 'n \<Rightarrow> string set" where
  "local_names G st =
     folded_names (map (sg_alias G) (find_all G SCTE st))
     \<union> folded_names (concat (map (\<lambda>cte.
          if sg_isa G (sg_this G cte) SSelect
          then map (sg_alias_or_name G) (sg_expressions G (sg_this G cte)) else [])
        (find_all G SCTE st)))
     \<union> folded_names (map (sg_alias G) (find_all G SSubquery st))
     \<union> folded_names (map (sg_alias G) (find_all G SAlias st))"

definition resolve_alias :: "'n sqlglot \<Rightarrow> 'n \<Rightarrow> string \<Rightarrow> string" where
  "resolve_alias G st qualifier =
     (case find (\<lambda>t. sg_alias G t \<noteq> [] \<and> casefold (sg_alias G t) = casefold qualifier)
            (find_all G STable st) of
        Some t \<Rightarrow> sg_name G t
      | None \<Rightarrow> qualifier)"

fun check_tables ::
  "schema_catalog \<Rightarrow> string \<Rightarrow> string set \<Rightarrow> string list \<Rightarrow> validation_result option" where
  "check_tables cat sql locals [] = None"
| "check_tables cat sql locals (t # ts) =
     (if casefold t \<in> locals \<or> has_table cat t then check_tables cat sql locals ts
      else Some ((fail sql IDENTIFIERS ''table_not_found''
             (''table '' @ [dquote] @ t @ [dquote] @ '' does not exist''))
           \<lparr>vr_identifier := Some t, vr_suggestion := suggest_table cat t\<rparr>))"

fun check_columns ::
  "'n sqlglot \<Rightarrow> (string set \<Rightarrow> string list) \<Rightarrow> schema_catalog \<Rightarrow> string \<Rightarrow> 'n
     \<Rightarrow> string set \<Rightarrow> string list \<Rightarrow> string set \<Rightarrow> 'n list \<Rightarrow> validation_result option" where
  "check_columns G enum cat sql st locals reals reachable [] = None"
| "check_columns G enum cat sql st locals reals reachable (c # cs) =
     (let name = sg_name G c; qualifier = sg_qualifier G c;
          rest = check_columns G enum cat sql st locals reals reachable cs in
      if name = [] \<or> name = ''*'' then rest
      else if qualifier \<noteq> [] then
        (if casefold qualifier \<in> locals then rest
         else let target = resolve_alias G st qualifier in
           if \<not> has_table cat target then rest
           else if has_column cat target name then rest
           else Some ((fail sql IDENTIFIERS ''unknown_identifier''
                  (''column '' @ [dquote] @ name @ [dquote] @ '' does not exist on table ''
                   @ [dquote] @ target @ [dquote]))
                \<lparr>vr_identifier := Some name,
                 vr_suggestion := suggest_column enum cat name [target]\<rparr>))
      else if casefold name \<notin> reachable
        then Some ((fail sql IDENTIFIERS ''unknown_identifier''
               (''column '' @ [dquote] @ name @ [dquote]
                @ '' does not exist on any referenced table''))
             \<lparr>vr_identifier := Some name, vr_suggestion := suggest_column enum cat name reals\<rparr>)
        else rest)"

definition check_identifiers ::
  "'n sqlglot \<Rightarrow> (string set \<Rightarrow> string list) \<Rightarrow> schema_catalog \<Rightarrow> string \<Rightarrow> 'n
     \<Rightarrow> string list \<Rightarrow> validation_result option" where
  "check_identifiers G enum cat sql st tables =
     (if is_empty cat then None
      else let locals = local_names G st in
        case check_tables cat sql locals tables of
          Some r \<Rightarrow> Some r
        | None \<Rightarrow>
           (let reals = filter (\<lambda>t. casefold t \<notin> locals) tables in
            if reals = [] then None
            else check_columns G enum cat sql st locals reals
                   (columns_of cat reals \<union> locals) (find_all G SColumn st)))"

section \<open>Stages 1 to 4\<close>

definition validate_static ::
  "'n sqlglot \<Rightarrow> (string set \<Rightarrow> string list) \<Rightarrow> schema_catalog \<Rightarrow> string \<Rightarrow> validation_result" where
  "validate_static G enum cat sql =
     (let text = strip sql in
      if text = [] then fail sql PARSE ''syntax_error'' ''the query is empty''
      else if length text > max_sql_chars
      then fail sql PARSE ''syntax_error''
        (''the query is '' @ show_nat (length text) @ '' characters, over the ''
         @ show_nat max_sql_chars @ '' limit'')
      else case sg_parse G text of
        Inl m \<Rightarrow> fail sql PARSE ''syntax_error'' (first_line m)
      | Inr statements \<Rightarrow>
         (case somes statements of
            [st] \<Rightarrow>
              (if \<not> sg_isa G st SExpression
               then fail sql PARSE ''syntax_error''
                 ''the parser produced a tree this validator cannot inspect''
               else case check_read_only G sql st of
                 Some r \<Rightarrow> r
               | None \<Rightarrow>
                  (let tables = referenced_tables G st in
                   case check_identifiers G enum cat sql st tables of
                     Some r \<Rightarrow> r
                   | None \<Rightarrow> ok_result sql tables))
          | parsed \<Rightarrow> fail sql SINGLE_STATEMENT ''multiple_statements''
              (''expected exactly one statement, found '' @ show_nat (length parsed)
               @ ''. Stacked statements are never accepted.'')))"

section \<open>Stage 5: the planner\<close>

text \<open>One transaction of the code: the timeout is set, then one text is run.\<close>

datatype db_statement = SetTimeout int | RunText string

type_synonym database = "int \<Rightarrow> string \<Rightarrow> exn + (string list \<times> json list list)"

definition db_error_types :: "(string, string) dict" where
  "db_error_types = [(''42P01'', ''table_not_found''), (''42703'', ''unknown_identifier''),
     (''42501'', ''permission_denied''), (''57014'', ''statement_timeout''),
     (''42601'', ''syntax_error'')]"

text \<open>\<open>getattr(exc, "sqlstate", None) or ""\<close>, and the primary message or a fixed text.\<close>

definition sqlstate_of :: "exn \<Rightarrow> string" where
  "sqlstate_of e = (case e of DriverError s _ _ \<Rightarrow> of_option [] s | _ \<Rightarrow> [])"

definition primary_or :: "string \<Rightarrow> exn \<Rightarrow> string" where
  "primary_or dflt e =
     (case e of DriverError _ p _ \<Rightarrow> (if truthy p then the p else dflt) | _ \<Rightarrow> dflt)"

definition from_database_error :: "string \<Rightarrow> exn \<Rightarrow> validation_result" where
  "from_database_error sql e =
     fail sql EXPLAIN (of_option ''explain_failed'' (dict_get db_error_types (sqlstate_of e)))
       (primary_or ''the planner rejected the query'' e)"

text \<open>\<open>float(cost)\<close>; a cost the planner spells as text is read as a failed conversion.\<close>

fun cost_of :: "json \<Rightarrow> exn + rat" where
  "cost_of (JInt i) = Inr (of_int i)"
| "cost_of (JFloat r) = Inr r"
| "cost_of (JBool b) = Inr (if b then 1 else 0)"
| "cost_of (JStr s) = Inl (OtherError ''ValueError'' (''could not convert string to float: '' @ py_repr s))"
| "cost_of _ = Inl (OtherError ''TypeError'' ''float() argument must be a string or a real number'')"

definition read_plan :: "(json \<Rightarrow> string) \<Rightarrow> json list option \<Rightarrow> exn + (rat option \<times> string option)" where
  "read_plan to_str row =
     (case row of
        Some (JArr (JObj entry # _) # _) \<Rightarrow>
          (case map_of entry ''Plan'' of
             Some (JObj plan) \<Rightarrow>
               (let node = of_option JNull (map_of plan ''Node Type'');
                    summary = (if jtruthy node
                      then Some (case node of JStr s \<Rightarrow> s | other \<Rightarrow> to_str other) else None)
                in case of_option JNull (map_of plan ''Total Cost'') of
                     JNull \<Rightarrow> Inr (None, summary)
                   | cost \<Rightarrow> (case cost_of cost of Inl e \<Rightarrow> Inl e | Inr c \<Rightarrow> Inr (Some c, summary)))
           | _ \<Rightarrow> Inr (None, None))
      | _ \<Rightarrow> Inr (None, None))"

definition cost_message :: "rat \<Rightarrow> rat \<Rightarrow> string" where
  "cost_message cost limit =
     ''the planner estimates a cost of '' @ show_thousands (round_half_even cost)
     @ '', over the ceiling of '' @ show_thousands (round_half_even limit)
     @ ''. Narrow the query.''"

definition first_row :: "json list list \<Rightarrow> json list option" where
  "first_row rows = (case rows of [] \<Rightarrow> None | r # _ \<Rightarrow> Some r)"

definition explain_stage ::
  "execution_settings \<Rightarrow> (json \<Rightarrow> string) \<Rightarrow> database \<Rightarrow> string \<Rightarrow> string \<Rightarrow> string list
     \<Rightarrow> (exn + validation_result) \<times> db_statement list" where
  "explain_stage S to_str db sql text tables =
     (let timeout = clamp_timeout_ms S None; q = explain_prefix @ text;
          log = [SetTimeout timeout, RunText q] in
      case db timeout q of
        Inl e \<Rightarrow> (if isinst e CDriverError then Inr (from_database_error sql e) else Inl e, log)
      | Inr (_, rows) \<Rightarrow>
         (case read_plan to_str (first_row rows) of
            Inl e \<Rightarrow> (Inl e, log)
          | Inr (cost, summary) \<Rightarrow>
             (case cost of
                Some c \<Rightarrow>
                  (if c > max_estimated_cost S
                   then (Inr ((fail sql EXPLAIN ''cost_exceeded'' (cost_message c (max_estimated_cost S)))
                          \<lparr>estimated_cost := cost, plan_summary := summary, vr_tables := tables\<rparr>), log)
                   else (Inr ((ok_result sql tables)
                          \<lparr>estimated_cost := cost, plan_summary := summary\<rparr>), log))
              | None \<Rightarrow> (Inr ((ok_result sql tables)
                          \<lparr>estimated_cost := cost, plan_summary := summary\<rparr>), log))))"

definition validate ::
  "'n sqlglot \<Rightarrow> (string set \<Rightarrow> string list) \<Rightarrow> schema_catalog \<Rightarrow> execution_settings
     \<Rightarrow> (json \<Rightarrow> string) \<Rightarrow> database \<Rightarrow> string \<Rightarrow> (exn + validation_result) \<times> db_statement list" where
  "validate G enum cat S to_str db sql =
     (let static = validate_static G enum cat sql in
      if \<not> valid static then (Inr static, [])
      else explain_stage S to_str db sql (strip sql) (vr_tables static))"

section \<open>Facts\<close>

lemma fail_simps [simp]:
  "valid (fail q st e m) = False" "stage_failed (fail q st e m) = Some st"
  "vr_tables (fail q st e m) = []" "vr_error_type (fail q st e m) = Some e"
  "vr_message (fail q st e m) = Some m" "vr_sql (fail q st e m) = q"
  by (simp_all add: fail_def)

lemma ok_result_simps [simp]:
  "valid (ok_result q ts)" "stage_failed (ok_result q ts) = None" "vr_tables (ok_result q ts) = ts"
  "vr_sql (ok_result q ts) = q" "estimated_cost (ok_result q ts) = None"
  by (simp_all add: ok_result_def)

text \<open>A result refuses at a stage.\<close>

definition refuses :: "stage \<Rightarrow> validation_result \<Rightarrow> bool" where
  "refuses s r \<longleftrightarrow> \<not> valid r \<and> stage_failed r = Some s"

lemma refuses_fail [simp]: "refuses s (fail q st e m) \<longleftrightarrow> s = st"
  by (auto simp: refuses_def)

definition node_ok :: "'n sqlglot \<Rightarrow> 'n \<Rightarrow> bool" where
  "node_ok G n \<longleftrightarrow> \<not> isa_any G n forbidden_nodes \<and> \<not> sg_isa G n SLock"

lemma scan_nodes_None: "scan_nodes G q ns = None \<longleftrightarrow> (\<forall>n \<in> set ns. node_ok G n)"
  by (induction ns) (auto simp: node_ok_def)

lemma scan_nodes_Some: "scan_nodes G q ns = Some r \<Longrightarrow> refuses READ_ONLY r"
  by (induction ns) (auto split: if_splits)

definition read_only_ok :: "'n sqlglot \<Rightarrow> 'n \<Rightarrow> bool" where
  "read_only_ok G st \<longleftrightarrow> isa_any G st allowed_roots
     \<and> (\<forall>n \<in> set (sg_walk G st). node_ok G n) \<and> sg_arg G st ''into'' = None"

lemma check_read_only_None: "check_read_only G q st = None \<longleftrightarrow> read_only_ok G st"
  using scan_nodes_None [of G q "sg_walk G st"]
  by (auto simp: check_read_only_def read_only_ok_def split: option.splits)

lemma check_read_only_Some: "check_read_only G q st = Some r \<Longrightarrow> refuses READ_ONLY r"
  by (auto simp: check_read_only_def dest: scan_nodes_Some split: option.splits if_splits)

lemma check_tables_None:
  "check_tables cat q ls ts = None \<longleftrightarrow> (\<forall>t \<in> set ts. casefold t \<in> ls \<or> has_table cat t)"
  by (induction ts) auto

lemma check_tables_Some: "check_tables cat q ls ts = Some r \<Longrightarrow> refuses IDENTIFIERS r"
  by (induction ts) (auto simp: refuses_def split: if_splits)

definition column_ok ::
  "'n sqlglot \<Rightarrow> schema_catalog \<Rightarrow> 'n \<Rightarrow> string set \<Rightarrow> string set \<Rightarrow> 'n \<Rightarrow> bool" where
  "column_ok G cat st locals reachable c \<longleftrightarrow>
     sg_name G c = [] \<or> sg_name G c = ''*'' \<or>
     (if sg_qualifier G c \<noteq> [] then casefold (sg_qualifier G c) \<in> locals
         \<or> \<not> has_table cat (resolve_alias G st (sg_qualifier G c))
         \<or> has_column cat (resolve_alias G st (sg_qualifier G c)) (sg_name G c)
      else casefold (sg_name G c) \<in> reachable)"

lemma check_columns_None:
  "check_columns G enum cat q st ls rs reach cs = None
     \<longleftrightarrow> (\<forall>c \<in> set cs. column_ok G cat st ls reach c)"
  by (induction cs) (auto simp: column_ok_def Let_def)

lemma check_columns_Some:
  "check_columns G enum cat q st ls rs reach cs = Some r \<Longrightarrow> refuses IDENTIFIERS r"
  by (induction cs) (auto simp: refuses_def Let_def split: if_splits)

definition identifiers_ok :: "'n sqlglot \<Rightarrow> schema_catalog \<Rightarrow> 'n \<Rightarrow> bool" where
  "identifiers_ok G cat st \<longleftrightarrow>
     (let ls = local_names G st; ts = referenced_tables G st;
          reals = filter (\<lambda>t. casefold t \<notin> ls) ts in
      is_empty cat \<or> (\<forall>t \<in> set ts. casefold t \<in> ls \<or> has_table cat t)
        \<and> (reals = [] \<or> (\<forall>c \<in> set (find_all G SColumn st).
              column_ok G cat st ls (columns_of cat reals \<union> ls) c)))"

lemma check_identifiers_None:
  "check_identifiers G enum cat q st (referenced_tables G st) = None \<longleftrightarrow> identifiers_ok G cat st"
  using check_tables_None [of cat q "local_names G st" "referenced_tables G st"]
  by (cases "check_tables cat q (local_names G st) (referenced_tables G st)")
     (auto simp: check_identifiers_def identifiers_ok_def Let_def check_columns_None)

lemma check_identifiers_Some:
  "check_identifiers G enum cat q st ts = Some r \<Longrightarrow> refuses IDENTIFIERS r"
  by (auto simp: check_identifiers_def Let_def dest: check_tables_Some check_columns_Some
           split: option.splits if_splits)

section \<open>What each stage means\<close>

definition trees :: "'n sqlglot \<Rightarrow> string \<Rightarrow> 'n list" where
  "trees G sql = (case sg_parse G (strip sql) of Inl _ \<Rightarrow> [] | Inr xs \<Rightarrow> somes xs)"

fun stage_ok :: "'n sqlglot \<Rightarrow> schema_catalog \<Rightarrow> string \<Rightarrow> stage \<Rightarrow> bool" where
  "stage_ok G cat sql PARSE \<longleftrightarrow>
     strip sql \<noteq> [] \<and> length (strip sql) \<le> max_sql_chars
     \<and> (\<exists>xs. sg_parse G (strip sql) = Inr xs)
     \<and> (\<forall>st. trees G sql = [st] \<longrightarrow> sg_isa G st SExpression)"
| "stage_ok G cat sql SINGLE_STATEMENT \<longleftrightarrow> (\<exists>st. trees G sql = [st])"
| "stage_ok G cat sql READ_ONLY \<longleftrightarrow> (\<forall>st. trees G sql = [st] \<longrightarrow> read_only_ok G st)"
| "stage_ok G cat sql IDENTIFIERS \<longleftrightarrow> (\<forall>st. trees G sql = [st] \<longrightarrow> identifiers_ok G cat st)"
| "stage_ok G cat sql EXPLAIN \<longleftrightarrow> True"

lemma all_below:
  "(\<forall>s' < PARSE. P s')"
  "(\<forall>s' < SINGLE_STATEMENT. P s') \<longleftrightarrow> P PARSE"
  "(\<forall>s' < READ_ONLY. P s') \<longleftrightarrow> P PARSE \<and> P SINGLE_STATEMENT"
  "(\<forall>s' < IDENTIFIERS. P s') \<longleftrightarrow> P PARSE \<and> P SINGLE_STATEMENT \<and> P READ_ONLY"
proof -
  have E: "(\<forall>s. Q s) \<longleftrightarrow> Q PARSE \<and> Q SINGLE_STATEMENT \<and> Q READ_ONLY \<and> Q IDENTIFIERS \<and> Q EXPLAIN"
    for Q :: "stage \<Rightarrow> bool"
    by (metis stage.exhaust)
  show "(\<forall>s' < PARSE. P s')"
    "(\<forall>s' < SINGLE_STATEMENT. P s') \<longleftrightarrow> P PARSE"
    "(\<forall>s' < READ_ONLY. P s') \<longleftrightarrow> P PARSE \<and> P SINGLE_STATEMENT"
    "(\<forall>s' < IDENTIFIERS. P s') \<longleftrightarrow> P PARSE \<and> P SINGLE_STATEMENT \<and> P READ_ONLY"
    by (simp_all add: E less_stage_def)
qed

lemma validate_static_one:
  assumes "strip sql \<noteq> []" "length (strip sql) \<le> max_sql_chars"
    "sg_parse G (strip sql) = Inr xs" "somes xs = [st]" "sg_isa G st SExpression"
  shows "validate_static G enum cat sql =
     (case check_read_only G sql st of Some r \<Rightarrow> r
      | None \<Rightarrow> (case check_identifiers G enum cat sql st (referenced_tables G st) of
           Some r \<Rightarrow> r | None \<Rightarrow> ok_result sql (referenced_tables G st)))"
  using assms by (auto simp: validate_static_def Let_def split: option.splits)

lemma validate_static_parse:
  assumes "\<not> stage_ok G cat sql PARSE"
  shows "refuses PARSE (validate_static G enum cat sql)"
  using assms
  by (auto simp: validate_static_def Let_def trees_def split: sum.splits list.splits)

lemma validate_static_count:
  assumes "stage_ok G cat sql PARSE" "\<not> stage_ok G cat sql SINGLE_STATEMENT"
  shows "refuses SINGLE_STATEMENT (validate_static G enum cat sql)"
  using assms
  by (auto simp: validate_static_def Let_def trees_def split: sum.splits list.splits)

lemma validate_static_rest:
  assumes "stage_ok G cat sql PARSE" "stage_ok G cat sql SINGLE_STATEMENT"
  shows "(\<not> stage_ok G cat sql READ_ONLY \<longrightarrow> refuses READ_ONLY (validate_static G enum cat sql))
    \<and> (stage_ok G cat sql READ_ONLY \<and> \<not> stage_ok G cat sql IDENTIFIERS
        \<longrightarrow> refuses IDENTIFIERS (validate_static G enum cat sql))
    \<and> (stage_ok G cat sql READ_ONLY \<and> stage_ok G cat sql IDENTIFIERS
        \<longrightarrow> (\<exists>st. trees G sql = [st]
              \<and> validate_static G enum cat sql = ok_result sql (referenced_tables G st)))"
proof -
  from assms obtain xs st where p: "sg_parse G (strip sql) = Inr xs" "trees G sql = [st]"
    by auto
  then have t: "somes xs = [st]" by (simp add: trees_def)
  from assms p have v: "validate_static G enum cat sql =
     (case check_read_only G sql st of Some r \<Rightarrow> r
      | None \<Rightarrow> (case check_identifiers G enum cat sql st (referenced_tables G st) of
           Some r \<Rightarrow> r | None \<Rightarrow> ok_result sql (referenced_tables G st)))"
    by (intro validate_static_one [OF _ _ p(1) t]) auto
  show ?thesis
    unfolding v using p(2)
    by (auto simp: check_read_only_None [of G sql, symmetric]
          check_identifiers_None [of G enum cat sql, symmetric]
        dest: check_read_only_Some check_identifiers_Some split: option.splits)
qed

lemmas validate_static_cases =
  validate_static_parse validate_static_count validate_static_rest

section \<open>Properties of the static stages\<close>

text \<open>C3: the first four stages implement their order-free meaning: a query passes exactly when
  every static stage holds, and otherwise the result names the least stage that does not.\<close>

theorem static_stage_refines:
  "(valid (validate_static G enum cat sql) \<longleftrightarrow>
      stage_ok G cat sql PARSE \<and> stage_ok G cat sql SINGLE_STATEMENT
      \<and> stage_ok G cat sql READ_ONLY \<and> stage_ok G cat sql IDENTIFIERS)
   \<and> (stage_failed (validate_static G enum cat sql) = Some s \<longleftrightarrow>
      \<not> stage_ok G cat sql s \<and> (\<forall>s' < s. stage_ok G cat sql s'))"
proof -
  let ?r = "validate_static G enum cat sql"
  consider "\<not> stage_ok G cat sql PARSE"
    | "stage_ok G cat sql PARSE" "\<not> stage_ok G cat sql SINGLE_STATEMENT"
    | "stage_ok G cat sql PARSE" "stage_ok G cat sql SINGLE_STATEMENT" by blast
  then show ?thesis
  proof cases
    case 1
    with validate_static_parse [OF 1, of enum] show ?thesis
      by (cases s) (simp_all add: refuses_def all_below stage_ok.simps(5) del: stage_ok.simps(1-4))
  next
    case 2
    with validate_static_count [OF 2, of enum] show ?thesis
      by (cases s) (simp_all add: refuses_def all_below stage_ok.simps(5) del: stage_ok.simps(1-4))
  next
    case 3
    with validate_static_rest [OF 3, of enum] show ?thesis
      by (cases s) (auto simp: refuses_def all_below stage_ok.simps(5) simp del: stage_ok.simps(1-4))
  qed
qed

section \<open>Properties of the whole validator\<close>

lemma validate_log:
  "snd (validate G enum cat S to_str db sql) =
     (if valid (validate_static G enum cat sql)
      then [SetTimeout (clamp_timeout_ms S None), RunText (explain_prefix @ strip sql)] else [])"
  by (auto simp: validate_def explain_stage_def Let_def split: sum.splits prod.splits option.splits)

lemma explain_stage_valid:
  assumes "fst (explain_stage S to_str db sql text ts) = Inr r" "valid r"
  shows "vr_tables r = ts \<and> vr_sql r = sql
    \<and> (\<forall>c. estimated_cost r = Some c \<longrightarrow> c \<le> max_estimated_cost S)"
  using assms
  by (auto simp: explain_stage_def Let_def from_database_error_def
           split: sum.splits prod.splits option.splits if_splits)

lemma validate_valid_static:
  assumes "fst (validate G enum cat S to_str db sql) = Inr r" "valid r"
  shows "valid (validate_static G enum cat sql)"
  using assms by (auto simp: validate_def Let_def split: if_splits)

lemma validate_static_tree:
  assumes "valid (validate_static G enum cat sql)"
  obtains st where "trees G sql = [st]" "read_only_ok G st" "identifiers_ok G cat st"
    "validate_static G enum cat sql = ok_result sql (referenced_tables G st)"
proof -
  have "stage_ok G cat sql PARSE"
    using assms validate_static_parse [of G cat sql enum] by (auto simp: refuses_def)
  moreover have "stage_ok G cat sql SINGLE_STATEMENT"
    using assms validate_static_count [OF calculation, of enum] by (auto simp: refuses_def)
  ultimately show thesis
    using that assms validate_static_rest [of G cat sql enum] by (auto simp: refuses_def)
qed

lemma validate_root:
  assumes "fst (validate G enum cat S to_str db sql) = Inr r" "valid r"
  obtains st where "trees G sql = [st]" "sg_isa G st SSelect \<or> sg_isa G st SUnion
     \<or> sg_isa G st SIntersect \<or> sg_isa G st SExcept"
  using validate_static_tree [OF validate_valid_static [OF assms]]
  by (auto simp: read_only_ok_def isa_any_def allowed_roots_def)

text \<open>Validation has no effect but planning. It issues nothing to the database unless all
  static stages hold, and then exactly one timeout inside the configured bounds followed by one
  text that is the planner prefix and the query, so the query itself is never run.\<close>

theorem validate_only_plans:
  assumes "execution_ok S"
  shows "(\<forall>t. RunText t \<in> set (snd (validate G enum cat S to_str db sql)) \<longrightarrow>
            t = ''EXPLAIN (FORMAT JSON) '' @ strip sql)
    \<and> (\<forall>t. SetTimeout t \<in> set (snd (validate G enum cat S to_str db sql)) \<longrightarrow>
            100 \<le> t \<and> t \<le> statement_timeout_ceiling_ms S)
    \<and> (\<not> valid (validate_static G enum cat sql) \<longrightarrow>
            snd (validate G enum cat S to_str db sql) = [])"
  using timeout_clamp.in_range [OF assms, of None]
  by (simp add: validate_log explain_prefix_def)

theorem validate_only_plans_witness:
  "RunText ''SELECT 1'' \<notin> set (snd (validate (toy (\<lambda>_. Inl ''bad'')) (\<lambda>_. []) [] default_execution
      (\<lambda>_. []) (\<lambda>_ _. Inl CancelledError) ''SELECT 1''))"
  using validate_only_plans [OF default_execution_ok, of "toy (\<lambda>_. Inl ''bad'')" "\<lambda>_. []" "[]"
      "\<lambda>_. []" "\<lambda>_ _. Inl CancelledError" "''SELECT 1''"] by auto

text \<open>C4: a query the validator accepts parses to exactly one statement, whose root is a SELECT
  or a set operation and whose tree holds no node that writes, defines, grants, copies, locks or is
  opaque to the parser; every table it names is local to it or in a non-empty catalog; and a cost
  the planner reported is within the ceiling.\<close>

theorem validate_accepts_read_only:
  assumes "fst (validate G enum cat S to_str db sql) = Inr r" and "valid r"
  shows "\<exists>st. trees G sql = [st]
    \<and> (sg_isa G st SSelect \<or> sg_isa G st SUnion \<or> sg_isa G st SIntersect \<or> sg_isa G st SExcept)
    \<and> (\<forall>n \<in> set (sg_walk G st). \<forall>c \<in> {SInsert, SUpdate, SDelete, SMerge, SCreate, SDrop, SAlter,
          STruncateTable, SGrant, SCopy, SCommand, SLock}. \<not> sg_isa G n c)
    \<and> sg_arg G st ''into'' = None
    \<and> (cat = [] \<or> (\<forall>t \<in> set (vr_tables r). casefold t \<in> local_names G st \<or> has_table cat t))
    \<and> (\<forall>c. estimated_cost r = Some c \<longrightarrow> c \<le> max_estimated_cost S)"
proof -
  let ?v = "validate_static G enum cat sql"
  have val: "valid ?v" by (rule validate_valid_static [OF assms])
  then obtain st where st: "trees G sql = [st]" "?v = ok_result sql (referenced_tables G st)"
    and ro: "read_only_ok G st" and ids: "identifiers_ok G cat st"
    by (rule validate_static_tree)
  have r: "vr_tables r = referenced_tables G st"
      "\<forall>c. estimated_cost r = Some c \<longrightarrow> c \<le> max_estimated_cost S"
    using assms val explain_stage_valid [of S to_str db sql "strip sql" "vr_tables ?v" r]
    by (auto simp: validate_def Let_def st(2))
  show ?thesis
    using ro ids r st(1)
    by (auto simp: read_only_ok_def identifiers_ok_def node_ok_def isa_any_def allowed_roots_def
        forbidden_nodes_def is_empty_def Let_def)
qed

definition toy_select :: toy_node where
  "toy_select = Toy SSelect ''SELECT 1'' [] [] None [] []"

definition toy_plan_db :: "rat \<Rightarrow> database" where
  "toy_plan_db cost t q = Inr ([], [[JArr [JObj [(''Plan'', JObj [(''Total Cost'', JFloat cost)])]]]])"

lemma toy_select_validates:
  "fst (validate (toy (\<lambda>_. Inr [Some toy_select])) (\<lambda>_. []) [] default_execution (\<lambda>_. [])
     (toy_plan_db 5) ''SELECT 1'') = Inr ((ok_result ''SELECT 1'' [])\<lparr>estimated_cost := Some 5\<rparr>)"
proof -
  have "strip ''SELECT 1'' = ''SELECT 1''"
    by (simp add: strip_def lstrip_def rstrip_def py_space_def code_def)
  moreover have "toy_walk 8 toy_select = [toy_select]"
    by (simp add: toy_select_def eval_nat_numeral)
  ultimately show ?thesis
    by (simp add: validate_def validate_static_def Let_def toy_def max_sql_chars_def
      check_read_only_def isa_any_def allowed_roots_def forbidden_nodes_def toy_select_def
      check_identifiers_def is_empty_def referenced_tables_def find_all_def explain_stage_def
      toy_plan_db_def read_plan_def first_row_def of_option_def default_execution_def ok_result_def)
qed

theorem static_stage_refines_witness:
  "\<not> stage_ok (toy (\<lambda>_. Inr [Some toy_select, None, Some toy_select])) [] ''SELECT 1'' SINGLE_STATEMENT
   \<and> stage_ok (toy (\<lambda>_. Inr [Some toy_select, None, Some toy_select])) [] ''SELECT 1'' PARSE"
proof -
  let ?G = "toy (\<lambda>_. Inr [Some toy_select, None, Some toy_select])"
  have "strip ''SELECT 1'' = ''SELECT 1''"
    by (simp add: strip_def lstrip_def rstrip_def py_space_def code_def)
  then have "stage_failed (validate_static ?G (\<lambda>_. []) [] ''SELECT 1'') = Some SINGLE_STATEMENT"
    by (simp add: validate_static_def Let_def toy_def max_sql_chars_def)
  moreover have "PARSE < SINGLE_STATEMENT" by (simp add: less_stage_def)
  ultimately show ?thesis
    using static_stage_refines [of ?G "\<lambda>_. []" "[]" "''SELECT 1''" SINGLE_STATEMENT] by blast
qed

theorem validate_accepts_read_only_witness:
  "\<exists>st. trees (toy (\<lambda>_. Inr [Some toy_select])) ''SELECT 1'' = [st]"
  using validate_accepts_read_only [OF toy_select_validates] by auto

text \<open>The INTO test reads the root of the tree and nothing else: two parsers that agree on
  everything but the \<open>into\<close> argument of nodes that are not the root give the same static
  verdict. A set operation whose first branch is a SELECT ... INTO is therefore accepted, which
  the code's comment on that test does not say.\<close>

theorem into_checked_at_root_only:
  assumes "trees G sql = [st]"
  shows "validate_static (G\<lparr>sg_arg := (\<lambda>n k. if n \<noteq> st \<and> k = ''into'' then w else sg_arg G n k)\<rparr>)
           enum cat sql = validate_static G enum cat sql"
proof -
  let ?H = "G\<lparr>sg_arg := (\<lambda>n k. if n \<noteq> st \<and> k = ''into'' then w else sg_arg G n k)\<rparr>"
  have scan: "scan_nodes ?H sql ns = scan_nodes G sql ns" for ns
    by (induction ns) (simp_all add: isa_any_def)
  have loc: "find_all ?H = find_all G" "local_names ?H = local_names G"
      "resolve_alias ?H = resolve_alias G"
    by (simp_all add: fun_eq_iff find_all_def local_names_def resolve_alias_def
          cong: if_cong option.case_cong)
  have cols: "check_columns ?H enum cat sql t ls rs re cs = check_columns G enum cat sql t ls rs re cs"
    for t ls rs re cs
    by (induction cs) (simp_all add: loc Let_def)
  have ids: "check_identifiers ?H enum cat sql st ts = check_identifiers G enum cat sql st ts" for ts
    by (simp add: check_identifiers_def loc cols Let_def cong: if_cong option.case_cong)
  have ro: "check_read_only ?H sql st = check_read_only G sql st"
    by (cases "scan_nodes G sql (sg_walk G st)") (auto simp: check_read_only_def scan isa_any_def)
  have tabs: "referenced_tables ?H st = referenced_tables G st"
    by (simp add: referenced_tables_def loc)
  show ?thesis
    using assms
    by (cases "sg_parse G (strip sql)")
       (auto simp: validate_static_def Let_def trees_def ro ids tabs split: option.splits)
qed

definition toy_into_union :: toy_node where
  "toy_into_union = Toy SUnion ''UNION'' [] [] None []
     [Toy SSelect ''SELECT a'' [] [] None [(''into'', Toy SExpression ''t'' [] [] None [] [])] [],
      Toy SSelect ''SELECT b'' [] [] None [] []]"

theorem into_checked_at_root_only_witness:
  "valid (validate_static (toy (\<lambda>_. Inr [Some toy_into_union])) (\<lambda>_. []) [] ''q'')
   \<and> validate_static ((toy (\<lambda>_. Inr [Some toy_into_union]))
       \<lparr>sg_arg := (\<lambda>n k. if n \<noteq> toy_into_union \<and> k = ''into'' then None
          else sg_arg (toy (\<lambda>_. Inr [Some toy_into_union])) n k)\<rparr>) (\<lambda>_. []) [] ''q''
     = validate_static (toy (\<lambda>_. Inr [Some toy_into_union])) (\<lambda>_. []) [] ''q''"
proof
  have q: "strip ''q'' = ''q''"
    by (simp add: strip_def lstrip_def rstrip_def py_space_def code_def)
  then have t: "trees (toy (\<lambda>_. Inr [Some toy_into_union])) ''q'' = [toy_into_union]"
    by (simp add: trees_def toy_def)
  show "validate_static ((toy (\<lambda>_. Inr [Some toy_into_union]))
       \<lparr>sg_arg := (\<lambda>n k. if n \<noteq> toy_into_union \<and> k = ''into'' then None
          else sg_arg (toy (\<lambda>_. Inr [Some toy_into_union])) n k)\<rparr>) (\<lambda>_. []) [] ''q''
     = validate_static (toy (\<lambda>_. Inr [Some toy_into_union])) (\<lambda>_. []) [] ''q''"
    by (rule into_checked_at_root_only [OF t])
  have "\<forall>n \<in> set (toy_walk 8 toy_into_union). toy_class n \<in> {SUnion, SSelect, SExpression}"
    by (simp add: toy_into_union_def eval_nat_numeral)
  then have "scan_nodes (toy (\<lambda>_. Inr [Some toy_into_union])) ''q'' (toy_walk 8 toy_into_union) = None"
    by (auto simp: scan_nodes_None node_ok_def isa_any_def forbidden_nodes_def toy_def)
  moreover have "toy_class toy_into_union = SUnion" "toy_args toy_into_union = []"
    by (simp_all add: toy_into_union_def)
  ultimately show "valid (validate_static (toy (\<lambda>_. Inr [Some toy_into_union])) (\<lambda>_. []) [] ''q'')"
    by (simp add: validate_static_def q Let_def toy_def max_sql_chars_def check_read_only_def
      isa_any_def allowed_roots_def check_identifiers_def is_empty_def)
qed

end
