(* ===== verification/Execution.thy ===== *)
theory Execution
  imports Validation
begin

text \<open>
  The executor of \<open>src/execution/executor.py\<close>: the row limit put on the syntax tree, the
  translation of driver errors, the audit record, and the two entry points \<open>explain\<close> and
  \<open>execute\<close>. The world they change is the log of database statements, the audit table and the
  error log that receives an audit entry when its insert fails. The clock readings around the
  query are arguments. The locale \<open>gatekeeper\<close> is what the executor relies on in a validator.
\<close>

section \<open>The row limit\<close>

definition existing_limit :: "'n sqlglot \<Rightarrow> 'n \<Rightarrow> int option" where
  "existing_limit G st =
     (case sg_arg G st ''limit'' of
        None \<Rightarrow> None
      | Some node \<Rightarrow>
          if \<not> sg_isa G node SLimit then None
          else let ex = sg_expression G node in
            if \<not> sg_isa G ex SLiteral \<or> \<not> sg_is_int G ex then None
            else case sg_int G ex of None \<Rightarrow> None
              | Some value \<Rightarrow> if 0 \<le> value then Some value else None)"

definition apply_row_limit :: "'n sqlglot \<Rightarrow> string \<Rightarrow> int \<Rightarrow> exn + (string \<times> int \<times> bool)" where
  "apply_row_limit G sql max_rows =
     (case sg_parse_one G sql of
        Inl _ \<Rightarrow> Inl (ExecutionError ''the query could not be parsed to apply a row limit'')
      | Inr st \<Rightarrow>
          if \<not> isa_any G st allowed_roots
          then Inl (ExecutionError ''the query could not be re-parsed to apply a row limit'')
          else let (effective, server_capped) =
                 (case existing_limit G st of
                    None \<Rightarrow> (max_rows, True)
                  | Some existing \<Rightarrow> (min existing max_rows, existing > max_rows))
            in Inr (sg_sql G (sg_with_limit G st (effective + 1)), effective, server_capped))"

definition translate_error :: "exn \<Rightarrow> exn" where
  "translate_error e =
     (let sqlstate = sqlstate_of e; message = primary_or ''the query could not be executed'' e in
      if sqlstate = ''57014'' then StatementTimeoutError message
      else if sqlstate \<in> {''42501'', ''25006''} then PermissionDeniedError message
      else ExecutionError message)"

section \<open>The audit trail\<close>

record audit_entry =
  au_request_id :: "string option"
  au_trace_id :: "string option"
  au_session_id :: "string option"
  au_question :: "string option"
  au_sql :: string
  au_validation_attempts :: int
  au_db_role :: "string option"
  au_duration_ms :: "int option"
  au_row_count :: "int option"
  au_truncated :: "bool option"
  au_outcome :: string
  au_error_type :: "string option"

record request_meta =
  rm_question :: "string option"
  rm_request_id :: "string option"
  rm_trace_id :: "string option"
  rm_session_id :: "string option"
  rm_validation_attempts :: int

text \<open>The keyword arguments of one \<open>AuditLog.record\<close> call, and the six of them that the error
  log keeps when the insert fails.\<close>

record audit_fields =
  af_meta :: request_meta
  af_outcome :: string
  af_sql :: string
  af_error_type :: "string option"
  af_duration :: "rat option"
  af_row_count :: "int option"
  af_truncated :: "bool option"

record log_entry =
  le_outcome :: string
  le_error_type :: "string option"
  le_request_id :: "string option"
  le_session_id :: "string option"
  le_row_count :: "int option"
  le_duration_ms :: "rat option"

record world =
  w_db :: "db_statement list"
  w_audit :: "audit_entry list"
  w_errlog :: "log_entry list"

text \<open>No audit, or a role name and the outcome of inserting one row.\<close>

type_synonym audit_log = "(string option \<times> (audit_entry \<Rightarrow> exn option)) option"

text \<open>\<open>int(x)\<close> truncates towards zero.\<close>

definition py_int :: "rat \<Rightarrow> int" where
  "py_int x = (if x < 0 then - floor (- x) else floor x)"

definition audit_call :: "request_meta \<Rightarrow> string \<Rightarrow> string \<Rightarrow> audit_fields" where
  "audit_call m outcome sql = \<lparr>af_meta = m, af_outcome = outcome, af_sql = sql, af_error_type = None,
     af_duration = None, af_row_count = None, af_truncated = None\<rparr>"

definition audit_row :: "string option \<Rightarrow> audit_fields \<Rightarrow> audit_entry" where
  "audit_row role f =
     \<lparr>au_request_id = rm_request_id (af_meta f), au_trace_id = rm_trace_id (af_meta f),
      au_session_id = rm_session_id (af_meta f), au_question = rm_question (af_meta f),
      au_sql = af_sql f, au_validation_attempts = rm_validation_attempts (af_meta f),
      au_db_role = role, au_duration_ms = map_option py_int (af_duration f),
      au_row_count = af_row_count f, au_truncated = af_truncated f, au_outcome = af_outcome f,
      au_error_type = af_error_type f\<rparr>"

definition log_row :: "audit_fields \<Rightarrow> log_entry" where
  "log_row f =
     \<lparr>le_outcome = af_outcome f, le_error_type = af_error_type f,
      le_request_id = rm_request_id (af_meta f), le_session_id = rm_session_id (af_meta f),
      le_row_count = af_row_count f, le_duration_ms = af_duration f\<rparr>"

definition record_audit :: "audit_log \<Rightarrow> audit_fields \<Rightarrow> world \<Rightarrow> exn option \<times> world" where
  "record_audit audit f w =
     (case audit of
        None \<Rightarrow> (None, w)
      | Some (role, insert_row) \<Rightarrow>
          (case insert_row (audit_row role f) of
             None \<Rightarrow> (None, w\<lparr>w_audit := w_audit w @ [audit_row role f]\<rparr>)
           | Some e \<Rightarrow>
               if isinst e CDriverError then (None, w\<lparr>w_errlog := w_errlog w @ [log_row f]\<rparr>)
               else (Some e, w)))"

section \<open>The executor\<close>

record 'n executor =
  ex_sqlglot :: "'n sqlglot"
  ex_enum :: "string set \<Rightarrow> string list"
  ex_catalog :: schema_catalog
  ex_settings :: execution_settings
  ex_to_str :: "json \<Rightarrow> string"
  ex_db :: database
  ex_audit :: audit_log

record query_result =
  qr_columns :: "string list"
  qr_rows :: "json list list"
  qr_row_count :: int
  qr_truncated :: bool
  qr_duration_ms :: rat
  qr_executed_sql :: string
  qr_row_limit :: int
  qr_estimated_cost :: "rat option"

definition ex_validate :: "'n executor \<Rightarrow> string \<Rightarrow> (exn + validation_result) \<times> db_statement list" where
  "ex_validate E sql = validate (ex_sqlglot E) (ex_enum E) (ex_catalog E) (ex_settings E)
     (ex_to_str E) (ex_db E) sql"

definition validation_exn :: "validation_result \<Rightarrow> exn" where
  "validation_exn r =
     SQLValidationError (if truthy (vr_error_type r) then the (vr_error_type r) else ''invalid'')
       (feedback r) (vr_identifier r)"

definition issue :: "db_statement list \<Rightarrow> world \<Rightarrow> world" where
  "issue l w = w\<lparr>w_db := w_db w @ l\<rparr>"

text \<open>Record one audit entry, then go on unless recording itself raised.\<close>

definition after_audit ::
  "audit_log \<Rightarrow> audit_fields \<Rightarrow> world \<Rightarrow> (exn + 'r) \<Rightarrow> (exn + 'r) \<times> world" where
  "after_audit audit f w out =
     (case record_audit audit f w of (Some e, w') \<Rightarrow> (Inl e, w') | (None, w') \<Rightarrow> (out, w'))"

definition explain ::
  "'n executor \<Rightarrow> request_meta \<Rightarrow> int option \<Rightarrow> string \<Rightarrow> world \<Rightarrow> (exn + unit) \<times> world" where
  "explain E m timeout_ms sql w =
     (let _ = clamp_timeout_ms (ex_settings E) timeout_ms;
          (v, l) = ex_validate E sql; w1 = issue l w in
      case v of
        Inl e \<Rightarrow> (Inl e, w1)
      | Inr r \<Rightarrow>
          after_audit (ex_audit E)
            ((audit_call m (if valid r then ''explained'' else ''rejected'') sql)
               \<lparr>af_error_type := (if valid r then None else vr_error_type r)\<rparr>) w1
            (if valid r then Inr () else Inl (validation_exn r)))"

definition run_bounded ::
  "'n executor \<Rightarrow> request_meta \<Rightarrow> rat \<times> rat \<Rightarrow> int \<Rightarrow> validation_result
     \<Rightarrow> string \<times> int \<times> bool \<Rightarrow> world \<Rightarrow> (exn + query_result) \<times> world" where
  "run_bounded E m clock timeout r bound w =
     (let (bounded, effective, server_capped) = bound;
          w1 = issue [SetTimeout timeout, RunText bounded] w;
          duration_ms = (snd clock - fst clock) * 1000 in
      case ex_db E timeout bounded of
        Inl e \<Rightarrow>
          if isinst e CDriverError
          then let err = translate_error e in
            after_audit (ex_audit E)
              ((audit_call m ''error'' bounded)
                 \<lparr>af_error_type := Some (type_name err), af_duration := Some duration_ms\<rparr>) w1 (Inl err)
          else (Inl e, w1)
      | Inr (columns, fetched) \<Rightarrow>
          (let overflowed = int (length fetched) > effective;
               rows = take (nat effective) fetched;
               truncated = (overflowed \<and> server_capped) in
           after_audit (ex_audit E)
             ((audit_call m ''success'' bounded)
                \<lparr>af_duration := Some duration_ms, af_row_count := Some (int (length rows)),
                 af_truncated := Some truncated\<rparr>) w1
             (Inr \<lparr>qr_columns = columns, qr_rows = rows, qr_row_count = int (length rows),
                qr_truncated = truncated, qr_duration_ms = duration_ms,
                qr_executed_sql = bounded, qr_row_limit = effective,
                qr_estimated_cost = estimated_cost r\<rparr>)))"

definition execute ::
  "'n executor \<Rightarrow> request_meta \<Rightarrow> rat \<times> rat \<Rightarrow> int option \<Rightarrow> int option \<Rightarrow> string \<Rightarrow> world
     \<Rightarrow> (exn + query_result) \<times> world" where
  "execute E m clock max_rows timeout_ms sql w =
     (let limit = clamp_rows (ex_settings E) max_rows;
          timeout = clamp_timeout_ms (ex_settings E) timeout_ms;
          (v, l) = ex_validate E sql; w1 = issue l w in
      case v of
        Inl e \<Rightarrow> (Inl e, w1)
      | Inr r \<Rightarrow>
          if \<not> valid r
          then after_audit (ex_audit E)
                 ((audit_call m ''rejected'' sql)\<lparr>af_error_type := vr_error_type r\<rparr>) w1
                 (Inl (validation_exn r))
          else case apply_row_limit (ex_sqlglot E) sql limit of
            Inl e \<Rightarrow> (Inl e, w1)
          | Inr bound \<Rightarrow> run_bounded E m clock timeout r bound w1)"

text \<open>\<open>rows_as_dicts\<close>: \<open>zip\<close> with \<open>strict=True\<close> raises on a row of another width.\<close>

fun rows_as_dicts :: "string list \<Rightarrow> json list list \<Rightarrow> exn + (string, json) dict list" where
  "rows_as_dicts cols [] = Inr []"
| "rows_as_dicts cols (row # rows) =
     (if length row \<noteq> length cols
      then Inl (OtherError ''ValueError'' ''zip() arguments have different lengths'')
      else case rows_as_dicts cols rows of Inl e \<Rightarrow> Inl e
        | Inr ds \<Rightarrow> Inr (foldl (\<lambda>d kv. dict_set d (fst kv) (snd kv)) [] (zip cols row) # ds))"

section \<open>The validator as a gatekeeper\<close>

definition guarded ::
  "('q \<Rightarrow> (exn + 'v) \<times> 'l list) \<Rightarrow> ('v \<Rightarrow> bool) \<Rightarrow> ('q \<Rightarrow> 'v \<Rightarrow> 'l list) \<Rightarrow> 'q \<Rightarrow> 'l list" where
  "guarded check accepts act q = snd (check q) @
     (case fst (check q) of Inl _ \<Rightarrow> [] | Inr v \<Rightarrow> if accepts v then act q v else [])"

locale gatekeeper =
  fixes check :: "'q \<Rightarrow> (exn + 'v) \<times> 'l list"
    and accepts :: "'v \<Rightarrow> bool"
    and safe :: "'q \<Rightarrow> bool"
    and harmless :: "'l \<Rightarrow> bool"
  assumes check_log: "x \<in> set (snd (check q)) \<Longrightarrow> harmless x"
    and check_sound: "fst (check q) = Inr v \<Longrightarrow> accepts v \<Longrightarrow> safe q"
begin

lemma guarded_safe:
  "x \<in> set (guarded check accepts act q) \<Longrightarrow> \<not> harmless x \<Longrightarrow> safe q"
  by (cases "fst (check q)")
     (auto simp: guarded_def dest: check_log check_sound split: if_splits)

lemma guarded_acts:
  "x \<in> set (guarded check accepts act q) \<Longrightarrow> \<not> harmless x \<Longrightarrow>
     \<exists>v. fst (check q) = Inr v \<and> accepts v \<and> x \<in> set (act q v)"
  by (cases "fst (check q)") (auto simp: guarded_def dest: check_log split: if_splits)

lemma guarded_refused:
  "fst (check q) = Inr v \<Longrightarrow> \<not> accepts v \<Longrightarrow> guarded check accepts act q = snd (check q)"
  by (simp add: guarded_def)

end

text \<open>What a query that passed every static stage is.\<close>

definition statically_ok :: "'n executor \<Rightarrow> string \<Rightarrow> bool" where
  "statically_ok E sql \<longleftrightarrow> valid (validate_static (ex_sqlglot E) (ex_enum E) (ex_catalog E) sql)"

definition planning :: "db_statement \<Rightarrow> bool" where
  "planning x = (case x of SetTimeout _ \<Rightarrow> True | RunText t \<Rightarrow> prefix explain_prefix t)"

interpretation gate: gatekeeper "ex_validate E" valid "statically_ok E" planning
  for E :: "'n executor"
  by unfold_locales
     (auto simp: ex_validate_def validate_log planning_def statically_ok_def
           dest: validate_valid_static split: if_splits)

section \<open>Facts\<close>

lemma existing_limit_nonneg: "existing_limit G st = Some k \<Longrightarrow> 0 \<le> k"
  by (auto simp: existing_limit_def Let_def split: option.splits if_splits)

lemma apply_row_limit_bounds:
  assumes "apply_row_limit G sql m = Inr (b, eff, capped)" "0 \<le> m"
  shows "0 \<le> eff" "eff \<le> m"
  using assms
  by (auto simp: apply_row_limit_def dest!: existing_limit_nonneg
           split: sum.splits if_splits option.splits)

lemma record_audit_db [simp]: "w_db (snd (record_audit a e w)) = w_db w"
  by (auto simp: record_audit_def split: option.splits prod.splits)

lemma after_audit_db [simp]: "w_db (snd (after_audit a e w out)) = w_db w"
  using record_audit_db [of a e w]
  by (cases "record_audit a e w") (auto simp: after_audit_def split: option.splits)

lemma issue_simps [simp]:
  "w_db (issue l w) = w_db w @ l" "w_audit (issue l w) = w_audit w"
  "w_errlog (issue l w) = w_errlog w"
  by (simp_all add: issue_def)

lemma after_audit_Inr: "fst (after_audit a e w out) = Inr r \<Longrightarrow> out = Inr r"
  by (auto simp: after_audit_def split: prod.splits option.splits)

lemma run_bounded_db:
  "w_db (snd (run_bounded E m clk t r (b, eff, cap) w)) = w_db w @ [SetTimeout t, RunText b]"
  by (auto simp: run_bounded_def Let_def split: sum.splits prod.splits)

lemma execute_db:
  "w_db (snd (execute E m clk mr tm sql w)) = w_db w @ guarded (ex_validate E) valid
     (\<lambda>q v. case apply_row_limit (ex_sqlglot E) q (clamp_rows (ex_settings E) mr) of
        Inl _ \<Rightarrow> [] | Inr (b, _) \<Rightarrow> [SetTimeout (clamp_timeout_ms (ex_settings E) tm), RunText b]) sql"
  by (auto simp: execute_def guarded_def Let_def run_bounded_db
           split: sum.splits prod.splits)

lemma explain_db: "w_db (snd (explain E m tm sql w)) = w_db w @ snd (ex_validate E sql)"
  by (auto simp: explain_def Let_def split: sum.splits prod.splits)

lemma execute_success:
  assumes "fst (execute E m clk mr tm sql w) = Inr q"
  obtains r b eff cap cols fetched where
    "fst (ex_validate E sql) = Inr r" "valid r"
    "apply_row_limit (ex_sqlglot E) sql (clamp_rows (ex_settings E) mr) = Inr (b, eff, cap)"
    "ex_db E (clamp_timeout_ms (ex_settings E) tm) b = Inr (cols, fetched)"
    "qr_columns q = cols" "qr_rows q = take (nat eff) fetched"
    "qr_row_count q = int (length (qr_rows q))"
    "qr_truncated q = (int (length fetched) > eff \<and> cap)"
    "qr_executed_sql q = b" "qr_row_limit q = eff"
  using assms
  by (auto simp: execute_def run_bounded_def Let_def
           dest!: after_audit_Inr split: sum.splits prod.splits if_splits)

section \<open>Properties\<close>

text \<open>Whatever the caller asks for, a successful execution returns at most the clamped
  number of rows: the reported count is the length of the rows, which is within the reported
  limit, which is within the clamp, which is within the configured ceiling.\<close>

theorem execute_row_bound:
  assumes "execution_ok (ex_settings E)" and "fst (execute E m clk mr tm sql w) = Inr q"
  shows "qr_row_count q = int (length (qr_rows q)) \<and> qr_row_count q \<le> qr_row_limit q
    \<and> qr_row_limit q \<le> clamp_rows (ex_settings E) mr
    \<and> clamp_rows (ex_settings E) mr \<le> max_rows_ceiling (ex_settings E)"
proof -
  obtain b eff cap fetched where
    b: "apply_row_limit (ex_sqlglot E) sql (clamp_rows (ex_settings E) mr) = Inr (b, eff, cap)"
    and q: "qr_rows q = take (nat eff) fetched" "qr_row_count q = int (length (qr_rows q))"
      "qr_row_limit q = eff"
    using execute_success [OF assms(2)] by metis
  have c: "1 \<le> clamp_rows (ex_settings E) mr"
      "clamp_rows (ex_settings E) mr \<le> max_rows_ceiling (ex_settings E)"
    using rows_clamp.in_range [OF assms(1), of mr] by simp_all
  have "0 \<le> eff" "eff \<le> clamp_rows (ex_settings E) mr"
    using apply_row_limit_bounds [OF b] c by simp_all
  with q c show ?thesis by simp
qed

text \<open>A concrete executor: one table-free query, five rows in the database.\<close>

definition five_rows :: "json list list" where
  "five_rows = map (\<lambda>i. [JInt i]) [1, 2, 3, 4, 5]"

definition toy_db :: database where
  "toy_db t q = (if prefix explain_prefix q then toy_plan_db 5 t q
     else if q = ''SELECT 1 LIMIT 3'' then Inr ([''n''], take 3 five_rows)
     else Inl (DriverError (Some ''57014'') None []))"

definition toy_executor :: "toy_node executor" where
  "toy_executor = \<lparr>ex_sqlglot = toy (\<lambda>_. Inr [Some toy_select]), ex_enum = (\<lambda>_. []),
     ex_catalog = [], ex_settings = default_execution, ex_to_str = (\<lambda>_. []), ex_db = toy_db,
     ex_audit = Some (None, \<lambda>_. None)\<rparr>"

definition toy_meta :: request_meta where
  "toy_meta = \<lparr>rm_question = None, rm_request_id = None, rm_trace_id = None,
     rm_session_id = None, rm_validation_attempts = 1\<rparr>"

definition empty_world :: world where
  "empty_world = \<lparr>w_db = [], w_audit = [], w_errlog = []\<rparr>"

lemma toy_validates:
  "fst (ex_validate toy_executor ''SELECT 1'')
     = Inr ((ok_result ''SELECT 1'' [])\<lparr>estimated_cost := Some 5\<rparr>)"
proof -
  have "fst (validate G enum cat S ts toy_db q) = fst (validate G enum cat S ts (toy_plan_db 5) q)"
    for G enum cat S ts q
    by (simp add: validate_def explain_stage_def Let_def toy_db_def)
  note eq = this
  show ?thesis
    unfolding ex_validate_def toy_executor_def executor.simps
    by (rule trans [OF eq toy_select_validates])
qed

lemma toy_limits: "apply_row_limit (ex_sqlglot toy_executor) ''SELECT 1''
    (clamp_rows (ex_settings toy_executor) (Some 2)) = Inr (''SELECT 1 LIMIT 3'', 2, True)"
  by (simp add: apply_row_limit_def toy_executor_def toy_def isa_any_def allowed_roots_def
      toy_select_def existing_limit_def clamp_rows_def default_execution_def toy_set_limit_def
      toy_sql_def show_int_def show_nat.simps digit_char_def char_eval)

lemma toy_executes:
  "fst (execute toy_executor toy_meta (0, 0) (Some 2) None ''SELECT 1'' empty_world) = Inr
     \<lparr>qr_columns = [''n''], qr_rows = [[JInt 1], [JInt 2]], qr_row_count = 2, qr_truncated = True,
      qr_duration_ms = 0, qr_executed_sql = ''SELECT 1 LIMIT 3'', qr_row_limit = 2,
      qr_estimated_cost = Some 5\<rparr>"
proof -
  obtain l where v: "ex_validate toy_executor ''SELECT 1''
      = (Inr ((ok_result ''SELECT 1'' [])\<lparr>estimated_cost := Some 5\<rparr>), l)"
    using toy_validates by (metis prod.collapse)
  have db: "ex_db toy_executor t ''SELECT 1 LIMIT 3'' = Inr ([''n''], take 3 five_rows)" for t
    by (simp add: toy_executor_def toy_db_def explain_prefix_def)
  have a: "ex_audit toy_executor = Some (None, \<lambda>_. None)"
    by (simp add: toy_executor_def)
  show ?thesis
    unfolding execute_def Let_def v prod.case sum.case toy_limits
    by (simp add: run_bounded_def Let_def db a after_audit_def record_audit_def five_rows_def
        ok_result_def)
qed

theorem execute_row_bound_witness:
  "clamp_rows (ex_settings toy_executor) (Some 2) \<le> max_rows_ceiling (ex_settings toy_executor)"
  using execute_row_bound [OF _ toy_executes] by (simp add: toy_executor_def)



text \<open>Only a limit that is a LIMIT node counts. A root whose limit argument is any other node,
  such as the FETCH FIRST clause, has it replaced by the ceiling, so the rendered query may return
  more rows than it asked for and reports the ceiling as its limit.\<close>

theorem other_limit_nodes_replaced:
  assumes "sg_parse_one G sql = Inr st" and "isa_any G st allowed_roots"
    and "sg_arg G st ''limit'' = Some node" and "\<not> sg_isa G node SLimit"
  shows "apply_row_limit G sql max_rows
     = Inr (sg_sql G (sg_with_limit G st (max_rows + 1)), max_rows, True)"
  using assms by (simp add: apply_row_limit_def existing_limit_def)

definition toy_fetch :: toy_node where
  "toy_fetch = Toy SSelect ''SELECT 1'' [] [] None
     [(''limit'', Toy SExpression ''FETCH'' [] [] None [] [])] []"

theorem other_limit_nodes_replaced_witness:
  "apply_row_limit ((toy (\<lambda>_. Inr [Some toy_fetch]))\<lparr>sg_isa := (\<lambda>n c. toy_class n = c)\<rparr>) ''q'' 5
   = Inr (''SELECT 1 LIMIT 6'', 5, True)"
proof -
  let ?G = "(toy (\<lambda>_. Inr [Some toy_fetch]))\<lparr>sg_isa := (\<lambda>n c. toy_class n = c)\<rparr>"
  have "apply_row_limit ?G ''q'' 5
      = Inr (sg_sql ?G (sg_with_limit ?G toy_fetch (5 + 1)), 5, True)"
    by (rule other_limit_nodes_replaced
          [where node = "Toy SExpression ''FETCH'' [] [] None [] []"])
       (simp_all add: toy_def toy_fetch_def isa_any_def allowed_roots_def)
  then show ?thesis
    by (simp add: toy_def toy_fetch_def toy_set_limit_def toy_sql_def show_int_def show_nat.simps
        digit_char_def char_eval)
qed

text \<open>No text reaches the database from \<open>execute\<close> or \<open>explain\<close> other than a planning text,
  unless the query passed every static stage of re-validation; and \<open>explain\<close> never runs anything
  but planning texts at all.\<close>

theorem only_validated_text_runs:
  assumes "RunText t \<in> set (drop (length (w_db w)) (w_db (snd (execute E m clk mr tm sql w))))"
    and "\<not> prefix explain_prefix t"
  shows "statically_ok E sql
    \<and> RunText t \<notin> set (drop (length (w_db w)) (w_db (snd (explain E m tm sql w))))"
proof -
  have "\<not> planning (RunText t)" using assms(2) by (simp add: planning_def)
  then show ?thesis
    using assms(1) gate.guarded_safe [where E = E and x = "RunText t" and q = sql]
      gate.check_log [of "RunText t" E sql]
    by (auto simp: execute_db explain_db)
qed

theorem only_validated_text_runs_witness: "statically_ok toy_executor ''SELECT 1''"
proof -
  obtain l where v: "ex_validate toy_executor ''SELECT 1''
      = (Inr ((ok_result ''SELECT 1'' [])\<lparr>estimated_cost := Some 5\<rparr>), l)"
    using toy_validates by (metis prod.collapse)
  have "RunText ''SELECT 1 LIMIT 3'' \<in> set (drop (length (w_db empty_world))
      (w_db (snd (execute toy_executor toy_meta (0, 0) (Some 2) None ''SELECT 1'' empty_world))))"
    by (simp add: execute_db guarded_def v toy_limits ok_result_def empty_world_def)
  then show ?thesis
    by (rule only_validated_text_runs [THEN conjunct1]) (simp add: explain_prefix_def)
qed



text \<open>When an insert fails, what the error log keeps is not the audit row: two attempts that ran
  different texts leave the same error-log entry, so the statement that
  was run cannot be recovered from it.\<close>

theorem failed_insert_loses_the_statement:
  assumes "isinst e CDriverError"
  shows "\<exists>f g. af_sql f \<noteq> af_sql g \<and> audit_row role f \<noteq> audit_row role g
    \<and> record_audit (Some (role, \<lambda>_. Some e)) f w = record_audit (Some (role, \<lambda>_. Some e)) g w"
  using assms
  by (intro exI [of _ "audit_call toy_meta ''success'' ''SELECT 1''"]
        exI [of _ "audit_call toy_meta ''success'' ''SELECT 2''"])
     (simp add: record_audit_def log_row_def audit_call_def audit_row_def)

theorem failed_insert_loses_the_statement_witness:
  "\<exists>f g. af_sql f \<noteq> af_sql g
    \<and> record_audit (Some (None, \<lambda>_. Some (DriverError None None []))) f empty_world
      = record_audit (Some (None, \<lambda>_. Some (DriverError None None []))) g empty_world"
  using failed_insert_loses_the_statement [of "DriverError None None []" None empty_world]
  by (auto simp: isinst_simps)

end
