(* ===== verification/ApiErrors.thy ===== *)
theory ApiErrors
  imports Exceptions Json
begin

text \<open>
  The error vocabulary of \<open>src/api/errors.py\<close>: the published codes, the translation of a domain
  error into a code and a message a caller may read, the JSON envelope and the five exception
  handlers \<open>install\<close> registers. A response is its status, its JSON body and its headers. An
  \<open>ApiError\<close> carries the status and the code of its \<open>ErrorCode\<close>; its optional \<open>details\<close>, which
  no raise in the package sets, are an argument of the envelope.
\<close>

section \<open>Codes\<close>

record error_code =
  ec_status :: int
  ec_code :: string

definition make_code :: "int \<Rightarrow> string \<Rightarrow> error_code" where
  "make_code s c = \<lparr>ec_status = s, ec_code = c\<rparr>"

definition INVALID_REQUEST :: error_code where
  "INVALID_REQUEST = make_code 400 ''invalid_request''"
definition QUERY_TIMEOUT :: error_code where
  "QUERY_TIMEOUT = make_code 408 ''query_timeout''"
definition PAYLOAD_TOO_LARGE :: error_code where
  "PAYLOAD_TOO_LARGE = make_code 413 ''payload_too_large''"
definition SQL_VALIDATION_FAILED :: error_code where
  "SQL_VALIDATION_FAILED = make_code 422 ''sql_validation_failed''"
definition AMBIGUOUS_QUESTION :: error_code where
  "AMBIGUOUS_QUESTION = make_code 422 ''ambiguous_question''"
definition RATE_LIMITED :: error_code where
  "RATE_LIMITED = make_code 429 ''rate_limited''"
definition INTERNAL_ERROR :: error_code where
  "INTERNAL_ERROR = make_code 500 ''internal_error''"
definition LLM_UNAVAILABLE :: error_code where
  "LLM_UNAVAILABLE = make_code 502 ''llm_unavailable''"
definition DATABASE_UNAVAILABLE :: error_code where
  "DATABASE_UNAVAILABLE = make_code 503 ''database_unavailable''"
definition NOT_READY :: error_code where
  "NOT_READY = make_code 503 ''not_ready''"

lemmas codes = INVALID_REQUEST_def QUERY_TIMEOUT_def PAYLOAD_TOO_LARGE_def
  SQL_VALIDATION_FAILED_def AMBIGUOUS_QUESTION_def RATE_LIMITED_def INTERNAL_ERROR_def
  LLM_UNAVAILABLE_def DATABASE_UNAVAILABLE_def NOT_READY_def make_code_def

definition by_status :: "(int, error_code) dict" where
  "by_status = [(400, INVALID_REQUEST), (404, make_code 404 ''not_found''),
     (405, make_code 405 ''method_not_allowed''), (408, QUERY_TIMEOUT), (413, PAYLOAD_TOO_LARGE),
     (429, RATE_LIMITED), (503, DATABASE_UNAVAILABLE)]"

definition generic_failure :: string where
  "generic_failure = ''the server could not complete this request''"

definition code_for :: "exn \<Rightarrow> error_code" where
  "code_for e =
     (if isinst e CStatementTimeoutError then QUERY_TIMEOUT
      else if isinst e CPermissionDeniedError then SQL_VALIDATION_FAILED
      else if isinst e CSQLValidationError then SQL_VALIDATION_FAILED
      else if isinst e CLLMQuotaExceededError then RATE_LIMITED
      else if isinst e CLLMUnavailableError \<or> isinst e CLLMError then LLM_UNAVAILABLE
      else if isinst e CRetrievalError then AMBIGUOUS_QUESTION
      else if isinst e CConfigurationError then INTERNAL_ERROR
      else INTERNAL_ERROR)"

text \<open>\<open>published\<close> compares by identity; the codes are distinct objects with distinct texts.\<close>

definition published :: "exn \<Rightarrow> error_code \<times> string" where
  "published e =
     (let err = code_for e in
      if err = INTERNAL_ERROR then (INTERNAL_ERROR, generic_failure) else (err, exn_str e))"

section \<open>Responses\<close>

record response =
  rs_status :: int
  rs_body :: json
  rs_headers :: "(string \<times> string) list"

definition envelope :: "error_code \<Rightarrow> string \<Rightarrow> string \<Rightarrow> (string \<times> json) list option \<Rightarrow> response" where
  "envelope err message request_id details =
     (let body = [(''code'', JStr (ec_code err)), (''message'', JStr message),
                  (''request_id'', JStr request_id)]
                 @ (case details of Some (d # ds) \<Rightarrow> [(''details'', JObj (d # ds))] | _ \<Rightarrow> [])
      in \<lparr>rs_status = ec_status err, rs_body = JObj [(''error'', JObj body)],
          rs_headers = [(''X-Request-Id'', request_id)]\<rparr>)"

definition max_field_path_chars :: nat where
  "max_field_path_chars = 96"

definition unprintable_field :: string where
  "unprintable_field = ''<unnamed>''"

definition isalnum :: "string \<Rightarrow> bool" where
  "isalnum s \<longleftrightarrow> s \<noteq> [] \<and> (\<forall>c \<in> set s. is_alnum c)"

definition safe_part :: "string \<Rightarrow> string" where
  "safe_part text =
     (if text = [] \<or> length text > 64 then unprintable_field
      else if isalnum (filter (\<lambda>c. c \<noteq> CHR ''_'' \<and> c \<noteq> CHR ''-'') text) then text
      else unprintable_field)"

text \<open>One framework validation error: the parts of its \<open>loc\<close> as text, and its \<open>msg\<close> if it has one.\<close>

definition fields_of :: "(string list \<times> string option) list \<Rightarrow> json list" where
  "fields_of errors = map (\<lambda>(loc, msg). JObj
     [(''field'', JStr (take max_field_path_chars (join ''.'' (map safe_part loc)))),
      (''reason'', JStr (of_option ''invalid'' msg))]) errors"

definition http_message :: "int \<Rightarrow> string" where
  "http_message status =
     (if status = 404 then ''no route matches this path''
      else if status = 405 then ''that method is not allowed on this path''
      else ''the request could not be completed'')"

text \<open>What reaches a handler: an exception of the program, a request the framework refused, or a
  status the framework raised. \<open>handle\<close> picks the handler of the nearest registered class.\<close>

datatype failure =
    Raised exn
  | BadRequest "(string list \<times> string option) list"
  | HttpStatus int

definition handle :: "string \<Rightarrow> failure \<Rightarrow> response" where
  "handle request_id f =
     (case f of
        BadRequest errors \<Rightarrow>
          envelope INVALID_REQUEST ''the request body or parameters did not match the expected shape''
            request_id (Some [(''fields'', JArr (fields_of errors))])
      | HttpStatus s \<Rightarrow>
          envelope (of_option (make_code s ''request_failed'') (dict_get by_status s))
            (http_message s) request_id None
      | Raised e \<Rightarrow>
          (case e of
             ApiError s c m \<Rightarrow> envelope (make_code s c) m request_id None
           | _ \<Rightarrow>
             if isinst e CTextToSQLError
             then envelope (fst (published e)) (snd (published e)) request_id None
             else envelope INTERNAL_ERROR generic_failure request_id None))"

section \<open>Facts\<close>

lemma codes_distinct:
  "QUERY_TIMEOUT \<noteq> INTERNAL_ERROR" "SQL_VALIDATION_FAILED \<noteq> INTERNAL_ERROR"
  "RATE_LIMITED \<noteq> INTERNAL_ERROR" "LLM_UNAVAILABLE \<noteq> INTERNAL_ERROR"
  "AMBIGUOUS_QUESTION \<noteq> INTERNAL_ERROR"
  by (simp_all add: codes)

definition path_char :: "char \<Rightarrow> bool" where
  "path_char c \<longleftrightarrow> is_alnum c \<or> c \<in> {CHR ''_'', CHR ''-'', CHR ''<'', CHR ''>'', CHR ''.''}"

lemma unprintable_field_chars: "list_all path_char unprintable_field"
  by (simp add: unprintable_field_def path_char_def is_alnum_def is_ascii_letter_def char_eval)

lemma safe_part_chars: "c \<in> set (safe_part t) \<Longrightarrow> path_char c"
  using unprintable_field_chars
  by (auto simp: safe_part_def isalnum_def path_char_def list_all_iff split: if_splits)

lemma length_safe_part: "length (safe_part t) \<le> 64"
  by (simp add: safe_part_def unprintable_field_def)

lemma join_fields_chars: "c \<in> set (join ''.'' (map safe_part loc)) \<Longrightarrow> path_char c"
  using set_join [of c "''.''" "map safe_part loc"] safe_part_chars
  by (auto simp: path_char_def)

section \<open>Properties\<close>

text \<open>What a caller may read of a failure. A response names the text of an exception only when
  the exception is an \<open>ApiError\<close>, or a domain error of one of the six kinds that have a code of
  their own; for every other exception, and for every unclassified domain error, the response is
  the same fixed one, so nothing about the exception can be recovered from it.\<close>

theorem internal_errors_are_opaque:
  assumes "\<not> isinst e CApiError"
    and "\<forall>c \<in> {CStatementTimeoutError, CPermissionDeniedError, CSQLValidationError, CLLMError,
               CRetrievalError}. \<not> isinst e c"
  shows "handle rid (Raised e) = handle rid (Raised (OtherError [] []))
    \<and> rs_status (handle rid (Raised e)) = 500"
proof -
  have "\<not> isinst e CLLMQuotaExceededError" "\<not> isinst e CLLMUnavailableError"
    using assms(2) isinst_super [of e CLLMUnavailableError CLLMError]
      isinst_super [of e CLLMQuotaExceededError CLLMError]
    by (auto simp: mro_eval)
  then have "published e = (INTERNAL_ERROR, generic_failure)"
    using assms(2) by (simp add: published_def code_for_def)
  moreover have "\<not> isinst (OtherError [] []) CTextToSQLError" by (simp add: isinst_simps)
  ultimately show ?thesis
    using assms(1) by (cases e) (simp_all add: handle_def isinst_simps envelope_def codes)
qed

theorem internal_errors_are_opaque_witness:
  "handle ''r'' (Raised (ConfigurationError ''secret'')) = handle ''r'' (Raised (OtherError [] []))"
  using internal_errors_are_opaque [of "ConfigurationError ''secret''" "''r''"]
  by (simp add: isinst_simps)

text \<open>An attacker's field names cannot carry text into the response: every field path reported
  for a refused request is at most 96 characters of letters, digits, underscore, hyphen, dot and
  the fixed placeholder's brackets.\<close>

theorem field_paths_are_safe:
  assumes "JObj entry \<in> set (fields_of errors)" and "(''field'', JStr path) \<in> set entry"
  shows "length path \<le> 96
    \<and> (\<forall>c \<in> set path. path_char c)"
proof -
  obtain loc where "path = take max_field_path_chars (join ''.'' (map safe_part loc))"
    using assms by (auto simp: fields_of_def)
  then show ?thesis
    using join_fields_chars [of _ loc] by (auto simp: max_field_path_chars_def dest: in_set_takeD)
qed

theorem field_paths_are_safe_witness:
  "length (''body.<unnamed>'') \<le> (96 :: nat)"
proof -
  have "JObj [(''field'', JStr ''body.<unnamed>''), (''reason'', JStr ''invalid'')]
      \<in> set (fields_of [([''body'', ''a b''], None)])"
    by (simp add: fields_of_def safe_part_def isalnum_def is_alnum_def is_digit_def
        is_ascii_letter_def unprintable_field_def max_field_path_chars_def of_option_def char_eval)
  then show ?thesis
    by (rule field_paths_are_safe [THEN conjunct1]) simp
qed

end
