(* ===== verification/Sse.thy ===== *)
theory Sse
  imports Exceptions Json
begin

text \<open>
  Server-sent events, \<open>src/api/sse.py\<close>: the event name test, the frame of one event and the
  heartbeat comment. The receiving side is not part of the program; \<open>client\<close> is the field
  parser of the event-stream format that every client runs, kept here as the specification the
  frames are proved against.
\<close>

section \<open>Framing\<close>

definition heartbeat :: string where
  "heartbeat = '': keepalive'' @ [newline, newline]"

definition is_lower :: "char \<Rightarrow> bool" where
  "is_lower c \<longleftrightarrow> 97 \<le> code c \<and> code c \<le> 122"

text \<open>The pattern: one lower-case letter, then at most thirty of letters and underscores.\<close>

definition event_name_ok :: "string \<Rightarrow> bool" where
  "event_name_ok name =
     (case name of [] \<Rightarrow> False
      | c # cs \<Rightarrow> is_lower c \<and> length cs \<le> 30 \<and> (\<forall>d \<in> set cs. is_lower d \<or> d = CHR ''_''))"

record sse_event =
  ev_name :: string
  ev_data :: "(string \<times> json) list"

definition make_event :: "string \<Rightarrow> (string \<times> json) list \<Rightarrow> exn + sse_event" where
  "make_event name data =
     (if event_name_ok name then Inr \<lparr>ev_name = name, ev_data = data\<rparr>
      else Inl (OtherError ''ValueError'' (''illegal SSE event name: '' @ py_repr name)))"

definition encode :: "(rat \<Rightarrow> string) \<Rightarrow> sse_event \<Rightarrow> exn + string" where
  "encode fr e =
     (let payload = dumps fr (JObj (ev_data e)) in
      if newline \<in> set payload \<or> return_char \<in> set payload
      then Inl (OtherError ''ValueError'' (''SSE payload spans lines for event '' @ py_repr (ev_name e)))
      else Inr (''event: '' @ ev_name e @ [newline] @ ''data: '' @ payload @ [newline, newline]))"

section \<open>The receiving side\<close>

text \<open>Lines end at a line feed or a carriage return; an unfinished last line is dropped.\<close>

fun cut_lines :: "string \<Rightarrow> string \<Rightarrow> string list" where
  "cut_lines acc [] = []"
| "cut_lines acc (c # cs) =
     (if c = newline \<or> c = return_char then rev acc # cut_lines [] cs else cut_lines (c # acc) cs)"

fun read_field :: "string \<Rightarrow> string \<Rightarrow> string \<times> string" where
  "read_field acc [] = (rev acc, [])"
| "read_field acc (c # cs) =
     (if c = CHR '':'' then (rev acc, case cs of d # ds \<Rightarrow> if d = CHR '' '' then ds else cs | [] \<Rightarrow> [])
      else read_field (c # acc) cs)"

fun receive :: "string \<Rightarrow> string list \<Rightarrow> string list \<Rightarrow> (string \<times> string) list" where
  "receive ev data [] = []"
| "receive ev data (line # rest) =
     (if line = [] then
        (if data = [] then receive [] [] rest
         else (if ev = [] then ''message'' else ev, join [newline] data) # receive [] [] rest)
      else if hd line = CHR '':'' then receive ev data rest
      else let (field, value) = read_field [] line in
        if field = ''event'' then receive value data rest
        else if field = ''data'' then receive ev (data @ [value]) rest
        else receive ev data rest)"

definition client :: "string \<Rightarrow> (string \<times> string) list" where
  "client s = receive [] [] (cut_lines [] s)"

datatype frame = Event sse_event | Heartbeat

fun wire :: "(rat \<Rightarrow> string) \<Rightarrow> frame \<Rightarrow> exn + string" where
  "wire fr Heartbeat = Inr heartbeat"
| "wire fr (Event e) = encode fr e"

fun sent :: "(rat \<Rightarrow> string) \<Rightarrow> frame list \<Rightarrow> (string \<times> string) list" where
  "sent fr [] = []"
| "sent fr (Heartbeat # fs) = sent fr fs"
| "sent fr (Event e # fs) = (ev_name e, dumps fr (JObj (ev_data e))) # sent fr fs"

section \<open>Facts\<close>

lemma cut_lines_line:
  "newline \<notin> set s \<Longrightarrow> return_char \<notin> set s \<Longrightarrow>
     cut_lines acc (s @ newline # rest) = (rev acc @ s) # cut_lines [] rest"
  by (induction s arbitrary: acc) auto

lemma event_name_chars:
  assumes "event_name_ok n"
  shows "n \<noteq> []" "newline \<notin> set n" "return_char \<notin> set n"
  using assms
  by (auto simp: event_name_ok_def is_lower_def newline_def return_char_def char_eval split: list.splits)

lemma encode_ok: "float_text fr \<Longrightarrow> encode fr e =
    Inr (''event: '' @ ev_name e @ [newline] @ ''data: '' @ dumps fr (JObj (ev_data e)) @ [newline, newline])"
  using ascii_line_no_break [OF dumps_ascii, of fr "JObj (ev_data e)"] by (simp add: encode_def Let_def)

lemma client_heartbeat: "client (heartbeat @ rest) = client rest"
proof -
  have h: "heartbeat @ rest = '': keepalive'' @ newline # [] @ newline # rest"
    by (simp add: heartbeat_def)
  have n: "newline \<notin> set '': keepalive''" "return_char \<notin> set '': keepalive''"
    by (simp_all add: newline_def return_char_def)
  show ?thesis
    unfolding client_def h cut_lines_line [OF n] by (simp add: cut_lines_line [of "[]"])
qed

lemma client_event:
  assumes "float_text fr" "event_name_ok (ev_name e)" "encode fr e = Inr s"
  shows "client (s @ rest) = (ev_name e, dumps fr (JObj (ev_data e))) # client rest"
proof -
  let ?p = "dumps fr (JObj (ev_data e))"
  have p: "newline \<notin> set ?p" "return_char \<notin> set ?p"
    using ascii_line_no_break [OF dumps_ascii [OF assms(1)], of "JObj (ev_data e)"] by auto
  have h: "s @ rest = (''event: '' @ ev_name e) @ newline # (''data: '' @ ?p) @ newline # [] @ newline # rest"
    using assms(1,3) by (simp add: encode_ok)
  have n: "newline \<notin> set (''event: '' @ ev_name e)" "return_char \<notin> set (''event: '' @ ev_name e)"
      "newline \<notin> set (''data: '' @ ?p)" "return_char \<notin> set (''data: '' @ ?p)"
    using event_name_chars [OF assms(2)] p by (auto simp: newline_def return_char_def)
  have "read_field [] (''event: '' @ ev_name e) = (''event'', ev_name e)"
      "read_field [] (''data: '' @ ?p) = (''data'', ?p)"
    by simp_all
  then show ?thesis
    unfolding client_def h cut_lines_line [OF n(1,2)] cut_lines_line [OF n(3,4)]
    using event_name_chars(1) [OF assms(2)] by (simp add: cut_lines_line [of "[]"])
qed

lemma frames_decode:
  assumes fr: "float_text fr" and names: "\<forall>e. Event e \<in> set fs \<longrightarrow> event_name_ok (ev_name e)"
  shows "\<exists>ws. map (wire fr) fs = map Inr ws \<and> client (concat ws) = sent fr fs"
  using names
proof (induction fs)
  case Nil
  then show ?case by (simp add: client_def)
next
  case (Cons f fs)
  then obtain ws where ws: "map (wire fr) fs = map Inr ws" "client (concat ws) = sent fr fs" by auto
  show ?case
  proof (cases f)
    case Heartbeat
    then show ?thesis using ws by (intro exI [of _ "heartbeat # ws"]) (simp add: client_heartbeat)
  next
    case (Event e)
    obtain s where s: "encode fr e = Inr s" using encode_ok [OF fr] by metis
    have "event_name_ok (ev_name e)" using Cons.prems Event by simp
    then show ?thesis
      using ws Event s client_event [OF fr _ s] by (intro exI [of _ "s # ws"]) simp
  qed
qed

section \<open>Properties\<close>

text \<open>Framing is faithful. Whatever values the events carry, line breaks included, every legal
  event encodes, and a client reading the concatenation of any events and heartbeats recovers
  exactly the events, in order, each with its name and its JSON payload.\<close>

theorem frames_roundtrip:
  assumes fr: "float_text fr" and names: "\<forall>e. Event e \<in> set fs \<longrightarrow> event_name_ok (ev_name e)"
  shows "\<exists>ws. map (wire fr) fs = map Inr ws \<and> client (concat ws) = sent fr fs"
  by (rule frames_decode [OF fr names])

theorem frames_roundtrip_witness:
  "\<exists>ws. map (wire (\<lambda>_. ''0'')) [Event \<lparr>ev_name = ''sql'', ev_data = [(''sql'', JStr [newline])]\<rparr>, Heartbeat]
      = map Inr ws \<and> length (client (concat ws)) = 1"
proof -
  have f: "float_text (\<lambda>_. ''0'')" by (simp add: float_text_def is_digit_def code_def)
  have n: "\<forall>e. Event e \<in> set [Event \<lparr>ev_name = ''sql'', ev_data = [(''sql'', JStr [newline])]\<rparr>, Heartbeat]
      \<longrightarrow> event_name_ok (ev_name e)"
    by (simp add: event_name_ok_def is_lower_def code_def)
  obtain ws where "map (wire (\<lambda>_. ''0''))
      [Event \<lparr>ev_name = ''sql'', ev_data = [(''sql'', JStr [newline])]\<rparr>, Heartbeat] = map Inr ws"
    and "length (client (concat ws)) = 1"
    using frames_roundtrip [OF f n] by force
  then show ?thesis by blast
qed

end
