(* ===== verification/Query.thy ===== *)
theory Query
  imports Generation Execution ApiErrors Sse
begin

text \<open>
  The query service, \<open>src/api/query.py\<close> with the request and response shapes of
  \<open>src/api/schemas.py\<close>. One answer is a function of the answerer, the executor and the world
  that returns the events it emits, the timed steps and the outcome; the route and the stream turn
  the same outcome into a response body or a terminal event. Admission and the life of the
  requests that hold a slot are a step relation. Durations and the schedule on which a stream
  reads its queue are arguments.
\<close>

section \<open>Requests\<close>

record query_options =
  qo_max_rows :: "int option"
  qo_timeout_ms :: "int option"
  qo_explain_only :: bool

record query_request =
  qq_question :: string
  qq_stream :: bool
  qq_options :: query_options

definition request_ok :: "query_request \<Rightarrow> bool" where
  "request_ok r \<longleftrightarrow> 1 \<le> length (qq_question r) \<and> length (qq_question r) \<le> 2000
     \<and> (case qo_max_rows (qq_options r) of None \<Rightarrow> True | Some n \<Rightarrow> 1 \<le> n)
     \<and> (case qo_timeout_ms (qq_options r) of None \<Rightarrow> True | Some n \<Rightarrow> 1 \<le> n)"

record query_step =
  qs_stage :: string
  qs_duration_ms :: rat
  qs_status :: string

record answer =
  an_candidate :: candidate
  an_result :: "query_result option"
  an_steps :: "query_step list"

section \<open>Admission\<close>

record admission =
  ad_limit :: int
  ad_held :: int

definition acquire :: "admission \<Rightarrow> exn + admission" where
  "acquire a =
     (if ad_held a \<ge> ad_limit a
      then Inl (ApiError (ec_status RATE_LIMITED) (ec_code RATE_LIMITED)
        (''too many questions in flight; the limit is '' @ show_int (ad_limit a)))
      else Inr (a\<lparr>ad_held := ad_held a + 1\<rparr>))"

definition release :: "admission \<Rightarrow> admission" where
  "release a = a\<lparr>ad_held := ad_held a - 1\<rparr>"

section \<open>One answer\<close>

definition event :: "string \<Rightarrow> (string \<times> json) list \<Rightarrow> sse_event" where
  "event name data = \<lparr>ev_name = name, ev_data = data\<rparr>"

definition stage_event :: "string \<Rightarrow> sse_event" where
  "stage_event st = event ''stage'' [(''stage'', JStr st), (''status'', JStr ''ok'')]"

definition rows_event :: "query_result \<Rightarrow> sse_event" where
  "rows_event r = event ''rows'' [(''columns'', JArr (map JStr (qr_columns r))),
     (''rows'', JArr (map JArr (qr_rows r))), (''truncated'', JBool (qr_truncated r))]"

text \<open>\<open>_timed\<close>: a step is recorded unless what ended the call is not an \<open>Exception\<close>.\<close>

definition timed :: "string \<Rightarrow> rat \<Rightarrow> exn + 'a \<Rightarrow> query_step list" where
  "timed st d out =
     (case out of
        Inl e \<Rightarrow> if isinst e CException
                then [\<lparr>qs_stage = st, qs_duration_ms = d, qs_status = ''error''\<rparr>] else []
      | Inr _ \<Rightarrow> [\<lparr>qs_stage = st, qs_duration_ms = d, qs_status = ''ok''\<rparr>])"

definition plain_meta :: request_meta where
  "plain_meta = \<lparr>rm_question = None, rm_request_id = None, rm_trace_id = None,
     rm_session_id = None, rm_validation_attempts = 1\<rparr>"

record 's service =
  sv_answerer :: "string \<Rightarrow> 's \<Rightarrow> string list \<times> (exn + candidate) \<times> 's"
  sv_clock :: "rat \<times> rat"
  sv_durations :: "rat \<times> rat"

definition answer_question ::
  "'n executor \<Rightarrow> 's service \<Rightarrow> query_request \<Rightarrow> string \<Rightarrow> 's \<times> world
     \<Rightarrow> sse_event list \<times> (exn + answer) \<times> ('s \<times> world)" where
  "answer_question E sv rq request_id sw =
     (let (s, w) = sw; o1 = qq_options rq;
          (stages, out, s1) = sv_answerer sv (qq_question rq) s;
          told = map stage_event stages; step1 = timed ''answer'' (fst (sv_durations sv)) out in
      case out of
        Inl e \<Rightarrow> (told, Inl e, (s1, w))
      | Inr c \<Rightarrow>
         (let told1 = told @ [event ''sql'' [(''sql'', JStr (cd_sql c)), (''attempt'', JInt 1)]] in
          if qo_explain_only o1 then
            (case explain E plain_meta (qo_timeout_ms o1) (cd_sql c) w of
               (Inl e, w1) \<Rightarrow> (told1, Inl e, (s1, w1))
             | (Inr u, w1) \<Rightarrow> (told1 @ [stage_event ''validate''],
                 Inr \<lparr>an_candidate = c, an_result = None,
                   an_steps = step1 @ timed ''validate'' (snd (sv_durations sv)) (Inr u :: exn + unit)\<rparr>,
                 (s1, w1)))
          else
            (case execute E (plain_meta\<lparr>rm_question := Some (qq_question rq), rm_request_id := Some request_id\<rparr>)
                    (sv_clock sv) (qo_max_rows o1) (qo_timeout_ms o1) (cd_sql c) w of
               (Inl e, w1) \<Rightarrow> (told1, Inl e, (s1, w1))
             | (Inr r, w1) \<Rightarrow> (told1 @ [stage_event ''execute'', rows_event r],
                 Inr \<lparr>an_candidate = c, an_result = Some r,
                   an_steps = step1 @ timed ''execute'' (snd (sv_durations sv)) (Inr r :: exn + query_result)\<rparr>,
                 (s1, w1)))))"

text \<open>\<open>answer\<close>: the slot is held for the call and given back however it ends.\<close>

definition serve ::
  "'n executor \<Rightarrow> 's service \<Rightarrow> query_request \<Rightarrow> string \<Rightarrow> admission \<times> 's \<times> world
     \<Rightarrow> (exn + answer) \<times> admission \<times> 's \<times> world" where
  "serve E sv rq request_id st =
     (let (a, sw) = st in
      case acquire a of
        Inl e \<Rightarrow> (Inl e, a, sw)
      | Inr a1 \<Rightarrow>
         (let (_, out, sw1) = answer_question E sv rq request_id sw in (out, release a1, sw1)))"

section \<open>The two ways of telling the outcome\<close>

definition validation_failed_message :: string where
  "validation_failed_message = ''the generated query did not pass validation''"

definition error_event :: "string \<Rightarrow> string \<Rightarrow> string \<Rightarrow> sse_event" where
  "error_event code' message' request_id = event ''error''
     [(''error'', JObj [(''code'', JStr code'), (''message'', JStr message'), (''request_id'', JStr request_id)])]"

definition step_json :: "query_step \<Rightarrow> json" where
  "step_json s = JObj [(''stage'', JStr (qs_stage s)), (''duration_ms'', JFloat (qs_duration_ms s)),
     (''status'', JStr (qs_status s))]"

definition usage_json :: "usage \<Rightarrow> json" where
  "usage_json u = JObj [(''input_tokens'', JInt (input_tokens u)), (''output_tokens'', JInt (output_tokens u))]"

definition done_event :: "answer \<Rightarrow> sse_event" where
  "done_event a = event ''done''
     [(''row_count'', JInt (case an_result a of None \<Rightarrow> 0 | Some r \<Rightarrow> qr_row_count r)),
      (''executed'', JBool (an_result a \<noteq> None)),
      (''steps'', JArr (map step_json (an_steps a))),
      (''usage'', usage_json (cd_usage (an_candidate a)))]"

definition failure_event :: "exn \<Rightarrow> string \<Rightarrow> sse_event" where
  "failure_event e request_id =
     (if isinst e CSQLValidationError
      then error_event (ec_code SQL_VALIDATION_FAILED) validation_failed_message request_id
      else case e of
        ApiError _ c m \<Rightarrow> error_event c m request_id
      | _ \<Rightarrow>
          if isinst e CTextToSQLError
          then error_event (ec_code (fst (published e))) (snd (published e)) request_id
          else error_event (ec_code INTERNAL_ERROR) generic_failure request_id)"

text \<open>\<open>_produce\<close>: the items put on the queue, \<open>None\<close> being the sentinel of its \<open>finally\<close>.\<close>

definition produce ::
  "'n executor \<Rightarrow> 's service \<Rightarrow> query_request \<Rightarrow> string \<Rightarrow> 's \<times> world \<Rightarrow> sse_event option list" where
  "produce E sv rq request_id sw =
     (let (told, out, _) = answer_question E sv rq request_id sw in
      map Some told
      @ (case out of
           Inl CancelledError \<Rightarrow> []
         | Inl e \<Rightarrow> [Some (failure_event e request_id)]
         | Inr a \<Rightarrow> [Some (done_event a)])
      @ [None])"

definition answer_body :: "answer \<Rightarrow> json" where
  "answer_body a = JObj
     [(''sql'', JStr (cd_sql (an_candidate a))),
      (''columns'', JArr (case an_result a of None \<Rightarrow> [] | Some r \<Rightarrow> map JStr (qr_columns r))),
      (''rows'', JArr (case an_result a of None \<Rightarrow> [] | Some r \<Rightarrow> map JArr (qr_rows r))),
      (''row_count'', JInt (case an_result a of None \<Rightarrow> 0 | Some r \<Rightarrow> qr_row_count r)),
      (''truncated'', JBool (case an_result a of None \<Rightarrow> False | Some r \<Rightarrow> qr_truncated r)),
      (''executed'', JBool (an_result a \<noteq> None)),
      (''steps'', JArr (map step_json (an_steps a))),
      (''usage'', usage_json (cd_usage (an_candidate a)))]"

definition query_route :: "string \<Rightarrow> exn + answer \<Rightarrow> response" where
  "query_route request_id out =
     (case out of
        Inl e \<Rightarrow> handle request_id (Raised
          (if isinst e CSQLValidationError
           then ApiError (ec_status SQL_VALIDATION_FAILED) (ec_code SQL_VALIDATION_FAILED)
                  validation_failed_message
           else e))
      | Inr a \<Rightarrow> \<lparr>rs_status = 200, rs_body = answer_body a, rs_headers = [(''X-Request-Id'', request_id)]\<rparr>)"

section \<open>The stream\<close>

text \<open>What the loop meets at each turn: an item of the queue, or a quiet interval at whose end the
  client is gone or still there.\<close>

datatype signal = Got "sse_event option" | Quiet bool

fun pump :: "signal list \<Rightarrow> frame list" where
  "pump [] = []"
| "pump (Got None # _) = []"
| "pump (Got (Some e) # rest) = Event e # pump rest"
| "pump (Quiet gone # rest) = (if gone then [] else Heartbeat # pump rest)"

fun got :: "signal list \<Rightarrow> sse_event option list" where
  "got [] = []"
| "got (Got x # rest) = x # got rest"
| "got (Quiet _ # rest) = got rest"

section \<open>Slots over time\<close>

text \<open>A request that was admitted: answering in one response; a stream whose generator was made but
  not yet advanced; a stream being read; ended; or a stream dropped before it was advanced, whose
  \<open>finally\<close> therefore never runs.\<close>

datatype phase = Answering | Waiting | Streaming | Ended | Dropped

type_synonym slots = "admission \<times> phase list"

inductive slot_step :: "slots \<Rightarrow> slots \<Rightarrow> bool" where
  admit_answer: "acquire a = Inr a' \<Longrightarrow> slot_step (a, ps) (a', ps @ [Answering])"
| admit_stream: "acquire a = Inr a' \<Longrightarrow> slot_step (a, ps) (a', ps @ [Waiting])"
| refuse: "acquire a = Inl e \<Longrightarrow> slot_step (a, ps) (a, ps)"
| first_chunk: "i < length ps \<Longrightarrow> ps ! i = Waiting \<Longrightarrow> slot_step (a, ps) (a, ps[i := Streaming])"
| answer_ends: "i < length ps \<Longrightarrow> ps ! i = Answering \<Longrightarrow> slot_step (a, ps) (release a, ps[i := Ended])"
| stream_ends: "i < length ps \<Longrightarrow> ps ! i = Streaming \<Longrightarrow> slot_step (a, ps) (release a, ps[i := Ended])"
| never_read: "i < length ps \<Longrightarrow> ps ! i = Waiting \<Longrightarrow> slot_step (a, ps) (a, ps[i := Dropped])"

inductive_cases slot_stepE: "slot_step (a, ps) (a', ps')"

definition slot_start :: "int \<Rightarrow> slots" where
  "slot_start limit = (\<lparr>ad_limit = limit, ad_held = 0\<rparr>, [])"

definition slot_reach :: "int \<Rightarrow> slots \<Rightarrow> bool" where
  "slot_reach limit st \<longleftrightarrow> slot_step\<^sup>*\<^sup>* (slot_start limit) st"

definition holding :: "phase list \<Rightarrow> nat" where
  "holding ps = length (filter (\<lambda>p. p \<noteq> Ended) ps)"

section \<open>Facts\<close>

lemma holding_append [simp]: "holding (ps @ [p]) = holding ps + (if p = Ended then 0 else 1)"
  by (simp add: holding_def)

lemma holding_update:
  assumes i: "i < length ps" "ps ! i \<noteq> Ended"
  shows "int (holding (ps[i := p])) = (if p = Ended then int (holding ps) - 1 else int (holding ps))"
proof -
  have ps: "ps = take i ps @ ps ! i # drop (Suc i) ps" using i(1) by (rule id_take_nth_drop)
  have u: "ps[i := p] = take i ps @ p # drop (Suc i) ps" using i(1) by (rule upd_conv_take_nth_drop)
  have h: "holding ps = holding (take i ps) + Suc (holding (drop (Suc i) ps))"
    by (subst ps) (simp add: holding_def i(2))
  show ?thesis
    unfolding u h by (simp add: holding_def)
qed

lemma acquire_Inr: "acquire a = Inr a' \<longleftrightarrow> ad_held a < ad_limit a \<and> a' = a\<lparr>ad_held := ad_held a + 1\<rparr>"
  by (auto simp: acquire_def)

lemma acquire_Inl: "(\<exists>e. acquire a = Inl e) \<longleftrightarrow> ad_held a \<ge> ad_limit a"
  by (auto simp: acquire_def)

lemma slot_invariant:
  assumes "slot_reach limit st" "0 \<le> limit"
  shows "ad_limit (fst st) = limit \<and> ad_held (fst st) = int (holding (snd st)) \<and> ad_held (fst st) \<le> limit"
  using assms(1) unfolding slot_reach_def
proof (induction rule: rtranclp_induct)
  case base
  then show ?case using assms(2) by (simp add: slot_start_def holding_def)
next
  case (step y z)
  obtain a ps a' ps' where yz: "y = (a, ps)" "z = (a', ps')" by (cases y, cases z)
  show ?case
    using step(2,3) unfolding yz
    by (elim slot_stepE) (auto simp: acquire_Inr release_def holding_update)
qed

definition dropped :: "phase list \<Rightarrow> nat set" where
  "dropped ps = {i. i < length ps \<and> ps ! i = Dropped}"

lemma dropped_step: "slot_step (a, ps) (a', ps') \<Longrightarrow> dropped ps \<subseteq> dropped ps'"
  by (elim slot_stepE) (auto simp: dropped_def nth_append nth_list_update)

lemma dropped_steps: "slot_step\<^sup>*\<^sup>* st st' \<Longrightarrow> dropped (snd st) \<subseteq> dropped (snd st')"
proof (induction rule: rtranclp_induct)
  case (step y z)
  then show ?case using dropped_step [of "fst y" "snd y" "fst z" "snd z"] by auto
qed simp

lemma dropped_holding: "card (dropped ps) \<le> holding ps"
proof -
  have "card (dropped ps) = length (filter (\<lambda>p. p = Dropped) ps)"
    by (simp add: dropped_def length_filter_conv_card)
  also have "\<dots> \<le> holding ps"
    unfolding holding_def by (induction ps) auto
  finally show ?thesis .
qed

section \<open>Properties\<close>

text \<open>C11: admission bounds concurrency. In every reachable state the count equals the number of
  admitted requests that have not ended, and never exceeds the limit, so a request is refused
  exactly when that many are unended.\<close>

theorem slots_bounded:
  assumes "slot_reach limit (a, ps)" and "0 \<le> limit"
  shows "ad_held a = int (holding ps) \<and> int (holding ps) \<le> limit
    \<and> ((\<exists>e. acquire a = Inl e) \<longleftrightarrow> int (holding ps) = limit)"
  using slot_invariant [OF assms] by (auto simp: acquire_Inl)

theorem slots_bounded_witness: "int (holding [Answering]) \<le> 1"
proof -
  have "slot_step (slot_start 1) (\<lparr>ad_limit = 1, ad_held = 1\<rparr>, [] @ [Answering])"
    unfolding slot_start_def by (rule admit_answer) (simp add: acquire_def)
  then have "slot_reach 1 (\<lparr>ad_limit = 1, ad_held = 1\<rparr>, [Answering])"
    by (simp add: slot_reach_def)
  from slots_bounded [OF this] show ?thesis by simp
qed

text \<open>A stream dropped before its first chunk keeps its slot for good. The slots of dropped streams
  are held in every later state, so once there are as many of them as the limit, every later
  request is refused.\<close>

theorem dropped_streams_keep_their_slots:
  assumes reach: "slot_reach limit (a, ps)" and lim: "0 \<le> limit"
    and later: "slot_step\<^sup>*\<^sup>* (a, ps) (a', ps')"
  shows "int (card (dropped ps)) \<le> ad_held a'
    \<and> (int (card (dropped ps)) = limit \<longrightarrow> (\<exists>e. acquire a' = Inl e))"
proof -
  have "slot_reach limit (a', ps')"
    using reach later unfolding slot_reach_def by (rule rtranclp_trans)
  then have inv: "ad_limit a' = limit" "ad_held a' = int (holding ps')"
    using slot_invariant [OF _ lim] by auto
  have "finite (dropped ps')" by (simp add: dropped_def)
  then have "card (dropped ps) \<le> card (dropped ps')"
    using dropped_steps [OF later] by (simp add: card_mono)
  then have "int (card (dropped ps)) \<le> ad_held a'"
    using dropped_holding [of ps'] inv by simp
  then show ?thesis by (simp add: acquire_Inl inv(1))
qed

theorem dropped_streams_keep_their_slots_witness:
  "\<exists>e. acquire \<lparr>ad_limit = 1, ad_held = 1\<rparr> = Inl e"
proof -
  let ?a = "\<lparr>ad_limit = 1, ad_held = 1\<rparr>"
  have "slot_step (slot_start 1) (?a, [] @ [Waiting])"
    unfolding slot_start_def by (rule admit_stream) (simp add: acquire_def)
  moreover have "slot_step (?a, [Waiting]) (?a, [Waiting][0 := Dropped])"
    by (rule never_read) simp_all
  ultimately have "slot_reach 1 (?a, [Dropped])"
    unfolding slot_reach_def by (simp add: converse_rtranclp_into_rtranclp r_into_rtranclp)
  moreover have "dropped [Dropped] = {0}" by (auto simp: dropped_def)
  ultimately show ?thesis
    using dropped_streams_keep_their_slots [of 1 ?a "[Dropped]" ?a "[Dropped]"] by simp
qed

text \<open>An answer gives its slot back however it ends, and a refused one changes nothing.\<close>

theorem serve_balances_slots:
  "fst (snd (serve E sv rq rid (a, sw))) = a
   \<and> (ad_held a \<ge> ad_limit a \<longrightarrow> snd (snd (serve E sv rq rid (a, sw))) = sw)"
  by (auto simp: serve_def Let_def acquire_def release_def split: prod.splits)

theorem serve_balances_slots_witness:
  "snd (snd (serve toy_executor \<lparr>sv_answerer = (\<lambda>_ s. ([], Inl CancelledError, s)), sv_clock = (0, 0),
     sv_durations = (0, 0)\<rparr> \<lparr>qq_question = ''q'', qq_stream = False, qq_options =
       \<lparr>qo_max_rows = None, qo_timeout_ms = None, qo_explain_only = False\<rparr>\<rparr> ''r''
     (\<lparr>ad_limit = 0, ad_held = 0\<rparr>, (), empty_world))) = ((), empty_world)"
  using serve_balances_slots [of toy_executor _ _ "''r''" "\<lparr>ad_limit = 0, ad_held = 0\<rparr>" "((), empty_world)"]
  by simp

text \<open>The stream and the plain response tell a failure alike. For every exception, the terminal
  error event carries the very JSON that is the body of the HTTP error response.\<close>

theorem stream_and_http_agree:
  "rs_body (query_route rid (Inl e)) = JObj (ev_data (failure_event e rid))"
proof (cases e)
  case (ApiError s c m)
  then show ?thesis
    by (simp add: query_route_def failure_event_def handle_def envelope_def error_event_def event_def
        make_code_def isinst_simps)
qed (simp_all add: query_route_def failure_event_def handle_def envelope_def error_event_def event_def
        make_code_def isinst_simps INTERNAL_ERROR_def SQL_VALIDATION_FAILED_def)

lemma pump_got:
  "\<lbrakk>Quiet True \<notin> set sched; got sched = map Some evs @ [None]\<rbrakk> \<Longrightarrow>
     sent fr (pump sched) = map (\<lambda>e. (ev_name e, dumps fr (JObj (ev_data e)))) evs
     \<and> (\<forall>e. Event e \<in> set (pump sched) \<longrightarrow> e \<in> set evs)"
proof (induction sched arbitrary: evs rule: pump.induct)
  case (3 e rest)
  then obtain evs' where "evs = e # evs'" "got rest = map Some evs' @ [None]" by (cases evs) auto
  then show ?case using 3 by auto
next
  case (2 rest)
  then show ?case by (cases evs) auto
qed (auto split: if_splits)

lemma answer_events:
  assumes "answer_question E sv rq rid sw = (told, out, sw')" "e \<in> set told"
  shows "ev_name e \<in> {''stage'', ''sql'', ''rows''}"
  using assms
  by (auto simp: answer_question_def Let_def stage_event_def rows_event_def event_def
      split: prod.splits sum.splits if_splits)

text \<open>C10: a stream that is read to its sentinel delivers the events of its answer, in order, and ends
  with exactly one terminal event: \<open>done\<close> when there is an answer, \<open>error\<close> when there is a failure.
  The client reads exactly these events whatever quiet intervals and heartbeats come between.\<close>

theorem stream_delivers_answer:
  assumes fr: "float_text fr"
    and ans: "answer_question E sv rq rid sw = (told, out, sw')" and nc: "out \<noteq> Inl CancelledError"
    and sched: "Quiet True \<notin> set sched" "got sched = produce E sv rq rid sw"
    and final: "final = (case out of Inl e \<Rightarrow> failure_event e rid | Inr a \<Rightarrow> done_event a)"
  shows "\<exists>ws. map (wire fr) (pump sched) = map Inr ws
    \<and> client (concat ws) = map (\<lambda>e. (ev_name e, dumps fr (JObj (ev_data e)))) (told @ [final])
    \<and> ev_name final = (case out of Inl _ \<Rightarrow> ''error'' | Inr _ \<Rightarrow> ''done'')
    \<and> (\<forall>e \<in> set told. ev_name e \<in> {''stage'', ''sql'', ''rows''})"
proof -
  have p: "produce E sv rq rid sw = map Some (told @ [final]) @ [None]"
    using ans nc final
    by (auto simp: produce_def split: sum.splits exn.splits)
  have names: "ev_name final = (case out of Inl _ \<Rightarrow> ''error'' | Inr _ \<Rightarrow> ''done'')"
    unfolding final
    by (auto simp: failure_event_def error_event_def done_event_def event_def split: sum.splits exn.splits)
  have told: "\<forall>e \<in> set told. ev_name e \<in> {''stage'', ''sql'', ''rows''}"
    using answer_events [OF ans] by blast
  have pump: "sent fr (pump sched) = map (\<lambda>e. (ev_name e, dumps fr (JObj (ev_data e)))) (told @ [final])"
    "\<forall>e. Event e \<in> set (pump sched) \<longrightarrow> e \<in> set (told @ [final])"
    using pump_got [OF sched(1), of "told @ [final]" fr] sched(2) p by simp_all
  have ok: "event_name_ok n" if "n \<in> {''stage'', ''sql'', ''rows'', ''error'', ''done''}" for n
    using that by (auto simp: event_name_ok_def is_lower_def code_def)
  have "ev_name final \<in> {''stage'', ''sql'', ''rows'', ''error'', ''done''}"
    unfolding names by (simp split: sum.split)
  then have "\<forall>e \<in> set (told @ [final]). event_name_ok (ev_name e)"
    using told ok by auto
  then have "\<forall>e. Event e \<in> set (pump sched) \<longrightarrow> event_name_ok (ev_name e)"
    using pump(2) by blast
  from frames_decode [OF fr this] obtain ws where
    ws: "map (wire fr) (pump sched) = map Inr ws" "client (concat ws) = sent fr (pump sched)" by blast
  have "client (concat ws) = map (\<lambda>e. (ev_name e, dumps fr (JObj (ev_data e)))) (told @ [final])"
    using ws(2) pump(1) by (rule trans)
  then show ?thesis using ws(1) names told by blast
qed

definition toy_service :: "unit service" where
  "toy_service = \<lparr>sv_answerer = (\<lambda>_ s. ([''retrieve''], Inl (LLMError ''no''), s)), sv_clock = (0, 0),
     sv_durations = (0, 0)\<rparr>"

definition toy_query :: query_request where
  "toy_query = \<lparr>qq_question = ''q'', qq_stream = True, qq_options =
     \<lparr>qo_max_rows = None, qo_timeout_ms = None, qo_explain_only = False\<rparr>\<rparr>"

theorem stream_delivers_answer_witness:
  "\<exists>ws. map fst (client (concat ws)) = [''stage'', ''error'']"
proof -
  have f: "float_text (\<lambda>_. ''0'')" by (simp add: float_text_def is_digit_def code_def)
  have a: "answer_question toy_executor toy_service toy_query ''r'' ((), empty_world)
      = ([stage_event ''retrieve''], Inl (LLMError ''no''), ((), empty_world))"
    by (simp add: answer_question_def toy_service_def)
  have p: "got [Got (Some (stage_event ''retrieve'')), Quiet False,
        Got (Some (failure_event (LLMError ''no'') ''r'')), Got None]
      = produce toy_executor toy_service toy_query ''r'' ((), empty_world)"
    by (simp add: produce_def a)
  have n: "(Inl (LLMError ''no'') :: exn + answer) \<noteq> Inl CancelledError" by simp
  have q: "Quiet True \<notin> set [Got (Some (stage_event ''retrieve'')), Quiet False,
        Got (Some (failure_event (LLMError ''no'') ''r'')), Got None]" by simp
  obtain ws where "client (concat ws) = map (\<lambda>e. (ev_name e, dumps (\<lambda>_. ''0'') (JObj (ev_data e))))
      ([stage_event ''retrieve''] @ [failure_event (LLMError ''no'') ''r''])"
    and "ev_name (failure_event (LLMError ''no'') ''r'') = ''error''"
    using stream_delivers_answer [OF f a n q p refl] unfolding sum.case by blast
  then show ?thesis by (intro exI [of _ ws]) (simp add: stage_event_def event_def)
qed

end
