(* ===== verification/Corpus.thy ===== *)
theory Corpus
  imports Exceptions "HOL-Library.List_Lexorder"
begin

text \<open>
  Two decisions the benchmark tools take before any database is loaded: which identifier stands for
  a source name (\<open>src/benchmark/identifiers.py\<close>) and which split a database belongs to
  (\<open>src/benchmark/splits.py\<close>, with the question of \<open>src/evals/dataset.py\<close>). Both are meant to
  depend on the name alone, and the facts say so: distinct names never share an identifier, and
  loading more databases never moves one that is already assigned. The hash of a seeded name is an
  argument.
\<close>

section \<open>Identifiers\<close>

definition max_identifier_bytes :: nat where
  "max_identifier_bytes = 63"

definition forbidden_char :: "char \<Rightarrow> bool" where
  "forbidden_char c \<longleftrightarrow> c = dquote \<or> c = backslash \<or> \<not> (32 \<le> code c \<and> code c \<le> 126)"

definition upper_hex :: "nat \<Rightarrow> char" where
  "upper_hex d = (if d < 10 then char_of (48 + d) else char_of (55 + d))"

definition show_char :: "char \<Rightarrow> string" where
  "show_char c =
     (if is_printable c then py_repr [c]
      else ''U+00'' @ [upper_hex (code c div 16), upper_hex (code c mod 16)])"

definition to_pg_identifier :: "string \<Rightarrow> string \<Rightarrow> exn + string" where
  "to_pg_identifier kind raw =
     (let stripped = strip raw in
      if stripped = []
      then Inl (UnsafeIdentifierError (kind @ '' name is empty or whitespace-only''))
      else let folded = py_lower stripped;
          offending = sort_key code (remdups (filter forbidden_char folded)) in
        if offending \<noteq> []
        then Inl (UnsafeIdentifierError
          (kind @ '' '' @ py_repr raw @ '' contains characters that cannot be used safely: ''
           @ join '', '' (map show_char offending)
           @ ''. It is refused rather than rewritten, because a rewrite that collides with another name merges two objects.''))
        else if length folded > max_identifier_bytes
        then Inl (UnsafeIdentifierError
          (kind @ '' '' @ py_repr raw @ '' is '' @ show_nat (length folded) @ '' bytes; PostgreSQL truncates at ''
           @ show_nat max_identifier_bytes
           @ '' and two names sharing a prefix would truncate to the same identifier''))
        else Inr folded)"

record identifier_map =
  im_kind :: string
  im_forward :: "(string, string) dict"

text \<open>The loop of \<open>build\<close>: \<open>forward\<close> and \<open>seen\<close> as it carries them.\<close>

fun build_loop ::
  "string \<Rightarrow> (string, string) dict \<Rightarrow> (string, string) dict \<Rightarrow> string list \<Rightarrow> exn + (string, string) dict" where
  "build_loop kind forward seen [] = Inr forward"
| "build_loop kind forward seen (raw # raws) =
     (case to_pg_identifier kind raw of
        Inl e \<Rightarrow> Inl e
      | Inr safe \<Rightarrow>
         (case dict_get seen safe of
            Some other \<Rightarrow>
              if other \<noteq> raw
              then Inl (UnsafeIdentifierError
                (kind @ ''s '' @ py_repr other @ '' and '' @ py_repr raw @ '' both become '' @ py_repr safe
                 @ ''. Case-folding is required for gold SQL to resolve, so this database cannot be converted without changing what its queries mean.''))
              else build_loop kind (dict_set forward raw safe) (dict_set seen safe raw) raws
          | None \<Rightarrow> build_loop kind (dict_set forward raw safe) (dict_set seen safe raw) raws))"

definition build_map :: "string \<Rightarrow> string list \<Rightarrow> exn + identifier_map" where
  "build_map kind raws =
     (case build_loop kind [] [] raws of
        Inl e \<Rightarrow> Inl e | Inr forward \<Rightarrow> Inr \<lparr>im_kind = kind, im_forward = forward\<rparr>)"

definition safe_name :: "identifier_map \<Rightarrow> string \<Rightarrow> exn + string" where
  "safe_name m raw =
     (case dict_get (im_forward m) raw of
        Some s \<Rightarrow> Inr s
      | None \<Rightarrow> Inl (UnsafeIdentifierError
          (im_kind m @ '' '' @ py_repr raw @ '' was not in the set this map was built from'')))"

definition quote_sqlite_identifier :: "string \<Rightarrow> string" where
  "quote_sqlite_identifier raw =
     [dquote] @ concat (map (\<lambda>c. if c = dquote then [dquote, dquote] else [c]) raw) @ [dquote]"

section \<open>Splits\<close>

datatype split = TRAIN | DEV | HELD_OUT | SMOKE

record question =
  qn_id :: string
  qn_question :: string
  qn_gold_sql :: string
  qn_dataset :: string
  qn_split :: split
  qn_db_id :: string

record split_policy =
  po_train :: rat
  po_dev :: rat
  po_held_out :: rat
  po_seed :: string
  po_smoke :: rat

definition default_policy :: split_policy where
  "default_policy = \<lparr>po_train = 70 / 100, po_dev = 15 / 100, po_held_out = 15 / 100,
     po_seed = ''t2sql-v1'', po_smoke = 25 / 1000\<rparr>"

definition policy_ok :: "split_policy \<Rightarrow> bool" where
  "policy_ok p \<longleftrightarrow> abs (po_train p + po_dev p + po_held_out p - 1) \<le> 1 / 10 ^ 9
     \<and> 0 \<le> po_train p \<and> 0 \<le> po_dev p \<and> 0 \<le> po_held_out p
     \<and> 0 \<le> po_smoke p \<and> po_smoke p \<le> po_dev p"

definition buckets :: nat where
  "buckets = 10000"

text \<open>\<open>digest\<close> reads the eight bytes of the hash as one number.\<close>

definition bucket :: "(string \<Rightarrow> nat) \<Rightarrow> string \<Rightarrow> string \<Rightarrow> nat" where
  "bucket digest seed db_id = digest (seed @ '':'' @ db_id) mod buckets"

definition split_of :: "(string \<Rightarrow> nat) \<Rightarrow> split_policy \<Rightarrow> string set \<Rightarrow> string \<Rightarrow> split" where
  "split_of digest rules off_limits db_id =
     (if db_id \<in> off_limits then HELD_OUT
      else let smoke_edge = po_train rules * of_nat buckets + po_smoke rules * of_nat buckets;
               train_edge = po_train rules * of_nat buckets;
               dev_edge = train_edge + po_dev rules * of_nat buckets;
               position = of_nat (bucket digest (po_seed rules) db_id) in
        if position < train_edge then TRAIN
        else if position < smoke_edge then SMOKE
        else if position < dev_edge then DEV
        else HELD_OUT)"

definition assign ::
  "(string \<Rightarrow> nat) \<Rightarrow> split_policy \<Rightarrow> string list \<Rightarrow> string list \<Rightarrow> (string, split) dict" where
  "assign digest rules reserved db_ids =
     map (\<lambda>i. (i, split_of digest rules (set reserved) i)) (sort_key (map code) (remdups db_ids))"

definition leaked_databases :: "(string, split) dict \<Rightarrow> string list \<Rightarrow> string set" where
  "leaked_databases assignment evaluated =
     fst ` {(db, s) \<in> set assignment. db \<in> set evaluated \<and> s \<in> {TRAIN, DEV, SMOKE}}"

fun apply_split :: "(string, split) dict \<Rightarrow> question list \<Rightarrow> exn + question list" where
  "apply_split assignment [] = Inr []"
| "apply_split assignment (q # qs) =
     (case dict_get assignment (qn_db_id q) of
        None \<Rightarrow> Inl (OtherError ''KeyError'' (''question '' @ py_repr (qn_id q) @ '' names database ''
          @ py_repr (qn_db_id q) @ '', which has no split assignment''))
      | Some s \<Rightarrow> (case apply_split assignment qs of
          Inl e \<Rightarrow> Inl e | Inr rest \<Rightarrow> Inr (q\<lparr>qn_split := s\<rparr> # rest)))"

definition tally :: "(string, split) dict \<Rightarrow> question list \<Rightarrow> split \<Rightarrow> nat \<times> nat" where
  "tally assignment questions s =
     (length (filter (\<lambda>kv. snd kv = s) assignment),
      length (filter (\<lambda>q. dict_get assignment (qn_db_id q) = Some s) questions))"

section \<open>Facts\<close>

lemma to_pg_ok:
  assumes "to_pg_identifier kind raw = Inr s"
  shows "s = py_lower (strip raw)" "s \<noteq> []" "length s \<le> 63"
    "\<forall>c \<in> set s. c \<noteq> dquote \<and> c \<noteq> backslash \<and> 32 \<le> code c \<and> code c \<le> 126"
proof -
  show "s = py_lower (strip raw)" "s \<noteq> []" "length s \<le> 63"
    using assms
    by (auto simp: to_pg_identifier_def Let_def max_identifier_bytes_def py_lower_def split: if_splits)
  have "sort_key code (remdups (filter forbidden_char s)) = []"
    using assms by (auto simp: to_pg_identifier_def Let_def split: if_splits)
  then have "filter forbidden_char s = []"
    by (metis remdups_eq_nil_iff set_empty set_sort)
  then show "\<forall>c \<in> set s. c \<noteq> dquote \<and> c \<noteq> backslash \<and> 32 \<le> code c \<and> code c \<le> 126"
    by (auto simp: filter_empty_conv forbidden_char_def)
qed

text \<open>What the loop keeps: every entry is the identifier of its name, and \<open>seen\<close> leads back to it.\<close>

definition linked :: "string \<Rightarrow> (string, string) dict \<Rightarrow> (string, string) dict \<Rightarrow> bool" where
  "linked kind forward seen \<longleftrightarrow> (\<forall>raw safe. dict_get forward raw = Some safe \<longrightarrow>
     to_pg_identifier kind raw = Inr safe \<and> dict_get seen safe = Some raw)"

lemma linked_set:
  assumes "linked kind forward seen" "to_pg_identifier kind raw = Inr safe"
    and "dict_get seen safe = None \<or> dict_get seen safe = Some raw"
  shows "linked kind (dict_set forward raw safe) (dict_set seen safe raw)"
  using assms by (auto simp: linked_def split: if_splits)

lemma build_loop_linked:
  "linked kind forward seen \<Longrightarrow> build_loop kind forward seen raws = Inr out \<Longrightarrow>
     (\<exists>seen'. linked kind out seen') \<and> dom (map_of out) = dom (map_of forward) \<union> set raws"
proof (induction kind forward seen raws rule: build_loop.induct)
  case (2 kind forward seen raw raws)
  obtain safe where safe: "to_pg_identifier kind raw = Inr safe"
    and rest: "build_loop kind (dict_set forward raw safe) (dict_set seen safe raw) raws = Inr out"
    and free: "dict_get seen safe = None \<or> dict_get seen safe = Some raw"
    using 2(4) by (auto split: sum.splits option.splits if_splits)
  note link = linked_set [OF 2(3) safe free]
  have keys: "dom (map_of (dict_set forward raw safe)) = insert raw (dom (map_of forward))"
    unfolding map_of_dict_set by auto
  have "(\<exists>seen'. linked kind out seen')
      \<and> dom (map_of out) = dom (map_of (dict_set forward raw safe)) \<union> set raws"
  proof (cases "dict_get seen safe")
    case None
    from 2(1) [OF safe None link rest] show ?thesis .
  next
    case (Some other)
    then have "other = raw" using free by simp
    then have "\<not> other \<noteq> raw" by simp
    from 2(2) [OF safe Some this link rest] show ?thesis .
  qed
  then show ?case unfolding keys by auto
qed auto

lemma build_map_facts:
  assumes "build_map kind raws = Inr m"
  shows "\<exists>seen. linked kind (im_forward m) seen" "dom (map_of (im_forward m)) = set raws"
proof -
  obtain out where out: "build_loop kind [] [] raws = Inr out" "m = \<lparr>im_kind = kind, im_forward = out\<rparr>"
    using assms by (auto simp: build_map_def split: sum.splits)
  have "linked kind [] []" by (simp add: linked_def)
  from build_loop_linked [OF this out(1)]
  show "\<exists>seen. linked kind (im_forward m) seen" "dom (map_of (im_forward m)) = set raws"
    using out(2) by auto
qed

lemma map_of_assign:
  "map_of (assign digest rules reserved ids) i
     = (if i \<in> set ids then Some (split_of digest rules (set reserved) i) else None)"
  by (auto simp: assign_def map_of_map_restrict restrict_map_def)

section \<open>Properties\<close>

text \<open>C14: a map that was built names every source name it was built from, each by its own identifier:
  two names share one only if they are the same name. Every identifier is non-empty, at most 63
  characters of printable ASCII with no quote and no backslash, and is the lower-cased stripped
  name.\<close>

theorem identifier_map_injective:
  assumes m: "build_map kind raws = Inr m" and r: "raw \<in> set raws"
  shows "\<exists>s. safe_name m raw = Inr s \<and> s = py_lower (strip raw) \<and> s \<noteq> [] \<and> length s \<le> 63
    \<and> (\<forall>c \<in> set s. c \<noteq> dquote \<and> c \<noteq> backslash \<and> 32 \<le> code c \<and> code c \<le> 126)
    \<and> (\<forall>other. safe_name m other = Inr s \<longrightarrow> other = raw)"
proof -
  obtain seen where link: "linked kind (im_forward m) seen" using build_map_facts(1) [OF m] by blast
  obtain s where s: "dict_get (im_forward m) raw = Some s"
    using build_map_facts(2) [OF m] r by auto
  then have "to_pg_identifier kind raw = Inr s" using link by (simp add: linked_def)
  note ok = to_pg_ok [OF this]
  have "other = raw" if "safe_name m other = Inr s" for other
  proof -
    have "dict_get (im_forward m) other = Some s" using that by (simp add: safe_name_def split: option.splits)
    then show ?thesis using s link by (metis linked_def option.inject)
  qed
  then show ?thesis
    using ok s by (intro exI [of _ s]) (simp add: safe_name_def)
qed

theorem identifier_map_injective_witness:
  "\<exists>m s. build_map ''table'' [''A'', ''b''] = Inr m \<and> safe_name m ''A'' = Inr s \<and> s = ''a''"
proof -
  have st: "strip ''A'' = ''A''" "strip ''b'' = ''b''"
    by (simp_all add: strip_def lstrip_def rstrip_def py_space_def code_def)
  have "to_pg_identifier ''table'' ''A'' = Inr ''a''" "to_pg_identifier ''table'' ''b'' = Inr ''b''"
    by (simp_all add: to_pg_identifier_def st py_lower_def lower_char_def forbidden_char_def dquote_def
        backslash_def max_identifier_bytes_def char_eval)
  then obtain m where m: "build_map ''table'' [''A'', ''b''] = Inr m" by (simp add: build_map_def)
  have "py_lower (strip ''A'') = ''a''" by (simp add: st py_lower_def lower_char_def char_eval)
  then show ?thesis using identifier_map_injective [OF m, of "''A''"] m by auto
qed

text \<open>C15: a split is a property of the name. An assigned database's split is \<open>split_of\<close> of its own
  name, so assigning more databases, in any order, never moves it; every reserved database is held
  out; and nothing reserved can be reported as leaked.\<close>

theorem splits_are_stable:
  assumes "set ids \<subseteq> set wider"
  shows "map_of (assign digest rules reserved ids) \<subseteq>\<^sub>m map_of (assign digest rules reserved wider)
    \<and> dom (map_of (assign digest rules reserved ids)) = set ids
    \<and> (set evaluated \<subseteq> set reserved \<longrightarrow>
         leaked_databases (assign digest rules reserved wider) evaluated = {})"
proof -
  have "leaked_databases (assign digest rules reserved wider) evaluated = {}"
    if "set evaluated \<subseteq> set reserved"
    using that by (auto simp: leaked_databases_def assign_def split_of_def)
  then show ?thesis
    using assms by (auto simp: map_le_def map_of_assign split: if_splits)
qed

theorem splits_are_stable_witness:
  "map_of (assign length default_policy [''x''] [''x'']) ''x''
   = map_of (assign length default_policy [''x''] [''y'', ''x'']) ''x''"
proof -
  have "set [''x''] \<subseteq> set [''y'', ''x'']" by simp
  from splits_are_stable [OF this, of length default_policy "[''x'']" "[]"] show ?thesis
    by (auto simp: map_le_def)
qed

end
