(* ===== verification/Gateway.thy ===== *)
theory Gateway
  imports ApiErrors
begin

text \<open>
  What stands in front of the routes: the request id and the body limit of
  \<open>src/api/middleware.py\<close>, and the probes of \<open>src/api/health.py\<close>. The body limit wraps the two
  channels of an ASGI application, so it is a state with two operations, and the application is
  any sequence of receives and sends. Fresh identifiers, the clock and the outcome of a probe are
  arguments.
\<close>

section \<open>Request identifiers\<close>

definition max_request_id_chars :: nat where
  "max_request_id_chars = 128"

definition request_id_char :: "char \<Rightarrow> bool" where
  "request_id_char c \<longleftrightarrow> is_digit c \<or> is_ascii_letter c \<or> c \<in> {CHR ''.'', CHR ''_'', CHR '':'', CHR ''-''}"

definition safe_request_id :: "string \<Rightarrow> bool" where
  "safe_request_id s \<longleftrightarrow> 1 \<le> length s \<and> length s \<le> max_request_id_chars \<and> list_all request_id_char s"

definition assign_request_id :: "string \<Rightarrow> string option \<Rightarrow> string" where
  "assign_request_id fresh_hex supplied =
     (case supplied of
        Some s \<Rightarrow> if safe_request_id s then s else ''req_'' @ fresh_hex
      | None \<Rightarrow> ''req_'' @ fresh_hex)"

text \<open>\<open>RequestIdMiddleware.dispatch\<close>: the id travels with the request and comes back on the response.\<close>

definition dispatch :: "string \<Rightarrow> string option \<Rightarrow> (string \<Rightarrow> response) \<Rightarrow> response" where
  "dispatch fresh_hex supplied call_next =
     (let request_id = assign_request_id fresh_hex supplied;
          response = call_next request_id in
      response\<lparr>rs_headers := dict_set (rs_headers response) ''X-Request-Id'' request_id\<rparr>)"

section \<open>The body limit\<close>

record scope =
  sc_http :: bool
  sc_headers :: "(string \<times> string) list"
  sc_request_id :: "string option"

text \<open>\<open>int(value)\<close> on bytes: ASCII white space around, a sign, digits with single underscores between
  them, and no more digits than the interpreter converts.\<close>

definition ascii_space :: "char \<Rightarrow> bool" where
  "ascii_space c \<longleftrightarrow> code c = 32 \<or> 9 \<le> code c \<and> code c \<le> 13"

definition strip_bytes :: "string \<Rightarrow> string" where
  "strip_bytes s = rev (dropWhile ascii_space (rev (dropWhile ascii_space s)))"

definition max_int_digits :: nat where
  "max_int_digits = 4300"

fun digits_value :: "bool \<Rightarrow> nat \<Rightarrow> string \<Rightarrow> nat option" where
  "digits_value after_digit n [] = (if after_digit then Some n else None)"
| "digits_value after_digit n (c # cs) =
     (if is_digit c then digits_value True (10 * n + (code c - 48)) cs
      else if c = CHR ''_'' \<and> after_digit then digits_value False n cs
      else None)"

definition parse_int :: "string \<Rightarrow> int option" where
  "parse_int text =
     (if length (filter is_digit text) > max_int_digits then None
      else case strip_bytes text of
        [] \<Rightarrow> None
      | c # cs \<Rightarrow>
          if c = CHR ''-'' then map_option (\<lambda>n. - int n) (digits_value False 0 cs)
          else if c = CHR ''+'' then map_option int (digits_value False 0 cs)
          else map_option int (digits_value False 0 (c # cs)))"

definition declared_length :: "scope \<Rightarrow> int option" where
  "declared_length sc =
     (case find (\<lambda>h. fst h = ''content-length'') (sc_headers sc) of
        None \<Rightarrow> None | Some h \<Rightarrow> parse_int (snd h))"

definition request_id_from :: "string \<Rightarrow> scope \<Rightarrow> string" where
  "request_id_from fresh sc =
     (case sc_request_id sc of
        Some i \<Rightarrow> i
      | None \<Rightarrow>
         (case find (\<lambda>h. fst h = ''x-request-id'') (sc_headers sc) of
            Some h \<Rightarrow> assign_request_id fresh (Some (snd h))
          | None \<Rightarrow> assign_request_id fresh None))"

datatype incoming = Chunk string | OtherIncoming

datatype outgoing = ResponseStart int | ResponseBody string | Refusal response

record limiter =
  lm_received :: nat
  lm_too_large :: bool
  lm_seen :: "incoming list"
  lm_sent :: "outgoing list"

definition refusal :: "nat \<Rightarrow> string \<Rightarrow> scope \<Rightarrow> outgoing" where
  "refusal max_bytes fresh sc = Refusal (envelope PAYLOAD_TOO_LARGE
     (''request body exceeds '' @ show_nat max_bytes @ '' bytes'') (request_id_from fresh sc) None)"

definition counted :: "nat \<Rightarrow> incoming \<Rightarrow> limiter \<Rightarrow> limiter" where
  "counted max_bytes m st =
     (case m of
        Chunk b \<Rightarrow>
          (let total = lm_received st + length b in
           if total > max_bytes
           then st\<lparr>lm_received := total, lm_too_large := True, lm_seen := lm_seen st @ [Chunk []]\<rparr>
           else st\<lparr>lm_received := total, lm_seen := lm_seen st @ [m]\<rparr>)
      | OtherIncoming \<Rightarrow> st\<lparr>lm_seen := lm_seen st @ [m]\<rparr>)"

definition guarded_send :: "outgoing \<Rightarrow> outgoing \<Rightarrow> limiter \<Rightarrow> limiter" where
  "guarded_send refuse m st =
     (if lm_too_large st
      then (case m of ResponseStart _ \<Rightarrow> st\<lparr>lm_sent := lm_sent st @ [refuse]\<rparr> | _ \<Rightarrow> st)
      else st\<lparr>lm_sent := lm_sent st @ [m]\<rparr>)"

text \<open>What the application does: take what the server gives next, or send.\<close>

datatype action = Receive incoming | Send outgoing

fun app_run :: "nat \<Rightarrow> outgoing \<Rightarrow> action list \<Rightarrow> limiter \<Rightarrow> limiter" where
  "app_run max_bytes refuse [] st = st"
| "app_run max_bytes refuse (Receive m # acts) st = app_run max_bytes refuse acts (counted max_bytes m st)"
| "app_run max_bytes refuse (Send m # acts) st = app_run max_bytes refuse acts (guarded_send refuse m st)"

definition limiter_start :: limiter where
  "limiter_start = \<lparr>lm_received = 0, lm_too_large = False, lm_seen = [], lm_sent = []\<rparr>"

definition plain :: "action list \<Rightarrow> incoming list \<times> outgoing list" where
  "plain acts = (concat (map (\<lambda>a. case a of Receive m \<Rightarrow> [m] | Send _ \<Rightarrow> []) acts),
                 concat (map (\<lambda>a. case a of Send m \<Rightarrow> [m] | Receive _ \<Rightarrow> []) acts))"

definition limited :: "nat \<Rightarrow> string \<Rightarrow> scope \<Rightarrow> action list \<Rightarrow> incoming list \<times> outgoing list" where
  "limited max_bytes fresh sc acts =
     (if \<not> sc_http sc then plain acts
      else case declared_length sc of
        Some n \<Rightarrow>
          if n > int max_bytes then ([], [refusal max_bytes fresh sc])
          else (let st = app_run max_bytes (refusal max_bytes fresh sc) acts limiter_start
                in (lm_seen st, lm_sent st))
      | None \<Rightarrow> (let st = app_run max_bytes (refusal max_bytes fresh sc) acts limiter_start
                 in (lm_seen st, lm_sent st)))"

section \<open>Readiness\<close>

record 'w probe =
  pb_name :: string
  pb_check :: "'w \<Rightarrow> exn option"

record 'w readiness =
  rd_probes :: "'w probe list option"
  rd_ttl :: rat
  rd_cached :: "(rat \<times> bool \<times> (string, string) dict) option"

definition readiness_ttl_seconds :: rat where
  "readiness_ttl_seconds = 5"

definition make_readiness :: "'w probe list \<Rightarrow> rat \<Rightarrow> 'w readiness" where
  "make_readiness probes ttl =
     \<lparr>rd_probes = (if probes = [] then None else Some probes), rd_ttl = ttl, rd_cached = None\<rparr>"

definition configure :: "'w probe list \<Rightarrow> 'w readiness \<Rightarrow> 'w readiness" where
  "configure probes r = r\<lparr>rd_probes := Some probes, rd_cached := None\<rparr>"

text \<open>A check that raises anything but an \<open>Exception\<close> ends the probe run instead.\<close>

definition run_probe :: "'w \<Rightarrow> 'w probe \<Rightarrow> exn + string" where
  "run_probe w p =
     (case pb_check p w of
        None \<Rightarrow> Inr ''up'' | Some e \<Rightarrow> if isinst e CException then Inr ''down'' else Inl e)"

fun probe_all :: "'w \<Rightarrow> 'w probe list \<Rightarrow> (string, string) dict \<Rightarrow> exn + (string, string) dict" where
  "probe_all w [] d = Inr d"
| "probe_all w (p # ps) d =
     (case run_probe w p of Inl e \<Rightarrow> Inl e | Inr state \<Rightarrow> probe_all w ps (dict_set d (pb_name p) state))"

definition status :: "rat \<Rightarrow> 'w \<Rightarrow> 'w readiness \<Rightarrow> (exn + bool \<times> (string, string) dict) \<times> 'w readiness" where
  "status now w r =
     (case rd_probes r of
        None \<Rightarrow> (Inr (False, [(''startup'', ''down'')]), r)
      | Some probes \<Rightarrow>
         (let fresh = (case probe_all w probes [] of
                Inl e \<Rightarrow> (Inl e, r)
              | Inr detail \<Rightarrow>
                 (let ready = (\<forall>kv \<in> set detail. snd kv = ''up'') in
                  (Inr (ready, detail), r\<lparr>rd_cached := Some (now, ready, detail)\<rparr>)))
          in case rd_cached r of
               Some (t, ready, detail) \<Rightarrow> if now - t < rd_ttl r then (Inr (ready, detail), r) else fresh
             | None \<Rightarrow> fresh))"

definition ready_route :: "string \<Rightarrow> bool \<times> (string, string) dict \<Rightarrow> response" where
  "ready_route request_id outcome =
     (let deps = JObj (map (\<lambda>kv. (fst kv, JStr (snd kv))) (snd outcome)) in
      if fst outcome
      then \<lparr>rs_status = 200, rs_body = JObj [(''status'', JStr ''ready''), (''dependencies'', deps)],
            rs_headers = [(''X-Request-Id'', request_id)]\<rparr>
      else \<lparr>rs_status = ec_status NOT_READY, rs_body = JObj [(''error'', JObj
              [(''code'', JStr (ec_code NOT_READY)),
               (''message'', JStr ''one or more dependencies are unavailable''),
               (''request_id'', JStr request_id),
               (''details'', JObj [(''dependencies'', deps)])])],
            rs_headers = [(''X-Request-Id'', request_id)]\<rparr>)"

section \<open>Facts\<close>

fun incoming_size :: "incoming \<Rightarrow> nat" where
  "incoming_size (Chunk b) = length b"
| "incoming_size OtherIncoming = 0"

definition limiter_ok :: "nat \<Rightarrow> limiter \<Rightarrow> bool" where
  "limiter_ok max_bytes st \<longleftrightarrow>
     sum_list (map incoming_size (lm_seen st)) \<le> max_bytes
     \<and> (lm_too_large st \<longleftrightarrow> lm_received st > max_bytes)
     \<and> (\<not> lm_too_large st \<longrightarrow> sum_list (map incoming_size (lm_seen st)) = lm_received st)"

lemma counted_ok: "limiter_ok max_bytes st \<Longrightarrow> limiter_ok max_bytes (counted max_bytes m st)"
  by (cases m) (auto simp: limiter_ok_def counted_def Let_def)

lemma guarded_ok: "limiter_ok max_bytes st \<Longrightarrow> limiter_ok max_bytes (guarded_send refuse m st)"
  by (cases m) (auto simp: limiter_ok_def guarded_send_def)

lemma app_run_ok: "limiter_ok max_bytes st \<Longrightarrow> limiter_ok max_bytes (app_run max_bytes refuse acts st)"
  by (induction max_bytes refuse acts st rule: app_run.induct) (simp_all add: counted_ok guarded_ok)

lemma limiter_start_ok: "limiter_ok max_bytes limiter_start"
  by (simp add: limiter_ok_def limiter_start_def)

lemma app_run_append:
  "app_run max_bytes refuse (xs @ ys) st = app_run max_bytes refuse ys (app_run max_bytes refuse xs st)"
  by (induction max_bytes refuse xs st rule: app_run.induct) simp_all

lemma counted_large: "lm_too_large st \<Longrightarrow> lm_too_large (counted max_bytes m st) \<and> lm_sent (counted max_bytes m st) = lm_sent st"
  by (cases m) (auto simp: counted_def Let_def)

lemma app_run_large:
  "lm_too_large st \<Longrightarrow> lm_too_large (app_run max_bytes refuse acts st)
     \<and> (\<exists>k. lm_sent (app_run max_bytes refuse acts st) = lm_sent st @ replicate k refuse)"
proof (induction acts arbitrary: st)
  case Nil
  then show ?case by (simp add: exI [of _ 0])
next
  case (Cons a acts)
  show ?case
  proof (cases a)
    case (Receive m)
    then show ?thesis using Cons.IH counted_large [OF Cons.prems] by (metis app_run.simps(2))
  next
    case (Send m)
    let ?st = "guarded_send refuse m st"
    have "lm_too_large ?st" "\<exists>j. lm_sent ?st = lm_sent st @ replicate j refuse"
      using Cons.prems by (cases m; auto simp: guarded_send_def intro: exI [of _ "Suc 0"] exI [of _ 0])+
    then show ?thesis
      using Cons.IH [of ?st] Send by (auto simp: replicate_add [symmetric])
  qed
qed

lemma probe_all_keys:
  "probe_all w ps d = Inr out \<Longrightarrow> distinct (map pb_name ps) \<Longrightarrow> pb_name ` set ps \<inter> fst ` set d = {} \<Longrightarrow>
     distinct (map fst d) \<Longrightarrow>
     (\<forall>kv \<in> set out. snd kv = ''up'') \<longleftrightarrow> (\<forall>kv \<in> set d. snd kv = ''up'') \<and> (\<forall>p \<in> set ps. pb_check p w = None)"
proof (induction w ps d rule: probe_all.induct)
  case (2 w p ps d)
  obtain s where s: "run_probe w p = Inr s" "probe_all w ps (dict_set d (pb_name p) s) = Inr out"
    using 2(2) by (auto split: sum.splits)
  have new: "pb_name p \<notin> fst ` set d" using 2(4) by auto
  then have set: "dict_set d (pb_name p) s = d @ [(pb_name p, s)]"
    by (induction d "pb_name p" s rule: dict_set.induct) auto
  have "(\<forall>kv \<in> set out. snd kv = ''up'') \<longleftrightarrow>
      (\<forall>kv \<in> set (d @ [(pb_name p, s)]). snd kv = ''up'') \<and> (\<forall>q \<in> set ps. pb_check q w = None)"
    using 2(1) [OF s(1)] s(2) 2(3,4,5) new by (simp add: set)
  moreover have "s = ''up'' \<longleftrightarrow> pb_check p w = None"
    using s(1) by (auto simp: run_probe_def split: option.splits if_splits)
  ultimately show ?case by auto
qed auto

text \<open>Within the limit the limiter only copies.\<close>

definition body_size :: "action list \<Rightarrow> nat" where
  "body_size acts = sum_list (map incoming_size (fst (plain acts)))"

lemma plain_Cons:
  "plain (Receive m # acts) = (m # fst (plain acts), snd (plain acts))"
  "plain (Send x # acts) = (fst (plain acts), x # snd (plain acts))"
  by (simp_all add: plain_def)

lemma app_run_within:
  "\<not> lm_too_large st \<Longrightarrow> lm_received st + body_size acts \<le> max_bytes \<Longrightarrow>
     lm_seen (app_run max_bytes refuse acts st) = lm_seen st @ fst (plain acts)
     \<and> lm_sent (app_run max_bytes refuse acts st) = lm_sent st @ snd (plain acts)"
proof (induction acts arbitrary: st)
  case Nil
  then show ?case by (simp add: plain_def)
next
  case (Cons a acts)
  show ?case
  proof (cases a)
    case (Receive m)
    have "\<not> lm_too_large (counted max_bytes m st)"
        "lm_received (counted max_bytes m st) + body_size acts \<le> max_bytes"
        "lm_seen (counted max_bytes m st) = lm_seen st @ [m]" "lm_sent (counted max_bytes m st) = lm_sent st"
      using Cons.prems Receive
      by (cases m; simp add: counted_def Let_def body_size_def plain_Cons)+
    then show ?thesis using Cons.IH [of "counted max_bytes m st"] Receive by (simp add: plain_Cons)
  next
    case (Send x)
    then show ?thesis
      using Cons.IH [of "guarded_send refuse x st"] Cons.prems
      by (simp add: guarded_send_def body_size_def plain_Cons)
  qed
qed

lemma limited_run:
  assumes "sc_http sc" and "case declared_length sc of None \<Rightarrow> True | Some n \<Rightarrow> n \<le> int max_bytes"
  shows "limited max_bytes fresh sc acts =
    (lm_seen (app_run max_bytes (refusal max_bytes fresh sc) acts limiter_start),
     lm_sent (app_run max_bytes (refusal max_bytes fresh sc) acts limiter_start))"
  using assms by (auto simp: limited_def Let_def split: option.splits)

lemma received_grows:
  "lm_received (app_run max_bytes refuse acts st) = lm_received st + body_size acts"
proof (induction acts arbitrary: st)
  case Nil
  then show ?case by (simp add: body_size_def plain_def)
next
  case (Cons a acts)
  show ?case
  proof (cases a)
    case (Receive m)
    have "lm_received (counted max_bytes m st) = lm_received st + incoming_size m"
      by (cases m) (simp_all add: counted_def Let_def)
    then show ?thesis using Cons.IH Receive by (simp add: body_size_def plain_Cons)
  next
    case (Send x)
    have "lm_received (guarded_send refuse x st) = lm_received st"
      by (cases x) (simp_all add: guarded_send_def)
    then show ?thesis using Cons.IH Send by (simp add: body_size_def plain_Cons)
  qed
qed

section \<open>Properties\<close>

text \<open>C13: the body limit holds for every caller. Whatever length a request declares or omits and however
  its chunks arrive, the application never sees more than the limit; a request whose body stays
  within it (and declares no more) passes untouched in both directions; and from the moment the
  limit is passed nothing the application sends goes out, only refusals.\<close>

theorem body_limit_enforced:
  assumes http: "sc_http sc"
  shows "sum_list (map incoming_size (fst (limited max_bytes fresh sc acts))) \<le> max_bytes
    \<and> ((case declared_length sc of None \<Rightarrow> True | Some n \<Rightarrow> n \<le> int max_bytes)
        \<and> body_size acts \<le> max_bytes \<longrightarrow> limited max_bytes fresh sc acts = plain acts)
    \<and> ((case declared_length sc of None \<Rightarrow> True | Some n \<Rightarrow> n \<le> int max_bytes)
        \<and> body_size acts > max_bytes \<longrightarrow>
        (\<exists>k. snd (limited max_bytes fresh sc (acts @ rest))
           = snd (limited max_bytes fresh sc acts) @ replicate k (refusal max_bytes fresh sc)))"
proof (cases "case declared_length sc of None \<Rightarrow> True | Some n \<Rightarrow> n \<le> int max_bytes")
  case False
  then show ?thesis using http by (auto simp: limited_def split: option.splits)
next
  case True
  let ?r = "refusal max_bytes fresh sc"
  let ?st = "app_run max_bytes ?r acts limiter_start"
  note run = limited_run [OF http True]
  have ok: "limiter_ok max_bytes ?st" by (rule app_run_ok [OF limiter_start_ok])
  have rec: "lm_received ?st = body_size acts"
    using received_grows [of max_bytes ?r acts limiter_start] by (simp add: limiter_start_def)
  have "limited max_bytes fresh sc acts = plain acts" if "body_size acts \<le> max_bytes"
    using app_run_within [of limiter_start acts max_bytes ?r] that
    by (simp add: run limiter_start_def prod_eq_iff)
  moreover have "\<exists>k. snd (limited max_bytes fresh sc (acts @ rest))
      = snd (limited max_bytes fresh sc acts) @ replicate k ?r" if "body_size acts > max_bytes"
  proof -
    have "lm_too_large ?st" using ok rec that by (simp add: limiter_ok_def)
    then show ?thesis
      using app_run_large [of ?st max_bytes ?r rest] by (simp add: run app_run_append)
  qed
  ultimately show ?thesis using ok True by (simp add: run limiter_ok_def)
qed

theorem body_limit_enforced_witness:
  "limited 3 ''0'' \<lparr>sc_http = True, sc_headers = [], sc_request_id = None\<rparr>
     [Receive (Chunk ''ab''), Send (ResponseStart 200)] = ([Chunk ''ab''], [ResponseStart 200])"
proof -
  have "sc_http \<lparr>sc_http = True, sc_headers = [], sc_request_id = None\<rparr>" by simp
  from body_limit_enforced [OF this, of 3 "''0''" "[Receive (Chunk ''ab''), Send (ResponseStart 200)]" "[]"]
  show ?thesis by (simp add: declared_length_def body_size_def plain_def)
qed

text \<open>No request id can carry a header injection. Whatever the caller supplies, the id a request is
  given is non-empty, at most 128 characters, all of them letters, digits or one of four marks;
  the response carries that same id. The fresh hexadecimal text is assumed to be one.\<close>

theorem request_ids_are_safe:
  assumes "length fresh = 32" and "\<forall>c \<in> set fresh. is_digit c \<or> is_ascii_letter c"
  shows "safe_request_id (assign_request_id fresh supplied)
    \<and> newline \<notin> set (assign_request_id fresh supplied)
    \<and> return_char \<notin> set (assign_request_id fresh supplied)
    \<and> dict_get (rs_headers (dispatch fresh supplied call_next)) ''X-Request-Id''
        = Some (assign_request_id fresh supplied)"
proof -
  have "safe_request_id (''req_'' @ fresh)"
    using assms by (auto simp: safe_request_id_def max_request_id_chars_def request_id_char_def
        list_all_iff is_ascii_letter_def code_def)
  then have safe: "safe_request_id (assign_request_id fresh supplied)"
    by (auto simp: assign_request_id_def split: option.splits)
  moreover have "\<not> request_id_char newline" "\<not> request_id_char return_char"
    by (simp_all add: request_id_char_def newline_def return_char_def is_digit_def is_ascii_letter_def
        code_def)
  ultimately show ?thesis
    by (auto simp: safe_request_id_def list_all_iff dispatch_def Let_def)
qed

theorem request_ids_are_safe_witness:
  "newline \<notin> set (assign_request_id (replicate 32 (CHR ''0'')) (Some [newline]))"
  using request_ids_are_safe [of "replicate 32 (CHR ''0'')" "Some [newline]"]
  by (simp add: is_digit_def code_def)

text \<open>Readiness is honest once configured. With probes of distinct names and no cached answer still
  fresh, the service reports ready exactly when every probe passes; unconfigured it never does.\<close>

theorem ready_iff_all_pass:
  assumes "rd_probes r = Some probes" and "distinct (map pb_name probes)"
    and "case rd_cached r of None \<Rightarrow> True | Some (t, _) \<Rightarrow> rd_ttl r \<le> now - t"
    and "status now w r = (Inr (ready, detail), r')"
  shows "(ready \<longleftrightarrow> (\<forall>p \<in> set probes. pb_check p w = None))
    \<and> fst (status now w (make_readiness [] ttl)) = Inr (False, [(''startup'', ''down'')])"
proof -
  have "(case probe_all w probes [] of Inl e \<Rightarrow> (Inl e, r)
      | Inr detail \<Rightarrow> (let ready = (\<forall>kv \<in> set detail. snd kv = ''up'') in
          (Inr (ready, detail), r\<lparr>rd_cached := Some (now, ready, detail)\<rparr>))) = (Inr (ready, detail), r')"
    using assms(1,3,4) by (auto simp: status_def Let_def split: option.splits)
  then have "probe_all w probes [] = Inr detail" "ready = (\<forall>kv \<in> set detail. snd kv = ''up'')"
    by (auto simp: Let_def split: sum.splits)
  then show ?thesis
    using probe_all_keys [of w probes "[]" detail] assms(2)
    by (simp add: status_def make_readiness_def)
qed

theorem ready_iff_all_pass_witness:
  "\<not> fst (the (case fst (status 0 () (configure [\<lparr>pb_name = ''db'', pb_check = (\<lambda>_. Some (OtherError [] []))\<rparr>]
       (make_readiness [] 5))) of Inr x \<Rightarrow> Some x | Inl _ \<Rightarrow> None))"
proof -
  let ?p = "\<lparr>pb_name = ''db'', pb_check = (\<lambda>_ :: unit. Some (OtherError [] []))\<rparr>"
  let ?r = "configure [?p] (make_readiness [] 5)"
  have run: "status 0 () ?r = (Inr (False, [(''db'', ''down'')]), ?r\<lparr>rd_cached := Some (0, False, [(''db'', ''down'')])\<rparr>)"
    by (simp add: status_def configure_def make_readiness_def run_probe_def isinst_simps)
  have p: "rd_probes ?r = Some [?p]" "distinct (map pb_name [?p])"
      "case rd_cached ?r of None \<Rightarrow> True | Some (t, _) \<Rightarrow> rd_ttl ?r \<le> 0 - t"
    by (simp_all add: configure_def make_readiness_def)
  from ready_iff_all_pass [OF p run] show ?thesis by (simp add: run)
qed

text \<open>Configured with no probes, the service reports ready with nothing to report: the guard for
  the unconfigured state does not cover it.\<close>

theorem configured_empty_is_ready:
  "fst (status now w (configure [] r)) = Inr (True, [])"
  by (simp add: status_def configure_def Let_def)

end
