(* ===== verification/JsonText.thy ===== *)
theory JsonText
  imports Json
begin

text \<open>
  JSON as text: the layouts \<open>json.dumps\<close> prints with (compact, its default, and indented) and
  \<open>json.loads\<close>. The printer of every layout is one function, and what any of them prints reads
  back as the value it came from. Reading a float is an argument; a reader gives \<open>None\<close> for a text that is
  no JSON and for the texts whose value lies outside the model: an escape above code point 255, an infinity, a NaN.
\<close>

section \<open>Printing\<close>

record layout =
  ly_open :: "nat \<Rightarrow> string"
  ly_sep :: "nat \<Rightarrow> string"
  ly_close :: "nat \<Rightarrow> string"
  ly_key :: string

definition compact_layout :: layout where
  "compact_layout = \<lparr>ly_open = (\<lambda>_. []), ly_sep = (\<lambda>_. []), ly_close = (\<lambda>_. []), ly_key = []\<rparr>"

definition spaced :: layout where
  "spaced = \<lparr>ly_open = (\<lambda>_. []), ly_sep = (\<lambda>_. '' ''), ly_close = (\<lambda>_. []), ly_key = '' ''\<rparr>"

definition indented :: "nat \<Rightarrow> layout" where
  "indented k = (let fresh = (\<lambda>d. newline # replicate (k * d) (CHR '' '')) in
     \<lparr>ly_open = fresh, ly_sep = fresh, ly_close = fresh, ly_key = '' ''\<rparr>)"

function render_json :: "(rat \<Rightarrow> string) \<Rightarrow> layout \<Rightarrow> nat \<Rightarrow> json \<Rightarrow> string" where
  "render_json fr L d JNull = ''null''"
| "render_json fr L d (JBool b) = (if b then ''true'' else ''false'')"
| "render_json fr L d (JInt i) = show_int i"
| "render_json fr L d (JFloat r) = fr r"
| "render_json fr L d (JStr s) = json_string s"
| "render_json fr L d (JArr xs) =
     (if xs = [] then ''[]''
      else ''['' @ ly_open L (Suc d) @ join ('','' @ ly_sep L (Suc d)) (map (render_json fr L (Suc d)) xs)
        @ ly_close L d @ '']'')"
| "render_json fr L d (JObj kvs) =
     (if kvs = [] then ''{}''
      else ''{'' @ ly_open L (Suc d)
        @ join ('','' @ ly_sep L (Suc d))
            (map (\<lambda>kv. json_string (fst kv) @ '':'' @ ly_key L @ render_json fr L (Suc d) (snd kv)) kvs)
        @ ly_close L d @ ''}'')"
  by pat_completeness auto
termination
  by (relation "measure (\<lambda>(fr, L, d, j). size j)")
     (auto simp: less_Suc_eq_le size_list_estimation' size_prod_simp
        dest!: size_list_estimation' [OF _ order_refl, where f = size])

section \<open>Reading\<close>

definition json_space :: "char \<Rightarrow> bool" where
  "json_space c \<longleftrightarrow> code c \<in> {32, 9, 10, 13}"

definition skip_ws :: "string \<Rightarrow> string" where
  "skip_ws s = dropWhile json_space s"

definition hex_value :: "char \<Rightarrow> nat option" where
  "hex_value c =
     (if is_digit c then Some (code c - 48)
      else if 97 \<le> code c \<and> code c \<le> 102 then Some (code c - 87)
      else if 65 \<le> code c \<and> code c \<le> 70 then Some (code c - 55)
      else None)"

definition unescape :: "char \<Rightarrow> char option" where
  "unescape c =
     (if c = dquote \<or> c = backslash \<or> c = CHR ''/'' then Some c
      else if c = CHR ''n'' then Some newline
      else if c = CHR ''r'' then Some return_char
      else if c = CHR ''t'' then Some (char_of (9 :: nat))
      else if c = CHR ''b'' then Some (char_of (8 :: nat))
      else if c = CHR ''f'' then Some (char_of (12 :: nat))
      else None)"

text \<open>\<open>scanstring\<close>, called behind the opening quote.\<close>

fun read_string :: "string \<Rightarrow> string \<Rightarrow> (string \<times> string) option" where
  "read_string acc [] = None"
| "read_string acc (c # cs) =
     (if c = dquote then Some (rev acc, cs)
      else if c = backslash then
        (case cs of
           e # a # b # x # y # r \<Rightarrow>
             if e = CHR ''u'' then
               (case (hex_value a, hex_value b, hex_value x, hex_value y) of
                  (Some 0, Some 0, Some h, Some l) \<Rightarrow> read_string (char_of (16 * h + l) # acc) r
                | _ \<Rightarrow> None)
             else (case unescape e of None \<Rightarrow> None | Some u \<Rightarrow> read_string (u # acc) (a # b # x # y # r))
         | e # r \<Rightarrow> (case unescape e of None \<Rightarrow> None | Some u \<Rightarrow> read_string (u # acc) r)
         | [] \<Rightarrow> None)
      else if code c < 32 then None
      else read_string (c # acc) cs)"

text \<open>The number pattern: the integer part, the fraction and exponent, and what follows.\<close>

definition read_whole :: "string \<Rightarrow> (string \<times> string) option" where
  "read_whole s =
     (let (sign, t) = (case s of c # cs \<Rightarrow> if c = CHR ''-'' then ([c], cs) else ([], s) | [] \<Rightarrow> ([], s)) in
      case t of
        [] \<Rightarrow> None
      | c # cs \<Rightarrow>
          if c = CHR ''0'' then Some (sign @ [c], cs)
          else if is_digit c then Some (sign @ takeWhile is_digit t, dropWhile is_digit t)
          else None)"

definition read_fraction :: "string \<Rightarrow> string \<times> string" where
  "read_fraction s =
     (case s of
        c # d # cs \<Rightarrow> if c = CHR ''.'' \<and> is_digit d
          then (c # takeWhile is_digit (d # cs), dropWhile is_digit (d # cs)) else ([], s)
      | _ \<Rightarrow> ([], s))"

definition read_exponent :: "string \<Rightarrow> string \<times> string" where
  "read_exponent s =
     (case s of
        c # d # cs \<Rightarrow>
          if c \<in> {CHR ''e'', CHR ''E''} then
            (if is_digit d then (c # takeWhile is_digit (d # cs), dropWhile is_digit (d # cs))
             else if d \<in> {CHR ''+'', CHR ''-''} \<and> cs \<noteq> [] \<and> is_digit (hd cs)
             then (c # d # takeWhile is_digit cs, dropWhile is_digit cs)
             else ([], s))
          else ([], s)
      | _ \<Rightarrow> ([], s))"

definition number_parts :: "string \<Rightarrow> (string \<times> string \<times> string) option" where
  "number_parts s =
     (case read_whole s of
        None \<Rightarrow> None
      | Some (whole, r) \<Rightarrow>
         (let (frac, r1) = read_fraction r; (ex, r2) = read_exponent r1 in Some (whole, frac @ ex, r2)))"

definition digits_to_nat :: "string \<Rightarrow> nat" where
  "digits_to_nat ds = foldl (\<lambda>n d. 10 * n + (code d - 48)) 0 ds"

definition int_of_text :: "string \<Rightarrow> int" where
  "int_of_text t =
     (case t of c # cs \<Rightarrow> if c = CHR ''-'' then - int (digits_to_nat cs) else int (digits_to_nat t) | [] \<Rightarrow> 0)"

definition read_number :: "(string \<Rightarrow> rat) \<Rightarrow> string \<Rightarrow> (json \<times> string) option" where
  "read_number rd s =
     (case number_parts s of
        None \<Rightarrow> None
      | Some (whole, tail, r) \<Rightarrow>
          Some (if tail = [] then JInt (int_of_text whole) else JFloat (rd (whole @ tail)), r))"

text \<open>A value, the elements of an array behind its bracket, the members of an object behind its
  brace. Each call spends one unit of fuel; a text never needs more than its length.\<close>

fun read_value :: "nat \<Rightarrow> (string \<Rightarrow> rat) \<Rightarrow> string \<Rightarrow> (json \<times> string) option"
  and read_elements :: "nat \<Rightarrow> (string \<Rightarrow> rat) \<Rightarrow> string \<Rightarrow> (json list \<times> string) option"
  and read_members :: "nat \<Rightarrow> (string \<Rightarrow> rat) \<Rightarrow> string \<Rightarrow> ((string \<times> json) list \<times> string) option" where
  "read_value 0 rd s = None"
| "read_value (Suc n) rd s =
     (case s of
        [] \<Rightarrow> None
      | c # cs \<Rightarrow>
          if c = dquote then map_option (\<lambda>(t, r). (JStr t, r)) (read_string [] cs)
          else if c = CHR ''{'' then
            (case skip_ws cs of
               [] \<Rightarrow> None
             | c' # cs' \<Rightarrow> if c' = CHR ''}'' then Some (JObj [], cs')
                 else map_option (\<lambda>(kvs, r). (JObj (foldl (\<lambda>d kv. dict_set d (fst kv) (snd kv)) [] kvs), r))
                        (read_members n rd (c' # cs')))
          else if c = CHR ''['' then
            (case skip_ws cs of
               [] \<Rightarrow> None
             | c' # cs' \<Rightarrow> if c' = CHR '']'' then Some (JArr [], cs')
                 else map_option (\<lambda>(js, r). (JArr js, r)) (read_elements n rd (c' # cs')))
          else if prefix ''null'' s then Some (JNull, drop 4 s)
          else if prefix ''true'' s then Some (JBool True, drop 4 s)
          else if prefix ''false'' s then Some (JBool False, drop 5 s)
          else read_number rd s)"
| "read_elements 0 rd s = None"
| "read_elements (Suc n) rd s =
     (case read_value n rd s of
        None \<Rightarrow> None
      | Some (j, r) \<Rightarrow>
         (case skip_ws r of
            [] \<Rightarrow> None
          | c # r' \<Rightarrow>
              if c = CHR '']'' then Some ([j], r')
              else if c = CHR '','' then map_option (\<lambda>(js, r''). (j # js, r'')) (read_elements n rd (skip_ws r'))
              else None))"
| "read_members 0 rd s = None"
| "read_members (Suc n) rd s =
     (case s of
        [] \<Rightarrow> None
      | q # cs \<Rightarrow>
         if q \<noteq> dquote then None
         else (case read_string [] cs of
            None \<Rightarrow> None
          | Some (k, r) \<Rightarrow>
             (case skip_ws r of
                [] \<Rightarrow> None
              | c # r1 \<Rightarrow>
                 if c \<noteq> CHR '':'' then None
                 else (case read_value n rd (skip_ws r1) of
                    None \<Rightarrow> None
                  | Some (j, r2) \<Rightarrow>
                     (case skip_ws r2 of
                        [] \<Rightarrow> None
                      | c2 # r3 \<Rightarrow>
                          if c2 = CHR ''}'' then Some ([(k, j)], r3)
                          else if c2 = CHR '','' then
                            map_option (\<lambda>(kvs, r''). ((k, j) # kvs, r'')) (read_members n rd (skip_ws r3))
                          else None)))))"

definition loads :: "(string \<Rightarrow> rat) \<Rightarrow> string \<Rightarrow> json option" where
  "loads rd s =
     (case read_value (Suc (length s)) rd (skip_ws s) of
        None \<Rightarrow> None | Some (j, r) \<Rightarrow> if skip_ws r = [] then Some j else None)"

section \<open>Strings read back\<close>

lemma read_string_escaped:
  "e \<noteq> CHR ''u'' \<Longrightarrow> unescape e = Some u \<Longrightarrow>
     read_string acc (backslash # e # r) = read_string (u # acc) r"
  by (auto simp: backslash_def dquote_def split: list.splits)

lemma hex_value_digit: "d < 16 \<Longrightarrow> hex_value (hex_digit d) = Some d"
  by (auto simp: hex_value_def hex_digit_def is_digit_def)

lemma read_string_hex:
  "read_string acc (backslash # CHR ''u'' # CHR ''0'' # CHR ''0'' # hex2 (code c) @ r) = read_string (c # acc) r"
proof -
  have "hex_value (CHR ''0'') = Some 0" by (simp add: hex_value_def is_digit_def code_def)
  moreover have "code c div 16 < 16" using code_less [of c] by linarith
  ultimately show ?thesis
    by (simp add: hex2_def hex_value_digit backslash_def dquote_def)
qed

lemma read_string_escape: "read_string acc (escape_char c @ s) = read_string (c # acc) s"
proof -
  have b: "code c = n \<Longrightarrow> char_of n = c" for n by auto
  consider "c = dquote \<or> c = backslash" | "code c \<in> {8, 9, 10, 12, 13}"
    | "c \<noteq> dquote" "c \<noteq> backslash" "code c \<notin> {8, 9, 10, 12, 13}" "32 \<le> code c \<and> code c \<le> 126"
    | "c \<noteq> dquote" "c \<noteq> backslash" "code c \<notin> {8, 9, 10, 12, 13}" "\<not> (32 \<le> code c \<and> code c \<le> 126)"
    by blast
  then show ?thesis
  proof cases
    case 1
    then have "unescape c = Some c" "c \<noteq> CHR ''u''" by (auto simp: unescape_def dquote_def backslash_def)
    then show ?thesis using 1 read_string_escaped [of c c acc s] by (auto simp: escape_char_def)
  next
    case 2
    have n: "newline = char_of (10 :: nat)" "return_char = char_of (13 :: nat)"
      by (simp_all add: newline_def return_char_def char_eval)
    have q: "c \<noteq> dquote" "c \<noteq> backslash" using 2 by (auto simp: dquote_def backslash_def code_def)
    have step: "read_string acc (escape_char c @ s) = read_string (c # acc) s"
      if "escape_char c = [backslash, e]" "unescape e = Some (char_of (code c))" "e \<noteq> CHR ''u''" for e
      using read_string_escaped [of e "char_of (code c)" acc s] that by (simp del: read_string.simps)
    from 2 consider "code c = 8" | "code c = 9" | "code c = 10" | "code c = 12" | "code c = 13" by blast
    then show ?thesis
    proof cases
      case 1
      with q show ?thesis
        by (intro step [of "CHR ''b''"]) (simp_all add: escape_char_def unescape_def dquote_def backslash_def)
    next
      case 2
      with q show ?thesis
        by (intro step [of "CHR ''t''"]) (simp_all add: escape_char_def unescape_def dquote_def backslash_def)
    next
      case 3
      with q n show ?thesis
        by (intro step [of "CHR ''n''"]) (simp_all add: escape_char_def unescape_def dquote_def backslash_def)
    next
      case 4
      with q show ?thesis
        by (intro step [of "CHR ''f''"]) (simp_all add: escape_char_def unescape_def dquote_def backslash_def)
    next
      case 5
      with q n show ?thesis
        by (intro step [of "CHR ''r''"]) (simp_all add: escape_char_def unescape_def dquote_def backslash_def)
    qed
  next
    case 3
    then have "escape_char c = [c]" by (simp add: escape_char_def)
    then show ?thesis using 3 by simp
  next
    case 4
    then have "escape_char c = [backslash, CHR ''u'', CHR ''0'', CHR ''0''] @ hex2 (code c)"
      by (simp add: escape_char_def)
    then show ?thesis using read_string_hex [of acc c s] by (simp del: read_string.simps)
  qed
qed

lemma read_string_text:
  "read_string acc (concat (map escape_char s) @ dquote # rest) = Some (rev acc @ s, rest)"
proof (induction s arbitrary: acc)
  case (Cons c s)
  then show ?case
    using read_string_escape [of acc c "concat (map escape_char s) @ dquote # rest"]
    by (simp del: read_string.simps)
qed simp

section \<open>Numbers read back\<close>

definition stops :: "string \<Rightarrow> bool" where
  "stops r \<longleftrightarrow> r = [] \<or> \<not> is_digit (hd r) \<and> hd r \<notin> {CHR ''.'', CHR ''e'', CHR ''E''}"

lemma show_nat_digits: "c \<in> set (show_nat n) \<Longrightarrow> is_digit c"
proof (induction n rule: show_nat.induct)
  case (1 n)
  then show ?case
    by (subst (asm) (2) show_nat.simps) (auto simp: digit_char_def is_digit_def split: if_splits)
qed

lemma digits_append: "digits_to_nat (ds @ [c]) = 10 * digits_to_nat ds + (code c - 48)"
  by (simp add: digits_to_nat_def)

lemma digits_show: "digits_to_nat (show_nat n) = n"
proof (induction n rule: show_nat.induct)
  case (1 n)
  show ?case
  proof (cases "n < 10")
    case True
    then show ?thesis by (subst show_nat.simps) (simp add: digits_to_nat_def digit_char_def)
  next
    case False
    then show ?thesis using 1 by (subst show_nat.simps) (simp add: digits_append digit_char_def)
  qed
qed

lemma hd_show_nat: "hd (show_nat n) = CHR ''0'' \<longleftrightarrow> n = 0"
proof (induction n rule: show_nat.induct)
  case (1 n)
  show ?case
  proof (cases "n < 10")
    case True
    have "CHR ''0'' = char_of (48 :: nat)" by (simp add: char_eval)
    then have "char_of (48 + n) = CHR ''0'' \<longleftrightarrow> (48 + n) mod 256 = (48 :: nat) mod 256"
      using char_of_eq_iff by (metis code_char_of char_of_mod_256)
    then show ?thesis using True by (subst show_nat.simps) (simp add: digit_char_def)
  next
    case False
    then show ?thesis using 1 by (subst show_nat.simps) simp
  qed
qed

lemma show_nat_zero: "show_nat 0 = ''0''"
  by (simp add: show_nat.simps digit_char_def char_eval)

lemma split_digits:
  assumes "\<forall>c \<in> set ds. is_digit c" "r = [] \<or> \<not> is_digit (hd r)"
  shows "takeWhile is_digit (ds @ r) = ds" "dropWhile is_digit (ds @ r) = r"
  using assms by (cases r; simp add: takeWhile_append2 dropWhile_append2)+

lemma read_whole_int:
  assumes "r = [] \<or> \<not> is_digit (hd r)"
  shows "read_whole (show_int i @ r) = Some (show_int i, r)"
proof -
  have plain: "(case show_nat n @ r of [] \<Rightarrow> None
      | c # cs \<Rightarrow> if c = CHR ''0'' then Some (sign @ [c], cs)
          else if is_digit c then Some (sign @ takeWhile is_digit (show_nat n @ r), dropWhile is_digit (show_nat n @ r))
          else None) = Some (sign @ show_nat n, r)" for n and sign :: string
  proof (cases "n = 0")
    case True
    then show ?thesis by (simp add: show_nat_zero)
  next
    case False
    obtain c cs where c: "show_nat n = c # cs" by (cases "show_nat n") auto
    then have "c \<noteq> CHR ''0''" "is_digit c" using hd_show_nat [of n] False show_nat_digits [of c n] by auto
    have "\<forall>x \<in> set (show_nat n). is_digit x" using show_nat_digits by blast
    note split_digits [OF this assms, unfolded c]
    then show ?thesis using \<open>c \<noteq> CHR ''0''\<close> \<open>is_digit c\<close> c by simp
  qed
  obtain c cs where c: "show_nat (nat i) = c # cs" "is_digit c"
    using show_nat_digits [of _ "nat i"] by (cases "show_nat (nat i)") auto
  then have "c \<noteq> CHR ''-''" by (auto simp: is_digit_def code_def)
  then have "read_whole (show_nat (nat i) @ r) = Some (show_nat (nat i), r)"
    using plain [where n = "nat i" and sign = "[]", unfolded c(1)] c by (auto simp: read_whole_def split: if_splits)
  moreover have "read_whole (CHR ''-'' # show_nat (nat (- i)) @ r) = Some (CHR ''-'' # show_nat (nat (- i)), r)"
    using plain [where n = "nat (- i)" and sign = "''-''"] by (simp add: read_whole_def)
  ultimately show ?thesis by (simp add: show_int_def)
qed

lemma no_tail: "stops r \<Longrightarrow> read_fraction r = ([], r) \<and> read_exponent r = ([], r)"
  by (auto simp: stops_def read_fraction_def read_exponent_def split: list.splits)

lemma int_of_show: "int_of_text (show_int i) = i"
proof -
  obtain c cs where c: "show_nat (nat i) = c # cs" "is_digit c"
    using show_nat_digits [of _ "nat i"] by (cases "show_nat (nat i)") auto
  then have "c \<noteq> CHR ''-''" by (auto simp: is_digit_def code_def)
  then show ?thesis
    using c(1) digits_show [of "nat i"] by (auto simp: show_int_def int_of_text_def digits_show)
qed

lemma read_number_int: "stops r \<Longrightarrow> read_number rd (show_int i @ r) = Some (JInt i, r)"
  using read_whole_int [of r i] no_tail [of r]
  by (auto simp: read_number_def number_parts_def int_of_show stops_def)

section \<open>Values read back\<close>

definition layout_ok :: "layout \<Rightarrow> bool" where
  "layout_ok L \<longleftrightarrow> list_all json_space (ly_key L)
     \<and> (\<forall>d. list_all json_space (ly_open L d) \<and> list_all json_space (ly_sep L d)
          \<and> list_all json_space (ly_close L d))"

lemma layouts_ok [simp]: "layout_ok compact_layout" "layout_ok spaced" "layout_ok (indented k)"
  by (simp_all add: layout_ok_def compact_layout_def spaced_def indented_def Let_def json_space_def newline_def
      list_all_iff code_def)

text \<open>What is assumed of printing and reading floats: the printed text is a number with a fraction or an
  exponent, and reads back as the float.\<close>

definition float_reads :: "(string \<Rightarrow> rat) \<Rightarrow> (rat \<Rightarrow> string) \<Rightarrow> bool" where
  "float_reads rd fr \<longleftrightarrow> (\<forall>r rest. stops rest \<longrightarrow>
     (\<exists>whole tail. number_parts (fr r @ rest) = Some (whole, tail, rest) \<and> tail \<noteq> [] \<and> rd (whole @ tail) = r))"

text \<open>The assumption can hold: floats printed as a numerator, a point and a denominator.\<close>

definition show_ratio :: "rat \<Rightarrow> string" where
  "show_ratio r = show_int (fst (quotient_of r)) @ CHR ''.'' # show_nat (nat (snd (quotient_of r)))"

definition read_ratio :: "string \<Rightarrow> rat" where
  "read_ratio t = Fract (int_of_text (takeWhile (\<lambda>c. c \<noteq> CHR ''.'') t))
     (int (digits_to_nat (tl (dropWhile (\<lambda>c. c \<noteq> CHR ''.'') t))))"

lemma ratios_read: "float_reads read_ratio show_ratio"
  unfolding float_reads_def
proof (intro allI impI)
  fix r rest
  assume rest: "stops rest"
  define a b where ab: "a = fst (quotient_of r)" "b = nat (snd (quotient_of r))"
  have "0 < snd (quotient_of r)" by (simp add: quotient_of_denom_pos')
  then have r: "r = Fract a (int b)"
    using Fract_quotient_of [of r] by (simp add: ab case_prod_beta)
  have nondot: "\<forall>c \<in> set (show_int a). c \<noteq> CHR ''.''"
    by (auto simp: show_int_def is_digit_def code_def dest: show_nat_digits)
  have digits: "\<forall>c \<in> set (show_nat b). is_digit c" using show_nat_digits by blast
  obtain d ds where d: "show_nat b = d # ds" "is_digit d"
    using show_nat_digits [of _ b] by (cases "show_nat b") auto
  have split: "takeWhile is_digit (show_nat b @ rest) = show_nat b" "dropWhile is_digit (show_nat b @ rest) = rest"
    using split_digits [OF digits, of rest] rest by (auto simp: stops_def)
  have "read_whole (show_int a @ CHR ''.'' # show_nat b @ rest) = Some (show_int a, CHR ''.'' # show_nat b @ rest)"
    by (rule read_whole_int) (simp add: is_digit_def code_def)
  moreover have "read_fraction (CHR ''.'' # show_nat b @ rest) = (CHR ''.'' # show_nat b, rest)"
    using split d by (simp add: read_fraction_def)
  ultimately have "number_parts (show_ratio r @ rest) = Some (show_int a, CHR ''.'' # show_nat b, rest)"
    using no_tail [OF rest] by (simp add: number_parts_def show_ratio_def ab)
  moreover have "read_ratio (show_int a @ CHR ''.'' # show_nat b) = r"
    using nondot by (simp add: read_ratio_def takeWhile_append2 dropWhile_append2 int_of_show digits_show r)
  ultimately show "\<exists>whole tail. number_parts (show_ratio r @ rest) = Some (whole, tail, rest)
      \<and> tail \<noteq> [] \<and> read_ratio (whole @ tail) = r"
    by blast
qed

text \<open>A value whose objects have distinct keys, as every Python dictionary has.\<close>

function json_ok :: "json \<Rightarrow> bool" where
  "json_ok JNull = True"
| "json_ok (JBool b) = True"
| "json_ok (JInt i) = True"
| "json_ok (JFloat r) = True"
| "json_ok (JStr s) = True"
| "json_ok (JArr xs) = (\<forall>x \<in> set xs. json_ok x)"
| "json_ok (JObj kvs) = (distinct (map fst kvs) \<and> (\<forall>kv \<in> set kvs. json_ok (snd kv)))"
  by pat_completeness auto
termination
  by (relation "measure size")
     (auto simp: less_Suc_eq_le size_list_estimation' size_prod_simp
        dest!: size_list_estimation' [OF _ order_refl, where f = size])

lemma skip_ws_run: "list_all json_space w \<Longrightarrow> skip_ws (w @ s) = skip_ws s"
  by (simp add: skip_ws_def list_all_iff dropWhile_append2)

lemma skip_ws_here: "\<not> json_space c \<Longrightarrow> skip_ws (c # s) = c # s"
  by (simp add: skip_ws_def)

lemma stops_run: "list_all json_space w \<Longrightarrow> stops s \<Longrightarrow> stops (w @ s)"
  by (cases w) (auto simp: stops_def json_space_def is_digit_def code_def)

lemma read_number_head: "read_number rd (c # s) = Some x \<Longrightarrow> c = CHR ''-'' \<or> is_digit c"
  by (auto simp: read_number_def number_parts_def read_whole_def Let_def code_def is_digit_def
      split: option.splits if_splits)

lemma read_value_number:
  assumes "read_number rd s = Some x"
  shows "read_value (Suc n) rd s = Some x"
proof (cases s)
  case Nil
  then show ?thesis using assms by (simp add: read_number_def number_parts_def read_whole_def)
next
  case (Cons c cs)
  then have "c = CHR ''-'' \<or> is_digit c" using read_number_head assms by blast
  then have "c \<noteq> dquote" "c \<noteq> CHR ''{''" "c \<noteq> CHR ''[''" "c \<noteq> CHR ''n''" "c \<noteq> CHR ''t''" "c \<noteq> CHR ''f''"
    by (auto simp: is_digit_def dquote_def code_def)
  then show ?thesis using Cons assms by simp
qed

text \<open>A printed value begins with a character that is neither white space nor a closing bracket.\<close>

lemma render_head:
  assumes "float_reads rd fr"
  shows "\<exists>c cs. render_json fr L d j = c # cs \<and> \<not> json_space c \<and> c \<noteq> CHR '']'' \<and> c \<noteq> CHR ''}''"
proof (cases j)
  case (JInt i)
  obtain c cs where "show_nat (nat i) = c # cs" "is_digit c"
    using show_nat_digits [of _ "nat i"] by (cases "show_nat (nat i)") auto
  then show ?thesis using JInt by (auto simp: show_int_def json_space_def is_digit_def code_def)
next
  case (JFloat r)
  have "stops []" by (simp add: stops_def)
  then obtain whole tail where "number_parts (fr r) = Some (whole, tail, [])"
    using assms unfolding float_reads_def by (metis append_Nil2)
  then obtain x where x: "read_number rd (fr r) = Some x" by (simp add: read_number_def)
  then obtain c cs where c: "fr r = c # cs" by (cases "fr r") (auto simp: read_number_def number_parts_def read_whole_def)
  then have "c = CHR ''-'' \<or> is_digit c" using read_number_head x by metis
  then show ?thesis using JFloat c by (auto simp: json_space_def is_digit_def code_def)
qed (auto simp: json_string_def json_space_def dquote_def code_def)

lemma join_Cons: "join sep (x # xs) = (if xs = [] then x else x @ sep @ join sep xs)"
  by (cases xs) simp_all

lemma join_head: "f y = c # cs \<Longrightarrow> \<exists>cs'. join sep (map f (y # ys)) @ t = c # cs'"
  by (simp add: join_Cons)

lemma read_elements_render:
  assumes L: "layout_ok L" and F: "float_reads rd fr"
    and IH: "\<And>x rest n. x \<in> set xs \<Longrightarrow> stops rest \<Longrightarrow> length (render_json fr L d x) \<le> n \<Longrightarrow>
      read_value (Suc n) rd (render_json fr L d x @ rest) = Some (x, rest)"
    and ne: "xs \<noteq> []" and cl: "list_all json_space cl"
    and n: "Suc (length (join ('','' @ ly_sep L d) (map (render_json fr L d) xs) @ cl @ '']'')) \<le> n"
  shows "read_elements n rd (join ('','' @ ly_sep L d) (map (render_json fr L d) xs) @ cl @ '']'' @ rest)
    = Some (xs, rest)"
  using ne IH n
proof (induction xs arbitrary: n)
  case (Cons x xs)
  obtain m where m: "n = Suc m" using Cons.prems(3) by (cases n) auto
  obtain k where k: "m = Suc k" using Cons.prems(3) m by (cases m) auto
  have sp: "\<not> json_space (CHR '']'')" "\<not> json_space (CHR '','')" by (simp_all add: json_space_def code_def)
  have st: "stops ('']'' @ rest)" "stops ('','' @ s)" for s
    by (simp_all add: stops_def is_digit_def code_def)
  show ?case
  proof (cases "xs = []")
    case True
    have "length (render_json fr L d x) \<le> k" using Cons.prems(3) m k True by simp
    then have "read_value m rd (render_json fr L d x @ cl @ '']'' @ rest) = Some (x, cl @ '']'' @ rest)"
      using Cons.prems(2) [of x "cl @ '']'' @ rest" k] stops_run [OF cl st(1)] k by simp
    then show ?thesis
      using True m skip_ws_run [OF cl, of "'']'' @ rest"] by (simp add: skip_ws_here sp)
  next
    case False
    let ?T = "join ('','' @ ly_sep L d) (map (render_json fr L d) xs)"
    have shape: "join ('','' @ ly_sep L d) (map (render_json fr L d) (x # xs)) @ cl @ '']'' @ rest
        = render_json fr L d x @ '','' @ ly_sep L d @ ?T @ cl @ '']'' @ rest"
      using False by (simp add: join_Cons)
    have len: "length (render_json fr L d x) \<le> k" "Suc (length (?T @ cl @ '']'')) \<le> m"
      using Cons.prems(3) m k False by (simp_all add: join_Cons)
    obtain y ys where y: "xs = y # ys" using False by (cases xs) auto
    obtain c cs0 where head: "render_json fr L d y = c # cs0" "\<not> json_space c"
      using render_head [OF F, of L d y] by blast
    then obtain cs where c: "?T @ cl @ '']'' @ rest = c # cs"
      using join_head [of "render_json fr L d" y c cs0] y by metis
    have "list_all json_space (ly_sep L d)" using L by (simp add: layout_ok_def)
    then have skip: "skip_ws (ly_sep L d @ ?T @ cl @ '']'' @ rest) = ?T @ cl @ '']'' @ rest"
      using c head(2) skip_ws_run skip_ws_here by metis
    have "read_value m rd (render_json fr L d x @ '','' @ ly_sep L d @ ?T @ cl @ '']'' @ rest)
        = Some (x, '','' @ ly_sep L d @ ?T @ cl @ '']'' @ rest)"
      using Cons.prems(2) [of x _ k] st(2) len(1) k by simp
    moreover have "read_elements m rd (?T @ cl @ '']'' @ rest) = Some (xs, rest)"
      using Cons.IH [OF False _ len(2)] Cons.prems(2) by simp
    ultimately show ?thesis
      unfolding shape m read_elements.simps using skip by (simp add: skip_ws_here sp)
  qed
qed simp


lemma read_members_render:
  assumes L: "layout_ok L" and F: "float_reads rd fr"
    and IH: "\<And>kv rest n. kv \<in> set kvs \<Longrightarrow> stops rest \<Longrightarrow> length (render_json fr L d (snd kv)) \<le> n \<Longrightarrow>
      read_value (Suc n) rd (render_json fr L d (snd kv) @ rest) = Some (snd kv, rest)"
    and ne: "kvs \<noteq> []" and cl: "list_all json_space cl"
    and g: "g = (\<lambda>kv. json_string (fst kv) @ '':'' @ ly_key L @ render_json fr L d (snd kv))"
    and n: "Suc (length (join ('','' @ ly_sep L d) (map g kvs) @ cl @ ''}'')) \<le> n"
  shows "read_members n rd (join ('','' @ ly_sep L d) (map g kvs) @ cl @ ''}'' @ rest) = Some (kvs, rest)"
  using ne IH n
proof (induction kvs arbitrary: n)
  case (Cons kv kvs)
  obtain m where m: "n = Suc m" using Cons.prems(3) by (cases n) auto
  have glen: "length (render_json fr L d (snd kv)) + 3 \<le> length (g kv)"
    by (simp add: g json_string_def)
  have nlen: "length (g kv) \<le> n" using Cons.prems(3) by (simp add: join_Cons split: if_splits)
  obtain k where k: "m = Suc k" using glen nlen m by (cases m) auto
  have vlen: "length (render_json fr L d (snd kv)) \<le> k" using glen nlen m k by simp
  have sp: "\<not> json_space (CHR ''}'')" "\<not> json_space (CHR '','')" "\<not> json_space (CHR '':'')" "\<not> json_space dquote"
    by (simp_all add: json_space_def code_def dquote_def)
  have st: "stops (''}'' @ rest)" "stops ('','' @ s)" for s
    by (simp_all add: stops_def is_digit_def code_def)
  have one: "read_members n rd (g kv @ t) =
      (case skip_ws t of [] \<Rightarrow> None
       | c # r \<Rightarrow> if c = CHR ''}'' then Some ([kv], r)
           else if c = CHR '','' then map_option (\<lambda>(kvs, r'). (kv # kvs, r')) (read_members m rd (skip_ws r))
           else None)" if t: "stops t" for t
  proof -
    have key: "read_string [] (concat (map escape_char (fst kv)) @ dquote # r) = Some (fst kv, r)" for r
      using read_string_text [of "[]" "fst kv" r] by simp
    obtain c cs where head: "render_json fr L d (snd kv) = c # cs" "\<not> json_space c"
      using render_head [OF F, of L d "snd kv"] by blast
    have "list_all json_space (ly_key L)" using L by (simp add: layout_ok_def)
    then have skip: "skip_ws (ly_key L @ render_json fr L d (snd kv) @ t) = render_json fr L d (snd kv) @ t"
      using skip_ws_run head by (simp add: skip_ws_here)
    have val: "read_value m rd (render_json fr L d (snd kv) @ t) = Some (snd kv, t)"
      using Cons.prems(2) [of kv t k] t vlen k by simp
    show ?thesis
      unfolding m g json_string_def append_assoc append_Cons read_members.simps list.case
      using key skip val by (simp add: skip_ws_here sp) (simp split: list.split)
  qed
  show ?case
  proof (cases "kvs = []")
    case True
    then show ?thesis
      using one [OF stops_run [OF cl st(1)]] skip_ws_run [OF cl, of "''}'' @ rest"]
      by (simp add: skip_ws_here sp)
  next
    case False
    let ?T = "join ('','' @ ly_sep L d) (map g kvs)"
    have shape: "join ('','' @ ly_sep L d) (map g (kv # kvs)) @ cl @ ''}'' @ rest
        = g kv @ '','' @ ly_sep L d @ ?T @ cl @ ''}'' @ rest"
      using False by (simp add: join_Cons)
    have len: "Suc (length (?T @ cl @ ''}'')) \<le> m"
      using Cons.prems(3) m False by (simp add: join_Cons)
    obtain y ys where y: "kvs = y # ys" using False by (cases kvs) auto
    have "g y = dquote # tl (g y)" by (simp add: g json_string_def)
    then obtain cs where c: "?T @ cl @ ''}'' @ rest = dquote # cs"
      using join_head [of g y dquote "tl (g y)"] y by metis
    have "list_all json_space (ly_sep L d)" using L by (simp add: layout_ok_def)
    then have skip: "skip_ws (ly_sep L d @ ?T @ cl @ ''}'' @ rest) = ?T @ cl @ ''}'' @ rest"
      using c sp(4) skip_ws_run skip_ws_here by metis
    have "read_members m rd (?T @ cl @ ''}'' @ rest) = Some (kvs, rest)"
      using Cons.IH [OF False _ len] Cons.prems(2) by simp
    then show ?thesis
      unfolding shape one [OF st(2)] using skip by (simp add: skip_ws_here sp)
  qed
qed simp

lemma dict_build: "distinct (map fst d @ map fst kvs) \<Longrightarrow>
    foldl (\<lambda>d kv. dict_set d (fst kv) (snd kv)) d kvs = d @ kvs"
proof (induction kvs arbitrary: d)
  case (Cons kv kvs)
  have "k \<notin> fst ` set d \<Longrightarrow> dict_set d k v = d @ [(k, v)]" for k v
    by (induction d k v rule: dict_set.induct) auto
  then have "dict_set d (fst kv) (snd kv) = d @ [kv]" using Cons.prems by auto
  then show ?case using Cons.IH [of "d @ [kv]"] Cons.prems by simp
qed simp

lemma read_render:
  assumes L: "layout_ok L" and F: "float_reads rd fr"
  shows "json_ok j \<Longrightarrow> stops rest \<Longrightarrow> length (render_json fr L d j) \<le> n \<Longrightarrow>
    read_value (Suc n) rd (render_json fr L d j @ rest) = Some (j, rest)"
proof (induction j arbitrary: d n rest)
  case (JBool b)
  then show ?case by (cases b) (simp_all add: dquote_def)
next
  case (JInt i)
  then show ?case
    using read_value_number [OF read_number_int [of rest rd i]] by (simp del: read_value.simps)
next
  case (JFloat r)
  then obtain whole tail where p: "number_parts (fr r @ rest) = Some (whole, tail, rest)" "tail \<noteq> []"
      "rd (whole @ tail) = r" using F unfolding float_reads_def by blast
  then have "read_number rd (fr r @ rest) = Some (JFloat r, rest)" by (simp add: read_number_def)
  then show ?case using read_value_number by (simp del: read_value.simps)
next
  case (JStr s)
  then show ?case using read_string_text [of "[]" s rest] by (simp add: json_string_def)
next
  case (JArr xs)
  show ?case
  proof (cases "xs = []")
    case True
    then show ?thesis by (simp add: skip_ws_here json_space_def dquote_def code_def)
  next
    case False
    let ?T = "join ('','' @ ly_sep L (Suc d)) (map (render_json fr L (Suc d)) xs) @ ly_close L d @ '']''"
    have ws: "list_all json_space (ly_open L (Suc d))" "list_all json_space (ly_close L d)"
      using L by (simp_all add: layout_ok_def)
    obtain y ys where y: "xs = y # ys" using False by (cases xs) auto
    obtain c cs0 where head: "render_json fr L (Suc d) y = c # cs0" "\<not> json_space c" "c \<noteq> CHR '']''"
      using render_head [OF F, of L "Suc d" y] by blast
    then obtain cs where c: "?T @ rest = c # cs"
      using join_head [of "render_json fr L (Suc d)" y c cs0] unfolding append_assoc y by metis
    have skip: "skip_ws (ly_open L (Suc d) @ ?T @ rest) = c # cs"
      unfolding skip_ws_run [OF ws(1)] c using head(2) by (rule skip_ws_here)
    have "Suc (length ?T) \<le> n" using JArr.prems(3) False by simp
    moreover have "read_value (Suc n) rd (render_json fr L (Suc d) x @ rest) = Some (x, rest)"
      if "x \<in> set xs" "stops rest" "length (render_json fr L (Suc d) x) \<le> n" for x rest n
      using JArr.IH [OF that(1) _ that(2,3)] JArr.prems(1) that(1) by (simp del: read_value.simps)
    ultimately have "read_elements n rd (?T @ rest) = Some (xs, rest)"
      using read_elements_render [OF L F _ False ws(2), where rest = rest and n = n] by simp
    then show ?thesis
      using False skip c head(3) by (simp add: dquote_def)
  qed
next
  case (JObj kvs)
  show ?case
  proof (cases "kvs = []")
    case True
    then show ?thesis by (simp add: skip_ws_here json_space_def dquote_def code_def)
  next
    case False
    let ?g = "\<lambda>kv. json_string (fst kv) @ '':'' @ ly_key L @ render_json fr L (Suc d) (snd kv)"
    let ?T = "join ('','' @ ly_sep L (Suc d)) (map ?g kvs) @ ly_close L d @ ''}''"
    have ws: "list_all json_space (ly_open L (Suc d))" "list_all json_space (ly_close L d)"
      using L by (simp_all add: layout_ok_def)
    obtain y ys where y: "kvs = y # ys" using False by (cases kvs) auto
    have "?g y = dquote # tl (?g y)" by (simp add: json_string_def)
    then obtain cs where c: "?T @ rest = dquote # cs"
      using join_head [of ?g y dquote "tl (?g y)"] unfolding append_assoc y by metis
    have "\<not> json_space dquote" by (simp add: json_space_def dquote_def code_def)
    then have skip: "skip_ws (ly_open L (Suc d) @ ?T @ rest) = dquote # cs"
      unfolding skip_ws_run [OF ws(1)] c by (rule skip_ws_here)
    have "Suc (length ?T) \<le> n" using JObj.prems(3) False by simp
    moreover have "read_value (Suc n) rd (render_json fr L (Suc d) (snd kv) @ rest) = Some (snd kv, rest)"
      if "kv \<in> set kvs" "stops rest" "length (render_json fr L (Suc d) (snd kv)) \<le> n" for kv rest n
    proof -
      have "snd kv \<in> Basic_BNFs.snds kv" by (cases kv) simp
      then show ?thesis using JObj.IH [OF that(1) _ _ that(2,3)] JObj.prems(1) that(1) by (simp del: read_value.simps)
    qed
    ultimately have "read_members n rd (?T @ rest) = Some (kvs, rest)"
      using read_members_render [OF L F _ False ws(2) refl, where rest = rest and n = n] by simp
    moreover have "foldl (\<lambda>d kv. dict_set d (fst kv) (snd kv)) [] kvs = kvs"
      using dict_build [of "[]" kvs] JObj.prems(1) by simp
    ultimately show ?thesis
      using False skip c by (simp add: dquote_def)
  qed
qed (simp add: dquote_def)

text \<open>What any layout prints, \<open>loads\<close> reads back.\<close>

lemma loads_render:
  assumes L: "layout_ok L" and F: "float_reads rd fr" and j: "json_ok j"
  shows "loads rd (render_json fr L d j) = Some j"
proof -
  obtain c cs where head: "render_json fr L d j = c # cs" "\<not> json_space c"
    using render_head [OF F, of L d j] by blast
  then have skip: "skip_ws (render_json fr L d j) = render_json fr L d j" by (simp add: skip_ws_here)
  have "read_value (Suc (length (render_json fr L d j))) rd (render_json fr L d j) = Some (j, [])"
    using read_render [OF L F j, of "[]" d "length (render_json fr L d j)"] by (simp add: stops_def del: read_value.simps)
  moreover have "skip_ws [] = []" by (simp add: skip_ws_def)
  ultimately show ?thesis by (simp add: loads_def skip del: read_value.simps)
qed

text \<open>The same with the line feed a file ends with.\<close>

lemma loads_render_line:
  assumes L: "layout_ok L" and F: "float_reads rd fr" and j: "json_ok j"
  shows "loads rd (render_json fr L d j @ [newline]) = Some j"
proof -
  let ?s = "render_json fr L d j @ [newline]"
  obtain c cs where head: "render_json fr L d j = c # cs" "\<not> json_space c"
    using render_head [OF F, of L d j] by blast
  then have skip: "skip_ws ?s = ?s" by (simp add: skip_ws_here)
  have "stops [newline]" by (simp add: stops_def newline_def is_digit_def code_def)
  then have "read_value (Suc (length ?s)) rd ?s = Some (j, [newline])"
    using read_render [OF L F j, of "[newline]" d "length ?s"] by (simp del: read_value.simps)
  moreover have "skip_ws [newline] = []" by (simp add: skip_ws_def json_space_def newline_def code_def)
  ultimately show ?thesis by (simp add: loads_def skip del: read_value.simps)
qed

text \<open>The compact layout is what \<open>dumps\<close> prints.\<close>

lemma render_compact: "render_json fr compact_layout d j = dumps fr j"
proof (induction j arbitrary: d)
  case (JArr xs)
  then have "map (render_json fr compact_layout (Suc d)) xs = map (dumps fr) xs" by simp
  moreover have "ly_open compact_layout = (\<lambda>_. [])" "ly_sep compact_layout = (\<lambda>_. [])" "ly_close compact_layout = (\<lambda>_. [])"
    by (simp_all add: compact_layout_def)
  ultimately show ?case by (auto cong: map_cong)
next
  case (JObj kvs)
  have "map (\<lambda>kv. json_string (fst kv) @ '':'' @ render_json fr compact_layout (Suc d) (snd kv)) kvs
      = map (\<lambda>kv. json_string (fst kv) @ '':'' @ dumps fr (snd kv)) kvs"
    using JObj by (auto simp: snds.simps)
  moreover have "ly_open compact_layout = (\<lambda>_. [])" "ly_sep compact_layout = (\<lambda>_. [])" "ly_close compact_layout = (\<lambda>_. [])"
    "ly_key compact_layout = []" by (simp_all add: compact_layout_def)
  ultimately show ?case by (auto cong: map_cong)
qed simp_all

end
