(* ===== verification/Dataset.thy ===== *)
theory Dataset
  imports JsonText Corpus
begin

text \<open>
  The files an evaluation reads: question sets (\<open>src/evals/dataset.py\<close>) and the verified gold the
  benchmark tools emit (\<open>src/evals/gold.py\<close>). Both are JSON lines. A file is its text; the messages
  of the JSON reader (\<open>why\<close>), the printed form of a float (\<open>fr\<close>) and its reading (\<open>rd\<close>) are arguments.
\<close>

section \<open>Python readings of JSON values\<close>

text \<open>\<open>repr\<close> and \<open>str\<close> of a value read from JSON.\<close>

function json_repr :: "(rat \<Rightarrow> string) \<Rightarrow> json \<Rightarrow> string" where
  "json_repr fr JNull = ''None''"
| "json_repr fr (JBool b) = (if b then ''True'' else ''False'')"
| "json_repr fr (JInt i) = show_int i"
| "json_repr fr (JFloat r) = fr r"
| "json_repr fr (JStr s) = py_repr s"
| "json_repr fr (JArr xs) = ''['' @ join '', '' (map (json_repr fr) xs) @ '']''"
| "json_repr fr (JObj kvs) =
     ''{'' @ join '', '' (map (\<lambda>kv. py_repr (fst kv) @ '': '' @ json_repr fr (snd kv)) kvs) @ ''}''"
  by pat_completeness auto
termination
  by (relation "measure (\<lambda>(fr, j). size j)")
     (auto simp: less_Suc_eq_le size_list_estimation' size_prod_simp
        dest!: size_list_estimation' [OF _ order_refl, where f = size])

definition json_str :: "(rat \<Rightarrow> string) \<Rightarrow> json \<Rightarrow> string" where
  "json_str fr j = (case j of JStr s \<Rightarrow> s | _ \<Rightarrow> json_repr fr j)"

fun py_type_name :: "json \<Rightarrow> string" where
  "py_type_name JNull = ''NoneType''"
| "py_type_name (JBool b) = ''bool''"
| "py_type_name (JInt i) = ''int''"
| "py_type_name (JFloat r) = ''float''"
| "py_type_name (JStr s) = ''str''"
| "py_type_name (JArr xs) = ''list''"
| "py_type_name (JObj kvs) = ''dict''"

definition list_repr :: "string list \<Rightarrow> string" where
  "list_repr xs = ''['' @ join '', '' (map py_repr xs) @ '']''"

definition sorted_texts :: "string list \<Rightarrow> string list" where
  "sorted_texts xs = sort_key (map code) xs"

definition value_error :: "string \<Rightarrow> exn" where
  "value_error m = OtherError ''ValueError'' m"

section \<open>Lines of a file\<close>

definition line_break :: "char \<Rightarrow> bool" where
  "line_break c \<longleftrightarrow> code c \<in> {10, 11, 12, 13, 28, 29, 30, 133}"

function split_lines_acc :: "string \<Rightarrow> string \<Rightarrow> string list" where
  "split_lines_acc w [] = (if w = [] then [] else [rev w])"
| "split_lines_acc w (c # cs) =
     (if line_break c
      then rev w # split_lines_acc [] (if c = return_char \<and> cs \<noteq> [] \<and> hd cs = newline then tl cs else cs)
      else split_lines_acc (c # w) cs)"
  by pat_completeness auto
termination
  by (relation "measure (\<lambda>(w, s). length s)") auto

definition split_lines :: "string \<Rightarrow> string list" where
  "split_lines s = split_lines_acc [] s"

text \<open>One object per line: the lines that are not blank, read in order; the first bad line ends the
  reading. \<open>build\<close> makes an entry of the members of an object, or says why not.\<close>

definition object_on_line ::
  "(string \<Rightarrow> rat) \<Rightarrow> (string \<Rightarrow> string) \<Rightarrow> string \<Rightarrow> nat \<Rightarrow> string list \<Rightarrow> string \<Rightarrow> exn + (string, json) dict" where
  "object_on_line rd why path number required line =
     (case loads rd line of
        None \<Rightarrow> Inl (value_error (path @ '':'' @ show_nat number @ '' is not valid JSON: '' @ why line))
      | Some (JObj d) \<Rightarrow>
         (let missing = filter (\<lambda>k. dict_get d k = None) (sorted_texts required) in
          if missing \<noteq> []
          then Inl (value_error (path @ '':'' @ show_nat number @ '' is missing '' @ list_repr missing))
          else Inr d)
      | Some j \<Rightarrow> Inl (OtherError ''AttributeError''
          (py_repr (py_type_name j) @ '' object has no attribute '' @ py_repr ''keys'')))"

definition entry_of :: "(string, json) dict \<Rightarrow> string \<Rightarrow> json \<Rightarrow> json" where
  "entry_of d k dflt = of_option dflt (dict_get d k)"

section \<open>Questions\<close>

definition split_value :: "split \<Rightarrow> string" where
  "split_value s = (case s of TRAIN \<Rightarrow> ''train'' | DEV \<Rightarrow> ''dev'' | HELD_OUT \<Rightarrow> ''held-out'' | SMOKE \<Rightarrow> ''smoke'')"

definition to_split :: "(rat \<Rightarrow> string) \<Rightarrow> json \<Rightarrow> exn + split" where
  "to_split fr j =
     (case filter (\<lambda>s. j = JStr (split_value s)) [TRAIN, DEV, HELD_OUT, SMOKE] of
        s # _ \<Rightarrow> Inr s
      | [] \<Rightarrow> Inl (value_error (json_repr fr j @ '' is not a valid Split'')))"

definition read_question :: "(rat \<Rightarrow> string) \<Rightarrow> (string, json) dict \<Rightarrow> exn + question" where
  "read_question fr d =
     (case to_split fr (entry_of d ''split'' (JStr (split_value DEV))) of
        Inl e \<Rightarrow> Inl e
      | Inr s \<Rightarrow> Inr \<lparr>
          qn_id = json_str fr (entry_of d ''question_id'' JNull),
          qn_question = json_str fr (entry_of d ''question'' JNull),
          qn_gold_sql = json_str fr (entry_of d ''gold_sql'' JNull),
          qn_dataset = json_str fr (entry_of d ''dataset'' (JStr ''default'')),
          qn_split = s,
          qn_db_id = json_str fr (entry_of d ''db_id'' (JStr []))\<rparr>)"

fun load_loop ::
  "(rat \<Rightarrow> string) \<Rightarrow> (string \<Rightarrow> rat) \<Rightarrow> (string \<Rightarrow> string) \<Rightarrow> string \<Rightarrow> split option \<Rightarrow> nat \<Rightarrow> string list
     \<Rightarrow> exn + question list" where
  "load_loop fr rd why path wanted number [] = Inr []"
| "load_loop fr rd why path wanted number (line # lines) =
     (if strip line = [] then load_loop fr rd why path wanted (Suc number) lines
      else case object_on_line rd why path number [''question_id'', ''question'', ''gold_sql''] line of
        Inl e \<Rightarrow> Inl e
      | Inr d \<Rightarrow> (case read_question fr d of
          Inl e \<Rightarrow> Inl e
        | Inr q \<Rightarrow> (case load_loop fr rd why path wanted (Suc number) lines of
            Inl e \<Rightarrow> Inl e
          | Inr qs \<Rightarrow> Inr (if wanted = None \<or> wanted = Some (qn_split q) then q # qs else qs))))"

fun duplicates :: "string list \<Rightarrow> string list \<Rightarrow> string list" where
  "duplicates seen [] = []"
| "duplicates seen (x # xs) = (if x \<in> set seen then x # duplicates seen xs else duplicates (x # seen) xs)"

definition assert_unique :: "string \<Rightarrow> question list \<Rightarrow> exn option" where
  "assert_unique path qs =
     (let dups = sorted_texts (remdups (duplicates [] (map qn_id qs))) in
      if dups \<noteq> [] then Some (value_error (path @ '' has duplicate question_id(s): '' @ list_repr dups)) else None)"

definition load_questions ::
  "(rat \<Rightarrow> string) \<Rightarrow> (string \<Rightarrow> rat) \<Rightarrow> (string \<Rightarrow> string) \<Rightarrow> string \<Rightarrow> split option \<Rightarrow> string
     \<Rightarrow> exn + question list" where
  "load_questions fr rd why path wanted file =
     (case load_loop fr rd why path wanted 1 (split_lines file) of
        Inl e \<Rightarrow> Inl e
      | Inr qs \<Rightarrow> (case assert_unique path qs of Some e \<Rightarrow> Inl e | None \<Rightarrow> Inr qs))"

definition question_json :: "question \<Rightarrow> json" where
  "question_json q = JObj
     [(''question_id'', JStr (qn_id q)), (''question'', JStr (qn_question q)), (''gold_sql'', JStr (qn_gold_sql q)),
      (''dataset'', JStr (qn_dataset q)), (''split'', JStr (split_value (qn_split q))), (''db_id'', JStr (qn_db_id q))]"

definition write_questions :: "(rat \<Rightarrow> string) \<Rightarrow> question list \<Rightarrow> string" where
  "write_questions fr qs = concat (map (\<lambda>q. render_json fr spaced 0 (question_json q) @ [newline]) qs)"

text \<open>\<open>range(0, len(questions), size)\<close> refuses a step of zero and is empty for a negative one.\<close>

function batches_from :: "nat \<Rightarrow> 'a list \<Rightarrow> 'a list list" where
  "batches_from n xs = (if xs = [] \<or> n = 0 then [] else take n xs # batches_from n (drop n xs))"
  by pat_completeness auto
termination
  by (relation "measure (\<lambda>(n, xs). length xs)") auto

declare batches_from.simps [simp del]

definition iter_batched :: "question list \<Rightarrow> int \<Rightarrow> exn + question list list" where
  "iter_batched qs k =
     (if k = 0 then Inl (value_error ''range() arg 3 must not be zero'')
      else if k < 0 then Inr []
      else Inr (batches_from (nat k) qs))"

section \<open>Verified gold\<close>

record gold_entry =
  ge_question_id :: string
  ge_sql :: string
  ge_outcome :: string
  ge_scoreable :: bool
  ge_db_id :: string
  ge_schema :: string

record applied =
  ap_questions :: "question list"
  ap_excluded :: "(string, nat) dict"
  ap_schemas :: "(string, string) dict"

definition excluded_total :: "applied \<Rightarrow> nat" where
  "excluded_total a = sum_list (map snd (ap_excluded a))"

definition applied_dict :: "applied \<Rightarrow> json" where
  "applied_dict a = JObj
     [(''scoreable'', JInt (int (length (ap_questions a)))), (''excluded'', JInt (int (excluded_total a))),
      (''excluded_by_outcome'',
        JObj (map (\<lambda>kv. (fst kv, JInt (int (snd kv)))) (sort_key (\<lambda>kv. map code (fst kv)) (ap_excluded a))))]"

definition read_gold :: "(rat \<Rightarrow> string) \<Rightarrow> (string, json) dict \<Rightarrow> gold_entry" where
  "read_gold fr d =
     \<lparr>ge_question_id = json_str fr (entry_of d ''question_id'' JNull),
      ge_sql = json_str fr (entry_of d ''sql'' (JStr [])),
      ge_outcome = json_str fr (entry_of d ''outcome'' JNull),
      ge_scoreable = jtruthy (entry_of d ''scoreable'' JNull),
      ge_db_id = json_str fr (entry_of d ''db_id'' (JStr [])),
      ge_schema = json_str fr (entry_of d ''schema'' (JStr []))\<rparr>"

fun gold_loop ::
  "(rat \<Rightarrow> string) \<Rightarrow> (string \<Rightarrow> rat) \<Rightarrow> (string \<Rightarrow> string) \<Rightarrow> string \<Rightarrow> (string, gold_entry) dict \<Rightarrow> nat
     \<Rightarrow> string list \<Rightarrow> exn + (string, gold_entry) dict" where
  "gold_loop fr rd why path entries number [] = Inr entries"
| "gold_loop fr rd why path entries number (line # lines) =
     (if strip line = [] then gold_loop fr rd why path entries (Suc number) lines
      else case object_on_line rd why path number [''question_id'', ''outcome'', ''scoreable''] line of
        Inl e \<Rightarrow> Inl e
      | Inr d \<Rightarrow>
         (let entry = read_gold fr d; place = path @ '':'' @ show_nat number in
          if ge_scoreable entry \<and> strip (ge_sql entry) = []
          then Inl (value_error (place @ '' marks '' @ ge_question_id entry @ '' scoreable but carries no SQL''))
          else if dict_get entries (ge_question_id entry) \<noteq> None
          then Inl (value_error (place @ '' repeats question_id '' @ py_repr (ge_question_id entry)))
          else gold_loop fr rd why path (dict_set entries (ge_question_id entry) entry) (Suc number) lines))"

definition load_verified_gold ::
  "(rat \<Rightarrow> string) \<Rightarrow> (string \<Rightarrow> rat) \<Rightarrow> (string \<Rightarrow> string) \<Rightarrow> string \<Rightarrow> string \<Rightarrow> exn + (string, gold_entry) dict" where
  "load_verified_gold fr rd why path file = gold_loop fr rd why path [] 1 (split_lines file)"

definition sample_ids :: "string list \<Rightarrow> nat \<Rightarrow> string" where
  "sample_ids ids limit = join '', '' (take limit ids) @ (if length ids > limit then '' ...'' else [])"

text \<open>One question of the loop: the questions kept, the counts by outcome, the schemas and the
  identifiers nobody verified, as the loop carries them.\<close>

definition apply_gold_one ::
  "(string, gold_entry) dict \<Rightarrow> applied \<times> string list \<Rightarrow> question \<Rightarrow> applied \<times> string list" where
  "apply_gold_one gold acc q =
     (case dict_get gold (qn_id q) of
        None \<Rightarrow> (fst acc, snd acc @ [qn_id q])
      | Some entry \<Rightarrow>
         (let schemas = (if ge_schema entry \<noteq> []
            then dict_setdefault (ap_schemas (fst acc)) (if ge_db_id entry \<noteq> [] then ge_db_id entry else qn_db_id q)
                   (ge_schema entry)
            else ap_schemas (fst acc)) in
          (if \<not> ge_scoreable entry
           then (fst acc)\<lparr>ap_schemas := schemas, ap_excluded := dict_set (ap_excluded (fst acc)) (ge_outcome entry)
             (of_option 0 (dict_get (ap_excluded (fst acc)) (ge_outcome entry)) + 1)\<rparr>
           else (fst acc)\<lparr>ap_schemas := schemas, ap_questions := ap_questions (fst acc) @ [q\<lparr>qn_gold_sql := ge_sql entry\<rparr>]\<rparr>,
           snd acc)))"

definition apply_verified_gold :: "question list \<Rightarrow> (string, gold_entry) dict \<Rightarrow> exn + applied" where
  "apply_verified_gold qs gold =
     (let (a, unverified) = foldl (apply_gold_one gold) (\<lparr>ap_questions = [], ap_excluded = [], ap_schemas = []\<rparr>, []) qs in
      if unverified \<noteq> []
      then Inl (value_error (show_nat (length unverified) @ '' question(s) in this split were never verified, ''
        @ ''so the conversion behind them is unchecked: '' @ sample_ids unverified 5 @ ''. ''
        @ ''Re-run `benchmark.load verify --emit-gold` over the whole split.''))
      else Inr a)"

section \<open>Facts\<close>

lemma split_lines_line:
  "\<forall>c \<in> set l. \<not> line_break c \<Longrightarrow>
     split_lines_acc w (l @ newline # rest) = (rev w @ l) # split_lines_acc [] rest"
proof (induction l arbitrary: w)
  case Nil
  have "line_break newline" "newline \<noteq> return_char"
    by (simp_all add: line_break_def newline_def return_char_def code_def)
  then show ?case by simp
qed simp

lemma split_lines_written:
  "\<forall>l \<in> set ls. \<forall>c \<in> set l. \<not> line_break c \<Longrightarrow> split_lines (concat (map (\<lambda>l. l @ [newline]) ls)) = ls"
proof (induction ls)
  case (Cons l ls)
  then show ?case using split_lines_line [of l "[]"] by (simp add: split_lines_def)
qed (simp add: split_lines_def)

lemma ascii_line_one_line: "ascii_line s \<Longrightarrow> c \<in> set s \<Longrightarrow> \<not> line_break c"
  by (force simp: ascii_line_def line_break_def)

lemma question_line_ascii: "ascii_line (render_json fr spaced 0 (question_json q))"
  by (simp add: question_json_def spaced_def) (simp add: code_def)

lemma question_line_not_blank: "strip (render_json fr spaced 0 (question_json q)) \<noteq> []"
proof -
  have brace: "\<not> py_space (CHR ''{'')" "\<not> py_space (CHR ''}'')" by (simp_all add: py_space_def code_def)
  obtain m where "render_json fr spaced 0 (question_json q) = CHR ''{'' # m @ ''}''"
    by (simp add: question_json_def spaced_def)
  then show ?thesis using brace by (simp add: strip_def lstrip_def rstrip_def)
qed

lemma read_question_written:
  assumes F: "float_reads rd fr"
  shows "object_on_line rd why path n [''question_id'', ''question'', ''gold_sql'']
      (render_json fr spaced 0 (question_json q)) = Inr (case question_json q of JObj d \<Rightarrow> d)"
    and "read_question fr (case question_json q of JObj d \<Rightarrow> d) = Inr q"
proof -
  have "json_ok (question_json q)" by (simp add: question_json_def)
  from loads_render [OF _ F this, of spaced 0]
  have read: "loads rd (render_json fr spaced 0 (question_json q)) = Some (question_json q)" by simp
  obtain d where d: "question_json q = JObj d" by (simp add: question_json_def)
  have "dict_get d k \<noteq> None" if "k \<in> set [''question_id'', ''question'', ''gold_sql'']" for k
    using that d by (auto simp: question_json_def)
  then have "filter (\<lambda>k. dict_get d k = None) (sorted_texts [''question_id'', ''question'', ''gold_sql'']) = []"
    by (auto simp: filter_empty_conv sorted_texts_def)
  then show "object_on_line rd why path n [''question_id'', ''question'', ''gold_sql'']
      (render_json fr spaced 0 (question_json q)) = Inr (case question_json q of JObj d \<Rightarrow> d)"
    unfolding object_on_line_def read by (simp add: d)
  show "read_question fr (case question_json q of JObj d \<Rightarrow> d) = Inr q"
    by (cases "qn_split q")
       (simp_all add: read_question_def question_json_def entry_of_def of_option_def to_split_def split_value_def json_str_def)
qed

lemma load_loop_written:
  assumes F: "float_reads rd fr"
  shows "load_loop fr rd why path wanted n (map (\<lambda>q. render_json fr spaced 0 (question_json q)) qs)
    = Inr (filter (\<lambda>q. wanted = None \<or> wanted = Some (qn_split q)) qs)"
proof (induction qs arbitrary: n)
  case (Cons q qs)
  then show ?case by (simp add: question_line_not_blank read_question_written [OF F])
qed simp

lemma set_duplicates: "distinct xs \<Longrightarrow> set xs \<inter> set seen = {} \<Longrightarrow> duplicates seen xs = []"
  by (induction seen xs rule: duplicates.induct) auto

lemma duplicates_none: "duplicates seen xs = [] \<Longrightarrow> distinct xs \<and> set xs \<inter> set seen = {}"
  by (induction seen xs rule: duplicates.induct) (auto split: if_splits)

lemma unique_iff: "assert_unique path qs = None \<longleftrightarrow> distinct (map qn_id qs)"
proof -
  have nil: "sorted_texts xs = [] \<longleftrightarrow> xs = []" for xs
    by (metis set_empty set_sort sorted_texts_def)
  have "duplicates [] xs = [] \<longleftrightarrow> distinct xs" for xs
    using set_duplicates [of xs "[]"] duplicates_none [of "[]" xs] by (metis empty_set inf_bot_right)
  then show ?thesis by (simp add: assert_unique_def Let_def nil remdups_eq_nil_iff)
qed

lemma batches_concat: "0 < n \<Longrightarrow> concat (batches_from n xs) = xs"
  by (induction n xs rule: batches_from.induct) (subst batches_from.simps; simp)

lemma batches_bounded: "b \<in> set (batches_from n xs) \<Longrightarrow> b \<noteq> [] \<and> length b \<le> n"
proof (induction n xs rule: batches_from.induct)
  case (1 n xs)
  then show ?case by (subst (asm) (2) batches_from.simps) (auto split: if_splits)
qed

text \<open>What the verified gold says of one question.\<close>

definition scored :: "(string, gold_entry) dict \<Rightarrow> question \<Rightarrow> bool" where
  "scored gold q \<longleftrightarrow> (case dict_get gold (qn_id q) of None \<Rightarrow> False | Some e \<Rightarrow> ge_scoreable e)"

definition refused_with :: "(string, gold_entry) dict \<Rightarrow> string \<Rightarrow> question \<Rightarrow> bool" where
  "refused_with gold oc q \<longleftrightarrow>
     (case dict_get gold (qn_id q) of None \<Rightarrow> False | Some e \<Rightarrow> \<not> ge_scoreable e \<and> ge_outcome e = oc)"

definition with_gold :: "(string, gold_entry) dict \<Rightarrow> question \<Rightarrow> question" where
  "with_gold gold q = (case dict_get gold (qn_id q) of None \<Rightarrow> q | Some e \<Rightarrow> q\<lparr>qn_gold_sql := ge_sql e\<rparr>)"

lemma sum_dict_set: "sum_list (map snd (dict_set d k (of_option 0 (dict_get d k) + (1 :: nat)))) = sum_list (map snd d) + 1"
  by (induction d) (auto simp: of_option_def)

lemma apply_gold_fold:
  "foldl (apply_gold_one gold) acc qs = (a, unverified) \<Longrightarrow>
     unverified = snd acc @ map qn_id (filter (\<lambda>q. dict_get gold (qn_id q) = None) qs)
     \<and> ap_questions a = ap_questions (fst acc) @ map (with_gold gold) (filter (scored gold) qs)
     \<and> excluded_total a = excluded_total (fst acc)
          + length (filter (\<lambda>q. dict_get gold (qn_id q) \<noteq> None \<and> \<not> scored gold q) qs)
     \<and> (\<forall>oc. of_option 0 (dict_get (ap_excluded a) oc)
          = of_option 0 (dict_get (ap_excluded (fst acc)) oc) + length (filter (refused_with gold oc) qs))"
proof (induction qs arbitrary: acc)
  case (Cons q qs)
  note facts = Cons.IH [OF Cons.prems [unfolded foldl_Cons]]
  show ?case
  proof (cases "dict_get gold (qn_id q)")
    case None
    then have "apply_gold_one gold acc q = (fst acc, snd acc @ [qn_id q])" by (simp add: apply_gold_one_def)
    then show ?thesis using facts None by (simp add: scored_def refused_with_def)
  next
    case (Some e)
    then have parts: "scored gold q = ge_scoreable e" "with_gold gold q = q\<lparr>qn_gold_sql := ge_sql e\<rparr>"
      "refused_with gold oc q = (\<not> ge_scoreable e \<and> ge_outcome e = oc)" for oc
      by (simp_all add: scored_def with_gold_def refused_with_def)
    have same: "snd (apply_gold_one gold acc q) = snd acc" using Some by (simp add: apply_gold_one_def Let_def)
    have questions: "ap_questions (fst (apply_gold_one gold acc q))
        = ap_questions (fst acc) @ (if ge_scoreable e then [with_gold gold q] else [])"
      using Some by (simp add: apply_gold_one_def Let_def parts)
    have excl: "ap_excluded (fst (apply_gold_one gold acc q)) = (if ge_scoreable e then ap_excluded (fst acc)
        else dict_set (ap_excluded (fst acc)) (ge_outcome e)
          (of_option 0 (dict_get (ap_excluded (fst acc)) (ge_outcome e)) + 1))"
      using Some by (simp add: apply_gold_one_def Let_def)
    have count: "of_option 0 (dict_get (ap_excluded (fst (apply_gold_one gold acc q))) oc)
        = of_option 0 (dict_get (ap_excluded (fst acc)) oc) + (if refused_with gold oc q then 1 else 0)" for oc
      unfolding excl by (auto simp: parts of_option_def)
    have total: "excluded_total (fst (apply_gold_one gold acc q))
        = excluded_total (fst acc) + (if scored gold q then 0 else 1)"
      unfolding excluded_total_def excl by (simp add: parts sum_dict_set del: One_nat_def)
    show ?thesis using facts Some unfolding same questions count total by (auto simp: parts)
  qed
qed auto

section \<open>Properties\<close>

text \<open>Loading a written file, and the case of distinct identifiers.\<close>

lemma load_written_all:
  assumes F: "float_reads rd fr"
  shows "load_questions fr rd why path wanted (write_questions fr qs) =
    (let kept = filter (\<lambda>q. wanted = None \<or> wanted = Some (qn_split q)) qs in
     if distinct (map qn_id kept) then Inr kept
     else Inl (value_error (path @ '' has duplicate question_id(s): ''
       @ list_repr (sorted_texts (remdups (duplicates [] (map qn_id kept)))))))"
proof -
  have "split_lines (write_questions fr qs) = map (\<lambda>q. render_json fr spaced 0 (question_json q)) qs"
    using split_lines_written [of "map (\<lambda>q. render_json fr spaced 0 (question_json q)) qs"]
      question_line_ascii ascii_line_one_line
    by (fastforce simp: write_questions_def comp_def)
  then have "load_questions fr rd why path wanted (write_questions fr qs) =
      (let kept = filter (\<lambda>q. wanted = None \<or> wanted = Some (qn_split q)) qs in
       case assert_unique path kept of Some e \<Rightarrow> Inl e | None \<Rightarrow> Inr kept)"
    by (simp add: load_questions_def load_loop_written [OF F] Let_def)
  then show ?thesis
    using unique_iff [of path "filter (\<lambda>q. wanted = None \<or> wanted = Some (qn_split q)) qs"]
    by (auto simp: Let_def assert_unique_def split: option.splits if_splits)
qed

lemma load_written:
  "float_reads rd fr \<Longrightarrow> distinct (map qn_id qs) \<Longrightarrow> load_questions fr rd why path None (write_questions fr qs) = Inr qs"
  using load_written_all [of rd fr why path None qs] by simp

text \<open>A question file reads back as it was written. Whatever the texts of the questions hold (quotes,
  line breaks, control characters), loading the written file gives exactly the questions of the wanted
  split, in order, provided their identifiers are distinct; otherwise loading is refused.\<close>

theorem questions_roundtrip:
  assumes F: "float_reads rd fr"
  shows "load_questions fr rd why path wanted (write_questions fr qs) =
    (let kept = filter (\<lambda>q. wanted = None \<or> wanted = Some (qn_split q)) qs in
     if distinct (map qn_id kept) then Inr kept
     else Inl (value_error (path @ '' has duplicate question_id(s): ''
       @ list_repr (sorted_texts (remdups (duplicates [] (map qn_id kept)))))))"
  by (rule load_written_all [OF F])

theorem questions_roundtrip_witness:
  "load_questions show_ratio read_ratio (\<lambda>_. []) ''q'' None
     (write_questions show_ratio [\<lparr>qn_id = ''a'', qn_question = [newline], qn_gold_sql = [dquote], qn_dataset = [],
        qn_split = SMOKE, qn_db_id = []\<rparr>])
   = Inr [\<lparr>qn_id = ''a'', qn_question = [newline], qn_gold_sql = [dquote], qn_dataset = [],
        qn_split = SMOKE, qn_db_id = []\<rparr>]"
  by (subst questions_roundtrip [OF ratios_read]) simp

text \<open>Applying verified gold accounts for every question. It succeeds exactly when every question has
  a verdict; then the scored questions are exactly the scoreable ones, in order, each carrying the
  verified query, the count of each other outcome is the number of questions it excluded, and
  scored and excluded add up to the questions that came in.\<close>

theorem verified_gold_accounts:
  "(\<exists>a. apply_verified_gold qs gold = Inr a) = (set (map qn_id qs) \<subseteq> dom (map_of gold))
   \<and> (case apply_verified_gold qs gold of
        Inl e \<Rightarrow> class_of e = COther
      | Inr a \<Rightarrow> ap_questions a = map (with_gold gold) (filter (scored gold) qs)
          \<and> (\<forall>oc. of_option 0 (dict_get (ap_excluded a) oc) = length (filter (refused_with gold oc) qs))
          \<and> length (ap_questions a) + excluded_total a = length qs)"
proof -
  obtain a unverified where run:
    "foldl (apply_gold_one gold) (\<lparr>ap_questions = [], ap_excluded = [], ap_schemas = []\<rparr>, []) qs = (a, unverified)"
    by fastforce
  note facts = apply_gold_fold [OF run]
  have whole: "(unverified = []) = (set (map qn_id qs) \<subseteq> dom (map_of gold))"
    using facts by (auto simp: filter_empty_conv)
  have total: "length (filter (scored gold) qs) + length (filter (\<lambda>q. dict_get gold (qn_id q) \<noteq> None \<and> \<not> scored gold q) qs)
      = length qs" if "unverified = []"
  proof -
    have "filter (\<lambda>q. dict_get gold (qn_id q) \<noteq> None \<and> \<not> scored gold q) qs = filter (\<lambda>q. \<not> scored gold q) qs"
      using that facts by (auto simp: filter_empty_conv intro: filter_cong)
    then show ?thesis using sum_length_filter_compl [of "scored gold" qs] by simp
  qed
  show ?thesis
  proof (cases "unverified = []")
    case True
    then have "apply_verified_gold qs gold = Inr a" by (simp add: apply_verified_gold_def run)
    then show ?thesis using True facts whole total [OF True] by (simp add: excluded_total_def of_option_def)
  next
    case False
    then show ?thesis using whole by (simp add: apply_verified_gold_def run value_error_def)
  qed
qed

end
