(* ===== verification/Profiler.thy ===== *)
theory Profiler
  imports Exceptions Catalog Serialization "HOL-Library.List_Lexorder"
begin

text \<open>
  The table profiler of \<open>src/profiling/profiler.py\<close>. The database is an argument: one function per
  kind of statement, each of the statements issued so far with the current one last, so that an
  answer may depend on anything that was sent before. What the profiler sends is the second
  component of every result. The rendering of identifiers and literals inside a composed statement
  (\<open>psycopg.sql\<close>) is an argument as well. A column statistic is the row the statement selects, with
  the types its expressions have in PostgreSQL; savepoints around a query are not statements here.
\<close>

section \<open>What a profile says\<close>

record frequent_value =
  fv_value :: string
  fv_count :: int

record column_profile =
  cp_column :: string
  cp_data_type :: string
  cp_null_fraction :: "rat option"
  cp_distinct_count :: "int option"
  cp_minimum :: "string option"
  cp_maximum :: "string option"
  cp_frequent_values :: "frequent_value list"
  cp_sample_values :: "string list"
  cp_withheld :: "string list"

record table_profile =
  tp_table :: string
  tp_columns :: "column_profile list"
  tp_row_estimate :: "int option"
  tp_scanned_rows :: int
  tp_columns_omitted :: int

definition withheld_sensitive_name :: string where
  "withheld_sensitive_name = ''column name matches the sensitive-column denylist''"

definition withheld_rare :: "int \<Rightarrow> string" where
  "withheld_rare threshold =
     ''every value occurs fewer than '' @ show_int threshold @ '' times in the scanned rows''"

definition withheld_unordered_type :: "string \<Rightarrow> string" where
  "withheld_unordered_type data_type = ''extremes are not reported for type '' @ data_type"

definition withheld_sampling_disabled :: string where
  "withheld_sampling_disabled = ''raw values require PROFILE_ALLOW_VALUE_SAMPLING''"

definition withheld_top_k_disabled :: string where
  "withheld_top_k_disabled = ''frequent values are disabled (PROFILE_TOP_K=0)''"

definition withheld_refused :: string where
  "withheld_refused = ''the database refused to compute statistics for this column''"

definition is_fully_suppressed :: "column_profile \<Rightarrow> bool" where
  "is_fully_suppressed c \<longleftrightarrow> withheld_sensitive_name \<in> set (cp_withheld c)"

definition ordered_type_prefixes :: "string list" where
  "ordered_type_prefixes =
     [''smallint'', ''integer'', ''bigint'', ''decimal'', ''numeric'', ''real'', ''double precision'', ''money'',
      ''date'', ''timestamp'', ''time'', ''interval'']"

definition supports_extremes :: "string \<Rightarrow> bool" where
  "supports_extremes data_type =
     (let lowered = casefold (strip data_type) in
      if endswith lowered ''[]'' then False else list_ex (startswith lowered) ordered_type_prefixes)"

section \<open>The database\<close>

record profile_stats =
  st_null_fraction :: "rat option"
  st_distinct_count :: int
  st_minimum :: "string option"
  st_maximum :: "string option"

text \<open>One row of the statistics: counts, extremes, and a frequent value if the outer join found one.\<close>

record stats_row =
  sr_n :: int
  sr_non_null :: int
  sr_distinct :: int
  sr_lo :: "string option"
  sr_hi :: "string option"
  sr_value :: "string option"
  sr_freq :: int

datatype statement =
    ColumnTypes string string
  | RowEstimate string string
  | StatementTimeout string
  | StatsQuery string "int list"
  | SampleQuery string "int list"

record profile_db =
  pd_types :: "statement list \<Rightarrow> exn + (string \<times> string) list"
  pd_estimate :: "statement list \<Rightarrow> exn + int option"
  pd_timeout :: "statement list \<Rightarrow> exn option"
  pd_stats :: "statement list \<Rightarrow> exn + stats_row list"
  pd_sample :: "statement list \<Rightarrow> exn + string list"

record profiler =
  pf_db :: profile_db
  pf_catalog :: schema_catalog
  pf_settings :: profiling_settings
  pf_schema :: string
  pf_sensitive_patterns :: "string list"
  pf_enum :: "string set \<Rightarrow> string list"
  pf_identifier :: "string list \<Rightarrow> string"
  pf_literal :: "int \<Rightarrow> string"

section \<open>Resolution\<close>

definition resolve_table :: "profiler \<Rightarrow> string \<Rightarrow> exn + string" where
  "resolve_table P tab =
     (if \<not> has_table (pf_catalog P) tab
      then Inl (UnknownTableError tab (suggest_table (pf_catalog P) tab))
      else Inr (casefold tab))"

definition column_types :: "profiler \<Rightarrow> string \<Rightarrow> statement list \<Rightarrow> (exn + (string, string) dict) \<times> statement list" where
  "column_types P tab l =
     (let l' = l @ [ColumnTypes (pf_schema P) tab] in
      (case pd_types (pf_db P) l' of
         Inl e \<Rightarrow> Inl e
       | Inr rows \<Rightarrow> Inr (foldl (\<lambda>d row. dict_set d (casefold (fst row)) (snd row)) [] rows), l'))"

definition select_columns ::
  "profiler \<Rightarrow> string \<Rightarrow> string list option \<Rightarrow> statement list
     \<Rightarrow> (exn + (string \<times> string) list \<times> int) \<times> statement list" where
  "select_columns P tab requested l =
     (let known = of_option {} (dict_get (pf_catalog P) tab);
          unknown = (case requested of None \<Rightarrow> [] | Some cs \<Rightarrow> filter (\<lambda>c. casefold c \<notin> known) cs) in
      case unknown of
        u # _ \<Rightarrow>
          (Inl (ProfilingError (''column '' @ py_repr u @ '' is not in '' @ py_repr tab
             @ (case suggest_column (pf_enum P) (pf_catalog P) u [tab] of
                  None \<Rightarrow> []
                | Some s \<Rightarrow> if s \<noteq> [] then ''; did you mean '' @ py_repr s @ ''?'' else []))), l)
      | [] \<Rightarrow>
          (let names = (case requested of
                 Some cs \<Rightarrow> map casefold cs | None \<Rightarrow> sort_key (map code) (pf_enum P known));
               cap = profile_max_columns (pf_settings P);
               omitted = max 0 (int (length names) - cap);
               (types, l') = column_types P tab l in
           (case types of
              Inl e \<Rightarrow> Inl e
            | Inr d \<Rightarrow> Inr (map (\<lambda>n. (n, of_option ''unknown'' (dict_get d n))) (take (nat cap) names), omitted), l')))"

definition row_estimate :: "profiler \<Rightarrow> string \<Rightarrow> statement list \<Rightarrow> (exn + int option) \<times> statement list" where
  "row_estimate P tab l =
     (let l' = l @ [RowEstimate (pf_schema P) tab] in
      (case pd_estimate (pf_db P) l' of
         Inl e \<Rightarrow> Inl e
       | Inr None \<Rightarrow> Inr None
       | Inr (Some n) \<Rightarrow> Inr (if n < 0 then None else Some n), l'))"

section \<open>One column\<close>

definition stats_text :: "profiler \<Rightarrow> string \<Rightarrow> string \<Rightarrow> bool \<Rightarrow> string" where
  "stats_text P tab col ext =
     (let n = pf_literal P (profile_max_value_chars (pf_settings P)) in
      ''WITH scan AS (SELECT '' @ pf_identifier P [col] @ '' AS v FROM '' @ pf_identifier P [pf_schema P, tab]
      @ '' LIMIT %s), '' @ ''stats AS (SELECT count(*) AS n, count(v) AS non_null, ''
      @ ''                 count(DISTINCT v) AS distinct_count''
      @ (if ext then '', left(min(v)::text, '' @ n @ '') AS lo, left(max(v)::text, '' @ n @ '') AS hi''
         else '', NULL::text AS lo, NULL::text AS hi'')
      @ '' FROM scan), '' @ ''freq AS (SELECT left(v::text, %s) AS value, count(*) AS freq FROM scan ''
      @ ''         WHERE v IS NOT NULL GROUP BY v HAVING count(*) >= %s ''
      @ ''         ORDER BY count(*) DESC, 1 LIMIT %s) ''
      @ ''SELECT s.n, s.non_null, s.distinct_count, s.lo, s.hi, f.value, f.freq ''
      @ ''FROM stats s LEFT JOIN freq f ON true'')"

definition stats_query :: "profiler \<Rightarrow> string \<Rightarrow> string \<Rightarrow> bool \<Rightarrow> int \<Rightarrow> statement" where
  "stats_query P tab col ext top_k =
     StatsQuery (stats_text P tab col ext)
       [profile_scan_limit (pf_settings P), profile_max_value_chars (pf_settings P),
        profile_min_value_frequency (pf_settings P), max top_k 1]"

definition sample_query :: "profiler \<Rightarrow> string \<Rightarrow> string \<Rightarrow> int \<Rightarrow> statement" where
  "sample_query P tab col limit =
     SampleQuery (''SELECT left('' @ pf_identifier P [col] @ ''::text, %s) FROM ''
       @ pf_identifier P [pf_schema P, tab] @ '' WHERE '' @ pf_identifier P [col] @ '' IS NOT NULL LIMIT %s'')
       [profile_max_value_chars (pf_settings P), limit]"

definition stats_of :: "stats_row \<Rightarrow> profile_stats" where
  "stats_of r =
     \<lparr>st_null_fraction = (if sr_n r \<noteq> 0
        then Some (round_places 4 (of_int (sr_n r - sr_non_null r) / of_int (sr_n r))) else None),
      st_distinct_count = sr_distinct r, st_minimum = sr_lo r, st_maximum = sr_hi r\<rparr>"

definition frequent_of :: "int \<Rightarrow> stats_row list \<Rightarrow> frequent_value list" where
  "frequent_of top_k rows =
     (if top_k = 0 then []
      else somes (map (\<lambda>r. case sr_value r of
             None \<Rightarrow> None | Some v \<Rightarrow> Some \<lparr>fv_value = v, fv_count = sr_freq r\<rparr>) rows))"

text \<open>A transaction: the timeout, then the query, unless setting the timeout failed.\<close>

definition timed_query ::
  "profiler \<Rightarrow> (statement list \<Rightarrow> exn + 'a) \<Rightarrow> statement \<Rightarrow> statement list \<Rightarrow> (exn + 'a) \<times> statement list" where
  "timed_query P run query l =
     (let l1 = l @ [StatementTimeout (show_int (profile_timeout_ms (pf_settings P)))] in
      case pd_timeout (pf_db P) l1 of
        Some e \<Rightarrow> (Inl e, l1)
      | None \<Rightarrow> (run (l1 @ [query]), l1 @ [query]))"

definition run_stats ::
  "profiler \<Rightarrow> string \<Rightarrow> string \<Rightarrow> bool \<Rightarrow> int \<Rightarrow> statement list
     \<Rightarrow> (exn + profile_stats \<times> frequent_value list) \<times> statement list" where
  "run_stats P tab col ext top_k l =
     (let (answer, l') = timed_query P (pd_stats (pf_db P)) (stats_query P tab col ext top_k) l in
      (case answer of
         Inl e \<Rightarrow> Inl e
       | Inr [] \<Rightarrow> Inl (ProfilingError (''no statistics returned for '' @ tab @ ''.'' @ col))
       | Inr (r # rs) \<Rightarrow> Inr (stats_of r, frequent_of top_k (r # rs)), l'))"

definition sample :: "profiler \<Rightarrow> string \<Rightarrow> string \<Rightarrow> int \<Rightarrow> statement list \<Rightarrow> (exn + string list) \<times> statement list" where
  "sample P tab col limit l =
     (let (answer, l') = timed_query P (pd_sample (pf_db P)) (sample_query P tab col limit) l in
      (case answer of
         Inl e \<Rightarrow> if isinst e CDriverError then Inr [] else Inl e
       | Inr vs \<Rightarrow> Inr vs, l'))"

definition bare_profile :: "string \<Rightarrow> string \<Rightarrow> string list \<Rightarrow> column_profile" where
  "bare_profile col data_type reasons =
     \<lparr>cp_column = col, cp_data_type = data_type, cp_null_fraction = None, cp_distinct_count = None,
      cp_minimum = None, cp_maximum = None, cp_frequent_values = [], cp_sample_values = [],
      cp_withheld = reasons\<rparr>"

definition full_profile ::
  "string \<Rightarrow> string \<Rightarrow> profile_stats \<Rightarrow> frequent_value list \<Rightarrow> string list \<Rightarrow> string list \<Rightarrow> column_profile" where
  "full_profile col data_type stats frequent samples reasons =
     \<lparr>cp_column = col, cp_data_type = data_type, cp_null_fraction = st_null_fraction stats,
      cp_distinct_count = Some (st_distinct_count stats), cp_minimum = st_minimum stats,
      cp_maximum = st_maximum stats, cp_frequent_values = frequent, cp_sample_values = samples,
      cp_withheld = reasons\<rparr>"

definition profile_column ::
  "profiler \<Rightarrow> string \<Rightarrow> string \<Rightarrow> string \<Rightarrow> int \<Rightarrow> statement list \<Rightarrow> (exn + column_profile) \<times> statement list" where
  "profile_column P tab col data_type sample_rows l =
     (if is_sensitive col (pf_sensitive_patterns P)
      then (Inr (bare_profile col data_type [withheld_sensitive_name]), l)
      else
        let ext = supports_extremes data_type;
            top_k = profile_top_k (pf_settings P);
            reasons = (if \<not> ext then [withheld_unordered_type data_type] else [])
              @ (if top_k = 0 then [withheld_top_k_disabled] else []);
            (ran, l1) = run_stats P tab col ext top_k l in
        case ran of
          Inl e \<Rightarrow>
            if isinst e CDriverError then (Inr (bare_profile col data_type (reasons @ [withheld_refused])), l1)
            else (Inl e, l1)
        | Inr (stats, frequent) \<Rightarrow>
            let rare = (if top_k > 0 \<and> frequent = []
              then [withheld_rare (profile_min_value_frequency (pf_settings P))] else []) in
            if sample_rows > 0
            then (let (samples, l2) = sample P tab col sample_rows l1 in
              (case samples of Inl e \<Rightarrow> Inl e
                 | Inr vs \<Rightarrow> Inr (full_profile col data_type stats frequent vs (reasons @ rare)), l2))
            else (Inr (full_profile col data_type stats frequent [] (reasons @ rare @ [withheld_sampling_disabled])), l1))"

fun profile_columns ::
  "profiler \<Rightarrow> string \<Rightarrow> int \<Rightarrow> (string \<times> string) list \<Rightarrow> statement list
     \<Rightarrow> (exn + column_profile list) \<times> statement list" where
  "profile_columns P tab sample_rows [] l = (Inr [], l)"
| "profile_columns P tab sample_rows ((name, data_type) # cols) l =
     (let (one, l1) = profile_column P tab name data_type sample_rows l in
      case one of
        Inl e \<Rightarrow> (Inl e, l1)
      | Inr p \<Rightarrow>
         (let (rest, l2) = profile_columns P tab sample_rows cols l1 in
          (case rest of Inl e \<Rightarrow> Inl e | Inr ps \<Rightarrow> Inr (p # ps), l2)))"

definition profile ::
  "profiler \<Rightarrow> string \<Rightarrow> string list option \<Rightarrow> int option \<Rightarrow> statement list
     \<Rightarrow> (exn + table_profile) \<times> statement list" where
  "profile P tab columns sample_rows l =
     (case resolve_table P tab of
        Inl e \<Rightarrow> (Inl e, l)
      | Inr resolved \<Rightarrow>
         (let (picked, l1) = select_columns P resolved columns l in
          case picked of
            Inl e \<Rightarrow> (Inl e, l1)
          | Inr (selected, omitted) \<Rightarrow>
             (let (ps, l2) = profile_columns P resolved (clamp_sample_rows (pf_settings P) sample_rows) selected l1 in
              case ps of
                Inl e \<Rightarrow> (Inl e, l2)
              | Inr profiles \<Rightarrow>
                 (let (est, l3) = row_estimate P resolved l2 in
                  (case est of
                     Inl e \<Rightarrow> Inl e
                   | Inr n \<Rightarrow> Inr \<lparr>tp_table = resolved, tp_columns = profiles, tp_row_estimate = n,
                       tp_scanned_rows = profile_scan_limit (pf_settings P), tp_columns_omitted = omitted\<rparr>, l3)))))"

section \<open>Facts\<close>

text \<open>The statements a profile of a resolved table may send.\<close>

definition permitted :: "profiler \<Rightarrow> string \<Rightarrow> statement \<Rightarrow> bool" where
  "permitted P tab st \<longleftrightarrow>
     (case st of
        ColumnTypes s t \<Rightarrow> s = pf_schema P \<and> t = tab
      | RowEstimate s t \<Rightarrow> s = pf_schema P \<and> t = tab
      | StatementTimeout ms \<Rightarrow> ms = show_int (profile_timeout_ms (pf_settings P))
      | StatsQuery _ _ \<Rightarrow> \<exists>col ext. col \<in> of_option {} (dict_get (pf_catalog P) tab)
          \<and> \<not> is_sensitive col (pf_sensitive_patterns P)
          \<and> st = stats_query P tab col ext (profile_top_k (pf_settings P))
      | SampleQuery _ _ \<Rightarrow> \<exists>col k. col \<in> of_option {} (dict_get (pf_catalog P) tab)
          \<and> \<not> is_sensitive col (pf_sensitive_patterns P)
          \<and> profile_allow_value_sampling (pf_settings P) \<and> 0 < k \<and> k \<le> profile_sample_rows (pf_settings P)
          \<and> st = sample_query P tab col k)"

definition sends :: "(statement \<Rightarrow> bool) \<Rightarrow> statement list \<Rightarrow> statement list \<Rightarrow> bool" where
  "sends Q l l' \<longleftrightarrow> (\<exists>more. l' = l @ more \<and> list_all Q more)"

lemma sends_refl [simp]: "sends Q l l"
  by (simp add: sends_def)

lemma sends_trans: "sends Q l l' \<Longrightarrow> sends Q l' l'' \<Longrightarrow> sends Q l l''"
  by (auto simp: sends_def)

lemma sends_timed_query:
  "Q (StatementTimeout (show_int (profile_timeout_ms (pf_settings P)))) \<Longrightarrow> Q st \<Longrightarrow>
     sends Q l (snd (timed_query P run st l))"
  by (auto simp: sends_def timed_query_def Let_def split: option.splits)

lemma run_stats_log: "snd (run_stats P tab col ext k l) = snd (timed_query P (pd_stats (pf_db P)) (stats_query P tab col ext k) l)"
  by (simp add: run_stats_def split: prod.splits)

lemma sample_log: "snd (sample P tab col k l) = snd (timed_query P (pd_sample (pf_db P)) (sample_query P tab col k) l)"
  by (simp add: sample_def split: prod.splits)

lemma profile_column_sends:
  assumes col: "col \<in> of_option {} (dict_get (pf_catalog P) tab)"
    and k: "0 < k \<Longrightarrow> profile_allow_value_sampling (pf_settings P) \<and> k \<le> profile_sample_rows (pf_settings P)"
  shows "sends (permitted P tab) l (snd (profile_column P tab col ty k l))"
proof (cases "is_sensitive col (pf_sensitive_patterns P)")
  case False
  define ext where "ext = supports_extremes ty"
  define top where "top = profile_top_k (pf_settings P)"
  have time: "permitted P tab (StatementTimeout (show_int (profile_timeout_ms (pf_settings P))))"
    by (simp add: permitted_def)
  have stats: "permitted P tab (stats_query P tab col ext top)"
    using col False by (auto simp: permitted_def stats_query_def top_def)
  have sampled: "permitted P tab (sample_query P tab col k)" if "0 < k"
    using col False k [OF that] that by (auto simp: permitted_def sample_query_def)
  obtain ran l1 where ran: "run_stats P tab col ext top l = (ran, l1)" by fastforce
  have one: "sends (permitted P tab) l l1"
    using sends_timed_query [where Q = "permitted P tab", OF time stats] run_stats_log [of P tab col ext top l] ran by auto
  obtain vs l2 where vs: "sample P tab col k l1 = (vs, l2)" by fastforce
  have two: "sends (permitted P tab) l1 l2" if "0 < k"
    using sends_timed_query [where Q = "permitted P tab", OF time sampled [OF that]] sample_log [of P tab col k l1] vs by auto
  have "snd (profile_column P tab col ty k l) = (if 0 < k \<and> (\<exists>s. ran = Inr s) then l2 else l1)"
    using False ran vs by (auto simp: profile_column_def ext_def top_def Let_def split: sum.splits)
  then show ?thesis using one two sends_trans by auto
qed (simp add: profile_column_def)

lemma profile_columns_sends:
  assumes "\<forall>c \<in> set cols. fst c \<in> of_option {} (dict_get (pf_catalog P) tab)"
    and k: "0 < k \<Longrightarrow> profile_allow_value_sampling (pf_settings P) \<and> k \<le> profile_sample_rows (pf_settings P)"
  shows "sends (permitted P tab) l (snd (profile_columns P tab k cols l))"
  using assms(1)
proof (induction cols arbitrary: l)
  case (Cons c cols)
  obtain name ty where c: "c = (name, ty)" by fastforce
  obtain one l1 where one: "profile_column P tab name ty k l = (one, l1)" by fastforce
  have first: "sends (permitted P tab) l l1"
    using profile_column_sends [of name P tab k l ty] Cons.prems k one c by auto
  moreover have "sends (permitted P tab) l1 (snd (profile_columns P tab k cols l1))"
    using Cons by simp
  ultimately show ?case
    using sends_trans [OF first] by (auto simp: c one split: sum.splits prod.splits)
qed simp

lemma select_columns_facts:
  assumes E: "\<And>S. set (pf_enum P S) \<subseteq> S"
    and sel: "select_columns P tab requested l = (picked, l')"
  shows "sends (permitted P tab) l l'"
    and "picked = Inr (cols, omitted) \<Longrightarrow>
      (\<forall>c \<in> set cols. fst c \<in> of_option {} (dict_get (pf_catalog P) tab))
      \<and> int (length cols) \<le> max 0 (profile_max_columns (pf_settings P))
      \<and> omitted = (let names = (case requested of Some cs \<Rightarrow> length cs
            | None \<Rightarrow> length (pf_enum P (of_option {} (dict_get (pf_catalog P) tab)))) in
          max 0 (int names - profile_max_columns (pf_settings P)))"
proof -
  have "permitted P tab (ColumnTypes (pf_schema P) tab)" by (simp add: permitted_def)
  then have types: "sends (permitted P tab) l (snd (column_types P tab l))"
    by (auto simp: sends_def column_types_def Let_def)
  show "sends (permitted P tab) l l'"
    using sel types by (auto simp: select_columns_def Let_def split: list.splits prod.splits)
  let ?known = "of_option {} (dict_get (pf_catalog P) tab)"
  let ?names = "case requested of Some cs \<Rightarrow> map casefold cs | None \<Rightarrow> sort_key (map code) (pf_enum P ?known)"
  assume ok: "picked = Inr (cols, omitted)"
  then have none: "(case requested of None \<Rightarrow> [] | Some cs \<Rightarrow> filter (\<lambda>c. casefold c \<notin> ?known) cs) = []"
    using sel by (auto simp: select_columns_def Let_def split: list.splits)
  obtain d where cols: "cols = map (\<lambda>n. (n, of_option ''unknown'' (dict_get d n)))
        (take (nat (profile_max_columns (pf_settings P))) ?names)"
      and om: "omitted = max 0 (int (length ?names) - profile_max_columns (pf_settings P))"
    using sel ok none unfolding select_columns_def Let_def none
    by (auto split: prod.splits sum.splits)
  have "set ?names \<subseteq> ?known"
    using none E [of ?known] by (auto simp: filter_empty_conv split: option.splits)
  then have "\<forall>c \<in> set cols. fst c \<in> ?known"
    unfolding cols by (auto dest: in_set_takeD)
  then show "(\<forall>c \<in> set cols. fst c \<in> ?known) \<and> int (length cols) \<le> max 0 (profile_max_columns (pf_settings P))
      \<and> omitted = (let names = (case requested of Some cs \<Rightarrow> length cs
            | None \<Rightarrow> length (pf_enum P ?known)) in max 0 (int names - profile_max_columns (pf_settings P)))"
    using om by (auto simp: cols split: option.splits)
qed

lemma clamp_permits:
  "0 < clamp_sample_rows s r \<Longrightarrow> 0 \<le> profile_sample_rows s \<Longrightarrow>
     profile_allow_value_sampling s \<and> clamp_sample_rows s r \<le> profile_sample_rows s"
  by (auto simp: clamp_sample_rows_def split: if_splits option.splits)

lemma profile_sends:
  assumes E: "\<And>S. set (pf_enum P S) \<subseteq> S" and s: "0 \<le> profile_sample_rows (pf_settings P)"
  shows "sends (permitted P (casefold tab)) l (snd (profile P tab columns k l))"
proof (cases "resolve_table P tab")
  case (Inr r)
  then have r: "r = casefold tab" by (simp add: resolve_table_def split: if_splits)
  obtain picked l1 where sel: "select_columns P (casefold tab) columns l = (picked, l1)" by fastforce
  note one = select_columns_facts(1) [OF E sel]
  show ?thesis
  proof (cases picked)
    case (Inl e)
    then show ?thesis using one Inr r sel by (simp add: profile_def)
  next
    case pick: (Inr pr)
    obtain cols om where pr: "pr = (cols, om)" by fastforce
    let ?k = "clamp_sample_rows (pf_settings P) k"
    obtain ps l2 where ps: "profile_columns P (casefold tab) ?k cols l1 = (ps, l2)" by fastforce
    have two: "sends (permitted P (casefold tab)) l1 l2"
      using profile_columns_sends [where cols = cols and P = P and tab = "casefold tab" and k = ?k and l = l1]
        select_columns_facts(2) [OF E sel] pick pr clamp_permits [OF _ s] ps by simp
    have "sends (permitted P (casefold tab)) l2 (snd (row_estimate P (casefold tab) l2))"
      by (auto simp: sends_def row_estimate_def Let_def permitted_def)
    then show ?thesis
      using sends_trans [OF one two] sends_trans [OF sends_trans [OF one two]] Inr r sel pick pr ps
      by (auto simp: profile_def split: sum.splits prod.splits)
  qed
qed (simp add: profile_def)

text \<open>What is relied on of PostgreSQL: a query returns no more rows than its last parameter, a value no
  longer than its second, and \<open>HAVING\<close> keeps only values at least as frequent as its third.\<close>

definition honours_limits :: "profile_db \<Rightarrow> bool" where
  "honours_limits D \<longleftrightarrow>
     (\<forall>l q scan chars least k rows. pd_stats D (l @ [StatsQuery q [scan, chars, least, k]]) = Inr rows \<longrightarrow>
        int (length rows) \<le> max 1 k
        \<and> (\<forall>r v. r \<in> set rows \<longrightarrow> sr_value r = Some v \<longrightarrow> int (length v) \<le> chars \<and> least \<le> sr_freq r))
     \<and> (\<forall>l q chars k vs. pd_sample D (l @ [SampleQuery q [chars, k]]) = Inr vs \<longrightarrow>
        int (length vs) \<le> max 0 k \<and> (\<forall>v. v \<in> set vs \<longrightarrow> int (length v) \<le> chars))"

text \<open>What a column profile may disclose under the settings.\<close>

definition within_budget :: "profiler \<Rightarrow> column_profile \<Rightarrow> bool" where
  "within_budget P c \<longleftrightarrow>
     (is_sensitive (cp_column c) (pf_sensitive_patterns P) \<longrightarrow>
        c = bare_profile (cp_column c) (cp_data_type c) [withheld_sensitive_name])
     \<and> int (length (cp_frequent_values c)) \<le> profile_top_k (pf_settings P)
     \<and> (\<forall>f. f \<in> set (cp_frequent_values c) \<longrightarrow>
          int (length (fv_value f)) \<le> profile_max_value_chars (pf_settings P)
          \<and> profile_min_value_frequency (pf_settings P) \<le> fv_count f)
     \<and> (cp_sample_values c \<noteq> [] \<longrightarrow> profile_allow_value_sampling (pf_settings P))
     \<and> int (length (cp_sample_values c)) \<le> profile_sample_rows (pf_settings P)
     \<and> (\<forall>v. v \<in> set (cp_sample_values c) \<longrightarrow> int (length v) \<le> profile_max_value_chars (pf_settings P))"

lemma length_somes: "length (somes xs) \<le> length xs"
  by (induction xs rule: somes.induct) auto

lemma timed_query_Inr: "fst (timed_query P run st l) = Inr x \<Longrightarrow> \<exists>l'. run (l' @ [st]) = Inr x"
  by (auto simp: timed_query_def Let_def simp del: append_assoc append_Cons split: option.splits)

lemma run_stats_budget:
  assumes D: "honours_limits (pf_db P)" and s: "0 \<le> k"
    and run: "fst (run_stats P tab col ext k l) = Inr (st, fs)"
  shows "int (length fs) \<le> k \<and> (\<forall>f. f \<in> set fs \<longrightarrow>
      int (length (fv_value f)) \<le> profile_max_value_chars (pf_settings P)
      \<and> profile_min_value_frequency (pf_settings P) \<le> fv_count f)"
proof -
  obtain rows where rows: "fst (timed_query P (pd_stats (pf_db P)) (stats_query P tab col ext k) l) = Inr rows"
    and fs: "fs = frequent_of k rows"
    using run by (auto simp: run_stats_def split: prod.splits sum.splits list.splits)
  obtain l' where "pd_stats (pf_db P) (l' @ [stats_query P tab col ext k]) = Inr rows"
    using timed_query_Inr [OF rows] by blast
  then have lim: "int (length rows) \<le> max 1 (max k 1)"
    and vals: "r \<in> set rows \<Longrightarrow> sr_value r = Some v \<Longrightarrow>
        int (length v) \<le> profile_max_value_chars (pf_settings P)
        \<and> profile_min_value_frequency (pf_settings P) \<le> sr_freq r" for r v
    using D unfolding honours_limits_def stats_query_def by blast+
  show ?thesis
  proof (cases "k = 0")
    case False
    let ?pick = "\<lambda>r. case sr_value r of None \<Rightarrow> None | Some v \<Rightarrow> Some \<lparr>fv_value = v, fv_count = sr_freq r\<rparr>"
    have "length fs \<le> length rows" using length_somes [of "map ?pick rows"] False by (simp add: fs frequent_of_def)
    moreover have "int (length (fv_value f)) \<le> profile_max_value_chars (pf_settings P)
        \<and> profile_min_value_frequency (pf_settings P) \<le> fv_count f" if f: "f \<in> set fs" for f
      using f False vals by (fastforce simp: fs frequent_of_def simp: in_somes split: option.splits)
    ultimately show ?thesis using lim s False by auto
  qed (simp add: fs frequent_of_def)
qed

lemma sample_budget:
  assumes D: "honours_limits (pf_db P)" and k: "0 < k" and c: "0 \<le> profile_max_value_chars (pf_settings P)"
    and run: "fst (sample P tab col k l) = Inr vs"
  shows "int (length vs) \<le> k \<and> (\<forall>v. v \<in> set vs \<longrightarrow> int (length v) \<le> profile_max_value_chars (pf_settings P))"
proof (cases "fst (timed_query P (pd_sample (pf_db P)) (sample_query P tab col k) l)")
  case (Inl e)
  then show ?thesis using run k by (auto simp: sample_def split: prod.splits if_splits)
next
  case (Inr ws)
  then have "ws = vs" using run by (auto simp: sample_def split: prod.splits)
  moreover obtain l' where "pd_sample (pf_db P) (l' @ [sample_query P tab col k]) = Inr ws"
    using timed_query_Inr [OF Inr] by blast
  ultimately have "int (length vs) \<le> max 0 k
      \<and> (\<forall>v. v \<in> set vs \<longrightarrow> int (length v) \<le> profile_max_value_chars (pf_settings P))"
    using D unfolding honours_limits_def sample_query_def by blast
  then show ?thesis using k by simp
qed

lemma profile_column_budget:
  assumes D: "honours_limits (pf_db P)" and s: "profiling_fields (pf_settings P)"
    and k: "k \<le> profile_sample_rows (pf_settings P)" "0 < k \<Longrightarrow> profile_allow_value_sampling (pf_settings P)"
    and run: "fst (profile_column P tab col ty k l) = Inr c"
  shows "cp_column c = col \<and> cp_data_type c = ty \<and> within_budget P c"
proof -
  have bounds: "0 \<le> profile_top_k (pf_settings P)" "0 \<le> profile_sample_rows (pf_settings P)"
    "0 \<le> profile_max_value_chars (pf_settings P)"
    using s by (auto simp: profiling_fields_def)
  show ?thesis
  proof (cases "is_sensitive col (pf_sensitive_patterns P)")
    case True
    then show ?thesis using run bounds by (auto simp: profile_column_def within_budget_def bare_profile_def)
  next
    case False
    obtain ran l1 where ran: "run_stats P tab col (supports_extremes ty) (profile_top_k (pf_settings P)) l = (ran, l1)"
      by fastforce
    obtain vs l2 where vs: "sample P tab col k l1 = (vs, l2)" by fastforce
    show ?thesis
    proof (cases ran)
      case (Inl e)
      then show ?thesis
        using run False bounds ran
        by (auto simp: profile_column_def within_budget_def bare_profile_def Let_def split: if_splits)
    next
      case (Inr sf)
      obtain st fs where sf: "sf = (st, fs)" by fastforce
      note stats = run_stats_budget [OF D bounds(1), of tab col "supports_extremes ty" l st fs]
      show ?thesis
      proof (cases "0 < k")
        case True
        then obtain ws where ws: "vs = Inr ws" and c: "\<exists>rs. c = full_profile col ty st fs ws rs"
          using run False ran vs Inr sf by (auto simp: profile_column_def Let_def split: sum.splits if_splits)
        then show ?thesis
          using stats ran Inr sf sample_budget [OF D True bounds(3), of tab col l1 ws] vs k True False
          by (auto simp: within_budget_def full_profile_def)
      next
        case no: False
        then have "\<exists>rs. c = full_profile col ty st fs [] rs"
          using run False ran vs Inr sf by (auto simp: profile_column_def Let_def)
        then show ?thesis
          using stats ran Inr sf bounds False by (auto simp: within_budget_def full_profile_def)
      qed
    qed
  qed
qed

lemma profile_columns_budget:
  assumes D: "honours_limits (pf_db P)" and s: "profiling_fields (pf_settings P)"
    and k: "k \<le> profile_sample_rows (pf_settings P)" "0 < k \<Longrightarrow> profile_allow_value_sampling (pf_settings P)"
  shows "fst (profile_columns P tab k cols l) = Inr cs \<Longrightarrow>
     map (\<lambda>c. (cp_column c, cp_data_type c)) cs = cols \<and> (\<forall>c. c \<in> set cs \<longrightarrow> within_budget P c)"
proof (induction cols arbitrary: l cs)
  case (Cons c cols)
  obtain name ty where c: "c = (name, ty)" by fastforce
  obtain one l1 where one: "profile_column P tab name ty k l = (one, l1)" by fastforce
  obtain p ps where p: "one = Inr p" and cs: "cs = p # ps" and ps: "fst (profile_columns P tab k cols l1) = Inr ps"
    using Cons.prems one c by (auto split: sum.splits prod.splits)
  show ?case
    using Cons.IH [OF ps] profile_column_budget [OF D s k, of tab name ty l p] one p by (auto simp: cs c)
qed simp

text \<open>A sample the database refuses looks like a column with no values: no reason is given.\<close>

lemma refused_sample_is_silent:
  assumes "isinst e CDriverError"
  shows "fst (profile_column (P\<lparr>pf_db := (pf_db P)\<lparr>pd_sample := \<lambda>_. Inl e\<rparr>\<rparr>) tab col ty k l)
    = fst (profile_column (P\<lparr>pf_db := (pf_db P)\<lparr>pd_sample := \<lambda>_. Inr []\<rparr>\<rparr>) tab col ty k l)"
proof -
  let ?P = "\<lambda>r. P\<lparr>pf_db := (pf_db P)\<lparr>pd_sample := r\<rparr>\<rparr>"
  have stats: "run_stats (?P r) tab col ext n l = run_stats P tab col ext n l" for r ext n
    by (simp add: run_stats_def timed_query_def stats_query_def stats_text_def)
  have "fst (sample (?P (\<lambda>_. Inl e)) tab col n l') = fst (sample (?P (\<lambda>_. Inr [])) tab col n l')" for n l'
    using assms by (simp add: sample_def timed_query_def Let_def split: option.splits)
  then have same: "fst (sample (?P (\<lambda>_. Inl e)) tab col k l') = fst (sample (?P (\<lambda>_. Inr [])) tab col k l')" for l' .
  obtain ran l1 where ran: "run_stats P tab col (supports_extremes ty) (profile_top_k (pf_settings P)) l = (ran, l1)"
    by fastforce
  obtain v a b where v: "sample (?P (\<lambda>_. Inl e)) tab col k l1 = (v, a)" "sample (?P (\<lambda>_. Inr [])) tab col k l1 = (v, b)"
    using same [of l1] by (metis prod.collapse)
  show ?thesis
  proof (cases ran)
    case (Inl x)
    then show ?thesis by (simp add: profile_column_def stats ran Let_def)
  next
    case (Inr sf)
    then show ?thesis by (cases sf; cases v) (simp_all add: profile_column_def stats ran v Let_def)
  qed
qed

section \<open>Properties\<close>

text \<open>C16: a profile reads only what it may. Whatever table, columns and sample size a caller names, the
  statements sent are the two catalog lookups for that table, the statement timeout, statistics of
  columns the catalog lists under that table whose names are not sensitive, and, only where value
  sampling is allowed, samples of such columns within the configured size. No statement reads a
  sensitive column, and an unknown table sends nothing.\<close>

theorem profile_reads_permitted:
  assumes E: "\<And>S. set (pf_enum P S) \<subseteq> S" and s: "profiling_fields (pf_settings P)"
  shows "\<exists>more. snd (profile P tab columns k l) = l @ more
    \<and> list_all (permitted P (casefold tab)) more
    \<and> (\<not> has_table (pf_catalog P) tab \<longrightarrow> more = [] \<and> fst (profile P tab columns k l)
        = Inl (UnknownTableError tab (suggest_table (pf_catalog P) tab)))"
proof -
  have "0 \<le> profile_sample_rows (pf_settings P)" using s by (simp add: profiling_fields_def)
  from profile_sends [OF E this, of tab l columns k]
  obtain more where "snd (profile P tab columns k l) = l @ more" "list_all (permitted P (casefold tab)) more"
    by (auto simp: sends_def)
  moreover have "profile P tab columns k l = (Inl (UnknownTableError tab (suggest_table (pf_catalog P) tab)), l)"
    if "\<not> has_table (pf_catalog P) tab"
    using that by (simp add: profile_def resolve_table_def)
  ultimately show ?thesis by auto
qed


text \<open>A database with one table of a plain and a sensitive column.\<close>

definition demo_db :: profile_db where
  "demo_db = \<lparr>pd_types = (\<lambda>_. Inr [(''c'', ''text''), (''email'', ''text'')]), pd_estimate = (\<lambda>_. Inr (Some 9)),
     pd_timeout = (\<lambda>_. None),
     pd_stats = (\<lambda>l. case last l of
        StatsQuery _ [scan, chars, least, k] \<Rightarrow> Inr [\<lparr>sr_n = 9, sr_non_null = 9, sr_distinct = 2, sr_lo = None,
          sr_hi = None, sr_value = (if 2 \<le> chars \<and> least \<le> 7 then Some ''FI'' else None), sr_freq = 7\<rparr>]
      | _ \<Rightarrow> Inr []),
     pd_sample = (\<lambda>_. Inr [])\<rparr>"

definition demo_profiler :: profiler where
  "demo_profiler = \<lparr>pf_db = demo_db, pf_catalog = [(''t'', {''c'', ''email''})], pf_settings = default_profiling,
     pf_schema = ''public'', pf_sensitive_patterns = [''email''], pf_enum = (\<lambda>S. []),
     pf_identifier = (\<lambda>_. []), pf_literal = show_int\<rparr>"

lemma demo_sensitive: "is_sensitive ''email'' [''email'']" "\<not> is_sensitive ''c'' [''email'']"
  by (simp_all add: is_sensitive_def contains_def casefold_def fold_char_def sublist_code char_eval)

lemma demo_profile:
  "\<exists>t. fst (profile demo_profiler ''T'' (Some [''c'', ''EMAIL'']) None []) = Inr t
     \<and> map cp_column (tp_columns t) = [''c'', ''email'']
     \<and> map (map fv_value \<circ> cp_frequent_values) (tp_columns t) = [[''FI''], []]"
proof -
  have fold: "casefold ''T'' = ''t''" "casefold ''t'' = ''t''" "casefold ''c'' = ''c''" "casefold ''email'' = ''email''"
    "casefold ''EMAIL'' = ''email''" "casefold ''text'' = ''text''"
    by (simp_all add: casefold_def fold_char_def char_eval)
  have st: "strip ''text'' = ''text''"
    by (simp add: strip_def lstrip_def rstrip_def py_space_def char_eval)
  have ext: "\<not> supports_extremes ''text''"
    by (simp add: supports_extremes_def st fold startswith_def endswith_def ordered_type_prefixes_def)
  define l1 where "l1 = [ColumnTypes ''public'' ''t'']"
  have resolve: "resolve_table demo_profiler ''T'' = Inr ''t''"
    by (simp add: resolve_table_def has_table_def fold demo_profiler_def)
  have get: "of_option {} (dict_get (pf_catalog demo_profiler) ''t'') = {''c'', ''email''}"
    by (simp add: demo_profiler_def of_option_def)
  have types: "column_types demo_profiler ''t'' [] = (Inr [(''c'', ''text''), (''email'', ''text'')], l1)"
    by (simp add: column_types_def demo_profiler_def demo_db_def l1_def fold)
  have cap: "profile_max_columns (pf_settings demo_profiler) = 30"
    by (simp add: demo_profiler_def default_profiling_def)
  have select: "select_columns demo_profiler ''t'' (Some [''c'', ''EMAIL'']) []
      = (Inr ([(''c'', ''text''), (''email'', ''text'')], 0), l1)"
    unfolding select_columns_def get cap by (simp add: types fold of_option_def)
  define l2 where "l2 = l1 @ [StatementTimeout (show_int 10000)]"
  define l3 where "l3 = l2 @ [stats_query demo_profiler ''t'' ''c'' False 5]"
  have time: "show_int (profile_timeout_ms (pf_settings demo_profiler)) = show_int 10000"
    "pd_timeout (pf_db demo_profiler) l = None" for l
    by (simp_all add: demo_profiler_def demo_db_def default_profiling_def)
  have stats: "pd_stats (pf_db demo_profiler) l3 = Inr [\<lparr>sr_n = 9, sr_non_null = 9, sr_distinct = 2, sr_lo = None,
      sr_hi = None, sr_value = Some ''FI'', sr_freq = 7\<rparr>]"
    by (simp add: l3_def stats_query_def demo_db_def demo_profiler_def default_profiling_def)
  obtain s where run: "run_stats demo_profiler ''t'' ''c'' False 5 l1 = (Inr (s, [\<lparr>fv_value = ''FI'', fv_count = 7\<rparr>]), l3)"
    by (simp add: run_stats_def timed_query_def time l2_def [symmetric] l3_def [symmetric] stats frequent_of_def)
  have first: "profile_column demo_profiler ''t'' ''c'' ''text'' 0 l1
      = (Inr (full_profile ''c'' ''text'' s [\<lparr>fv_value = ''FI'', fv_count = 7\<rparr>] []
          [withheld_unordered_type ''text'', withheld_sampling_disabled]), l3)"
    using run by (simp add: profile_column_def ext demo_sensitive demo_profiler_def default_profiling_def)
  have second: "profile_column demo_profiler ''t'' ''email'' ''text'' 0 l3
      = (Inr (bare_profile ''email'' ''text'' [withheld_sensitive_name]), l3)"
    by (simp add: profile_column_def demo_sensitive demo_profiler_def)
  have none: "clamp_sample_rows (pf_settings demo_profiler) None = 0"
    by (simp add: demo_profiler_def default_profiling_def clamp_sample_rows_def)
  have est: "row_estimate demo_profiler ''t'' l3 = (Inr (Some 9), l3 @ [RowEstimate ''public'' ''t''])"
    by (simp add: row_estimate_def demo_profiler_def demo_db_def)
  show ?thesis
    by (simp add: profile_def resolve select none first second est full_profile_def bare_profile_def)
qed

theorem profile_reads_permitted_witness:
  "\<exists>more. snd (profile demo_profiler ''T'' None None []) = more \<and> list_all (permitted demo_profiler (casefold ''T'')) more"
proof -
  have "\<And>S. set (pf_enum demo_profiler S) \<subseteq> S" "profiling_fields (pf_settings demo_profiler)"
    by (simp_all add: demo_profiler_def)
  from profile_reads_permitted [OF this, where tab = "''T''" and columns = None and k = None and l = "[]"]
  show ?thesis by auto
qed


end
