(* ===== verification/Tools.thy ===== *)
theory Tools
  imports Dataset Execution Retrieval Profiler
begin

text \<open>
  The tool servers (\<open>src/mcp_servers\<close>), the registry that discovers them
  (\<open>src/agent/discovery.py\<close>) and the payload conversion of the evaluation's client
  (\<open>src/evals/mcp_client.py\<close>). A handler is a function of its arguments and the state it changes.
  Schema validation (\<open>jsonschema\<close>), the subprocess transport and the parsing of a float from text
  are arguments. Arguments reach a handler only when they satisfy its schema; an integral float,
  which JSON schema accepts as an integer, is outside the model.
\<close>

type_synonym payload = "(string, json) dict"

section \<open>Errors as payloads\<close>

definition tool_failure :: string where
  "tool_failure = ''the server could not complete this call''"

definition tool_error_type :: "exn \<Rightarrow> string" where
  "tool_error_type e =
     (if isinst e CStatementTimeoutError then ''statement_timeout''
      else if isinst e CPermissionDeniedError then ''permission_denied''
      else if isinst e CUnknownTableError then ''table_not_found''
      else if isinst e CSQLValidationError then sv_type e
      else if isinst e CEmbeddingModelMismatchError then ''connection_failed''
      else if isinst e CProfilingError \<or> isinst e CRetrievalError then ''invalid_arguments''
      else if isinst e CExecutionError then ''execution_failed''
      else ''internal_error'')"

definition error_payload :: "exn \<Rightarrow> payload" where
  "error_payload e =
     (let d = [(''error_type'', JStr (tool_error_type e)),
               (''message'', JStr (if isinst e CTextToSQLError then exn_str e else tool_failure))] in
      if isinst e CSQLValidationError
      then (let d1 = dict_set d ''error_type'' (JStr (sv_type e)) in
        if truthy (sv_identifier e) then dict_set d1 ''identifier'' (JStr (the (sv_identifier e))) else d1)
      else if isinst e CUnknownTableError
      then (let d1 = dict_set d ''identifier'' (JStr (ut_table e)) in
        if truthy (ut_suggestion e) then dict_set d1 ''suggestion'' (JStr (the (ut_suggestion e))) else d1)
      else d)"

text \<open>\<open>{"ok": flag, **payload}\<close>: a key of the payload keeps the place of the literal one.\<close>

definition merged :: "payload \<Rightarrow> payload \<Rightarrow> payload" where
  "merged base d = foldl (\<lambda>acc kv. dict_set acc (fst kv) (snd kv)) base d"

definition failed :: "payload \<Rightarrow> payload" where
  "failed d = merged [(''ok'', JBool False)] (filter (\<lambda>kv. snd kv \<noteq> JNull) d)"

definition succeeded :: "payload \<Rightarrow> payload" where
  "succeeded d = merged [(''ok'', JBool True)] d"

section \<open>A server\<close>

record 'w server_tool =
  ts_name :: string
  ts_description :: string
  ts_input_schema :: json
  ts_handler :: "payload \<Rightarrow> 'w \<Rightarrow> (exn + payload) \<times> 'w"

record wire_tool =
  wt_name :: string
  wt_description :: "string option"
  wt_input_schema :: json

definition to_tool :: "'w server_tool \<Rightarrow> wire_tool" where
  "to_tool s = \<lparr>wt_name = ts_name s, wt_description = Some (ts_description s), wt_input_schema = ts_input_schema s\<rparr>"

datatype content_block = TextBlock string | OtherBlock

record call_result =
  cr_content :: "content_block list"
  cr_structured :: "payload option"
  cr_is_error :: bool

definition to_call_result :: "(rat \<Rightarrow> string) \<Rightarrow> payload \<Rightarrow> call_result" where
  "to_call_result fr d =
     \<lparr>cr_content = [TextBlock (render_json fr (indented 2) 0 (JObj d))], cr_structured = Some d,
      cr_is_error = (\<not> jtruthy (of_option (JBool False) (dict_get d ''ok'')))\<rparr>"

text \<open>\<open>conforms\<close> is \<open>jsonschema.validate\<close>: no complaint, or its message and the path to the fault.\<close>

type_synonym conforms = "json \<Rightarrow> payload \<Rightarrow> (string \<times> json list) option"

definition by_name :: "'w server_tool list \<Rightarrow> (string, 'w server_tool) dict" where
  "by_name specs = foldl (\<lambda>d s. dict_set d (ts_name s) s) [] specs"

definition dispatch_tool ::
  "(rat \<Rightarrow> string) \<Rightarrow> conforms \<Rightarrow> (string, 'w server_tool) dict \<Rightarrow> string \<Rightarrow> payload \<Rightarrow> 'w \<Rightarrow> (exn + payload) \<times> 'w" where
  "dispatch_tool fr conforms specs name args w =
     (case dict_get specs name of
        None \<Rightarrow> (Inl (value_error (''unknown tool: '' @ py_repr name)), w)
      | Some spec \<Rightarrow>
         (case conforms (ts_input_schema spec) args of
            Some (message, path) \<Rightarrow>
              (let where_at = join ''.'' (map (json_str fr) path) in
               (Inr (failed [(''error_type'', JStr ''invalid_arguments''), (''message'', JStr message),
                  (''identifier'', if where_at = [] then JNull else JStr where_at)]), w))
          | None \<Rightarrow>
             (case ts_handler spec args w of
                (Inr d, w') \<Rightarrow> (Inr d, w')
              | (Inl e, w') \<Rightarrow>
                  (if isinst e CTextToSQLError then Inr (failed (error_payload e))
                   else if isinst e CException
                   then Inr (failed [(''error_type'', JStr ''internal_error''), (''message'', JStr tool_failure)])
                   else Inl e, w'))))"

definition list_tools :: "'w server_tool list \<Rightarrow> wire_tool list" where
  "list_tools specs = map to_tool specs"

definition call_tool ::
  "(rat \<Rightarrow> string) \<Rightarrow> conforms \<Rightarrow> 'w server_tool list \<Rightarrow> string \<Rightarrow> payload \<Rightarrow> 'w \<Rightarrow> (exn + call_result) \<times> 'w" where
  "call_tool fr conforms specs name args w =
     (case dispatch_tool fr conforms (by_name specs) name args w of
        (Inl e, w') \<Rightarrow> (Inl e, w') | (Inr d, w') \<Rightarrow> (Inr (to_call_result fr d), w'))"

section \<open>Arguments\<close>

definition text_arg :: "string \<Rightarrow> payload \<Rightarrow> exn + string" where
  "text_arg k args =
     (case dict_get args k of
        None \<Rightarrow> Inl (OtherError ''KeyError'' (py_repr k))
      | Some (JStr s) \<Rightarrow> Inr s
      | Some j \<Rightarrow> Inl (OtherError ''AttributeError'' (py_repr (py_type_name j) @ '' object has no attribute '' @ py_repr ''strip'')))"

definition int_arg :: "string \<Rightarrow> payload \<Rightarrow> int option" where
  "int_arg k args = (case dict_get args k of Some (JInt i) \<Rightarrow> Some i | _ \<Rightarrow> None)"

definition texts_arg :: "string \<Rightarrow> payload \<Rightarrow> string list option" where
  "texts_arg k args =
     (case dict_get args k of
        Some (JArr js) \<Rightarrow> Some (somes (map (\<lambda>j. case j of JStr s \<Rightarrow> Some s | _ \<Rightarrow> None) js)) | _ \<Rightarrow> None)"

definition opt_text :: "string option \<Rightarrow> json" where
  "opt_text x = (case x of None \<Rightarrow> JNull | Some s \<Rightarrow> JStr s)"

definition object_schema :: "payload \<Rightarrow> string \<Rightarrow> json" where
  "object_schema props required = JObj
     [(''type'', JStr ''object''), (''properties'', JObj props), (''required'', JArr [JStr required]),
      (''additionalProperties'', JBool False)]"

section \<open>\<open>execute_sql\<close>\<close>

definition execute_input_schema :: "int \<Rightarrow> int \<Rightarrow> json" where
  "execute_input_schema rows_ceiling timeout_ceiling = object_schema
     [(''sql'', JObj [(''type'', JStr ''string''), (''minLength'', JInt 1), (''maxLength'', JInt (int max_sql_chars))]),
      (''max_rows'', JObj [(''type'', JStr ''integer''), (''minimum'', JInt 1), (''maximum'', JInt rows_ceiling),
         (''description'', JStr ''Fewer rows than the server default, if you need fewer'')]),
      (''timeout_ms'', JObj [(''type'', JStr ''integer''), (''minimum'', JInt 100), (''maximum'', JInt timeout_ceiling),
         (''description'', JStr ''A shorter timeout than the server default'')])]
     ''sql''"

definition render_rows :: "query_result \<Rightarrow> payload" where
  "render_rows r =
     [(''columns'', JArr (map JStr (qr_columns r))), (''rows'', JArr (map JArr (qr_rows r))),
      (''row_count'', JInt (qr_row_count r)), (''truncated'', JBool (qr_truncated r)),
      (''row_limit'', JInt (qr_row_limit r)), (''duration_ms'', JFloat (round_places 2 (qr_duration_ms r))),
      (''executed_sql'', JStr (qr_executed_sql r))]"

definition plain_request :: request_meta where
  "plain_request = \<lparr>rm_question = None, rm_request_id = None, rm_trace_id = None, rm_session_id = None,
     rm_validation_attempts = 1\<rparr>"

definition execute_sql :: "'n executor \<Rightarrow> rat \<times> rat \<Rightarrow> payload \<Rightarrow> world \<Rightarrow> (exn + payload) \<times> world" where
  "execute_sql E clock args w =
     (case text_arg ''sql'' args of
        Inl e \<Rightarrow> (Inl e, w)
      | Inr sql \<Rightarrow>
         (case execute E plain_request clock (int_arg ''max_rows'' args) (int_arg ''timeout_ms'' args) sql w of
            (Inl e, w') \<Rightarrow> (Inl e, w') | (Inr r, w') \<Rightarrow> (Inr (succeeded (render_rows r)), w')))"

definition execute_specs :: "'n executor \<Rightarrow> rat \<times> rat \<Rightarrow> string \<Rightarrow> world server_tool list" where
  "execute_specs E clock description =
     [\<lparr>ts_name = ''execute_sql'', ts_description = description,
       ts_input_schema = execute_input_schema (max_rows_ceiling (ex_settings E))
         (statement_timeout_ceiling_ms (ex_settings E)),
       ts_handler = execute_sql E clock\<rparr>]"

section \<open>\<open>validate_sql\<close>\<close>

definition stage_value :: "stage \<Rightarrow> string" where
  "stage_value s = (case s of PARSE \<Rightarrow> ''parse'' | SINGLE_STATEMENT \<Rightarrow> ''single_statement''
     | READ_ONLY \<Rightarrow> ''read_only'' | IDENTIFIERS \<Rightarrow> ''identifiers'' | EXPLAIN \<Rightarrow> ''explain'')"

definition validate_input_schema :: json where
  "validate_input_schema = object_schema
     [(''sql'', JObj [(''type'', JStr ''string''), (''minLength'', JInt 1), (''maxLength'', JInt (int max_sql_chars)),
        (''description'', JStr ''The SQL to check. Exactly one statement'')]),
      (''dialect'', JObj [(''type'', JStr ''string''), (''enum'', JArr [JStr ''postgres'']), (''default'', JStr ''postgres''),
        (''description'', JStr ''Only postgres is supported'')])]
     ''sql''"

definition render_validation :: "validation_result \<Rightarrow> payload" where
  "render_validation r = filter (\<lambda>kv. snd kv \<noteq> JNull)
     [(''valid'', JBool (valid r)), (''stage_failed'', opt_text (map_option stage_value (stage_failed r))),
      (''error_type'', opt_text (vr_error_type r)), (''message'', opt_text (vr_message r)),
      (''identifier'', opt_text (vr_identifier r)), (''suggestion'', opt_text (vr_suggestion r)),
      (''estimated_cost'', case estimated_cost r of None \<Rightarrow> JNull | Some c \<Rightarrow> JFloat c),
      (''plan_summary'', opt_text (plan_summary r))]"

definition validate_sql :: "'n executor \<Rightarrow> payload \<Rightarrow> db_statement list \<Rightarrow> (exn + payload) \<times> db_statement list" where
  "validate_sql E args l =
     (case text_arg ''sql'' args of
        Inl e \<Rightarrow> (Inl e, l)
      | Inr sql \<Rightarrow>
         (let (v, more) = ex_validate E sql in
          (case v of Inl e \<Rightarrow> Inl e | Inr r \<Rightarrow> Inr (succeeded (render_validation r)), l @ more)))"

definition validate_specs :: "'n executor \<Rightarrow> string \<Rightarrow> db_statement list server_tool list" where
  "validate_specs E description =
     [\<lparr>ts_name = ''validate_sql'', ts_description = description, ts_input_schema = validate_input_schema,
       ts_handler = validate_sql E\<rparr>]"

section \<open>\<open>search_schema\<close>\<close>

definition search_input_schema :: json where
  "search_input_schema = object_schema
     [(''query'', JObj [(''type'', JStr ''string''), (''minLength'', JInt 1),
        (''description'', JStr ''The question or phrase to find schema elements for'')]),
      (''k'', JObj [(''type'', JStr ''integer''), (''default'', JInt 10), (''minimum'', JInt 1), (''maximum'', JInt max_k),
        (''description'', JStr ''How many elements to return'')]),
      (''table_filter'', JObj [(''type'', JStr ''array''), (''items'', JObj [(''type'', JStr ''string'')]),
        (''minItems'', JInt 1), (''maxItems'', JInt (int max_table_filter)),
        (''description'', JStr ''Restrict results to these tables'')])]
     ''query''"

definition element_json :: "retrieved_element \<Rightarrow> json" where
  "element_json e = JObj
     [(''table'', JStr (re_table e)), (''column'', opt_text (re_column e)), (''type'', opt_text (re_data_type e)),
      (''comment'', opt_text (re_comment e)), (''score'', JFloat (round_places 4 (re_score e)))]"

definition edge_json :: "foreign_key \<Rightarrow> json" where
  "edge_json f = JObj
     [(''from_table'', JStr (from_table f)), (''from_column'', JStr (from_column f)),
      (''to_table'', JStr (to_table f)), (''to_column'', JStr (to_column f))]"

definition render_retrieval :: "retrieval_result \<Rightarrow> payload" where
  "render_retrieval r =
     [(''elements'', JArr (map element_json (rr_elements r))),
      (''foreign_keys'', JArr (map edge_json (rr_foreign_keys r))),
      (''tables'', JArr (map JStr (result_tables r)))]"

definition search_schema :: "'v retriever \<Rightarrow> 'v store \<Rightarrow> payload \<Rightarrow> unit \<Rightarrow> (exn + payload) \<times> unit" where
  "search_schema R S args u =
     (case text_arg ''query'' args of
        Inl e \<Rightarrow> (Inl e, u)
      | Inr q \<Rightarrow>
         (case search R S q (int_arg ''k'' args) (texts_arg ''table_filter'' args) of
            Inl e \<Rightarrow> (Inl e, u) | Inr r \<Rightarrow> (Inr (succeeded (render_retrieval r)), u)))"

definition search_specs :: "'v retriever \<Rightarrow> 'v store \<Rightarrow> string \<Rightarrow> unit server_tool list" where
  "search_specs R S description =
     [\<lparr>ts_name = ''search_schema'', ts_description = description, ts_input_schema = search_input_schema,
       ts_handler = search_schema R S\<rparr>]"

section \<open>\<open>profile_table\<close>\<close>

definition profile_input_schema :: "profiling_settings \<Rightarrow> json" where
  "profile_input_schema s = object_schema
     [(''table'', JObj [(''type'', JStr ''string''), (''minLength'', JInt 1),
        (''description'', JStr ''Table name, as returned by search_schema'')]),
      (''columns'', JObj [(''type'', JStr ''array''), (''items'', JObj [(''type'', JStr ''string'')]),
        (''minItems'', JInt 1), (''maxItems'', JInt (profile_max_columns s)),
        (''description'', JStr (''Profile only these columns. Naming the two or three you are ''
           @ ''choosing between is cheaper and clearer than profiling the table''))]),
      (''sample_rows'', JObj [(''type'', JStr ''integer''), (''minimum'', JInt 0), (''maximum'', JInt (profile_sample_rows s)),
        (''description'', JStr (''Raw example values per column. Returns none unless the server ''
           @ ''is configured to allow value sampling''))])]
     ''table''"

definition opt_int :: "int option \<Rightarrow> json" where
  "opt_int x = (case x of None \<Rightarrow> JNull | Some i \<Rightarrow> JInt i)"

definition column_profile_json :: "column_profile \<Rightarrow> json" where
  "column_profile_json c = JObj
     [(''column'', JStr (cp_column c)), (''type'', JStr (cp_data_type c)),
      (''null_fraction'', case cp_null_fraction c of None \<Rightarrow> JNull | Some f \<Rightarrow> JFloat f),
      (''distinct_count'', opt_int (cp_distinct_count c)),
      (''min'', opt_text (cp_minimum c)), (''max'', opt_text (cp_maximum c)),
      (''frequent_values'', JArr (map (\<lambda>v. JObj [(''value'', JStr (fv_value v)), (''count'', JInt (fv_count v))])
         (cp_frequent_values c))),
      (''sample_values'', JArr (map JStr (cp_sample_values c))),
      (''withheld'', JArr (map JStr (cp_withheld c)))]"

definition render_profile :: "table_profile \<Rightarrow> payload" where
  "render_profile t =
     [(''table'', JStr (tp_table t)), (''row_estimate'', opt_int (tp_row_estimate t)),
      (''scanned_rows'', JInt (tp_scanned_rows t)), (''columns_omitted'', JInt (tp_columns_omitted t)),
      (''columns'', JArr (map column_profile_json (tp_columns t)))]"

definition profile_table :: "profiler \<Rightarrow> payload \<Rightarrow> statement list \<Rightarrow> (exn + payload) \<times> statement list" where
  "profile_table P args l =
     (case text_arg ''table'' args of
        Inl e \<Rightarrow> (Inl e, l)
      | Inr tab \<Rightarrow>
         (case profile P tab (texts_arg ''columns'' args) (int_arg ''sample_rows'' args) l of
            (Inl e, l') \<Rightarrow> (Inl e, l') | (Inr t, l') \<Rightarrow> (Inr (succeeded (render_profile t)), l')))"

definition profile_specs :: "profiler \<Rightarrow> string \<Rightarrow> statement list server_tool list" where
  "profile_specs P description =
     [\<lparr>ts_name = ''profile_table'', ts_description = description, ts_input_schema = profile_input_schema (pf_settings P),
       ts_handler = profile_table P\<rparr>]"

section \<open>Discovery\<close>

record discovered_tool =
  dt_name :: string
  dt_description :: string
  dt_input_schema :: json
  dt_server :: string

record tool_result =
  tr_is_error :: bool
  tr_payload :: payload
  tr_text :: string

definition result_error_type :: "(rat \<Rightarrow> string) \<Rightarrow> tool_result \<Rightarrow> string option" where
  "result_error_type fr r =
     (case dict_get (tr_payload r) ''error_type'' of None \<Rightarrow> None
      | Some j \<Rightarrow> if j = JNull then None else Some (json_str fr j))"

text \<open>The transport: starting a server module and its handshake, listing its tools, calling one.\<close>

record 's transport =
  tr_launch :: "string \<Rightarrow> exn + 's"
  tr_list :: "'s \<Rightarrow> exn + wire_tool list"
  tr_call :: "'s \<Rightarrow> string \<Rightarrow> payload \<Rightarrow> exn + call_result"

record 's registry =
  rg_sessions :: "(string, 's) dict"
  rg_tools :: "(string, discovered_tool) dict"
  rg_unavailable :: "(string, string) dict"

definition empty_registry :: "'s registry" where
  "empty_registry = \<lparr>rg_sessions = [], rg_tools = [], rg_unavailable = []\<rparr>"

definition discovered :: "string \<Rightarrow> wire_tool \<Rightarrow> discovered_tool" where
  "discovered server t =
     \<lparr>dt_name = wt_name t, dt_description = of_option [] (wt_description t),
      dt_input_schema = wt_input_schema t, dt_server = server\<rparr>"

definition connect_one :: "'s transport \<Rightarrow> string \<Rightarrow> 's registry \<Rightarrow> exn option \<times> 's registry" where
  "connect_one T server r =
     (case tr_launch T server of
        Inl e \<Rightarrow> (Some e, r)
      | Inr s \<Rightarrow>
         (let r1 = r\<lparr>rg_sessions := dict_set (rg_sessions r) server s\<rparr> in
          case tr_list T s of
            Inl e \<Rightarrow> (Some e, r1)
          | Inr ts \<Rightarrow> (None, r1\<lparr>rg_tools := foldl (\<lambda>d t. dict_set d (wt_name t) (discovered server t)) (rg_tools r1) ts\<rparr>)))"

fun connect_all :: "'s transport \<Rightarrow> string list \<Rightarrow> 's registry \<Rightarrow> exn option \<times> 's registry" where
  "connect_all T [] r = (None, r)"
| "connect_all T (server # servers) r =
     (case connect_one T server r of
        (None, r1) \<Rightarrow> connect_all T servers r1
      | (Some e, r1) \<Rightarrow>
          if isinst e CException
          then connect_all T servers (r1\<lparr>rg_unavailable := dict_set (rg_unavailable r1) server (type_name e)\<rparr>)
          else (Some e, r1))"

definition to_result :: "(string \<Rightarrow> rat) \<Rightarrow> call_result \<Rightarrow> tool_result" where
  "to_result rd c =
     (let words = concat (map (\<lambda>b. case b of TextBlock s \<Rightarrow> s | OtherBlock \<Rightarrow> []) (cr_content c)) in
      \<lparr>tr_is_error = cr_is_error c,
       tr_payload = (case cr_structured c of
           Some d \<Rightarrow> d
         | None \<Rightarrow>
             if words = [] then []
             else case loads rd words of
               Some (JObj d) \<Rightarrow> d
             | Some j \<Rightarrow> [(''value'', j)]
             | None \<Rightarrow> [(''message'', JStr words)]),
       tr_text = words\<rparr>)"

definition registry_call ::
  "(string \<Rightarrow> rat) \<Rightarrow> 's transport \<Rightarrow> 's registry \<Rightarrow> string \<Rightarrow> payload \<Rightarrow> exn + tool_result" where
  "registry_call rd T r name args =
     (case dict_get (rg_tools r) name of
        None \<Rightarrow> Inl (OtherError ''KeyError'' (py_repr name))
      | Some t \<Rightarrow>
         (case dict_get (rg_sessions r) (dt_server t) of
            None \<Rightarrow> Inl (OtherError ''KeyError'' (py_repr (dt_server t)))
          | Some s \<Rightarrow> (case tr_call T s name args of Inl e \<Rightarrow> Inl e | Inr c \<Rightarrow> Inr (to_result rd c))))"

definition describe :: "'s registry \<Rightarrow> string" where
  "describe r = join [newline, newline]
     (map (\<lambda>t. dt_name t @ '': '' @ dt_description t)
        (sort_key (\<lambda>t. map code (dt_name t)) (map snd (rg_tools r))))"

section \<open>A retrieval read back from a tool reply\<close>

text \<open>\<open>float(value)\<close>, where \<open>pf\<close> reads a text.\<close>

definition to_score :: "(string \<Rightarrow> rat option) \<Rightarrow> json option \<Rightarrow> rat" where
  "to_score pf x =
     (case x of
        Some (JFloat r) \<Rightarrow> r
      | Some (JInt i) \<Rightarrow> of_int i
      | Some (JBool b) \<Rightarrow> (if b then 1 else 0)
      | Some (JStr s) \<Rightarrow> of_option 0 (pf s)
      | _ \<Rightarrow> 0)"

definition optional_str :: "(rat \<Rightarrow> string) \<Rightarrow> json option \<Rightarrow> string option" where
  "optional_str fr x = (case x of None \<Rightarrow> None | Some JNull \<Rightarrow> None | Some j \<Rightarrow> Some (json_str fr j))"

definition read_element ::
  "(rat \<Rightarrow> string) \<Rightarrow> (string \<Rightarrow> rat option) \<Rightarrow> json \<Rightarrow> nat \<Rightarrow> exn + retrieved_element" where
  "read_element fr pf item position =
     (let here = ''search_schema element '' @ show_nat position in
      case item of
        JObj d \<Rightarrow>
          (case dict_get d ''table'' of
             Some (JStr tab) \<Rightarrow>
               if tab = [] then Inl (RetrievalError (here @ '' names no table''))
               else (case dict_get d ''column'' of
                   Some (JStr c) \<Rightarrow> Inr \<lparr>re_type = (if c \<noteq> [] then ''column'' else ''table''), re_table = tab,
                     re_column = Some c, re_data_type = optional_str fr (dict_get d ''type''),
                     re_comment = optional_str fr (dict_get d ''comment''), re_serialized = [],
                     re_score = to_score pf (dict_get d ''score'')\<rparr>
                 | x \<Rightarrow>
                     if x = None \<or> x = Some JNull
                     then Inr \<lparr>re_type = ''table'', re_table = tab,
                       re_column = None, re_data_type = optional_str fr (dict_get d ''type''),
                       re_comment = optional_str fr (dict_get d ''comment''), re_serialized = [],
                       re_score = to_score pf (dict_get d ''score'')\<rparr>
                     else Inl (RetrievalError (here @ '' has a non-string column'')))
           | _ \<Rightarrow> Inl (RetrievalError (here @ '' names no table'')))
      | j \<Rightarrow> Inl (RetrievalError (here @ '' is a '' @ py_type_name j @ '', not an object'')))"

definition edge_keys :: "string list" where
  "edge_keys = [''from_table'', ''from_column'', ''to_table'', ''to_column'']"

definition read_edge :: "(rat \<Rightarrow> string) \<Rightarrow> json \<Rightarrow> nat \<Rightarrow> exn + foreign_key" where
  "read_edge fr item position =
     (let here = ''search_schema foreign key '' @ show_nat position in
      case item of
        JObj d \<Rightarrow>
          (case filter (\<lambda>k. dict_get d k = None) edge_keys of
             missing # _ \<Rightarrow> Inl (RetrievalError (here @ '' is missing '' @ py_repr missing))
           | [] \<Rightarrow>
             (let item_str = (\<lambda>k. json_str fr (entry_of d k JNull)) in
              Inr \<lparr>from_table = item_str ''from_table'', from_column = item_str ''from_column'',
                to_table = item_str ''to_table'', to_column = item_str ''to_column'', constraint_name = Some []\<rparr>))
      | _ \<Rightarrow> Inl (RetrievalError (here @ '' is not an object'')))"

fun read_items :: "('a \<Rightarrow> nat \<Rightarrow> exn + 'b) \<Rightarrow> nat \<Rightarrow> 'a list \<Rightarrow> exn + 'b list" where
  "read_items f n [] = Inr []"
| "read_items f n (x # xs) =
     (case f x n of Inl e \<Rightarrow> Inl e
      | Inr y \<Rightarrow> (case read_items f (Suc n) xs of Inl e \<Rightarrow> Inl e | Inr ys \<Rightarrow> Inr (y # ys)))"

definition to_retrieval_result ::
  "(rat \<Rightarrow> string) \<Rightarrow> (string \<Rightarrow> rat option) \<Rightarrow> payload \<Rightarrow> exn + retrieval_result" where
  "to_retrieval_result fr pf d =
     (case (entry_of d ''elements'' (JArr []), entry_of d ''foreign_keys'' (JArr [])) of
        (JArr elements, JArr edges) \<Rightarrow>
          (case read_items (read_element fr pf) 0 elements of
             Inl e \<Rightarrow> Inl e
           | Inr es \<Rightarrow> (case read_items (read_edge fr) 0 edges of
               Inl e \<Rightarrow> Inl e | Inr fs \<Rightarrow> Inr \<lparr>rr_elements = es, rr_foreign_keys = fs\<rparr>))
      | _ \<Rightarrow> Inl (RetrievalError (''search_schema returned a payload with no element list; got keys ''
          @ list_repr (sorted_texts (map fst d)))))"

text \<open>The end of \<open>McpSchemaSearch.search\<close>: a tool error is raised, anything else read.\<close>

definition client_answer ::
  "(rat \<Rightarrow> string) \<Rightarrow> (string \<Rightarrow> rat option) \<Rightarrow> tool_result \<Rightarrow> exn + retrieval_result" where
  "client_answer fr pf r =
     (if tr_is_error r
      then Inl (RetrievalError (''search_schema returned ''
        @ (let k = result_error_type fr r in if truthy k then the k else ''an error'') @ '': ''
        @ json_str fr (entry_of (tr_payload r) ''message'' (JStr ''(no message)''))))
      else to_retrieval_result fr pf (tr_payload r))"

section \<open>Facts\<close>

lemma merged_fresh: "distinct (map fst base @ map fst d) \<Longrightarrow> merged base d = base @ d"
  unfolding merged_def by (rule dict_build)

lemma get_merged: "dict_get (merged base d) k = (case map_of (rev d) k of None \<Rightarrow> dict_get base k | Some v \<Rightarrow> Some v)"
proof (induction d arbitrary: base)
  case (Cons kv d)
  then show ?case by (cases kv) (auto simp: merged_def map_add_def split: option.splits)
qed (simp add: merged_def)

lemma get_merged_fresh: "k \<notin> fst ` set d \<Longrightarrow> dict_get (merged base d) k = dict_get base k"
  by (simp add: get_merged map_of_eq_None_iff [THEN iffD2])

lemma distinct_merged: "distinct (map fst base) \<Longrightarrow> distinct (map fst (merged base d))"
  by (induction d arbitrary: base) (auto simp: merged_def)

text \<open>What a server relies on in a handler: when it returns, it returns a payload marked by
  \<open>succeeded\<close>, whose own keys do not include the mark.\<close>

locale marking_handler =
  fixes handler :: "payload \<Rightarrow> 'w \<Rightarrow> (exn + payload) \<times> 'w"
  assumes marks: "handler args w = (Inr d, w') \<Longrightarrow> \<exists>p. d = succeeded p \<and> ''ok'' \<notin> fst ` set p"
begin

lemma ok_of_success: "handler args w = (Inr d, w') \<Longrightarrow> dict_get d ''ok'' = Some (JBool True)"
  by (drule marks) (auto simp: succeeded_def get_merged_fresh)

lemma failed_ok: "''ok'' \<notin> fst ` set p \<Longrightarrow> dict_get (failed p) ''ok'' = Some (JBool False)"
proof -
  assume "''ok'' \<notin> fst ` set p"
  then have "''ok'' \<notin> fst ` set (filter (\<lambda>kv. snd kv \<noteq> JNull) p)" by auto
  then show ?thesis by (simp add: failed_def get_merged_fresh)
qed

lemma error_payload_ok: "''ok'' \<notin> fst ` set (error_payload e)"
  by (auto simp: error_payload_def Let_def)

lemma reply:
  assumes run: "dispatch_tool fr conforms [(n, spec)] name args w = (Inr d, w')" and h: "ts_handler spec = handler"
  shows "(dict_get d ''ok'' = Some (JBool True) \<and> conforms (ts_input_schema spec) args = None
      \<and> handler args w = (Inr d, w'))
    \<or> (dict_get d ''ok'' = Some (JBool False)
      \<and> (\<exists>p. d = failed p \<and> ((\<exists>m. conforms (ts_input_schema spec) args = Some m)
        \<or> (\<exists>e. handler args w = (Inl e, w') \<and> p = (if isinst e CTextToSQLError then error_payload e
             else [(''error_type'', JStr ''internal_error''), (''message'', JStr tool_failure)])))))"
proof (cases "conforms (ts_input_schema spec) args")
  case None
  show ?thesis
  proof (cases "handler args w")
    case (Pair out v)
    then show ?thesis
      using run None h failed_ok [OF error_payload_ok] failed_ok [of "[(''error_type'', JStr ''internal_error''), (''message'', JStr tool_failure)]"]
        ok_of_success
      by (cases out) (auto simp: dispatch_tool_def split: if_splits)
  qed
next
  case (Some m)
  then show ?thesis
    using run failed_ok by (cases m) (auto simp: dispatch_tool_def Let_def split: if_splits)
qed

end

interpretation execute_handler: marking_handler "execute_sql E clock" for E :: "'n executor" and clock
  by unfold_locales (auto simp: execute_sql_def render_rows_def split: sum.splits prod.splits)

lemma key_of_filter: "k \<notin> set (map fst xs) \<Longrightarrow> k \<notin> fst ` set (filter P xs)"
  by auto

lemma render_validation_unmarked: "''ok'' \<notin> fst ` set (render_validation r)"
  unfolding render_validation_def by (rule key_of_filter) simp

interpretation validate_handler: marking_handler "validate_sql E" for E :: "'n executor"
proof
  fix args l d l'
  assume "validate_sql E args l = (Inr d, l')"
  then have "\<exists>r. d = succeeded (render_validation r)"
    by (auto simp: validate_sql_def Let_def split: sum.splits prod.splits)
  then show "\<exists>p. d = succeeded p \<and> ''ok'' \<notin> fst ` set p" using render_validation_unmarked by blast
qed

interpretation search_handler: marking_handler "search_schema R S" for R :: "'v retriever" and S :: "'v store"
  by unfold_locales (auto simp: search_schema_def render_retrieval_def split: sum.splits)

interpretation profile_handler: marking_handler "profile_table P" for P :: profiler
  by unfold_locales (auto simp: profile_table_def render_profile_def split: sum.splits prod.splits)

text \<open>A retrieval as it arrives: scores rounded, the kind told by the column, no embedded text and no
  constraint names.\<close>

definition wire_form :: "retrieval_result \<Rightarrow> retrieval_result" where
  "wire_form r =
     \<lparr>rr_elements = map (\<lambda>e. e\<lparr>re_type := (if truthy (re_column e) then ''column'' else ''table''),
        re_serialized := [], re_score := round_places 4 (re_score e)\<rparr>) (rr_elements r),
      rr_foreign_keys = map (\<lambda>f. f\<lparr>constraint_name := Some []\<rparr>) (rr_foreign_keys r)\<rparr>"

lemma read_element_json:
  assumes "re_table e \<noteq> []"
  shows "read_element fr pf (element_json e) n
    = Inr (e\<lparr>re_type := (if truthy (re_column e) then ''column'' else ''table''),
        re_serialized := [], re_score := round_places 4 (re_score e)\<rparr>)"
proof -
  have opt: "optional_str fr (Some (opt_text x)) = x" for x
    by (cases x) (simp_all add: optional_str_def opt_text_def json_str_def)
  have column: "opt_text None = JNull" "opt_text (Some x) = JStr x" for x by (simp_all add: opt_text_def)
  show ?thesis
    using assms
    by (cases e; cases "re_column e")
       (simp_all add: read_element_def element_json_def Let_def opt to_score_def column truthy_def)
qed

lemma read_edge_json: "read_edge fr (edge_json f) n = Inr (f\<lparr>constraint_name := Some []\<rparr>)"
  by (cases f) (simp add: read_edge_def edge_json_def edge_keys_def entry_of_def of_option_def json_str_def)

lemma read_items_map:
  "\<forall>x \<in> set xs. \<forall>n. f (g x) n = Inr (h x) \<Longrightarrow> read_items f n (map g xs) = Inr (map h xs)"
  by (induction xs arbitrary: n) auto

lemma succeeded_retrieval: "succeeded (render_retrieval r) = (''ok'', JBool True) # render_retrieval r"
  by (simp add: succeeded_def merged_fresh render_retrieval_def)

lemma retrieval_read_back:
  assumes "\<forall>e \<in> set (rr_elements r). re_table e \<noteq> []"
  shows "to_retrieval_result fr pf (succeeded (render_retrieval r)) = Inr (wire_form r)"
proof -
  have "read_items (read_element fr pf) 0 (map element_json (rr_elements r)) = Inr (rr_elements (wire_form r))"
    using assms by (simp add: wire_form_def read_items_map read_element_json)
  moreover have "read_items (read_edge fr) 0 (map edge_json (rr_foreign_keys r)) = Inr (rr_foreign_keys (wire_form r))"
    by (simp add: wire_form_def read_items_map read_edge_json)
  moreover have "entry_of (succeeded (render_retrieval r)) ''elements'' (JArr []) = JArr (map element_json (rr_elements r))"
    "entry_of (succeeded (render_retrieval r)) ''foreign_keys'' (JArr []) = JArr (map edge_json (rr_foreign_keys r))"
    unfolding succeeded_retrieval by (simp_all add: render_retrieval_def entry_of_def of_option_def)
  ultimately show ?thesis by (simp add: to_retrieval_result_def)
qed

lemma retrieval_payload_ok: "json_ok (JObj (succeeded (render_retrieval r)))"
  unfolding succeeded_retrieval
  by (auto simp: render_retrieval_def element_json_def edge_json_def opt_text_def split: option.splits)

lemma to_result_call:
  assumes F: "float_reads rd fr" and d: "json_ok (JObj d)" and st: "st = Some d \<or> st = None"
  shows "tr_payload (to_result rd ((to_call_result fr d)\<lparr>cr_structured := st\<rparr>)) = d"
proof -
  have "loads rd (render_json fr (indented 2) 0 (JObj d)) = Some (JObj d)"
    by (rule loads_render [OF _ F d]) simp
  moreover have "render_json fr (indented 2) 0 (JObj d) \<noteq> []" by simp
  ultimately show ?thesis using st by (auto simp: to_result_def to_call_result_def simp del: render_json.simps)
qed

lemma to_result_error: "tr_is_error (to_result rd ((to_call_result fr d)\<lparr>cr_structured := st\<rparr>))
    = (\<not> jtruthy (of_option (JBool False) (dict_get d ''ok'')))"
  by (simp add: to_result_def to_call_result_def Let_def)

text \<open>The servers that come up, and what the registry holds of them.\<close>

definition works :: "'s transport \<Rightarrow> string \<Rightarrow> bool" where
  "works T server \<longleftrightarrow> (\<exists>s ts. tr_launch T server = Inr s \<and> tr_list T s = Inr ts)"

definition fails_softly :: "'s transport \<Rightarrow> bool" where
  "fails_softly T \<longleftrightarrow> (\<forall>server e. tr_launch T server = Inl e \<longrightarrow> isinst e CException)
     \<and> (\<forall>s e. tr_list T s = Inl e \<longrightarrow> isinst e CException)"

definition offers :: "'s transport \<Rightarrow> string \<Rightarrow> string \<Rightarrow> bool" where
  "offers T server name \<longleftrightarrow>
     (\<exists>s ts t. tr_launch T server = Inr s \<and> tr_list T s = Inr ts \<and> t \<in> set ts \<and> wt_name t = name)"

definition registry_inv :: "'s transport \<Rightarrow> string set \<Rightarrow> 's registry \<Rightarrow> bool" where
  "registry_inv T tried r \<longleftrightarrow>
     dom (map_of (rg_unavailable r)) = {m \<in> tried. \<not> works T m}
     \<and> (\<forall>name. name \<in> dom (map_of (rg_tools r)) \<longleftrightarrow> (\<exists>m \<in> tried. offers T m name))
     \<and> (\<forall>name t. dict_get (rg_tools r) name = Some t \<longrightarrow> dt_name t = name
          \<and> offers T (dt_server t) name \<and> (\<exists>s. dict_get (rg_sessions r) (dt_server t) = Some s
            \<and> tr_launch T (dt_server t) = Inr s))"

lemma add_tools:
  "dict_get (foldl (\<lambda>d t. dict_set d (wt_name t) (discovered server t)) d ts) name =
     (case map_of (rev (map (\<lambda>t. (wt_name t, discovered server t)) ts)) name of
        None \<Rightarrow> dict_get d name | Some x \<Rightarrow> Some x)"
  by (induction ts arbitrary: d) (auto simp: map_add_def split: option.splits)

lemma added_tool:
  "map_of (rev (map (\<lambda>t. (wt_name t, discovered server t)) ts)) name = Some x \<Longrightarrow>
     \<exists>t \<in> set ts. wt_name t = name \<and> x = discovered server t"
  by (drule map_of_SomeD) auto

lemma added_get:
  "dict_get (foldl (\<lambda>d t. dict_set d (wt_name t) (discovered server t)) d ts) name = Some x \<Longrightarrow>
     (\<exists>t \<in> set ts. wt_name t = name \<and> x = discovered server t) \<or> dict_get d name = Some x"
  unfolding add_tools by (auto split: option.splits dest: added_tool)

lemma added_dom:
  "map_of (rev (map (\<lambda>t. (wt_name t, discovered server t)) ts)) name = None \<longleftrightarrow> name \<notin> wt_name ` set ts"
  by (simp add: map_of_eq_None_iff image_image)

lemma connect_one_inv:
  assumes T: "fails_softly T" and inv: "registry_inv T tried r"
    and run: "connect_one T m r = (err, r1)"
  shows "(case err of None \<Rightarrow> works T m \<and> (m \<notin> tried \<longrightarrow> registry_inv T (insert m tried) r1)
      | Some e \<Rightarrow> isinst e CException \<and> \<not> works T m
          \<and> registry_inv T (insert m tried) (r1\<lparr>rg_unavailable := dict_set (rg_unavailable r1) m x\<rparr>))"
proof (cases "tr_launch T m")
  case (Inl e)
  then have "\<not> works T m" "\<not> offers T m name" for name by (auto simp: works_def offers_def)
  then show ?thesis
    using T run Inl inv by (auto simp: connect_one_def fails_softly_def registry_inv_def)
next
  case launch: (Inr s)
  show ?thesis
  proof (cases "tr_list T s")
    case (Inl e)
    then have no: "\<not> works T m" "\<not> offers T m name" for name using launch by (auto simp: works_def offers_def)
    have stay: "dt_server t \<noteq> m" if "dict_get (rg_tools r) name = Some t" for t name
      using inv that no(2) by (metis registry_inv_def)
    have r1: "err = Some e" "r1 = r\<lparr>rg_sessions := dict_set (rg_sessions r) m s\<rparr>" "isinst e CException"
      using run launch Inl T by (auto simp: connect_one_def fails_softly_def)
    have "registry_inv T (insert m tried) (r1\<lparr>rg_unavailable := dict_set (rg_unavailable r1) m x\<rparr>)"
      unfolding registry_inv_def
    proof (intro conjI allI impI)
      fix name t
      assume "dict_get (rg_tools (r1\<lparr>rg_unavailable := dict_set (rg_unavailable r1) m x\<rparr>)) name = Some t"
      then have get: "dict_get (rg_tools r) name = Some t" by (simp add: r1)
      show "dt_name t = name" "offers T (dt_server t) name"
        "\<exists>s. dict_get (rg_sessions (r1\<lparr>rg_unavailable := dict_set (rg_unavailable r1) m x\<rparr>)) (dt_server t) = Some s
          \<and> tr_launch T (dt_server t) = Inr s"
        using get stay [OF get] inv by (auto simp: registry_inv_def r1)
    qed (use inv no in \<open>auto simp: registry_inv_def r1\<close>)
    then show ?thesis using no r1 by simp
  next
    case (Inr ts)
    have r1: "err = None" "rg_unavailable r1 = rg_unavailable r"
      "rg_tools r1 = foldl (\<lambda>d t. dict_set d (wt_name t) (discovered m t)) (rg_tools r) ts"
      "map_of (rg_sessions r1) = (map_of (rg_sessions r))(m \<mapsto> s)"
      using run launch Inr by (auto simp: connect_one_def Let_def)
    have works: "works T m" and offer: "offers T m name \<longleftrightarrow> name \<in> wt_name ` set ts" for name
      using launch Inr by (auto simp: works_def offers_def)
    have "registry_inv T (insert m tried) r1"
      unfolding registry_inv_def r1(2,4)
    proof (intro conjI allI impI)
      show "dom (map_of (rg_unavailable r)) = {m' \<in> insert m tried. \<not> works T m'}"
        using inv works by (auto simp: registry_inv_def)
    next
      fix name
      have "name \<in> dom (map_of (rg_tools r1)) \<longleftrightarrow> name \<in> wt_name ` set ts \<or> name \<in> dom (map_of (rg_tools r))"
        using added_dom [of m ts name] by (auto simp: r1(3) add_tools dom_def split: option.splits)
      then show "(name \<in> dom (map_of (rg_tools r1))) = (\<exists>m' \<in> insert m tried. offers T m' name)"
        using inv offer by (auto simp: registry_inv_def)
    next
      fix name t
      assume get: "dict_get (rg_tools r1) name = Some t"
      from added_get [OF get [unfolded r1(3)]]
      have "dt_name t = name \<and> offers T (dt_server t) name
        \<and> (\<exists>s'. ((map_of (rg_sessions r))(m \<mapsto> s)) (dt_server t) = Some s' \<and> tr_launch T (dt_server t) = Inr s')"
      proof
        assume "\<exists>x \<in> set ts. wt_name x = name \<and> t = discovered m x"
        then show ?thesis using launch offer by (auto simp: discovered_def)
      next
        assume "dict_get (rg_tools r) name = Some t"
        then show ?thesis using inv launch by (auto simp: registry_inv_def)
      qed
      then show "dt_name t = name" "offers T (dt_server t) name"
        "\<exists>s'. ((map_of (rg_sessions r))(m \<mapsto> s)) (dt_server t) = Some s' \<and> tr_launch T (dt_server t) = Inr s'"
        by auto
    qed
    then show ?thesis using works r1(1) by simp
  qed
qed

lemma connect_all_inv:
  assumes T: "fails_softly T"
  shows "registry_inv T tried r \<Longrightarrow> connect_all T ms r = (err, r1) \<Longrightarrow> distinct ms \<Longrightarrow> set ms \<inter> tried = {} \<Longrightarrow>
     err = None \<and> registry_inv T (tried \<union> set ms) r1"
proof (induction ms arbitrary: tried r)
  case (Cons m ms)
  obtain e r2 where one: "connect_one T m r = (e, r2)" by fastforce
  note step = connect_one_inv [OF T Cons.prems(1) one]
  have un: "tried \<union> set (m # ms) = insert m tried \<union> set ms" by auto
  show ?case
  proof (cases e)
    case None
    then show ?thesis
      using step one Cons.prems Cons.IH [of "insert m tried" r2] unfolding un by auto
  next
    case (Some x)
    then show ?thesis
      using step [where x = "type_name x"] one Cons.prems
        Cons.IH [of "insert m tried" "r2\<lparr>rg_unavailable := dict_set (rg_unavailable r2) m (type_name x)\<rparr>"]
      unfolding un by auto
  qed
qed simp

section \<open>Properties\<close>


text \<open>C19: a retrieval survives the wire. What the evaluation's client makes of the reply of the search
  tool is the retrieval the server computed, in the same order, up to the rounding of scores and the
  fields that are not sent; and it is the same whether the client reads the structured payload or, where
  the host drops it, the JSON text.\<close>

theorem search_survives_the_wire:
  assumes F: "float_reads rd fr"
    and accepted: "conforms search_input_schema [(''query'', JStr q), (''k'', JInt k)] = None"
    and run: "search R S q (Some k) None = Inr r"
    and named: "\<forall>e \<in> set (rr_elements r). re_table e \<noteq> []"
  shows "\<exists>c. call_tool fr conforms (search_specs R S descr) ''search_schema'' [(''query'', JStr q), (''k'', JInt k)] ()
      = (Inr c, ())
    \<and> client_answer fr pf (to_result rd c) = Inr (wire_form r)
    \<and> client_answer fr pf (to_result rd (c\<lparr>cr_structured := None\<rparr>)) = Inr (wire_form r)"
proof -
  let ?d = "succeeded (render_retrieval r)"
  let ?c = "to_call_result fr ?d"
  have "search_schema R S [(''query'', JStr q), (''k'', JInt k)] () = (Inr ?d, ())"
    by (simp add: search_schema_def text_arg_def int_arg_def texts_arg_def run)
  then have call: "call_tool fr conforms (search_specs R S descr) ''search_schema'' [(''query'', JStr q), (''k'', JInt k)] ()
      = (Inr ?c, ())"
    by (simp add: call_tool_def dispatch_tool_def by_name_def search_specs_def accepted)
  have ok: "jtruthy (of_option (JBool False) (dict_get ?d ''ok''))"
    by (simp add: succeeded_retrieval of_option_def)
  have read: "client_answer fr pf (to_result rd (?c\<lparr>cr_structured := st\<rparr>)) = Inr (wire_form r)"
    if "st = Some ?d \<or> st = None" for st
    unfolding client_answer_def to_result_error to_result_call [OF F retrieval_payload_ok that]
    by (simp add: ok retrieval_read_back [OF named])
  have "?c\<lparr>cr_structured := Some ?d\<rparr> = ?c" by (simp add: to_call_result_def)
  then show ?thesis using call read [of "Some ?d"] read [of None] by simp
qed

theorem search_survives_the_wire_witness:
  "\<exists>r c. search toy_retriever toy_store ''q'' (Some 5) None = Inr r \<and> rr_elements r \<noteq> []
     \<and> call_tool show_ratio (\<lambda>_ _. None) (search_specs toy_retriever toy_store []) ''search_schema''
         [(''query'', JStr ''q''), (''k'', JInt 5)] () = (Inr c, ())
     \<and> client_answer show_ratio (\<lambda>_. None) (to_result read_ratio (c\<lparr>cr_structured := None\<rparr>)) = Inr (wire_form r)"
proof -
  have q: "strip ''q'' = ''q''" by (simp add: strip_def lstrip_def rstrip_def py_space_def code_def)
  define el where "el = \<lparr>re_type = ''table'', re_table = ''t'', re_column = None, re_data_type = None,
      re_comment = None, re_serialized = [], re_score = (1 :: rat)\<rparr>"
  obtain r where run: "search toy_retriever toy_store ''q'' (Some 5) None = Inr r" "rr_elements r = [el]"
    by (simp add: search_def Let_def q clean_table_filter_def toy_retriever_def make_retriever_def
        embed_query_def toy_embedder_def clamp_def max_k_def max_ef_search_def rank_def el_def)
  have accepted: "(\<lambda>_ _. None) search_input_schema [(''query'', JStr ''q''), (''k'', JInt 5)] = None" by simp
  have "\<forall>e \<in> set (rr_elements r). re_table e \<noteq> []" using run(2) by (simp add: el_def)
  from search_survives_the_wire [OF ratios_read accepted run(1) this, of "[]" "\<lambda>_. None"]
  show ?thesis using run by auto
qed

text \<open>One broken server costs its own tools and nothing else. Connecting tries every server and does
  not fail; the servers recorded as unavailable are exactly those that could not start or list their
  tools; every tool a working server offers can be called, the call goes to a live session of a server
  that offers it, and any other name is refused.\<close>

theorem registry_degrades:
  assumes T: "fails_softly T" and ms: "distinct ms"
  shows "\<exists>r. connect_all T ms empty_registry = (None, r)
    \<and> (\<forall>m. m \<in> dom (map_of (rg_unavailable r)) \<longleftrightarrow> m \<in> set ms \<and> \<not> works T m)
    \<and> (\<forall>name args.
        (registry_call rd T r name args = Inl (OtherError ''KeyError'' (py_repr name)) \<and> \<not> (\<exists>m \<in> set ms. offers T m name))
        \<or> (\<exists>m s. offers T m name \<and> tr_launch T m = Inr s \<and> (\<exists>m' \<in> set ms. offers T m' name)
            \<and> registry_call rd T r name args
                = (case tr_call T s name args of Inl e \<Rightarrow> Inl e | Inr c \<Rightarrow> Inr (to_result rd c))))"
proof -
  obtain err r where run: "connect_all T ms empty_registry = (err, r)" by fastforce
  have "registry_inv T {} empty_registry" by (simp add: registry_inv_def empty_registry_def)
  from connect_all_inv [OF T this run ms]
  have none: "err = None" and inv: "registry_inv T (set ms) r" by auto
  have "registry_call rd T r name args = Inl (OtherError ''KeyError'' (py_repr name)) \<and> \<not> (\<exists>m \<in> set ms. offers T m name)
        \<or> (\<exists>m s. offers T m name \<and> tr_launch T m = Inr s \<and> (\<exists>m' \<in> set ms. offers T m' name)
            \<and> registry_call rd T r name args
                = (case tr_call T s name args of Inl e \<Rightarrow> Inl e | Inr c \<Rightarrow> Inr (to_result rd c)))" for name args
  proof (cases "dict_get (rg_tools r) name")
    case None
    then have "name \<notin> dom (map_of (rg_tools r))" by auto
    then have "\<not> (\<exists>m \<in> set ms. offers T m name)" using inv unfolding registry_inv_def by blast
    then show ?thesis using None by (simp add: registry_call_def)
  next
    case (Some t)
    then have "name \<in> dom (map_of (rg_tools r))" by auto
    then have "\<exists>m' \<in> set ms. offers T m' name" using inv unfolding registry_inv_def by blast
    moreover obtain s where "offers T (dt_server t) name" "dict_get (rg_sessions r) (dt_server t) = Some s"
      "tr_launch T (dt_server t) = Inr s"
      using inv Some unfolding registry_inv_def by blast
    ultimately show ?thesis
      using Some by (intro disjI2 exI [of _ "dt_server t"] exI [of _ s]) (simp add: registry_call_def)
  qed
  moreover have "\<forall>m. m \<in> dom (map_of (rg_unavailable r)) \<longleftrightarrow> m \<in> set ms \<and> \<not> works T m"
    using inv by (simp add: registry_inv_def)
  ultimately show ?thesis using run none by blast
qed

definition toy_transport :: "unit transport" where
  "toy_transport = \<lparr>tr_launch = (\<lambda>m. if m = ''up'' then Inr () else Inl (OtherError ''OSError'' [])),
     tr_list = (\<lambda>_. Inr [\<lparr>wt_name = ''t'', wt_description = None, wt_input_schema = JNull\<rparr>]),
     tr_call = (\<lambda>_ _ _. Inl (OtherError ''McpError'' []))\<rparr>"

theorem registry_degrades_witness:
  "\<exists>r. connect_all toy_transport [''down'', ''up''] empty_registry = (None, r)
     \<and> dom (map_of (rg_unavailable r)) = {''down''}"
proof -
  have T: "fails_softly toy_transport"
    by (auto simp: fails_softly_def toy_transport_def isinst_simps)
  have w: "works toy_transport m \<longleftrightarrow> m = ''up''" for m by (simp add: works_def toy_transport_def)
  have "distinct [''down'', ''up'']" by simp
  from registry_degrades [OF T this, of "\<lambda>_. 0"]
  obtain r where r: "connect_all toy_transport [''down'', ''up''] empty_registry = (None, r)"
    and dead: "\<forall>m. m \<in> dom (map_of (rg_unavailable r)) \<longleftrightarrow> m \<in> set [''down'', ''up''] \<and> \<not> works toy_transport m"
    by (elim exE conjE) (rule that)
  have "m \<in> set [''down'', ''up''] \<and> \<not> works toy_transport m \<longleftrightarrow> m \<in> {''down''}" for m by (auto simp: w)
  then have "dom (map_of (rg_unavailable r)) = {''down''}"
    using dead by (intro set_eqI) (simp only:)
  then show ?thesis using r by blast
qed

end
