(* ===== verification/Scoring.thy ===== *)
theory Scoring
  imports Comparison Serialization
begin

text \<open>
  How an evaluation scores one question besides comparing rows: the schema elements its gold query uses
  and how many of them retrieval found (\<open>src/evals/recall.py\<close>), and the category of its failure
  (\<open>src/evals/taxonomy.py\<close>). The parser is the argument of \<open>Sqlglot\<close>; equality of nodes stands for
  identity. A walk up the parents of a node visits at most the nodes of the statement, so it is given
  that many steps.
\<close>

section \<open>Gold elements\<close>

record gold_elements =
  ge_tables :: "string set"
  ge_columns :: "(string \<times> string) set"
  ge_unresolved :: "string set"
  ge_parse_failed :: bool

definition no_elements :: gold_elements where
  "no_elements = \<lparr>ge_tables = {}, ge_columns = {}, ge_unresolved = {}, ge_parse_failed = False\<rparr>"

definition is_usable :: "gold_elements \<Rightarrow> bool" where
  "is_usable g \<longleftrightarrow> \<not> ge_parse_failed g \<and> (ge_columns g \<noteq> {} \<or> ge_tables g \<noteq> {})"

text \<open>The loop of \<open>_belongs_to_inner_scope\<close>, from a node upwards.\<close>

fun inner_from :: "'n sqlglot \<Rightarrow> nat \<Rightarrow> 'n option \<Rightarrow> 'n \<Rightarrow> bool" where
  "inner_from G 0 node scope = False"
| "inner_from G (Suc fuel) node scope =
     (case node of
        None \<Rightarrow> False
      | Some n \<Rightarrow>
          if n = scope then False
          else if sg_isa G n SSelect then True
          else inner_from G fuel (sg_parent G n) scope)"

definition belongs_to_inner_scope :: "'n sqlglot \<Rightarrow> nat \<Rightarrow> 'n \<Rightarrow> 'n \<Rightarrow> bool" where
  "belongs_to_inner_scope G fuel node scope = inner_from G fuel (sg_parent G node) scope"

definition add_alias :: "'n sqlglot \<Rightarrow> string set \<Rightarrow> (string, string) dict \<Rightarrow> 'n \<Rightarrow> (string, string) dict" where
  "add_alias G cte_names aliases t =
     (let name = casefold (sg_name G t) in
      if name = [] \<or> name \<in> cte_names then aliases
      else let a = dict_set aliases name name in
        if sg_alias G t \<noteq> [] then dict_set a (casefold (sg_alias G t)) name else a)"

definition aliases_in_scope :: "'n sqlglot \<Rightarrow> nat \<Rightarrow> 'n \<Rightarrow> string set \<Rightarrow> (string, string) dict" where
  "aliases_in_scope G fuel scope cte_names =
     foldl (add_alias G cte_names) []
       (filter (\<lambda>t. \<not> belongs_to_inner_scope G fuel t scope) (find_all G STable scope))"

definition add_column ::
  "'n sqlglot \<Rightarrow> string set \<Rightarrow> (string, string) dict \<Rightarrow> gold_elements \<Rightarrow> 'n \<Rightarrow> gold_elements" where
  "add_column G cte_names aliases g c =
     (let name = casefold (sg_name G c); qualifier = casefold (sg_qualifier G c) in
      if qualifier \<noteq> []
      then let tab = of_option qualifier (dict_get aliases qualifier) in
        if tab \<notin> cte_names then g\<lparr>ge_columns := insert (tab, name) (ge_columns g)\<rparr> else g
      else case fromkeys (map snd aliases) of
          [only] \<Rightarrow> g\<lparr>ge_columns := insert (only, name) (ge_columns g)\<rparr>
        | _ \<Rightarrow> g\<lparr>ge_unresolved := insert name (ge_unresolved g)\<rparr>)"

definition add_scope :: "'n sqlglot \<Rightarrow> nat \<Rightarrow> string set \<Rightarrow> gold_elements \<Rightarrow> 'n \<Rightarrow> gold_elements" where
  "add_scope G fuel cte_names g scope =
     (let aliases = aliases_in_scope G fuel scope cte_names in
      foldl (add_column G cte_names aliases) (g\<lparr>ge_tables := ge_tables g \<union> set (map snd aliases)\<rparr>)
        (filter (\<lambda>c. \<not> belongs_to_inner_scope G fuel c scope) (find_all G SColumn scope)))"

definition extract_gold_elements :: "'n sqlglot \<Rightarrow> string \<Rightarrow> gold_elements" where
  "extract_gold_elements G gold_sql =
     (case sg_parse_one G gold_sql of
        Inl _ \<Rightarrow> no_elements\<lparr>ge_parse_failed := True\<rparr>
      | Inr st \<Rightarrow>
          if \<not> sg_isa G st SExpression then no_elements\<lparr>ge_parse_failed := True\<rparr>
          else let cte_names = set (map casefold (filter (\<lambda>n. n \<noteq> []) (map (sg_alias_or_name G) (find_all G SCTE st)))) in
            foldl (add_scope G (length (sg_walk G st)) cte_names) no_elements (find_all G SSelect st))"

section \<open>Recall\<close>

definition default_k_values :: "int list" where
  "default_k_values = [1, 5, 10, 20]"

record recall_result =
  rc_at_k :: "(int, rat) dict"
  rc_gold_size :: nat
  rc_unresolved_count :: nat
  rc_skipped :: bool

text \<open>\<open>xs[:k]\<close>, a negative \<open>k\<close> counted from the end.\<close>

definition py_prefix :: "int \<Rightarrow> 'a list \<Rightarrow> 'a list" where
  "py_prefix k xs = (if 0 \<le> k then take (nat k) xs else take (length xs - nat (- k)) xs)"

definition recall_targets :: "gold_elements \<Rightarrow> (string \<times> string option) set" where
  "recall_targets g = (\<lambda>(t, c). (t, Some c)) ` ge_columns g \<union> (\<lambda>t. (t, None)) ` ge_tables g"

definition found_in :: "(string \<times> string option) list \<Rightarrow> string \<times> string option \<Rightarrow> bool" where
  "found_in window target =
     (let seen_columns = map (\<lambda>(t, c). (casefold t, casefold (the c))) (filter (\<lambda>(t, c). c \<noteq> None) window);
          seen_tables = map (\<lambda>(t, c). casefold t) window in
      case target of
        (tab, None) \<Rightarrow> tab \<in> set seen_tables
      | (tab, Some c) \<Rightarrow> (tab, c) \<in> set seen_columns \<or> tab \<in> set seen_tables)"

definition recall_at :: "gold_elements \<Rightarrow> (string \<times> string option) list \<Rightarrow> int \<Rightarrow> rat" where
  "recall_at g retrieved k =
     (let targets = recall_targets g in
      if targets = {} then 0
      else round_places 4 (of_nat (card (Set.filter (found_in (py_prefix k retrieved)) targets)) / of_nat (card targets)))"

definition compute_recall ::
  "gold_elements \<Rightarrow> (string \<times> string option) list \<Rightarrow> int list \<Rightarrow> recall_result" where
  "compute_recall g retrieved k_values =
     (if \<not> is_usable g
      then \<lparr>rc_at_k = [], rc_gold_size = 0, rc_unresolved_count = card (ge_unresolved g), rc_skipped = True\<rparr>
      else \<lparr>rc_at_k = foldl (\<lambda>d k. dict_set d k (recall_at g retrieved k)) [] k_values,
            rc_gold_size = card (recall_targets g), rc_unresolved_count = card (ge_unresolved g),
            rc_skipped = False\<rparr>)"

definition mean4 :: "rat list \<Rightarrow> rat" where
  "mean4 xs = round_places 4 (sum_list xs / of_nat (length xs))"

definition aggregate :: "recall_result list \<Rightarrow> (string, rat) dict" where
  "aggregate results =
     (let scored = filter (\<lambda>r. \<not> rc_skipped r) results in
      [(''questions'', of_nat (length results)), (''scored'', of_nat (length scored)),
       (''skipped'', of_nat (length results - length scored)),
       (''unresolved_references'', of_nat (sum_list (map rc_unresolved_count results)))]
      @ map (\<lambda>k. (''recall@'' @ show_int k, mean4 (somes (map (\<lambda>r. dict_get (rc_at_k r) k) scored))))
          (sort (remdups (concat (map (\<lambda>r. map fst (rc_at_k r)) scored)))))"

section \<open>Failure categories\<close>

datatype failure_category =
    FC_NONE | RETRIEVAL_MISS | UNKNOWN_IDENTIFIER | SYNTAX_UNRECOVERABLE | NOT_READ_ONLY | TIMEOUT | ROW_ORDER
  | WRONG_SHAPE | WRONG_VALUES | GOLD_ERROR | UNANSWERABLE | EXECUTION_FAILED | INFRASTRUCTURE | UNCATEGORISED

definition all_categories :: "failure_category list" where
  "all_categories = [FC_NONE, RETRIEVAL_MISS, UNKNOWN_IDENTIFIER, SYNTAX_UNRECOVERABLE, NOT_READ_ONLY, TIMEOUT, ROW_ORDER,
     WRONG_SHAPE, WRONG_VALUES, GOLD_ERROR, UNANSWERABLE, EXECUTION_FAILED, INFRASTRUCTURE, UNCATEGORISED]"

fun category_value :: "failure_category \<Rightarrow> string" where
  "category_value FC_NONE = ''none''"
| "category_value RETRIEVAL_MISS = ''retrieval_miss''"
| "category_value UNKNOWN_IDENTIFIER = ''unknown_identifier''"
| "category_value SYNTAX_UNRECOVERABLE = ''syntax_unrecoverable''"
| "category_value NOT_READ_ONLY = ''not_read_only''"
| "category_value TIMEOUT = ''timeout''"
| "category_value ROW_ORDER = ''row_order''"
| "category_value WRONG_SHAPE = ''wrong_shape''"
| "category_value WRONG_VALUES = ''wrong_values''"
| "category_value GOLD_ERROR = ''gold_error''"
| "category_value UNANSWERABLE = ''unanswerable''"
| "category_value EXECUTION_FAILED = ''execution_failed''"
| "category_value INFRASTRUCTURE = ''infrastructure''"
| "category_value UNCATEGORISED = ''uncategorised''"

definition from_error_type :: "(string, failure_category) dict" where
  "from_error_type =
     [(''unknown_identifier'', UNKNOWN_IDENTIFIER), (''syntax_error'', SYNTAX_UNRECOVERABLE),
      (''multiple_statements'', SYNTAX_UNRECOVERABLE), (''explain_failed'', SYNTAX_UNRECOVERABLE),
      (''not_read_only'', NOT_READ_ONLY), (''statement_timeout'', TIMEOUT), (''permission_denied'', NOT_READ_ONLY),
      (''table_not_found'', UNKNOWN_IDENTIFIER), (''cost_exceeded'', TIMEOUT), (''execution_failed'', EXECUTION_FAILED),
      (''llm_failed'', INFRASTRUCTURE), (''scope_unavailable'', INFRASTRUCTURE),
      (''retrieval_failed'', INFRASTRUCTURE), (''internal_error'', INFRASTRUCTURE)]"

definition infrastructure_types :: "string list" where
  "infrastructure_types = [''llm_failed'', ''scope_unavailable'', ''retrieval_failed'', ''internal_error'']"

definition is_infrastructure :: "string option \<Rightarrow> bool" where
  "is_infrastructure error_type \<longleftrightarrow> (case error_type of None \<Rightarrow> False | Some t \<Rightarrow> t \<in> set infrastructure_types)"

fun from_verdict :: "verdict \<Rightarrow> failure_category option" where
  "from_verdict ORDER_MISMATCH = Some ROW_ORDER"
| "from_verdict SHAPE_MISMATCH = Some WRONG_SHAPE"
| "from_verdict VALUE_MISMATCH = Some WRONG_VALUES"
| "from_verdict NO_COLUMN_BIJECTION = Some WRONG_VALUES"
| "from_verdict MATCH = None"

definition classify ::
  "comparison option \<Rightarrow> recall_result option \<Rightarrow> string option \<Rightarrow> bool \<Rightarrow> rat \<Rightarrow> failure_category" where
  "classify cmp recall error_type gold_failed recall_floor =
     (if gold_failed then GOLD_ERROR
      else if is_infrastructure error_type then INFRASTRUCTURE
      else if error_type = Some ''unanswerable'' then UNANSWERABLE
      else if (case recall of None \<Rightarrow> False
          | Some r \<Rightarrow> \<not> rc_skipped r \<and> rc_at_k r \<noteq> [] \<and> Max (set (map snd (rc_at_k r))) < recall_floor)
      then RETRIEVAL_MISS
      else if truthy error_type then of_option UNCATEGORISED (dict_get from_error_type (the error_type))
      else case cmp of
        None \<Rightarrow> UNCATEGORISED
      | Some c \<Rightarrow> if cmp_matched c then FC_NONE else of_option UNCATEGORISED (from_verdict (cmp_verdict c)))"

definition parse_category :: "string \<Rightarrow> failure_category" where
  "parse_category value =
     (case filter (\<lambda>c. category_value c = value) all_categories of c # _ \<Rightarrow> c | [] \<Rightarrow> UNCATEGORISED)"

definition counts :: "failure_category list \<Rightarrow> (string, nat) dict" where
  "counts categories =
     foldl (\<lambda>tally c. dict_set tally (category_value c) (of_option 0 (dict_get tally (category_value c)) + 1))
       (map (\<lambda>c. (category_value c, 0)) all_categories) categories"

section \<open>Facts\<close>

lemma half_even_near: "floor x \<le> round_half_even x \<and> round_half_even x \<le> floor x + 1"
  by (auto simp: round_half_even_def Let_def)

lemma half_even_mono: "x \<le> y \<Longrightarrow> round_half_even x \<le> round_half_even y"
proof -
  assume le: "x \<le> y"
  then have f: "floor x \<le> floor y" by (rule floor_mono)
  show ?thesis
  proof (cases "floor x = floor y")
    case True
    then have "x - of_int (floor x) \<le> y - of_int (floor y)" using le by simp
    then show ?thesis using True by (auto simp: round_half_even_def Let_def)
  next
    case False
    then show ?thesis using f half_even_near [of x] half_even_near [of y] by linarith
  qed
qed

lemma half_even_int: "round_half_even (of_int n) = n"
  by (simp add: round_half_even_def)

lemma places_mono: "x \<le> y \<Longrightarrow> round_places k x \<le> round_places k y"
  unfolding round_places_def
  by (intro divide_right_mono) (simp_all add: half_even_mono mult_right_mono)

lemma places_int: "round_places k (of_int n) = of_int n"
proof -
  have "(of_int n :: rat) * 10 ^ k = of_int (n * 10 ^ k)" by simp
  then have "round_half_even ((of_int n :: rat) * 10 ^ k) = n * 10 ^ k" using half_even_int by metis
  then show ?thesis by (simp add: round_places_def)
qed

lemma places_unit: "0 \<le> x \<Longrightarrow> x \<le> 1 \<Longrightarrow> 0 \<le> round_places k x \<and> round_places k x \<le> 1"
  using places_mono [of 0 x k] places_mono [of x 1 k] places_int [of k 0] places_int [of k 1] by simp

lemma prefix_mono: "0 \<le> k \<Longrightarrow> k \<le> k' \<Longrightarrow> set (py_prefix k xs) \<subseteq> set (py_prefix k' xs)"
  by (simp add: py_prefix_def set_take_subset_set_take)

lemma found_mono: "set w \<subseteq> set w' \<Longrightarrow> found_in w x \<Longrightarrow> found_in w' x"
  by (auto simp: found_in_def Let_def split: prod.splits option.splits)

lemma fraction_unit: "finite T \<Longrightarrow> 0 \<le> (of_nat (card (Set.filter P T)) :: rat) / of_nat (card T)
    \<and> (of_nat (card (Set.filter P T)) :: rat) / of_nat (card T) \<le> 1"
  using card_mono [of T "Set.filter P T"] by (auto simp: divide_le_eq_1 Set.filter_eq)

lemma recall_at_unit: "finite (recall_targets g) \<Longrightarrow> 0 \<le> recall_at g r k \<and> recall_at g r k \<le> 1"
  using fraction_unit [of "recall_targets g"] by (auto simp: recall_at_def Let_def intro!: places_unit [THEN conjunct1] places_unit [THEN conjunct2])

lemma recall_at_mono:
  assumes "finite (recall_targets g)" "0 \<le> k" "k \<le> k'"
  shows "recall_at g r k \<le> recall_at g r k'"
proof -
  have "Set.filter (found_in (py_prefix k r)) (recall_targets g) \<subseteq> Set.filter (found_in (py_prefix k' r)) (recall_targets g)"
    using prefix_mono [OF assms(2,3), of r] found_mono by (fastforce simp: Set.filter_eq)
  then have "card (Set.filter (found_in (py_prefix k r)) (recall_targets g))
      \<le> card (Set.filter (found_in (py_prefix k' r)) (recall_targets g))"
    using assms(1) by (intro card_mono) (auto simp: Set.filter_eq)
  then show ?thesis by (auto simp: recall_at_def Let_def intro!: places_mono divide_right_mono)
qed

lemma at_k_dict: "map_of (foldl (\<lambda>d k. dict_set d k (f k)) d ks) k = (if k \<in> set ks then Some (f k) else map_of d k)"
  by (induction ks arbitrary: d) auto

text \<open>The elements of a statement are finitely many.\<close>

definition finite_elements :: "gold_elements \<Rightarrow> bool" where
  "finite_elements g \<longleftrightarrow> finite (ge_tables g) \<and> finite (ge_columns g)"

lemma finite_add_column: "finite_elements g \<Longrightarrow> finite_elements (add_column G ctes a g c)"
  by (auto simp: add_column_def finite_elements_def Let_def split: list.splits)

lemma finite_columns: "finite_elements g \<Longrightarrow> finite_elements (foldl (add_column G ctes a) g cs)"
  by (induction cs arbitrary: g) (auto simp: finite_add_column)

lemma finite_scopes: "finite_elements g \<Longrightarrow> finite_elements (foldl (add_scope G n ctes) g scopes)"
proof (induction scopes arbitrary: g)
  case (Cons s scopes)
  have "finite_elements (add_scope G n ctes g s)"
    using Cons.prems by (auto simp: add_scope_def Let_def finite_elements_def intro!: finite_columns [unfolded finite_elements_def])
  then show ?case using Cons.IH by simp
qed simp

lemma finite_extracted: "finite (recall_targets (extract_gold_elements G sql))"
proof -
  have "finite_elements no_elements" by (simp add: finite_elements_def no_elements_def)
  then have "finite_elements (extract_gold_elements G sql)"
    by (auto simp: extract_gold_elements_def Let_def finite_scopes finite_elements_def no_elements_def
        intro!: finite_scopes [unfolded finite_elements_def] split: sum.splits)
  then show ?thesis by (simp add: recall_targets_def finite_elements_def)
qed

lemma category_value_inject [simp]: "category_value c = category_value d \<longleftrightarrow> c = d"
  by (cases c; cases d) simp_all

lemma all_categories [simp]: "c \<in> set all_categories"
  by (cases c) (simp_all add: all_categories_def)

lemma parse_value: "parse_category (category_value c) = c"
proof -
  have "filter (\<lambda>d. category_value d = category_value c) all_categories = [c]"
    by (cases c) (simp_all add: all_categories_def)
  then show ?thesis by (simp add: parse_category_def)
qed

lemma counts_add:
  assumes "distinct (map fst tally)"
  shows "sum_list (map snd (foldl (\<lambda>tally c. dict_set tally (category_value c)
      (of_option 0 (dict_get tally (category_value c)) + 1)) tally cs)) = sum_list (map snd tally) + length cs"
proof -
  have one: "sum_list (map snd (dict_set d k (of_option 0 (dict_get d k) + (1 :: nat)))) = sum_list (map snd d) + 1" for d k
    by (induction d) (auto simp: of_option_def)
  show ?thesis by (induction cs arbitrary: tally) (simp_all add: one [simplified])
qed

section \<open>Properties\<close>

text \<open>Recall at k is a share that grows with k. For every gold query with a usable element, whatever was
  retrieved, the values reported for two bounds k and k' with k at most k' lie between 0 and 1 and do
  not decrease; a query with no usable element is skipped and reports nothing.\<close>

theorem recall_grows_with_k:
  fixes G :: "'n sqlglot"
  assumes k: "0 \<le> k" "k \<le> k'" "k \<in> set ks" "k' \<in> set ks"
  shows "let g = extract_gold_elements G sql; r = compute_recall g retrieved ks in
    if is_usable g
    then \<exists>v v'. dict_get (rc_at_k r) k = Some v \<and> dict_get (rc_at_k r) k' = Some v' \<and> 0 \<le> v \<and> v \<le> v' \<and> v' \<le> 1
    else rc_skipped r \<and> rc_at_k r = []"
proof -
  note fin = finite_extracted [of G sql]
  show ?thesis
    using recall_at_unit [OF fin, of retrieved k] recall_at_unit [OF fin, of retrieved k']
      recall_at_mono [OF fin k(1,2), of retrieved] k(3,4)
    by (simp add: Let_def compute_recall_def at_k_dict)
qed

theorem recall_grows_with_k_witness:
  "let g = extract_gold_elements (toy (\<lambda>_. Inl [])) ''x''; r = compute_recall g [] [1, 5] in
    rc_skipped r \<and> rc_at_k r = []"
proof -
  have "\<not> is_usable (extract_gold_elements (toy (\<lambda>_. Inl [])) ''x'')"
    by (simp add: extract_gold_elements_def toy_def no_elements_def is_usable_def)
  then show ?thesis
    using recall_grows_with_k [of 1 5 "[1, 5]" "toy (\<lambda>_. Inl [])" "''x''" "[]"] by (simp add: Let_def)
qed

definition below_floor :: "recall_result option \<Rightarrow> rat \<Rightarrow> bool" where
  "below_floor recall fl = (case recall of None \<Rightarrow> False
     | Some r \<Rightarrow> \<not> rc_skipped r \<and> rc_at_k r \<noteq> [] \<and> Max (set (map snd (rc_at_k r))) < fl)"

text \<open>The category of a question decides what is counted. A question is left out of the score exactly
  when its gold query failed or the system was never asked; it counts as no failure exactly when it
  was asked, answered without an error, not filed as a retrieval miss, and its rows match; every
  stored category reads back; and the counts over all categories add up to the questions.\<close>

theorem categories_account:
  "(classify cmp recall et gold_failed fl \<in> {GOLD_ERROR, INFRASTRUCTURE} \<longleftrightarrow> gold_failed \<or> is_infrastructure et)
   \<and> (classify cmp recall et gold_failed fl = FC_NONE \<longleftrightarrow> \<not> gold_failed \<and> \<not> truthy et
        \<and> (\<exists>c. cmp = Some c \<and> cmp_matched c)
        \<and> \<not> below_floor recall fl)
   \<and> parse_category (category_value (classify cmp recall et gold_failed fl)) = classify cmp recall et gold_failed fl
   \<and> sum_list (map snd (counts cs)) = length cs"
proof -
  have table: "truthy et \<Longrightarrow> \<not> is_infrastructure et \<Longrightarrow>
      of_option UNCATEGORISED (dict_get from_error_type (the et)) \<notin> {GOLD_ERROR, INFRASTRUCTURE, FC_NONE}"
    by (cases et) (auto simp: truthy_def is_infrastructure_def infrastructure_types_def from_error_type_def of_option_def)
  have verdicts: "of_option UNCATEGORISED (from_verdict v) \<notin> {GOLD_ERROR, INFRASTRUCTURE, FC_NONE}" for v
    by (cases v) (simp_all add: of_option_def)
  have infra: "is_infrastructure et \<Longrightarrow> truthy et" "et = Some ''unanswerable'' \<Longrightarrow> truthy et \<and> \<not> is_infrastructure et"
    by (auto simp: is_infrastructure_def infrastructure_types_def truthy_def split: option.splits)
  let ?miss = "below_floor recall fl"
  have cl: "classify cmp recall et gold_failed fl =
     (if gold_failed then GOLD_ERROR else if is_infrastructure et then INFRASTRUCTURE
      else if et = Some ''unanswerable'' then UNANSWERABLE else if ?miss then RETRIEVAL_MISS
      else if truthy et then of_option UNCATEGORISED (dict_get from_error_type (the et))
      else case cmp of None \<Rightarrow> UNCATEGORISED
       | Some c \<Rightarrow> if cmp_matched c then FC_NONE else of_option UNCATEGORISED (from_verdict (cmp_verdict c)))"
    by (simp add: classify_def below_floor_def)
  have first: "classify cmp recall et gold_failed fl \<in> {GOLD_ERROR, INFRASTRUCTURE} \<longleftrightarrow> gold_failed \<or> is_infrastructure et"
    unfolding cl using table verdicts by (auto split: option.splits)
  have second: "classify cmp recall et gold_failed fl = FC_NONE \<longleftrightarrow> \<not> gold_failed \<and> \<not> truthy et
        \<and> (\<exists>c. cmp = Some c \<and> cmp_matched c) \<and> \<not> ?miss"
    unfolding cl using table verdicts infra by (auto split: option.splits)
  have "distinct (map fst (map (\<lambda>c. (category_value c, 0 :: nat)) all_categories))"
    by (simp add: all_categories_def)
  from counts_add [OF this, of cs]
  have sum: "sum_list (map snd (counts cs)) = length cs"
    by (simp add: counts_def comp_def)
  show ?thesis using first second sum parse_value by blast
qed

text \<open>A question whose rows match can still be filed as a retrieval miss.\<close>

lemma matched_filed_as_miss:
  "classify (Some (outcome False MATCH []))
     (Some \<lparr>rc_at_k = [(20, 1 / 2)], rc_gold_size = 2, rc_unresolved_count = 0, rc_skipped = False\<rparr>) None False 1
   = RETRIEVAL_MISS"
  by (simp add: classify_def is_infrastructure_def)

end
