(* ===== verification/Runs.thy ===== *)
theory Runs
  imports Dataset Scoring "HOL-Library.Monad_Syntax"
begin

text \<open>
  An evaluation run: the directory it records to (\<open>src/evals/artifacts.py\<close>) and the loop that fills it
  (\<open>src/evals/runner.py\<close>). A run directory is the text of its files; the pipeline under test, the query
  runner and the clock are arguments that thread a state; so are the hash, the reader's messages and
  the JSON form of a database value (\<open>persist\<close>). A record whose fields have types that no artifact has
  does not occur: reading one is a \<open>TypeError\<close> here. The progress callback only prints.
\<close>

section \<open>Manifest and artifacts\<close>

record run_manifest =
  mf_run_id :: string
  mf_dataset :: string
  mf_split :: string
  mf_model :: string
  mf_retriever_model_version :: string
  mf_prompt_version :: string
  mf_commit :: string
  mf_seed :: int
  mf_started_at :: string
  mf_notes :: string
  mf_baseline :: string
  mf_code_digest :: string

definition config_fingerprint :: "(string \<Rightarrow> string) \<Rightarrow> (rat \<Rightarrow> string) \<Rightarrow> run_manifest \<Rightarrow> string" where
  "config_fingerprint sha fr m =
     take 16 (sha (render_json fr spaced 0 (JObj
       [(''baseline'', JStr (mf_baseline m)), (''code_digest'', JStr (mf_code_digest m)),
        (''dataset'', JStr (mf_dataset m)), (''model'', JStr (mf_model m)),
        (''prompt_version'', JStr (mf_prompt_version m)),
        (''retriever_model_version'', JStr (mf_retriever_model_version m)),
        (''seed'', JInt (mf_seed m)), (''split'', JStr (mf_split m))])))"

definition manifest_json :: "(string \<Rightarrow> string) \<Rightarrow> (rat \<Rightarrow> string) \<Rightarrow> run_manifest \<Rightarrow> json" where
  "manifest_json sha fr m = JObj
     [(''run_id'', JStr (mf_run_id m)), (''dataset'', JStr (mf_dataset m)), (''split'', JStr (mf_split m)),
      (''model'', JStr (mf_model m)), (''retriever_model_version'', JStr (mf_retriever_model_version m)),
      (''prompt_version'', JStr (mf_prompt_version m)), (''commit'', JStr (mf_commit m)),
      (''seed'', JInt (mf_seed m)), (''started_at'', JStr (mf_started_at m)), (''notes'', JStr (mf_notes m)),
      (''baseline'', JStr (mf_baseline m)), (''code_digest'', JStr (mf_code_digest m)),
      (''config_fingerprint'', JStr (config_fingerprint sha fr m))]"

record artifact =
  qa_question_id :: string
  qa_question :: string
  qa_gold_sql :: string
  qa_generated_sql :: "string option"
  qa_matched :: "bool option"
  qa_verdict :: string
  qa_failure_category :: string
  qa_validation_attempts :: int
  qa_error_type :: "string option"
  qa_error_message :: string
  qa_recall_at_k :: "(int, rat) dict"
  qa_gold_element_count :: int
  qa_unresolved_references :: int
  qa_duration_ms :: rat
  qa_input_tokens :: int
  qa_output_tokens :: int
  qa_answering_model :: string
  qa_gold_rows :: "json list list"
  qa_predicted_rows :: "json list list"
  qa_rows_truncated :: bool

definition max_persisted_rows :: nat where
  "max_persisted_rows = 50"

definition bounded :: "artifact \<Rightarrow> artifact" where
  "bounded a = a\<lparr>qa_gold_rows := take max_persisted_rows (qa_gold_rows a),
     qa_predicted_rows := take max_persisted_rows (qa_predicted_rows a),
     qa_rows_truncated := (length (qa_gold_rows a) > max_persisted_rows
       \<or> length (qa_predicted_rows a) > max_persisted_rows)\<rparr>"

definition max_filename_stem :: nat where
  "max_filename_stem = 80"

definition safe_in_filename :: "char \<Rightarrow> bool" where
  "safe_in_filename c \<longleftrightarrow> is_ascii_letter c \<or> is_digit c \<or> c = CHR ''_'' \<or> c = CHR ''-''"

definition artifact_filename :: "(string \<Rightarrow> string) \<Rightarrow> string \<Rightarrow> string" where
  "artifact_filename sha question_id =
     take max_filename_stem (map (\<lambda>c. if safe_in_filename c then c else CHR ''-'') question_id)
     @ ''-'' @ take 8 (sha question_id) @ ''.json''"

definition null_or :: "('a \<Rightarrow> json) \<Rightarrow> 'a option \<Rightarrow> json" where
  "null_or f x = (case x of None \<Rightarrow> JNull | Some v \<Rightarrow> f v)"

definition artifact_json :: "artifact \<Rightarrow> json" where
  "artifact_json a = JObj
     [(''question_id'', JStr (qa_question_id a)), (''question'', JStr (qa_question a)),
      (''gold_sql'', JStr (qa_gold_sql a)), (''generated_sql'', null_or JStr (qa_generated_sql a)),
      (''matched'', null_or JBool (qa_matched a)), (''verdict'', JStr (qa_verdict a)),
      (''failure_category'', JStr (qa_failure_category a)),
      (''validation_attempts'', JInt (qa_validation_attempts a)),
      (''error_type'', null_or JStr (qa_error_type a)), (''error_message'', JStr (qa_error_message a)),
      (''recall_at_k'', JObj (map (\<lambda>kv. (show_int (fst kv), JFloat (snd kv))) (qa_recall_at_k a))),
      (''gold_element_count'', JInt (qa_gold_element_count a)),
      (''unresolved_references'', JInt (qa_unresolved_references a)),
      (''duration_ms'', JFloat (qa_duration_ms a)), (''input_tokens'', JInt (qa_input_tokens a)),
      (''output_tokens'', JInt (qa_output_tokens a)), (''answering_model'', JStr (qa_answering_model a)),
      (''gold_rows'', JArr (map JArr (qa_gold_rows a))),
      (''predicted_rows'', JArr (map JArr (qa_predicted_rows a))),
      (''rows_truncated'', JBool (qa_rows_truncated a))]"

section \<open>Reading a record back\<close>

definition field :: "(string, json) dict \<Rightarrow> string \<Rightarrow> (json \<Rightarrow> 'a option) \<Rightarrow> 'a option \<Rightarrow> 'a option" where
  "field d k rd dflt = (case dict_get d k of None \<Rightarrow> dflt | Some j \<Rightarrow> rd j)"

fun as_text :: "json \<Rightarrow> string option" where
  "as_text (JStr s) = Some s" | "as_text _ = None"

fun as_int :: "json \<Rightarrow> int option" where
  "as_int (JInt i) = Some i" | "as_int _ = None"

fun as_bool :: "json \<Rightarrow> bool option" where
  "as_bool (JBool b) = Some b" | "as_bool _ = None"

fun as_float :: "json \<Rightarrow> rat option" where
  "as_float (JFloat r) = Some r" | "as_float (JInt i) = Some (of_int i)" | "as_float _ = None"

definition or_null :: "(json \<Rightarrow> 'a option) \<Rightarrow> json \<Rightarrow> 'a option option" where
  "or_null rd j = (if j = JNull then Some None else map_option Some (rd j))"

definition all_some :: "('a \<Rightarrow> 'b option) \<Rightarrow> 'a list \<Rightarrow> 'b list option" where
  "all_some f xs = (if \<forall>x \<in> set xs. f x \<noteq> None then Some (map (\<lambda>x. the (f x)) xs) else None)"

fun as_items :: "json \<Rightarrow> json list option" where
  "as_items (JArr xs) = Some xs" | "as_items _ = None"

definition as_rows :: "json \<Rightarrow> json list list option" where
  "as_rows j = do { xs \<leftarrow> as_items j; all_some as_items xs }"

definition int_key :: "string \<Rightarrow> int option" where
  "int_key k = (if show_int (int_of_text k) = k then Some (int_of_text k) else None)"

text \<open>\<open>{int(k): v for k, v in (data.get("recall_at_k") or {}).items()}\<close>\<close>

definition as_recall :: "json \<Rightarrow> (int, rat) dict option" where
  "as_recall j =
     (if \<not> jtruthy j then Some []
      else case j of
        JObj kvs \<Rightarrow> do {
          pairs \<leftarrow> all_some (\<lambda>kv. do { k \<leftarrow> int_key (fst kv); v \<leftarrow> as_float (snd kv); Some (k, v) }) kvs;
          Some (foldl (\<lambda>d kv. dict_set d (fst kv) (snd kv)) [] pairs) }
      | _ \<Rightarrow> None)"

definition artifact_keys :: "string list" where
  "artifact_keys = [''question_id'', ''question'', ''gold_sql'', ''generated_sql'', ''matched'', ''verdict'',
     ''failure_category'', ''validation_attempts'', ''error_type'', ''error_message'', ''recall_at_k'',
     ''gold_element_count'', ''unresolved_references'', ''duration_ms'', ''input_tokens'', ''output_tokens'',
     ''answering_model'', ''gold_rows'', ''predicted_rows'', ''rows_truncated'']"

definition build_artifact :: "(string, json) dict \<Rightarrow> artifact option" where
  "build_artifact d = do {
     question_id \<leftarrow> field d ''question_id'' as_text None;
     question \<leftarrow> field d ''question'' as_text None;
     gold_sql \<leftarrow> field d ''gold_sql'' as_text None;
     generated_sql \<leftarrow> field d ''generated_sql'' (or_null as_text) (Some None);
     matched \<leftarrow> field d ''matched'' (or_null as_bool) (Some None);
     verdict \<leftarrow> field d ''verdict'' as_text (Some []);
     failure_category \<leftarrow> field d ''failure_category'' as_text (Some ''none'');
     validation_attempts \<leftarrow> field d ''validation_attempts'' as_int (Some 0);
     error_type \<leftarrow> field d ''error_type'' (or_null as_text) (Some None);
     error_message \<leftarrow> field d ''error_message'' as_text (Some []);
     recall_at_k \<leftarrow> field d ''recall_at_k'' as_recall (Some []);
     gold_element_count \<leftarrow> field d ''gold_element_count'' as_int (Some 0);
     unresolved_references \<leftarrow> field d ''unresolved_references'' as_int (Some 0);
     duration_ms \<leftarrow> field d ''duration_ms'' as_float (Some 0);
     input_tokens \<leftarrow> field d ''input_tokens'' as_int (Some 0);
     output_tokens \<leftarrow> field d ''output_tokens'' as_int (Some 0);
     answering_model \<leftarrow> field d ''answering_model'' as_text (Some []);
     gold_rows \<leftarrow> field d ''gold_rows'' as_rows (Some []);
     predicted_rows \<leftarrow> field d ''predicted_rows'' as_rows (Some []);
     rows_truncated \<leftarrow> field d ''rows_truncated'' as_bool (Some False);
     Some \<lparr>qa_question_id = question_id, qa_question = question, qa_gold_sql = gold_sql,
       qa_generated_sql = generated_sql, qa_matched = matched, qa_verdict = verdict,
       qa_failure_category = failure_category, qa_validation_attempts = validation_attempts,
       qa_error_type = error_type, qa_error_message = error_message, qa_recall_at_k = recall_at_k,
       qa_gold_element_count = gold_element_count, qa_unresolved_references = unresolved_references,
       qa_duration_ms = duration_ms, qa_input_tokens = input_tokens, qa_output_tokens = output_tokens,
       qa_answering_model = answering_model, qa_gold_rows = gold_rows, qa_predicted_rows = predicted_rows,
       qa_rows_truncated = rows_truncated\<rparr> }"

definition read_artifact ::
  "(string \<Rightarrow> rat) \<Rightarrow> (string \<Rightarrow> string) \<Rightarrow> string \<Rightarrow> exn + artifact" where
  "read_artifact rd why content =
     (case loads rd content of
        None \<Rightarrow> Inl (value_error (why content))
      | Some (JObj d) \<Rightarrow>
          (if set (map fst d) \<subseteq> set artifact_keys
           then (case build_artifact d of None \<Rightarrow> Inl (OtherError ''TypeError'' []) | Some a \<Rightarrow> Inr a)
           else Inl (OtherError ''TypeError'' []))
      | Some _ \<Rightarrow> Inl (OtherError ''AttributeError'' []))"

section \<open>The run directory\<close>

record run_dir =
  rd_manifest :: "string option"
  rd_files :: "(string, string) dict"
  rd_summary :: "string option"

record store_env =
  se_sha :: "string \<Rightarrow> string"
  se_fr :: "rat \<Rightarrow> string"
  se_rd :: "string \<Rightarrow> rat"
  se_why :: "string \<Rightarrow> string"
  se_root :: string
  se_manifest :: run_manifest

definition file_text :: "(rat \<Rightarrow> string) \<Rightarrow> json \<Rightarrow> string" where
  "file_text fr j = render_json fr (indented 2) 0 j @ [newline]"

definition start :: "store_env \<Rightarrow> run_dir \<Rightarrow> run_dir" where
  "start V d =
     (case rd_manifest d of
        None \<Rightarrow> d\<lparr>rd_manifest := Some (file_text (se_fr V) (manifest_json (se_sha V) (se_fr V) (se_manifest V)))\<rparr>
      | Some _ \<Rightarrow> d)"

text \<open>What \<open>resume\<close> makes of one record: nothing when it is unreadable, else the identifier of its
  question and the error type.\<close>

definition read_record ::
  "(rat \<Rightarrow> string) \<Rightarrow> (string \<Rightarrow> rat) \<Rightarrow> string \<Rightarrow> (string \<times> string option) option" where
  "read_record fr rd content =
     (case loads rd content of
        Some (JObj d) \<Rightarrow>
          (case dict_get d ''question_id'' of
             None \<Rightarrow> None
           | Some q \<Rightarrow> (case dict_get d ''error_type'' of
               None \<Rightarrow> Some (json_str fr q, None)
             | Some JNull \<Rightarrow> Some (json_str fr q, None)
             | Some (JStr t) \<Rightarrow> Some (json_str fr q, Some t)
             | Some _ \<Rightarrow> None))
      | _ \<Rightarrow> None)"

definition answered_id :: "(rat \<Rightarrow> string) \<Rightarrow> (string \<Rightarrow> rat) \<Rightarrow> string \<Rightarrow> string option" where
  "answered_id fr rd content =
     (case read_record fr rd content of
        None \<Rightarrow> None
      | Some (q, t) \<Rightarrow> if is_infrastructure t then None else Some q)"

definition record_names :: "run_dir \<Rightarrow> (string \<times> string) list" where
  "record_names d = filter (\<lambda>f. endswith (fst f) ''.json'') (rd_files d)"

definition resume :: "store_env \<Rightarrow> run_dir \<Rightarrow> exn + string set" where
  "resume V d =
     (case rd_manifest d of
        None \<Rightarrow> Inr {}
      | Some content \<Rightarrow>
         (case loads (se_rd V) content of
            None \<Rightarrow> Inl (value_error (se_why V content))
          | Some (JObj m) \<Rightarrow>
             (let mine = config_fingerprint (se_sha V) (se_fr V) (se_manifest V);
                  theirs = dict_get m ''config_fingerprint'' in
              if theirs \<noteq> Some (JStr mine)
              then Inl (value_error (se_root V @ '' holds a run with a different configuration (''
                @ (case theirs of None \<Rightarrow> ''None'' | Some j \<Rightarrow> json_str (se_fr V) j) @ '' vs '' @ mine
                @ ''). Resuming would mix two configurations into one score. Use a new --run-id, or delete the directory if the earlier run is not worth keeping.''))
              else Inr (set (somes (map (\<lambda>f. answered_id (se_fr V) (se_rd V) (snd f)) (record_names d)))))
          | Some j \<Rightarrow> Inl (OtherError ''AttributeError''
              (py_repr (py_type_name j) @ '' object has no attribute '' @ py_repr ''get''))))"

definition record_artifact :: "store_env \<Rightarrow> artifact \<Rightarrow> (string, string) dict \<Rightarrow> (string, string) dict" where
  "record_artifact V a files =
     dict_set files (artifact_filename (se_sha V) (qa_question_id a)) (file_text (se_fr V) (artifact_json (bounded a)))"

fun read_all :: "('a \<Rightarrow> exn + 'b) \<Rightarrow> 'a list \<Rightarrow> exn + 'b list" where
  "read_all f [] = Inr []"
| "read_all f (x # xs) =
     (case f x of Inl e \<Rightarrow> Inl e | Inr y \<Rightarrow> (case read_all f xs of Inl e \<Rightarrow> Inl e | Inr ys \<Rightarrow> Inr (y # ys)))"

definition artifacts :: "store_env \<Rightarrow> run_dir \<Rightarrow> exn + artifact list" where
  "artifacts V d =
     read_all (\<lambda>f. read_artifact (se_rd V) (se_why V) (snd f)) (sort_key (\<lambda>f. map code (fst f)) (record_names d))"

section \<open>One question\<close>

record attempt =
  at_sql :: "string option"
  at_error_type :: "string option"
  at_error_message :: string
  at_validation_attempts :: int
  at_retrieved :: "(string \<times> string option) list"
  at_input_tokens :: int
  at_output_tokens :: int
  at_answering_model :: string

definition no_attempt :: attempt where
  "no_attempt = \<lparr>at_sql = None, at_error_type = None, at_error_message = [], at_validation_attempts = 0,
     at_retrieved = [], at_input_tokens = 0, at_output_tokens = 0, at_answering_model = []\<rparr>"

text \<open>The pipeline, the query runner and the clock over a state, the parser, and the three arguments of
  the comparison.\<close>

record ('n, 's) eval_env =
  ev_answer :: "'s \<Rightarrow> question \<Rightarrow> (exn + attempt) \<times> 's"
  ev_query :: "'s \<Rightarrow> string \<Rightarrow> string \<Rightarrow> (exn + db_value list list) \<times> 's"
  ev_now :: "'s \<Rightarrow> rat"
  ev_sqlglot :: "'n sqlglot"
  ev_fl :: "rat \<Rightarrow> rat"
  ev_pr :: "canon \<Rightarrow> string"
  ev_persist :: "db_value \<Rightarrow> json"

text \<open>\<open>except Exception\<close>: what is not one propagates.\<close>

definition caught :: "(exn \<Rightarrow> 'a) \<Rightarrow> ('b \<Rightarrow> 'a) \<Rightarrow> (exn + 'b) \<times> 's \<Rightarrow> (exn + 'a) \<times> 's" where
  "caught bad good r =
     (case r of
        (Inr x, s) \<Rightarrow> (Inr (good x), s)
      | (Inl e, s) \<Rightarrow> if isinst e CException then (Inr (bad e), s) else (Inl e, s))"

definition run_sql :: "('n, 's) eval_env \<Rightarrow> 's \<Rightarrow> string \<Rightarrow> string \<Rightarrow> (exn + db_value list list \<times> bool) \<times> 's" where
  "run_sql V s sql db_id = caught (\<lambda>_. ([], True)) (\<lambda>rows. (rows, False)) (ev_query V s sql db_id)"

definition answer_one :: "('n, 's) eval_env \<Rightarrow> 's \<Rightarrow> question \<Rightarrow> (exn + attempt) \<times> 's" where
  "answer_one V s q =
     caught (\<lambda>e. no_attempt\<lparr>at_error_type := Some ''internal_error'', at_error_message := type_name e\<rparr>) (\<lambda>a. a)
       (ev_answer V s q)"

text \<open>The record of an attempt, given the rows of the gold query and, if it was run, of the generated one.\<close>

definition make_artifact ::
  "('n, 's) eval_env \<Rightarrow> question \<Rightarrow> db_value list list \<times> bool \<Rightarrow> attempt
     \<Rightarrow> (db_value list list \<times> bool) option \<Rightarrow> rat \<Rightarrow> artifact" where
  "make_artifact V q gold a executed duration =
     (let recall = compute_recall (extract_gold_elements (ev_sqlglot V) (qn_gold_sql q)) (at_retrieved a) default_k_values;
          failed = (case executed of None \<Rightarrow> False | Some (_, f) \<Rightarrow> f);
          predicted = (case executed of None \<Rightarrow> [] | Some (rows, _) \<Rightarrow> rows);
          error_type = (if failed \<and> \<not> truthy (at_error_type a) then Some ''execution_failed'' else at_error_type a);
          error_message = (if failed \<and> at_error_message a = [] then ''the generated query did not execute''
            else at_error_message a);
          cmp = (case executed of
              Some (rows, False) \<Rightarrow> Some (compare (ev_sqlglot V) (ev_fl V) (ev_pr V) (Some (qn_gold_sql q)) None rows (fst gold))
            | _ \<Rightarrow> None);
          category = classify cmp (Some recall) error_type (snd gold) 1 in
      \<lparr>qa_question_id = qn_id q, qa_question = qn_question q, qa_gold_sql = qn_gold_sql q,
       qa_generated_sql = at_sql a, qa_matched = map_option cmp_matched cmp,
       qa_verdict = (case cmp of None \<Rightarrow> [] | Some c \<Rightarrow> (case cmp_verdict c of MATCH \<Rightarrow> ''match''
          | SHAPE_MISMATCH \<Rightarrow> ''shape_mismatch'' | VALUE_MISMATCH \<Rightarrow> ''value_mismatch''
          | ORDER_MISMATCH \<Rightarrow> ''order_mismatch'' | NO_COLUMN_BIJECTION \<Rightarrow> ''no_column_bijection'')),
       qa_failure_category = category_value category, qa_validation_attempts = at_validation_attempts a,
       qa_error_type = error_type, qa_error_message = error_message, qa_recall_at_k = rc_at_k recall,
       qa_gold_element_count = int (rc_gold_size recall), qa_unresolved_references = int (rc_unresolved_count recall),
       qa_duration_ms = duration, qa_input_tokens = at_input_tokens a, qa_output_tokens = at_output_tokens a,
       qa_answering_model = at_answering_model a, qa_gold_rows = map (map (ev_persist V)) (fst gold),
       qa_predicted_rows = map (map (ev_persist V)) predicted, qa_rows_truncated = False\<rparr>)"

definition evaluate :: "('n, 's) eval_env \<Rightarrow> 's \<Rightarrow> question \<Rightarrow> (exn + artifact) \<times> 's" where
  "evaluate V s q =
     (let started = ev_now V s; (gold, s1) = run_sql V s (qn_gold_sql q) (qn_db_id q) in
      case gold of
        Inl e \<Rightarrow> (Inl e, s1)
      | Inr g \<Rightarrow>
         (let (answered, s2) = answer_one V s1 q in
          case answered of
            Inl e \<Rightarrow> (Inl e, s2)
          | Inr a \<Rightarrow>
              if \<not> snd g \<and> truthy (at_sql a)
              then (let (executed, s3) = run_sql V s2 (the (at_sql a)) (qn_db_id q) in
                (case executed of Inl e \<Rightarrow> Inl e
                   | Inr r \<Rightarrow> Inr (make_artifact V q g a (Some r) ((ev_now V s3 - started) * 1000)), s3))
              else (Inr (make_artifact V q g a None ((ev_now V s2 - started) * 1000)), s2)))"

section \<open>The summary\<close>

record run_summary =
  rs_total :: nat
  rs_scored :: nat
  rs_matched :: nat
  rs_gold_errors :: nat
  rs_infrastructure_errors :: nat
  rs_answered_by :: "(string, nat) dict"
  rs_failures :: "(string, nat) dict"
  rs_recall :: "(string, rat) dict"
  rs_input_tokens :: int
  rs_output_tokens :: int
  rs_duration_ms :: rat

definition single_model :: "run_summary \<Rightarrow> bool" where
  "single_model s \<longleftrightarrow> length (rs_answered_by s) \<le> 1"

definition execution_accuracy :: "run_summary \<Rightarrow> rat option" where
  "execution_accuracy s =
     (if rs_scored s = 0 then None else Some (round_places 4 (of_nat (rs_matched s) / of_nat (rs_scored s))))"

definition unscored :: "artifact \<Rightarrow> bool" where
  "unscored a \<longleftrightarrow> qa_failure_category a \<in> {category_value GOLD_ERROR, category_value INFRASTRUCTURE}"

definition recall_summary :: "artifact list \<Rightarrow> (string, rat) dict" where
  "recall_summary as =
     [(''questions'', of_nat (length as)), (''scored'', of_nat (length (filter (\<lambda>a. qa_recall_at_k a \<noteq> []) as))),
      (''unresolved_references'', of_int (sum_list (map qa_unresolved_references as)))]
     @ map (\<lambda>k. (''recall@'' @ show_int k,
          mean4 (map snd (filter (\<lambda>kv. fst kv = k) (concat (map qa_recall_at_k as))))))
        (sort (remdups (map fst (concat (map qa_recall_at_k as)))))"

definition summarise :: "artifact list \<Rightarrow> run_summary" where
  "summarise as =
     (let scorable = filter (\<lambda>a. \<not> unscored a) as in
      \<lparr>rs_total = length as, rs_scored = length scorable,
       rs_matched = length (filter (\<lambda>a. qa_matched a = Some True) scorable),
       rs_gold_errors = length (filter (\<lambda>a. qa_failure_category a = category_value GOLD_ERROR) as),
       rs_infrastructure_errors = length (filter (\<lambda>a. qa_failure_category a = category_value INFRASTRUCTURE) as),
       rs_answered_by = foldl (\<lambda>d m. dict_set d m (of_option 0 (dict_get d m) + 1)) []
         (filter (\<lambda>m. m \<noteq> []) (map qa_answering_model as)),
       rs_failures = counts (map (\<lambda>a. parse_category (qa_failure_category a)) as),
       rs_recall = recall_summary as, rs_input_tokens = sum_list (map qa_input_tokens as),
       rs_output_tokens = sum_list (map qa_output_tokens as),
       rs_duration_ms = sum_list (map qa_duration_ms as)\<rparr>)"

definition summary_json :: "run_summary \<Rightarrow> (string, json) dict" where
  "summary_json s =
     [(''total'', JInt (int (rs_total s))), (''scored'', JInt (int (rs_scored s))), (''matched'', JInt (int (rs_matched s))),
      (''gold_errors'', JInt (int (rs_gold_errors s))),
      (''infrastructure_errors'', JInt (int (rs_infrastructure_errors s))),
      (''execution_accuracy'', null_or JFloat (execution_accuracy s)),
      (''answered_by'', JObj (map (\<lambda>kv. (fst kv, JInt (int (snd kv)))) (rs_answered_by s))),
      (''single_model'', JBool (single_model s)),
      (''failures'', JObj (map (\<lambda>kv. (fst kv, JInt (int (snd kv)))) (rs_failures s))),
      (''recall'', JObj (map (\<lambda>kv. (fst kv, if fst kv \<in> {''questions'', ''scored'', ''unresolved_references''}
         then JInt (floor (snd kv)) else JFloat (snd kv))) (rs_recall s))),
      (''input_tokens'', JInt (rs_input_tokens s)), (''output_tokens'', JInt (rs_output_tokens s)),
      (''duration_ms'', JFloat (round_places 1 (rs_duration_ms s)))]"

section \<open>The loop\<close>

definition default_halt_after :: int where
  "default_halt_after = 10"

fun run_loop ::
  "store_env \<Rightarrow> ('n, 's) eval_env \<Rightarrow> int option \<Rightarrow> int \<Rightarrow> 's \<Rightarrow> (string, string) dict \<Rightarrow> question list
     \<Rightarrow> exn option \<times> 's \<times> (string, string) dict" where
  "run_loop V E halt_after consecutive s files [] = (None, s, files)"
| "run_loop V E halt_after consecutive s files (q # qs) =
     (case evaluate E s q of
        (Inl e, s1) \<Rightarrow> (Some e, s1, files)
      | (Inr a, s1) \<Rightarrow>
         (let files1 = record_artifact V a files;
              now = (if is_infrastructure (qa_error_type a) then consecutive + 1 else 0) in
          if (case halt_after of None \<Rightarrow> False | Some n \<Rightarrow> now \<ge> n) then (None, s1, files1)
          else run_loop V E halt_after now s1 files1 qs))"

definition run_checked ::
  "store_env \<Rightarrow> ('n, 's) eval_env \<Rightarrow> int option \<Rightarrow> 's \<Rightarrow> run_dir \<Rightarrow> question list
     \<Rightarrow> (exn + run_summary) \<times> 's \<times> run_dir" where
  "run_checked V E halt_after s d qs =
     (let d1 = start V d in
      case resume V d1 of
        Inl e \<Rightarrow> (Inl e, s, d1)
      | Inr seen \<Rightarrow>
         (case run_loop V E halt_after 0 s (rd_files d1) (filter (\<lambda>q. qn_id q \<notin> seen) qs) of
            (Some e, s1, files) \<Rightarrow> (Inl e, s1, d1\<lparr>rd_files := files\<rparr>)
          | (None, s1, files) \<Rightarrow>
             (let d2 = d1\<lparr>rd_files := files\<rparr> in
              case artifacts V d2 of
                Inl e \<Rightarrow> (Inl e, s1, d2)
              | Inr as \<Rightarrow>
                 (let summary = summarise as in
                  (Inr summary, s1, d2\<lparr>rd_summary := Some (file_text (se_fr V) (JObj (summary_json summary
                     @ [(''manifest'', manifest_json (se_sha V) (se_fr V) (se_manifest V))])))\<rparr>)))))"

definition run ::
  "store_env \<Rightarrow> ('n, 's) eval_env \<Rightarrow> int option \<Rightarrow> 's \<Rightarrow> run_dir \<Rightarrow> question list
     \<Rightarrow> (exn + run_summary) \<times> 's \<times> run_dir" where
  "run V E halt_after s d qs =
     (case halt_after of
        Some n \<Rightarrow> if n < 1 then (Inl (value_error (''halt_after must be at least 1 or None, got '' @ show_int n)), s, d)
          else run_checked V E halt_after s d qs
      | None \<Rightarrow> run_checked V E halt_after s d qs)"

section \<open>Facts: records read back\<close>

lemma show_int_inject [simp]: "show_int i = show_int j \<longleftrightarrow> i = j"
  by (metis int_of_show)

lemma int_key_show [simp]: "int_key (show_int i) = Some i"
  by (simp add: int_key_def int_of_show)

lemma all_some_map: "(\<And>x. x \<in> set xs \<Longrightarrow> f (g x) = Some (h x)) \<Longrightarrow> all_some f (map g xs) = Some (map h xs)"
  by (auto simp: all_some_def)

lemma as_recall_json:
  assumes "distinct (map fst r)"
  shows "as_recall (JObj (map (\<lambda>kv. (show_int (fst kv), JFloat (snd kv))) r)) = Some r"
proof -
  have "all_some (\<lambda>kv. do { k \<leftarrow> int_key (fst kv); v \<leftarrow> as_float (snd kv); Some (k, v) })
      (map (\<lambda>kv. (show_int (fst kv), JFloat (snd kv))) r) = Some (map (\<lambda>kv. (fst kv, snd kv)) r)"
    by (rule all_some_map) simp
  then have all: "all_some (\<lambda>kv. do { k \<leftarrow> int_key (fst kv); v \<leftarrow> as_float (snd kv); Some (k, v) })
      (map (\<lambda>kv. (show_int (fst kv), JFloat (snd kv))) r) = Some r" by simp
  have build: "foldl (\<lambda>d kv. dict_set d (fst kv) (snd kv)) [] r = r"
    using dict_build [of "[]" r] assms by simp
  show ?thesis
    unfolding as_recall_def using all build by (auto simp: Option.bind_def)
qed

lemma as_rows_json: "as_rows (JArr (map JArr rows)) = Some rows"
proof -
  have "all_some as_items (map JArr rows) = Some (map (\<lambda>x. x) rows)" by (rule all_some_map) simp
  then show ?thesis by (simp add: as_rows_def)
qed

lemma or_null_json [simp]:
  "or_null as_text (null_or JStr x) = Some x" "or_null as_bool (null_or JBool y) = Some y"
  by (cases x; simp add: or_null_def null_or_def) (cases y; simp add: or_null_def null_or_def)

definition artifact_members :: "artifact \<Rightarrow> (string, json) dict" where
  "artifact_members a = (case artifact_json a of JObj d \<Rightarrow> d | _ \<Rightarrow> [])"

lemma artifact_json_members: "artifact_json a = JObj (artifact_members a)"
  by (simp add: artifact_members_def artifact_json_def)

lemma artifact_member_keys: "map fst (artifact_members a) = artifact_keys"
  by (simp add: artifact_members_def artifact_json_def artifact_keys_def)

lemma build_artifact_members:
  assumes "distinct (map fst (qa_recall_at_k a))"
  shows "build_artifact (artifact_members a) = Some a"
  by (simp add: build_artifact_def field_def artifact_members_def artifact_json_def as_recall_json [OF assms] as_rows_json)

definition artifact_ok :: "artifact \<Rightarrow> bool" where
  "artifact_ok a \<longleftrightarrow> distinct (map fst (qa_recall_at_k a))
     \<and> (\<forall>row \<in> set (qa_gold_rows a) \<union> set (qa_predicted_rows a). \<forall>v \<in> set row. json_ok v)"

lemma artifact_json_ok: "artifact_ok a \<Longrightarrow> json_ok (artifact_json a)"
proof -
  assume ok: "artifact_ok a"
  have keys: "distinct (map fst (artifact_members a))"
    unfolding artifact_member_keys by (simp add: artifact_keys_def)
  have recall: "json_ok (JObj (map (\<lambda>kv. (show_int (fst kv), JFloat (snd kv))) (qa_recall_at_k a)))"
    using ok by (auto simp: artifact_ok_def distinct_map inj_on_def comp_def)
  have rows: "json_ok (JArr (map JArr (qa_gold_rows a)))" "json_ok (JArr (map JArr (qa_predicted_rows a)))"
    using ok by (auto simp: artifact_ok_def)
  have small: "json_ok (null_or JStr x)" "json_ok (null_or JBool y)" for x y
    by (cases x; simp add: null_or_def) (cases y; simp add: null_or_def)
  have "list_all (\<lambda>kv. json_ok (snd kv)) (artifact_members a)"
    using recall rows small by (simp add: artifact_members_def artifact_json_def del: json_ok.simps(6,7))
  then show ?thesis using keys by (simp add: artifact_json_members list_all_iff)
qed

lemma artifact_ok_bounded: "artifact_ok a \<Longrightarrow> artifact_ok (bounded a)"
  by (auto simp: artifact_ok_def bounded_def dest: in_set_takeD)

lemma file_text_loads:
  "float_reads rd fr \<Longrightarrow> json_ok j \<Longrightarrow> loads rd (file_text fr j) = Some j"
  unfolding file_text_def by (rule loads_render_line) simp_all

lemma read_artifact_text:
  assumes F: "float_reads rd fr" and ok: "artifact_ok a"
  shows "read_artifact rd why (file_text fr (artifact_json a)) = Inr a"
proof -
  have "loads rd (file_text fr (artifact_json a)) = Some (JObj (artifact_members a))"
    using file_text_loads [OF F artifact_json_ok [OF ok]] by (simp add: artifact_json_members)
  moreover have "set (map fst (artifact_members a)) \<subseteq> set artifact_keys" unfolding artifact_member_keys by simp
  ultimately show ?thesis
    using build_artifact_members [of a] ok by (simp add: read_artifact_def artifact_ok_def)
qed

lemma read_record_text:
  assumes F: "float_reads rd fr" and ok: "artifact_ok a"
  shows "read_record fr rd (file_text fr (artifact_json a)) = Some (qa_question_id a, qa_error_type a)"
proof -
  have "loads rd (file_text fr (artifact_json a)) = Some (JObj (artifact_members a))"
    using file_text_loads [OF F artifact_json_ok [OF ok]] by (simp add: artifact_json_members)
  moreover have "dict_get (artifact_members a) ''question_id'' = Some (JStr (qa_question_id a))"
    "dict_get (artifact_members a) ''error_type'' = Some (null_or JStr (qa_error_type a))"
    by (simp_all add: artifact_members_def artifact_json_def)
  ultimately show ?thesis
    by (cases "qa_error_type a") (simp_all add: read_record_def json_str_def null_or_def)
qed

lemma bounded_keeps [simp]: "qa_question_id (bounded a) = qa_question_id a" "qa_error_type (bounded a) = qa_error_type a"
  "qa_recall_at_k (bounded a) = qa_recall_at_k a"
  by (simp_all add: bounded_def)

lemma recall_keys_distinct: "distinct (map fst (foldl (\<lambda>d k. dict_set d k (f k)) d ks))" if "distinct (map fst d)"
  using that by (induction ks arbitrary: d) (auto simp: distinct_dict_set)

lemma make_artifact_ok:
  assumes "\<And>v. json_ok (ev_persist E v)"
  shows "artifact_ok (make_artifact E q g a r t)" "qa_question_id (make_artifact E q g a r t) = qn_id q"
proof -
  have "distinct (map fst (rc_at_k (compute_recall e x ks)))" for e x ks
    by (simp add: compute_recall_def recall_keys_distinct)
  then show "artifact_ok (make_artifact E q g a r t)" "qa_question_id (make_artifact E q g a r t) = qn_id q"
    using assms by (auto simp: artifact_ok_def make_artifact_def Let_def)
qed

lemma evaluate_artifact:
  assumes "fst (evaluate E s q) = Inr a"
  shows "\<exists>g x r t. a = make_artifact E q g x r t"
  using assms by (auto simp: evaluate_def Let_def split: prod.splits sum.splits if_splits) blast+

section \<open>Facts: runs\<close>

text \<open>The name a question is recorded under, and the text of a record.\<close>

definition record_name :: "store_env \<Rightarrow> question \<Rightarrow> string" where
  "record_name V q = artifact_filename (se_sha V) (qn_id q)"

definition record_text :: "store_env \<Rightarrow> artifact \<Rightarrow> string" where
  "record_text V a = file_text (se_fr V) (artifact_json (bounded a))"

lemma record_artifact_set:
  "qa_question_id a = qn_id q \<Longrightarrow> record_artifact V a files = dict_set files (record_name V q) (record_text V a)"
  by (simp add: record_artifact_def record_name_def record_text_def)

text \<open>The questions a loop evaluated and the records it made of them, in order.\<close>

lemma run_loop_trace:
  assumes P: "\<And>v. json_ok (ev_persist E v)"
  shows "run_loop V E h c s files qs = (err, s', files') \<Longrightarrow>
    \<exists>don as. prefix don qs \<and> length as = length don
      \<and> (\<forall>i < length as. artifact_ok (as ! i) \<and> qa_question_id (as ! i) = qn_id (don ! i))
      \<and> files' = foldl (\<lambda>f qa. dict_set f (record_name V (fst qa)) (record_text V (snd qa))) files (zip don as)
      \<and> (err = None \<longrightarrow> h = None \<longrightarrow> don = qs)"
proof (induction qs arbitrary: c s files)
  case Nil
  then show ?case by auto
next
  case (Cons q qs)
  obtain out s1 where ev: "evaluate E s q = (out, s1)" by fastforce
  show ?case
  proof (cases out)
    case (Inl e)
    then show ?thesis using Cons.prems ev by (intro exI [of _ "[]"]) auto
  next
    case (Inr a)
    have "fst (evaluate E s q) = Inr a" using ev Inr by simp
    from evaluate_artifact [OF this]
    have a: "artifact_ok a" "qa_question_id a = qn_id q" using make_artifact_ok [OF P] by auto
    define now where "now = (if is_infrastructure (qa_error_type a) then c + 1 else 0)"
    let ?f = "dict_set files (record_name V q) (record_text V a)"
    show ?thesis
    proof (cases "case h of None \<Rightarrow> False | Some n \<Rightarrow> now \<ge> n")
      case True
      then have "(err, s', files') = (None, s1, ?f)" "h \<noteq> None"
        using Cons.prems ev Inr by (simp_all add: record_artifact_set [OF a(2)] Let_def now_def split: option.splits)
      then show ?thesis using a by (intro exI [of _ "[q]"] exI [of _ "[a]"]) auto
    next
      case False
      then have rest: "run_loop V E h now s1 ?f qs = (err, s', files')"
        using Cons.prems ev Inr by (simp add: record_artifact_set [OF a(2)] Let_def now_def split: option.splits if_splits)
      from Cons.IH [OF this] obtain don as where "prefix don qs" "length as = length don"
        "\<forall>i < length as. artifact_ok (as ! i) \<and> qa_question_id (as ! i) = qn_id (don ! i)"
        "files' = foldl (\<lambda>f qa. dict_set f (record_name V (fst qa)) (record_text V (snd qa))) ?f (zip don as)"
        "err = None \<longrightarrow> h = None \<longrightarrow> don = qs" by blast
      then show ?thesis using a
        by (intro exI [of _ "q # don"] exI [of _ "a # as"]) (auto simp: nth_Cons split: nat.splits)
    qed
  qed
qed

lemma files_after:
  "map_of (foldl (\<lambda>f qa. dict_set f (name (fst qa)) (content (snd qa))) files pairs) k =
     (case map_of (rev (map (\<lambda>qa. (name (fst qa), content (snd qa))) pairs)) k of
        None \<Rightarrow> map_of files k | Some t \<Rightarrow> Some t)"
  by (induction pairs arbitrary: files) (auto simp: map_add_def split: option.splits)

lemma names_after:
  "distinct (map fst files) \<Longrightarrow>
     distinct (map fst (foldl (\<lambda>f qa. dict_set f (name (fst qa)) (content (snd qa))) files pairs))"
  by (induction pairs arbitrary: files) (auto simp: distinct_dict_set)

text \<open>Every readable record stands under the name of its question.\<close>

definition well_named :: "store_env \<Rightarrow> (string, string) dict \<Rightarrow> bool" where
  "well_named V files \<longleftrightarrow> (\<forall>f content q t. dict_get files f = Some content \<longrightarrow>
     read_record (se_fr V) (se_rd V) content = Some (q, t) \<longrightarrow> f = artifact_filename (se_sha V) q)"

lemma record_name_json: "endswith (record_name V q) ''.json''"
  by (simp add: record_name_def artifact_filename_def endswith_def suffix_def)

text \<open>The questions answered in a directory.\<close>

definition answered_in :: "store_env \<Rightarrow> run_dir \<Rightarrow> string set" where
  "answered_in V d = set (somes (map (\<lambda>f. answered_id (se_fr V) (se_rd V) (snd f)) (record_names d)))"

lemma answered_inD:
  assumes "q \<in> answered_in V d" "distinct (map fst (rd_files d))"
  shows "\<exists>f content t. dict_get (rd_files d) f = Some content
    \<and> read_record (se_fr V) (se_rd V) content = Some (q, t) \<and> \<not> is_infrastructure t"
proof -
  obtain f content where f: "(f, content) \<in> set (rd_files d)" "answered_id (se_fr V) (se_rd V) content = Some q"
    using assms(1) by (auto simp: answered_in_def record_names_def in_somes)
  have "dict_get (rd_files d) f = Some content" using assms(2) f(1) by simp
  moreover obtain t where "read_record (se_fr V) (se_rd V) content = Some (q, t)" "\<not> is_infrastructure t"
    using f(2) by (auto simp: answered_id_def split: option.splits if_splits)
  ultimately show ?thesis by blast
qed

lemma answered_inI:
  assumes "dict_get (rd_files d) (record_name V q) = Some content"
    and "read_record (se_fr V) (se_rd V) content = Some (i, t)" "\<not> is_infrastructure t"
  shows "i \<in> answered_in V d"
proof -
  have "(record_name V q, content) \<in> set (rd_files d)" using assms(1) by (rule map_of_SomeD)
  moreover have "answered_id (se_fr V) (se_rd V) content = Some i" using assms(2,3) by (simp add: answered_id_def)
  ultimately show ?thesis
    unfolding answered_in_def in_somes record_names_def
    using record_name_json by (force simp: in_somes)
qed

lemma added_record:
  "map_of (rev (map (\<lambda>qa. (record_name V (fst qa), record_text V (snd qa))) (zip don as))) f = Some content \<Longrightarrow>
     length as = length don \<Longrightarrow>
     \<exists>i < length as. f = record_name V (don ! i) \<and> content = record_text V (as ! i)"
  by (drule map_of_SomeD) (auto simp: in_set_zip)

lemma run_success:
  assumes "run V E h s d qs = (Inr sm, s', d')"
  shows "\<exists>seen files. resume V (start V d) = Inr seen
    \<and> run_loop V E h 0 s (rd_files d) (filter (\<lambda>q. qn_id q \<notin> seen) qs) = (None, s', files)
    \<and> rd_files d' = files"
  using assms
  by (auto simp: run_def run_checked_def start_def Let_def split: option.splits sum.splits prod.splits if_splits)

lemma start_files [simp]: "rd_files (start V d) = rd_files d"
  by (simp add: start_def split: option.splits)

lemma resume_answered: "resume V d = Inr seen \<Longrightarrow> rd_manifest d \<noteq> None \<Longrightarrow> seen = answered_in V d"
  by (auto simp: resume_def answered_in_def Let_def split: option.splits json.splits if_splits)

lemma started: "rd_manifest (start V d) \<noteq> None"
  by (auto simp: start_def split: option.splits)

lemma answered_start [simp]: "answered_in V (start V d) = answered_in V d"
  by (simp add: answered_in_def record_names_def)

text \<open>A manifest the program wrote passes the check of the same configuration.\<close>

lemma own_manifest:
  assumes F: "float_reads (se_rd V) (se_fr V)"
    and m: "rd_manifest d = None \<or> rd_manifest d = Some (file_text (se_fr V) (manifest_json (se_sha V) (se_fr V) (se_manifest V)))"
  shows "resume V (start V d) = Inr (answered_in V d)"
proof -
  let ?j = "manifest_json (se_sha V) (se_fr V) (se_manifest V)"
  have kept: "rd_manifest (start V d) = Some (file_text (se_fr V) ?j)"
    using m by (auto simp: start_def)
  obtain md where md: "?j = JObj md" "json_ok (JObj md)"
    "dict_get md ''config_fingerprint'' = Some (JStr (config_fingerprint (se_sha V) (se_fr V) (se_manifest V)))"
    by (simp add: manifest_json_def)
  have "loads (se_rd V) (file_text (se_fr V) ?j) = Some (JObj md)"
    using file_text_loads [OF F md(2)] md(1) by simp
  then have "resume V (start V d) = Inr (answered_in V (start V d))"
    using md(3) by (simp add: resume_def kept answered_in_def)
  then show ?thesis by simp
qed

lemma run_loop_pure:
  assumes pure: "\<And>s q. fst (evaluate E s q) = Inr (ev q)" and P: "\<And>v. json_ok (ev_persist E v)"
  shows "\<exists>s'. run_loop V E None c s files qs = (None, s',
    foldl (\<lambda>f qa. dict_set f (record_name V (fst qa)) (record_text V (snd qa))) files (map (\<lambda>q. (q, ev q)) qs))"
proof (induction qs arbitrary: c s files)
  case (Cons q qs)
  obtain s1 where ev: "evaluate E s q = (Inr (ev q), s1)"
    using pure [of s q] by (cases "evaluate E s q") simp
  from evaluate_artifact [OF pure [of s q]]
  have "qa_question_id (ev q) = qn_id q" using make_artifact_ok [OF P] by auto
  from record_artifact_set [OF this, of V files] show ?case using Cons.IH ev by (simp add: Let_def)
qed simp

text \<open>Two listings of the same files by name are one.\<close>

lemma sorted_listing:
  assumes "distinct (map fst xs)" "distinct (map (\<lambda>q. fst (f q)) qs)"
    and "set xs = f ` set qs"
  shows "sort_key (\<lambda>p. map code (fst p)) xs = map f (sort_key (\<lambda>q. map code (fst (f q))) qs)"
proof (rule map_sorted_distinct_set_unique)
  have code: "inj (map code)" using code_inject by (intro inj_mapI injI) blast
  let ?key = "\<lambda>p. map code (fst p)"
  show "inj_on ?key (set (sort_key ?key xs) \<union> set (map f (sort_key (\<lambda>q. map code (fst (f q))) qs)))"
    using assms(1,3) code by (auto simp: distinct_map inj_on_def inj_def)
  show "sorted (map ?key (sort_key ?key xs))" by simp
  have dx: "distinct (map ?key xs)"
    using assms(1) code by (auto simp: distinct_map inj_on_def inj_def)
  have "distinct (map ?key ys)" if "mset ys = mset xs" for ys
    using dx that by (metis mset_map mset_eq_imp_distinct_iff)
  then show "distinct (map ?key (sort_key ?key xs))" by simp
  show "sorted (map ?key (map f (sort_key (\<lambda>q. map code (fst (f q))) qs)))" by (simp add: comp_def)
  have dq: "distinct (map (\<lambda>q. map code (fst (f q))) qs)"
    using assms(2) code by (auto simp: distinct_map inj_on_def inj_def)
  have "distinct (map (\<lambda>q. map code (fst (f q))) ys)" if "mset ys = mset qs" for ys
    using dq that by (metis mset_map mset_eq_imp_distinct_iff)
  then show "distinct (map ?key (map f (sort_key (\<lambda>q. map code (fst (f q))) qs)))" by (simp add: comp_def)
  show "set (sort_key ?key xs) = set (map f (sort_key (\<lambda>q. map code (fst (f q))) qs))"
    using assms(3) by simp
qed

lemma read_all_map: "(\<And>x. x \<in> set xs \<Longrightarrow> f (g x) = Inr (h x)) \<Longrightarrow> read_all f (map g xs) = Inr (map h xs)"
  by (induction xs) auto

lemma resumed_run:
  assumes F: "float_reads (se_rd V) (se_fr V)" and P: "\<And>v. json_ok (ev_persist E v)"
    and pure: "\<And>s q. fst (evaluate E s q) = Inr (ev q)"
    and ids: "distinct (map (record_name V) qs)"
    and m: "rd_manifest d = None \<or> rd_manifest d = Some (file_text (se_fr V) (manifest_json (se_sha V) (se_fr V) (se_manifest V)))"
    and files: "distinct (map fst (rd_files d))"
    and left: "\<And>f content. (f, content) \<in> set (rd_files d) \<Longrightarrow> \<exists>q \<in> set qs. f = record_name V q
        \<and> (content = record_text V (ev q) \<or> read_record (se_fr V) (se_rd V) content = None)"
  shows "\<exists>s' d'. run V E None s d qs
      = (Inr (summarise (map (\<lambda>q. bounded (ev q)) (sort_key (\<lambda>q. map code (record_name V q)) qs))), s', d')
    \<and> set (rd_files d') = (\<lambda>q. (record_name V q, record_text V (ev q))) ` set qs
    \<and> distinct (map fst (rd_files d'))"
proof -
  let ?seen = "answered_in V d"
  let ?pending = "filter (\<lambda>q. qn_id q \<notin> ?seen) qs"
  have ev: "artifact_ok (ev q)" "qa_question_id (ev q) = qn_id q" for q
    using evaluate_artifact [OF pure [of undefined q]] make_artifact_ok [OF P] by auto
  have read: "read_record (se_fr V) (se_rd V) (record_text V (ev q)) = Some (qn_id q, qa_error_type (ev q))" for q
    using read_record_text [OF F artifact_ok_bounded [OF ev(1)]] ev(2) by (simp add: record_text_def)
  have resume: "resume V (start V d) = Inr ?seen" by (rule own_manifest [OF F m])
  obtain s' out where loop: "run_loop V E None 0 s (rd_files d) ?pending = (None, s', out)"
    and out: "out = foldl (\<lambda>f qa. dict_set f (record_name V (fst qa)) (record_text V (snd qa))) (rd_files d)
        (map (\<lambda>q. (q, ev q)) ?pending)"
    using run_loop_pure [OF pure P] by blast
  have dist: "distinct (map fst out)" unfolding out by (rule names_after [OF files])
  let ?f = "\<lambda>q. (record_name V q, record_text V (ev q))"
  have new: "map_of (rev (map (\<lambda>qa. (record_name V (fst qa), record_text V (snd qa))) (map (\<lambda>q. (q, ev q)) ?pending)))
      = map_of (rev (map ?f ?pending))" by (simp add: comp_def)
  have get: "dict_get out f = (case map_of (rev (map ?f ?pending)) f of None \<Rightarrow> dict_get (rd_files d) f | Some t \<Rightarrow> Some t)" for f
    unfolding out files_after new ..
  have inj: "q = q'" if "q \<in> set qs" "q' \<in> set qs" "record_name V q = record_name V q'" for q q'
    using ids that by (auto simp: distinct_map inj_on_def)
  have has: "dict_get out (record_name V q) = Some (record_text V (ev q))" if q: "q \<in> set qs" for q
  proof (cases "map_of (rev (map ?f ?pending)) (record_name V q)")
    case (Some x)
    then have "(record_name V q, x) \<in> ?f ` set ?pending" using map_of_SomeD [OF Some] by simp
    then show ?thesis using Some inj [OF q] by (auto simp: get)
  next
    case None
    then have "record_name V q \<notin> record_name V ` set ?pending" by (simp add: map_of_eq_None_iff image_image)
    then have "q \<notin> set ?pending" by blast
    then have "qn_id q \<in> ?seen" using q by simp
    from answered_inD [OF this files] obtain f content t where f: "dict_get (rd_files d) f = Some content"
      "read_record (se_fr V) (se_rd V) content = Some (qn_id q, t)" by blast
    obtain q' where q': "q' \<in> set qs" "f = record_name V q'" "content = record_text V (ev q')"
      using left [OF map_of_SomeD [OF f(1)]] f(2) by auto
    then have "qn_id q' = qn_id q" using f(2) read [of q'] by simp
    then have "record_name V q' = record_name V q" by (simp add: record_name_def)
    then show ?thesis using None f(1) q' inj [OF q'(1) q] by (simp add: get)
  qed
  have only: "f \<in> record_name V ` set qs" if "dict_get out f = Some content" for f content
    using that left map_of_SomeD [of "rev (map ?f ?pending)" f] map_of_SomeD [of "rd_files d" f]
    by (force simp: get split: option.splits)
  have set: "set out = ?f ` set qs"
  proof
    show "set out \<subseteq> ?f ` set qs"
    proof
      fix p assume "p \<in> set out"
      then have "dict_get out (fst p) = Some (snd p)" using map_of_is_SomeI [OF dist, of "fst p" "snd p"] by simp
      then show "p \<in> ?f ` set qs" using only [of "fst p" "snd p"] has by (cases p) fastforce
    qed
    show "?f ` set qs \<subseteq> set out" using has map_of_SomeD by fastforce
  qed
  have all: "record_names ((start V d)\<lparr>rd_files := out\<rparr>) = out"
    using set record_name_json by (auto simp: record_names_def filter_id_conv)
  have "sort_key (\<lambda>p. map code (fst p)) out = map ?f (sort_key (\<lambda>q. map code (record_name V q)) qs)"
    using sorted_listing [OF dist _ set] ids by simp
  then have "artifacts V ((start V d)\<lparr>rd_files := out\<rparr>)
      = read_all (\<lambda>f. read_artifact (se_rd V) (se_why V) (snd f)) (map ?f (sort_key (\<lambda>q. map code (record_name V q)) qs))"
    by (simp add: artifacts_def all)
  also have "\<dots> = Inr (map (\<lambda>q. bounded (ev q)) (sort_key (\<lambda>q. map code (record_name V q)) qs))"
    by (rule read_all_map) (simp add: record_text_def read_artifact_text [OF F artifact_ok_bounded [OF ev(1)]])
  finally show ?thesis
    using resume loop set dist by (simp add: run_def run_checked_def Let_def)
qed

section \<open>Properties\<close>

text \<open>A run never touches an answer it already has. Over any directory whose records stand under the
  names of their questions, with no two of the questions involved sharing a name, a run that ends leaves every
  answered question's record as it was, keeps it answered, and leaves every record under the name of its
  question; and a run that was not told to halt early leaves a readable record of every question
  it was given.\<close>

theorem run_keeps_answers:
  assumes F: "float_reads (se_rd V) (se_fr V)" and P: "\<And>v. json_ok (ev_persist E v)"
    and names: "distinct (map fst (rd_files d))" "well_named V (rd_files d)"
    and inj: "inj_on (artifact_filename (se_sha V)) (answered_in V d \<union> qn_id ` set qs)"
    and run: "run V E h s d qs = (Inr sm, s', d')"
  shows "well_named V (rd_files d') \<and> distinct (map fst (rd_files d'))
    \<and> (\<forall>i. i \<in> answered_in V d \<longrightarrow> i \<in> answered_in V d'
         \<and> dict_get (rd_files d') (artifact_filename (se_sha V) i) = dict_get (rd_files d) (artifact_filename (se_sha V) i))
    \<and> (h = None \<longrightarrow> (\<forall>q. q \<in> set qs \<longrightarrow> (\<exists>content t. dict_get (rd_files d') (record_name V q) = Some content
         \<and> read_record (se_fr V) (se_rd V) content = Some (qn_id q, t))))"
proof -
  obtain seen where seen: "resume V (start V d) = Inr seen"
    and loop: "run_loop V E h 0 s (rd_files d) (filter (\<lambda>q. qn_id q \<notin> seen) qs) = (None, s', rd_files d')"
    using run_success [OF run] by blast
  have ans: "seen = answered_in V d" using resume_answered [OF seen started] by simp
  obtain don as where don: "prefix don (filter (\<lambda>q. qn_id q \<notin> seen) qs)" and len: "length as = length don"
    and ok: "\<forall>i < length as. artifact_ok (as ! i) \<and> qa_question_id (as ! i) = qn_id (don ! i)"
    and files: "rd_files d' = foldl (\<lambda>f qa. dict_set f (record_name V (fst qa)) (record_text V (snd qa)))
        (rd_files d) (zip don as)"
    and whole: "h = None \<longrightarrow> don = filter (\<lambda>q. qn_id q \<notin> seen) qs"
    using run_loop_trace [OF P loop] by blast
  let ?new = "map_of (rev (map (\<lambda>qa. (record_name V (fst qa), record_text V (snd qa))) (zip don as)))"
  have get: "dict_get (rd_files d') f = (case ?new f of None \<Rightarrow> dict_get (rd_files d) f | Some t \<Rightarrow> Some t)" for f
    unfolding files by (rule files_after)
  have read: "read_record (se_fr V) (se_rd V) (record_text V (as ! i)) = Some (qn_id (don ! i), qa_error_type (as ! i))"
    if "i < length as" for i
    using read_record_text [OF F artifact_ok_bounded] ok that by (simp add: record_text_def)
  have sub: "q \<in> set qs \<and> qn_id q \<notin> answered_in V d" if "q \<in> set don" for q
    using set_mono_prefix [OF don] that ans by auto
  have named': "well_named V (rd_files d')"
    unfolding well_named_def
  proof (intro allI impI)
    fix f content q t
    assume f: "dict_get (rd_files d') f = Some content" "read_record (se_fr V) (se_rd V) content = Some (q, t)"
    show "f = artifact_filename (se_sha V) q"
    proof (cases "?new f")
      case None
      then show ?thesis using f names(2) by (simp add: get well_named_def)
    next
      case (Some x)
      from added_record [OF this len] obtain i where "i < length as" "f = record_name V (don ! i)" "x = record_text V (as ! i)"
        by blast
      then show ?thesis using f Some read [of i] by (simp add: get record_name_def)
    qed
  qed
  have dist': "distinct (map fst (rd_files d'))" unfolding files by (rule names_after [OF names(1)])
  have keep: "dict_get (rd_files d') (artifact_filename (se_sha V) i) = dict_get (rd_files d) (artifact_filename (se_sha V) i)"
    if i: "i \<in> answered_in V d" for i
  proof (cases "?new (artifact_filename (se_sha V) i)")
    case (Some x)
    from added_record [OF this len] obtain j where j: "j < length as"
      "artifact_filename (se_sha V) i = record_name V (don ! j)" by blast
    then have "don ! j \<in> set don" using len by simp
    from sub [OF this] have q: "don ! j \<in> set qs" "qn_id (don ! j) \<notin> answered_in V d" by auto
    then have "i = qn_id (don ! j)" using inj i j(2) by (auto simp: inj_on_def record_name_def)
    then show ?thesis using i q(2) by simp
  qed (simp add: get)
  have still: "i \<in> answered_in V d'" if i: "i \<in> answered_in V d" for i
  proof -
    obtain f content t where f: "dict_get (rd_files d) f = Some content"
      "read_record (se_fr V) (se_rd V) content = Some (i, t)" "\<not> is_infrastructure t"
      using answered_inD [OF i names(1)] by blast
    then have "f = artifact_filename (se_sha V) i" using names(2) by (simp add: well_named_def)
    then have "dict_get (rd_files d') (record_name V \<lparr>qn_id = i, qn_question = [], qn_gold_sql = [], qn_dataset = [],
        qn_split = DEV, qn_db_id = []\<rparr>) = Some content"
      using keep [OF i] f(1) by (simp add: record_name_def)
    then show ?thesis using answered_inI f(2,3) by blast
  qed
  have every: "\<exists>content t. dict_get (rd_files d') (record_name V q) = Some content
      \<and> read_record (se_fr V) (se_rd V) content = Some (qn_id q, t)" if h: "h = None" and q: "q \<in> set qs" for q
  proof (cases "qn_id q \<in> answered_in V d")
    case True
    then obtain f content t where "dict_get (rd_files d) f = Some content"
      "read_record (se_fr V) (se_rd V) content = Some (qn_id q, t)"
      using answered_inD [OF True names(1)] by blast
    then show ?thesis using keep [OF True] names(2) by (auto simp: well_named_def record_name_def)
  next
    case False
    then have "q \<in> set don" using whole h q ans by simp
    then obtain i where i: "i < length as" "don ! i = q" using len by (auto simp: in_set_conv_nth)
    then have "(q, as ! i) \<in> set (zip don as)" using len by (auto simp: in_set_zip)
    then have "(record_name V q, record_text V (as ! i))
        \<in> set (rev (map (\<lambda>qa. (record_name V (fst qa), record_text V (snd qa))) (zip don as)))"
      using imageI [of "(q, as ! i)" "set (zip don as)" "\<lambda>qa. (record_name V (fst qa), record_text V (snd qa))"] by simp
    then obtain x where x: "?new (record_name V q) = Some x" using weak_map_of_SomeI by fast
    from added_record [OF this len] obtain j where j: "j < length as" "record_name V q = record_name V (don ! j)"
      "x = record_text V (as ! j)" by blast
    have "don ! j \<in> set don" using j(1) len by simp
    from sub [OF this] have "qn_id q = qn_id (don ! j)"
      using inj q j(2) by (auto simp: inj_on_def record_name_def)
    then show ?thesis using x read [OF j(1)] j(3) by (simp add: get)
  qed
  show ?thesis using named' dist' keep still every by blast
qed


text \<open>C21: an outage stops a run. When every question fails for an infrastructure reason, a run told to halt
  after \<open>n\<close> such failures in a row asks exactly \<open>n\<close> questions, or all that are pending if they are fewer,
  and the ones it asked stay pending for the next run. \<open>asked\<close> is any count the state keeps of
  evaluations.\<close>

theorem halts_on_outage:
  assumes n: "1 \<le> n" and down: "\<And>s q. \<exists>a s1. evaluate E s q = (Inr a, s1) \<and> is_infrastructure (qa_error_type a) \<and> asked s1 = asked s + (1 :: nat)"
    and seen: "resume V (start V d) = Inr seen"
  shows "asked (fst (snd (run V E (Some n) s d qs)))
    = asked s + min (nat n) (length (filter (\<lambda>q. qn_id q \<notin> seen) qs))"
proof -
  have loop: "0 \<le> c \<Longrightarrow> c < n \<Longrightarrow> \<exists>s' files'. run_loop V E (Some n) c s files qs = (None, s', files')
      \<and> asked s' = asked s + min (nat (n - c)) (length qs)" for c s files qs
  proof (induction qs arbitrary: c s files)
    case (Cons q qs)
    obtain a s1 where ev: "evaluate E s q = (Inr a, s1)" "is_infrastructure (qa_error_type a)" "asked s1 = asked s + 1"
      using down by blast
    show ?case
    proof (cases "n \<le> c + 1")
      case True
      then have "nat (n - c) = 1" using Cons.prems by simp
      then show ?thesis using True ev by (simp add: Let_def)
    next
      case False
      then have "min (nat (n - c)) (length (q # qs)) = Suc (min (nat (n - (c + 1))) (length qs))" by simp
      then show ?thesis
        using Cons.IH [of "c + 1" s1 "record_artifact V a files"] Cons.prems False ev by (auto simp: Let_def)
    qed
  qed simp
  obtain s' files' where "run_loop V E (Some n) 0 s (rd_files d) (filter (\<lambda>q. qn_id q \<notin> seen) qs) = (None, s', files')"
    "asked s' = asked s + min (nat n) (length (filter (\<lambda>q. qn_id q \<notin> seen) qs))"
    using loop [of 0] n by fastforce
  then show ?thesis
    using n seen by (auto simp: run_def run_checked_def Let_def split: sum.splits)
qed

text \<open>A summary accounts for every record. Scored, gold errors and infrastructure failures add up to the
  total, the failure counts add up to it too, matched questions are among the scored ones, and the
  accuracy, where there is one, is a share.\<close>

theorem summary_accounts:
  "rs_total (summarise as) = length as
   \<and> rs_scored (summarise as) + rs_gold_errors (summarise as) + rs_infrastructure_errors (summarise as) = length as
   \<and> sum_list (map snd (rs_failures (summarise as))) = length as
   \<and> rs_matched (summarise as) \<le> rs_scored (summarise as)
   \<and> (execution_accuracy (summarise as) = None \<or> (\<exists>x. execution_accuracy (summarise as) = Some x \<and> 0 \<le> x \<and> x \<le> 1))"
proof -
  have m: "rs_matched (summarise as) \<le> rs_scored (summarise as)"
    by (simp add: summarise_def Let_def del: filter_filter)
  have "distinct (map fst (map (\<lambda>c. (category_value c, 0 :: nat)) all_categories))" by (simp add: all_categories_def)
  from counts_add [OF this] have "sum_list (map snd (counts cs)) = length cs" for cs by (simp add: counts_def comp_def)
  moreover have "length (filter (\<lambda>a. \<not> unscored a) as) + length (filter (\<lambda>a. qa_failure_category a = category_value GOLD_ERROR) as)
      + length (filter (\<lambda>a. qa_failure_category a = category_value INFRASTRUCTURE) as) = length as"
    by (induction as) (auto simp: unscored_def)
  moreover have "0 \<le> round_places 4 (of_nat (rs_matched (summarise as)) / of_nat (rs_scored (summarise as)))
      \<and> round_places 4 (of_nat (rs_matched (summarise as)) / of_nat (rs_scored (summarise as))) \<le> 1"
    by (rule places_unit) (use m in \<open>auto simp: divide_le_eq_1\<close>)
  ultimately show ?thesis using m by (simp add: summarise_def execution_accuracy_def)
qed

text \<open>A pipeline that always answers, one whose provider is down, and a store.\<close>

definition toy_eval :: "(toy_node, nat) eval_env" where
  "toy_eval = \<lparr>ev_answer = (\<lambda>s q. (Inr (no_attempt\<lparr>at_sql := Some ''x''\<rparr>), Suc s)), ev_query = (\<lambda>s _ _. (Inr [], s)),
     ev_now = (\<lambda>_. 0), ev_sqlglot = toy (\<lambda>_. Inl []), ev_fl = (\<lambda>x. x), ev_pr = (\<lambda>_. []), ev_persist = (\<lambda>_. JNull)\<rparr>"

definition toy_down :: "(toy_node, nat) eval_env" where
  "toy_down = toy_eval\<lparr>ev_answer := (\<lambda>s q. (Inr (no_attempt\<lparr>at_error_type := Some ''llm_failed''\<rparr>), Suc s))\<rparr>"

definition toy_store_env :: store_env where
  "toy_store_env = \<lparr>se_sha = (\<lambda>s. s), se_fr = show_ratio, se_rd = read_ratio, se_why = (\<lambda>_. []), se_root = [],
     se_manifest = \<lparr>mf_run_id = [], mf_dataset = [], mf_split = [], mf_model = [], mf_retriever_model_version = [],
       mf_prompt_version = [], mf_commit = [], mf_seed = 0, mf_started_at = [], mf_notes = [], mf_baseline = [],
       mf_code_digest = []\<rparr>\<rparr>"

definition toy_question :: "string \<Rightarrow> question" where
  "toy_question i = \<lparr>qn_id = i, qn_question = [], qn_gold_sql = [], qn_dataset = [], qn_split = DEV, qn_db_id = []\<rparr>"

text \<open>A directory an interruption left: the first record is torn.\<close>

definition toy_dir :: run_dir where
  "toy_dir = \<lparr>rd_manifest = None, rd_files = [(record_name toy_store_env (toy_question ''a''), [])], rd_summary = None\<rparr>"

definition toy_record :: "question \<Rightarrow> artifact" where
  "toy_record q = make_artifact toy_eval q ([], False) (no_attempt\<lparr>at_sql := Some ''x''\<rparr>) (Some ([], False)) 0"

lemma toy_pure: "fst (evaluate toy_eval s q) = Inr (toy_record q)"
  by (simp add: evaluate_def run_sql_def answer_one_def caught_def toy_record_def toy_eval_def truthy_def)

lemma toy_names: "record_name toy_store_env (toy_question ''a'') = ''a-a.json''"
    "record_name toy_store_env (toy_question ''b'') = ''b-b.json''"
  by (simp_all add: record_name_def artifact_filename_def toy_store_env_def toy_question_def max_filename_stem_def
      safe_in_filename_def is_ascii_letter_def code_def)

lemma toy_reads: "float_reads (se_rd toy_store_env) (se_fr toy_store_env)" "json_ok (ev_persist toy_eval v)"
  by (simp_all add: toy_store_env_def ratios_read toy_eval_def)

lemma torn_record: "read_record fr rd [] = None"
  by (simp add: read_record_def loads_def skip_ws_def)

lemma toy_answered: "answered_in toy_store_env toy_dir = {}"
  by (auto simp: answered_in_def record_names_def toy_dir_def answered_id_def torn_record)

lemma toy_left: "(f, content) \<in> set (rd_files toy_dir) \<Longrightarrow> \<exists>q \<in> set [toy_question ''a'', toy_question ''b'']. f = record_name toy_store_env q
    \<and> (content = record_text toy_store_env (toy_record q) \<or> read_record (se_fr toy_store_env) (se_rd toy_store_env) content = None)"
  by (simp add: toy_dir_def torn_record)

lemma toy_distinct: "distinct (map (record_name toy_store_env) [toy_question ''a'', toy_question ''b''])"
  "distinct (map fst (rd_files toy_dir))" "rd_manifest toy_dir = None"
  by (simp_all add: toy_names) (simp_all add: toy_dir_def)


theorem run_keeps_answers_witness:
  "\<exists>sm s' d'. run toy_store_env toy_eval None 0 toy_dir [toy_question ''a'', toy_question ''b''] = (Inr sm, s', d')
     \<and> well_named toy_store_env (rd_files d')"
proof -
  have m: "rd_manifest toy_dir = None \<or> rd_manifest toy_dir = Some (file_text (se_fr toy_store_env)
      (manifest_json (se_sha toy_store_env) (se_fr toy_store_env) (se_manifest toy_store_env)))"
    using toy_distinct(3) by simp
  from resumed_run [OF toy_reads(1) toy_reads(2) toy_pure toy_distinct(1) m toy_distinct(2) toy_left, of 0]
  obtain sm s' d' where run: "run toy_store_env toy_eval None 0 toy_dir [toy_question ''a'', toy_question ''b''] = (Inr sm, s', d')"
    by blast
  have named: "well_named toy_store_env (rd_files toy_dir)"
    by (simp add: well_named_def toy_dir_def torn_record)
  have "inj_on (artifact_filename (se_sha toy_store_env)) (answered_in toy_store_env toy_dir
      \<union> qn_id ` set [toy_question ''a'', toy_question ''b''])"
    using toy_names by (simp add: toy_answered record_name_def) (simp add: toy_question_def)
  from run_keeps_answers [OF toy_reads(1) toy_reads(2) toy_distinct(2) named this run] run show ?thesis by blast
qed

theorem halts_on_outage_witness:
  "fst (snd (run toy_store_env toy_down (Some 1) 0 toy_dir [toy_question ''a'', toy_question ''b''])) = 1"
proof -
  have down: "\<exists>a s1. evaluate toy_down s q = (Inr a, s1) \<and> is_infrastructure (qa_error_type a) \<and> s1 = s + 1" for s q
    by (simp add: evaluate_def run_sql_def answer_one_def caught_def toy_down_def toy_eval_def truthy_def no_attempt_def
        make_artifact_def Let_def is_infrastructure_def infrastructure_types_def)
  have "resume toy_store_env (start toy_store_env toy_dir) = Inr {}"
    using own_manifest [OF toy_reads(1), of toy_dir] toy_distinct(3) toy_answered by simp
  from halts_on_outage [of 1 toy_down "\<lambda>s. s", OF _ down this, of 0 "[toy_question ''a'', toy_question ''b'']"]
  show ?thesis by simp
qed

end
