(* ===== verification/SqliteSource.thy ===== *)
theory SqliteSource
  imports JsonText Corpus
begin

text \<open>
  Reading a SQLite database (\<open>src/benchmark/sqlite_source.py\<close>). SQLite is the service behind it, so
  a database is the answers it gives: the rows of \<open>sqlite_master\<close>, of the two pragmas, of a
  \<open>SELECT\<close> over columns of a table and of the \<open>typeof\<close> aggregate. The queries of the source that
  filter and order those rows are definitions here. What the readings rely on, that the aggregate
  names exactly the storage classes a column holds and that a column reads the same alone or among
  others, is \<open>honest_answers\<close>.
\<close>

section \<open>Values\<close>

text \<open>A stored value: SQLite has no NaN (it stores NULL), but Python's \<open>float\<close> can make one.\<close>

datatype py_float = RFin rat | RInf bool | RNan

datatype cell = SNull | SInt int | SReal py_float | SText string | SBlob string

fun storage_class :: "cell \<Rightarrow> string" where
  "storage_class SNull = ''null''"
| "storage_class (SInt i) = ''integer''"
| "storage_class (SReal r) = ''real''"
| "storage_class (SText s) = ''text''"
| "storage_class (SBlob b) = ''blob''"

section \<open>Schema\<close>

record sqlite_column =
  sc_name :: string
  sc_declared_type :: string
  sc_not_null :: bool
  sc_primary_key_position :: int

record sqlite_foreign_key =
  sk_columns :: "string list"
  sk_referenced_table :: string
  sk_referenced_columns :: "string list"

record sqlite_table =
  st_name :: string
  st_columns :: "sqlite_column list"
  st_foreign_keys :: "sqlite_foreign_key list"

definition primary_key_of_table :: "sqlite_table \<Rightarrow> string list" where
  "primary_key_of_table t =
     map sc_name (sort_key sc_primary_key_position
       (filter (\<lambda>c. sc_primary_key_position c > 0) (st_columns t)))"

text \<open>The answers: \<open>sd_master\<close> are the rows (name, type, sql), \<open>sd_info\<close> those of \<open>pragma_table_info\<close>
  (name, type, notnull, pk) and \<open>sd_keys\<close> those of \<open>pragma_foreign_key_list\<close> (id, seq, table, from, to).\<close>

record sqlite_database =
  sd_db_id :: string
  sd_master :: "(string \<times> string \<times> string option) list"
  sd_info :: "string \<Rightarrow> (string \<times> string option \<times> int \<times> int) list"
  sd_keys :: "string \<Rightarrow> (int \<times> int \<times> string \<times> string \<times> string option) list"
  sd_select :: "string \<Rightarrow> string list \<Rightarrow> cell list list"
  sd_typeof :: "string \<Rightarrow> string list \<Rightarrow> string option list"
  sd_text_replacements :: nat

text \<open>\<open>LIKE\<close> and \<open>upper\<close> of SQLite fold the ASCII letters only; \<open>_\<close> stands for any one character.\<close>

definition ascii_upper :: "string \<Rightarrow> string" where
  "ascii_upper s = map (\<lambda>c. if 97 \<le> code c \<and> code c \<le> 122 then char_of (code c - 32) else c) s"

fun sql_like :: "string \<Rightarrow> string \<Rightarrow> bool" where
  "sql_like [] s = (s = [])"
| "sql_like (p # ps) s =
     (if p = CHR ''%'' then list_ex (sql_like ps) (suffixes s)
      else (case s of [] \<Rightarrow> False
            | c # cs \<Rightarrow> (p = CHR ''_'' \<or> ascii_upper [p] = ascii_upper [c]) \<and> sql_like ps cs))"

definition table_names :: "sqlite_database \<Rightarrow> string list" where
  "table_names db =
     sort_key (map code) (map fst (filter (\<lambda>(name, type, sql).
       type = ''table'' \<and> \<not> sql_like ''sqlite_%'' name
       \<and> (case sql of None \<Rightarrow> False | Some q \<Rightarrow> \<not> sql_like ''CREATE VIRTUAL%'' (ascii_upper q)))
       (sd_master db)))"

definition primary_key_of :: "sqlite_database \<Rightarrow> string \<Rightarrow> string list" where
  "primary_key_of db table =
     map fst (sort_key (\<lambda>(name, type, notnull, pk). pk)
       (filter (\<lambda>(name, type, notnull, pk). pk > 0) (sd_info db table)))"

text \<open>One constraint of the pairs that share an id: the target columns it names, or the primary key
  of the target when a pair leaves them implicit; an implicit target of another width is dropped.\<close>

definition key_of_pairs ::
  "sqlite_database \<Rightarrow> (int \<times> string \<times> string \<times> string option) list \<Rightarrow> sqlite_foreign_key option" where
  "key_of_pairs db pairs =
     (let referenced = fst (snd (hd pairs));
          local = map (\<lambda>(seq, table, from', to'). from') pairs;
          key = (\<lambda>remote. \<lparr>sk_columns = local, sk_referenced_table = referenced,
                          sk_referenced_columns = remote\<rparr>) in
      if list_ex (\<lambda>(seq, table, from', to'). to' = None) pairs
      then let target = primary_key_of db referenced in
        if length target \<noteq> length local then None else Some (key target)
      else Some (key (map (\<lambda>(seq, table, from', to'). the to') pairs)))"

definition group_rows ::
  "(int \<times> int \<times> string \<times> string \<times> string option) list
     \<Rightarrow> (int, (int \<times> string \<times> string \<times> string option) list) dict" where
  "group_rows rows =
     fold (\<lambda>(i, row) d. dict_set d i (of_option [] (dict_get d i) @ [row])) rows []"

definition foreign_keys_of :: "sqlite_database \<Rightarrow> string \<Rightarrow> sqlite_foreign_key list" where
  "foreign_keys_of db name =
     somes (map (\<lambda>(i, pairs). key_of_pairs db pairs)
       (group_rows (sort_key fst (sort_key (fst \<circ> snd) (sd_keys db name)))))"

definition read_table :: "sqlite_database \<Rightarrow> string \<Rightarrow> exn + sqlite_table" where
  "read_table db name =
     (let info = sd_info db name in
      if info = []
      then Inl (ConversionError (sd_db_id db @ '': table '' @ py_repr name @ '' has no columns, or does not exist''))
      else Inr \<lparr>st_name = name,
             st_columns = map (\<lambda>(cname, type, notnull, pk).
               \<lparr>sc_name = cname, sc_declared_type = of_option [] type, sc_not_null = (notnull \<noteq> 0),
                sc_primary_key_position = pk\<rparr>) info,
             st_foreign_keys = foreign_keys_of db name\<rparr>)"

section \<open>Rows and storage classes\<close>

definition rows :: "sqlite_database \<Rightarrow> string \<Rightarrow> string list \<Rightarrow> cell list list" where
  "rows db name columns = sd_select db name columns"

fun split_commas :: "string \<Rightarrow> string \<Rightarrow> string list" where
  "split_commas w [] = [rev w]"
| "split_commas w (c # cs) = (if c = CHR '','' then rev w # split_commas [] cs else split_commas (c # w) cs)"

definition storage_classes :: "sqlite_database \<Rightarrow> string \<Rightarrow> string list \<Rightarrow> (string, string set) dict" where
  "storage_classes db name columns =
     fold (\<lambda>(column, raw) d.
        dict_set d column (if truthy raw then set (split_commas [] (the raw)) else {}))
       (zip columns (sd_typeof db name columns)) []"

text \<open>The reading of text: \<open>decode\<close> of \<open>open_database\<close>, which counts what it replaces. \<open>utf8\<close> is the
  strict reading of the bytes, \<open>replaced\<close> the one with replacement characters.\<close>

definition decode_text ::
  "(string \<Rightarrow> string option) \<Rightarrow> (string \<Rightarrow> string) \<Rightarrow> string \<Rightarrow> sqlite_database \<Rightarrow> string \<times> sqlite_database" where
  "decode_text utf8 replaced raw db =
     (case utf8 raw of
        Some s \<Rightarrow> (s, db)
      | None \<Rightarrow> (replaced raw, db\<lparr>sd_text_replacements := sd_text_replacements db + 1\<rparr>))"

text \<open>\<open>open_database\<close>: \<open>connect\<close> opens the connection, \<open>probe\<close> runs the two statements on it.\<close>

definition open_database ::
  "bool \<Rightarrow> (string \<Rightarrow> string + sqlite_database) \<Rightarrow> (sqlite_database \<Rightarrow> string option) \<Rightarrow> string \<Rightarrow> string \<Rightarrow> string
     \<Rightarrow> exn + sqlite_database" where
  "open_database is_file connect probe path stem db_id =
     (if \<not> is_file then Inl (ConversionError (''no SQLite database at '' @ path))
      else case connect (''file:'' @ path @ ''?mode=ro'') of
        Inl e \<Rightarrow> Inl (ConversionError (''cannot open '' @ path @ '': '' @ e))
      | Inr answers \<Rightarrow>
         (let db = answers\<lparr>sd_db_id := (if db_id = [] then stem else db_id), sd_text_replacements := 0\<rparr> in
          case probe db of
            Some e \<Rightarrow> Inl (ConversionError (path @ '' is not a readable SQLite database: '' @ e))
          | None \<Rightarrow> Inr db))"

section \<open>What SQLite promises\<close>

definition column_cells :: "sqlite_database \<Rightarrow> string \<Rightarrow> string list \<Rightarrow> nat \<Rightarrow> cell list" where
  "column_cells db name columns i = map (\<lambda>row. row ! i) (sd_select db name columns)"

text \<open>\<open>typeof\<close> answers NULL for an empty column and otherwise the distinct classes, comma-separated,
  in some order; every row has one value per column asked for; a column reads the same alone. A
  stored integer has 64 bits, a stored real is a number, and at least one column is asked for.\<close>

definition typeof_ok :: "cell list \<Rightarrow> string option \<Rightarrow> bool" where
  "typeof_ok cells raw \<longleftrightarrow>
     (if cells = [] then raw = None
      else \<exists>classes. set classes = set (map storage_class cells) \<and> raw = Some (join '','' classes))"

fun stored :: "cell \<Rightarrow> bool" where
  "stored (SInt i) \<longleftrightarrow> - (2 ^ 63) \<le> i \<and> i < 2 ^ 63"
| "stored (SReal r) \<longleftrightarrow> r \<noteq> RNan"
| "stored _ \<longleftrightarrow> True"

definition honest_answers :: "sqlite_database \<Rightarrow> string \<Rightarrow> string list \<Rightarrow> bool" where
  "honest_answers db name columns \<longleftrightarrow>
     length (sd_typeof db name columns) = length columns
     \<and> (\<forall>row \<in> set (sd_select db name columns). length row = length columns \<and> list_all stored row)
     \<and> (\<forall>i < length columns.
          typeof_ok (column_cells db name columns i) (sd_typeof db name columns ! i)
          \<and> sd_select db name [columns ! i] = map (\<lambda>v. [v]) (column_cells db name columns i))"

section \<open>Facts\<close>

lemma split_commas_append:
  "CHR '','' \<notin> set u \<Longrightarrow> split_commas w (u @ CHR '','' # s) = (rev w @ u) # split_commas [] s"
  by (induction u arbitrary: w) auto

lemma split_commas_last: "CHR '','' \<notin> set u \<Longrightarrow> split_commas w u = [rev w @ u]"
  by (induction u arbitrary: w) auto

lemma split_join:
  assumes "xs \<noteq> []" "\<forall>x \<in> set xs. CHR '','' \<notin> set x"
  shows "split_commas [] (join '','' xs) = xs"
  using assms
proof (induction xs rule: induct_list012)
  case (3 x y zs)
  then show ?case using split_commas_append [of x "[]" "join '','' (y # zs)"] by simp
qed (simp_all add: split_commas_last)

lemma storage_class_plain: "storage_class v \<noteq> []" "CHR '','' \<notin> set (storage_class v)"
  by (cases v; simp)+

lemma join_nonempty: "xs \<noteq> [] \<Longrightarrow> \<forall>x \<in> set xs. x \<noteq> [] \<Longrightarrow> join sep xs \<noteq> []"
  by (induction xs rule: induct_list012) auto

lemma typeof_ok_classes:
  assumes "typeof_ok cells raw"
  shows "(if truthy raw then set (split_commas [] (the raw)) else {}) = set (map storage_class cells)"
proof (cases "cells = []")
  case False
  then obtain classes where c: "set classes = set (map storage_class cells)" "raw = Some (join '','' classes)"
    using assms by (auto simp: typeof_ok_def)
  have "classes \<noteq> []" using c(1) False by auto
  moreover have "\<forall>x \<in> set classes. x \<noteq> [] \<and> CHR '','' \<notin> set x"
    using c(1) storage_class_plain by auto
  ultimately show ?thesis using c join_nonempty [of classes] split_join [of classes]
    by (simp add: truthy_def)
qed (use assms in \<open>simp add: typeof_ok_def truthy_def\<close>)

lemma fold_dict_set_get:
  assumes "distinct (map fst xs)" "(k, v) \<in> set xs"
  shows "dict_get (fold (\<lambda>(k, v) d. dict_set d k (f v)) xs d) k = Some (f v)"
  using assms
proof (induction xs arbitrary: d)
  case (Cons x xs)
  have untouched: "k \<notin> fst ` set xs \<Longrightarrow>
      dict_get (fold (\<lambda>(k, v) d. dict_set d k (f v)) xs d') k = dict_get d' k" for d'
    by (induction xs arbitrary: d') auto
  show ?case
  proof (cases "x = (k, v)")
    case True then show ?thesis using Cons.prems untouched by auto
  qed (use Cons in auto)
qed simp

text \<open>The classes the planner sees are those of the values the load will read.\<close>

lemma storage_classes_exact:
  assumes "honest_answers db name columns" "distinct columns" "i < length columns"
  shows "dict_get (storage_classes db name columns) (columns ! i)
           = Some (storage_class ` set (column_cells db name columns i))"
proof -
  have "(columns ! i, sd_typeof db name columns ! i) \<in> set (zip columns (sd_typeof db name columns))"
    using assms by (auto simp: honest_answers_def in_set_zip)
  moreover have "distinct (map fst (zip columns (sd_typeof db name columns)))"
    using assms by (simp add: honest_answers_def)
  ultimately show ?thesis
    using fold_dict_set_get [of "zip columns (sd_typeof db name columns)" "columns ! i"
        "sd_typeof db name columns ! i" "\<lambda>raw. if truthy raw then set (split_commas [] (the raw)) else {}"]
      typeof_ok_classes [of "column_cells db name columns i" "sd_typeof db name columns ! i"] assms
    by (simp add: storage_classes_def honest_answers_def)
qed

text \<open>Every foreign key pairs as many target columns as it has columns of its own.\<close>

lemma key_of_pairs_widths:
  "key_of_pairs db pairs = Some k \<Longrightarrow> length (sk_columns k) = length (sk_referenced_columns k)"
  by (auto simp: key_of_pairs_def Let_def split: if_splits)

lemma foreign_keys_widths:
  "k \<in> set (foreign_keys_of db name) \<Longrightarrow> length (sk_columns k) = length (sk_referenced_columns k)"
  by (auto simp: foreign_keys_of_def in_somes dest!: sym [of "Some k"] key_of_pairs_widths)

end
