(* ===== verification/Conversion.thy ===== *)
theory Conversion
  imports SqliteSource Dataset
begin

text \<open>
  Conversion of a SQLite database into a PostgreSQL schema (\<open>src/benchmark/convert.py\<close>): the type
  chosen for each column from the values it holds, the retyping of foreign-key columns, the value
  written for each cell, and the order of the statements of a load. What Python reads as a float,
  its rounding and printing, and UTF-8 are the arguments of \<open>runtime\<close>; the PostgreSQL server is the
  answer it gives to each statement.
\<close>

section \<open>Readings of Python\<close>

record runtime =
  rt_float_of_text :: "string \<Rightarrow> py_float option"
  rt_float_of_bytes :: "string \<Rightarrow> py_float option"
  rt_float_of_int :: "int \<Rightarrow> py_float option"
  rt_show_float :: "py_float \<Rightarrow> string"
  rt_encode :: "string \<Rightarrow> string"
  rt_decode :: "string \<Rightarrow> string"

text \<open>\<open>int(s)\<close>: blanks around it, a sign, digits with single underscores between them, at most 4300.\<close>

definition int_blank :: "char \<Rightarrow> bool" where
  "int_blank c \<longleftrightarrow> code c \<in> {9, 10, 11, 12, 13, 32, 133, 160}"

definition bytes_blank :: "char \<Rightarrow> bool" where
  "bytes_blank c \<longleftrightarrow> code c \<in> {9, 10, 11, 12, 13, 32}"

fun int_digits :: "string \<Rightarrow> string option" where
  "int_digits [] = None"
| "int_digits [c] = (if is_digit c then Some [c] else None)"
| "int_digits (c # d # cs) =
     (if \<not> is_digit c then None
      else map_option (Cons c) (if d = CHR ''_'' then int_digits cs else int_digits (d # cs)))"

definition int_reading :: "(char \<Rightarrow> bool) \<Rightarrow> string \<Rightarrow> int option" where
  "int_reading blank s =
     (let t = rev (dropWhile blank (rev (dropWhile blank s)));
          signed = t \<noteq> [] \<and> hd t \<in> {CHR ''-'', CHR ''+''} in
      case int_digits (if signed then tl t else t) of
        None \<Rightarrow> None
      | Some ds \<Rightarrow>
          if length ds > 4300 then None
          else Some ((if signed \<and> hd t = CHR ''-'' then - 1 else 1) * int (digits_to_nat ds)))"

definition type_error :: "string \<Rightarrow> exn" where
  "type_error m = OtherError ''TypeError'' m"

definition overflow_error :: "string \<Rightarrow> exn" where
  "overflow_error m = OtherError ''OverflowError'' m"

definition truncated :: "rat \<Rightarrow> int" where
  "truncated r = (if r < 0 then - floor (- r) else floor r)"

text \<open>\<open>int(value)\<close> and \<open>float(value)\<close> of a cell.\<close>

definition from_reading :: "string \<Rightarrow> 'a option \<Rightarrow> exn + 'a" where
  "from_reading m r = (case r of None \<Rightarrow> Inl (value_error m) | Some x \<Rightarrow> Inr x)"

fun int_of_cell :: "cell \<Rightarrow> exn + int" where
  "int_of_cell SNull = Inl (type_error ''int() argument must be a string, a bytes-like object or a real number, not NoneType'')"
| "int_of_cell (SInt i) = Inr i"
| "int_of_cell (SReal (RFin r)) = Inr (truncated r)"
| "int_of_cell (SReal (RInf neg)) = Inl (overflow_error ''cannot convert float infinity to integer'')"
| "int_of_cell (SReal RNan) = Inl (value_error ''cannot convert float NaN to integer'')"
| "int_of_cell (SText s) = from_reading ''invalid literal for int()'' (int_reading int_blank s)"
| "int_of_cell (SBlob b) = from_reading ''invalid literal for int()'' (int_reading bytes_blank b)"

fun float_of_cell :: "runtime \<Rightarrow> cell \<Rightarrow> exn + py_float" where
  "float_of_cell rt SNull = Inl (type_error ''float() argument must be a string or a real number, not NoneType'')"
| "float_of_cell rt (SInt i) =
     (case rt_float_of_int rt i of
        None \<Rightarrow> Inl (overflow_error ''int too large to convert to float'') | Some r \<Rightarrow> Inr r)"
| "float_of_cell rt (SReal r) = Inr r"
| "float_of_cell rt (SText s) = from_reading ''could not convert string to float'' (rt_float_of_text rt s)"
| "float_of_cell rt (SBlob b) = from_reading ''could not convert string to float'' (rt_float_of_bytes rt b)"

section \<open>Types\<close>

datatype pg_type = TEXT | BIGINT | DOUBLE | BYTEA

fun pg_name :: "pg_type \<Rightarrow> string" where
  "pg_name TEXT = ''text''"
| "pg_name BIGINT = ''bigint''"
| "pg_name DOUBLE = ''double precision''"
| "pg_name BYTEA = ''bytea''"

definition affinity_default :: "(string, pg_type) dict" where
  "affinity_default = [(''INTEGER'', BIGINT), (''REAL'', DOUBLE), (''NUMERIC'', DOUBLE), (''TEXT'', TEXT), (''BLOB'', BYTEA)]"

definition sqlite_affinity :: "string \<Rightarrow> string" where
  "sqlite_affinity declared =
     (let upper = py_upper declared in
      if contains upper ''INT'' then ''INTEGER''
      else if list_ex (contains upper) [''CHAR'', ''CLOB'', ''TEXT''] then ''TEXT''
      else if contains upper ''BLOB'' \<or> strip upper = [] then ''BLOB''
      else if list_ex (contains upper) [''REAL'', ''FLOA'', ''DOUB''] then ''REAL''
      else ''NUMERIC'')"

definition default_type :: "string \<Rightarrow> pg_type" where
  "default_type declared = the (dict_get affinity_default (sqlite_affinity declared))"

text \<open>The flags the loop of \<open>infer_pg_type\<close> carries; SQLite returns no value outside the five classes,
  so \<open>seen_other\<close> stays false.\<close>

record seen =
  seen_int :: bool
  seen_float :: bool
  seen_str :: bool
  seen_bytes :: bool
  seen_other :: bool
  seen_empty :: bool

definition nothing_seen :: seen where
  "nothing_seen = \<lparr>seen_int = False, seen_float = False, seen_str = False, seen_bytes = False,
     seen_other = False, seen_empty = True\<rparr>"

fun see :: "cell \<Rightarrow> seen \<Rightarrow> seen" where
  "see SNull f = f"
| "see (SInt i) f = f\<lparr>seen_empty := False, seen_int := True\<rparr>"
| "see (SReal r) f = f\<lparr>seen_empty := False, seen_float := True\<rparr>"
| "see (SText s) f = f\<lparr>seen_empty := False, seen_str := True\<rparr>"
| "see (SBlob b) f = f\<lparr>seen_empty := False, seen_bytes := True\<rparr>"

definition infer_pg_type :: "cell list \<Rightarrow> string \<Rightarrow> pg_type" where
  "infer_pg_type cells declared =
     (let f = fold see cells nothing_seen in
      if seen_empty f then default_type declared
      else if seen_str f \<or> seen_other f then TEXT
      else if seen_bytes f then (if seen_int f \<or> seen_float f then TEXT else BYTEA)
      else if seen_float f then DOUBLE
      else if seen_int f then BIGINT
      else TEXT)"

definition pg_type_for_storage_classes :: "string set \<Rightarrow> string \<Rightarrow> pg_type" where
  "pg_type_for_storage_classes classes declared =
     (let present = classes - {''null''} in
      if present = {} then default_type declared
      else if ''text'' \<in> present then TEXT
      else if ''blob'' \<in> present then (if present \<inter> {''integer'', ''real''} \<noteq> {} then TEXT else BYTEA)
      else if ''real'' \<in> present then DOUBLE
      else if ''integer'' \<in> present then BIGINT
      else TEXT)"

section \<open>Plans\<close>

record column_plan =
  cp_source_name :: string
  cp_target_name :: string
  cp_pg_type :: pg_type
  cp_declared_type :: string

definition coerced :: "column_plan \<Rightarrow> bool" where
  "coerced c \<longleftrightarrow> cp_pg_type c \<noteq> default_type (cp_declared_type c)"

type_synonym key_plan = "string list \<times> string \<times> string list"

record table_plan =
  tp_source_name :: string
  tp_target_name :: string
  tp_columns :: "column_plan list"
  tp_primary_key :: "string list"
  tp_foreign_keys :: "key_plan list"

definition schema_name_for :: "string \<Rightarrow> string \<Rightarrow> exn + string" where
  "schema_name_for db_id pre =
     to_pg_identifier ''schema'' (if pre \<noteq> [] then pre @ db_id else db_id)"

definition resolve_fk_table :: "string \<Rightarrow> identifier_map \<Rightarrow> string option" where
  "resolve_fk_table referenced tables =
     map_option snd (find (\<lambda>(raw, safe). py_lower raw = py_lower referenced) (im_forward tables))"

fun safe_names :: "identifier_map \<Rightarrow> string list \<Rightarrow> exn + string list" where
  "safe_names m [] = Inr []"
| "safe_names m (n # ns) =
     (case safe_name m n of
        Inl e \<Rightarrow> Inl e
      | Inr s \<Rightarrow> (case safe_names m ns of Inl e \<Rightarrow> Inl e | Inr ss \<Rightarrow> Inr (s # ss)))"

text \<open>A foreign key of the plan, or None where the loop skips it; \<open>safe_name\<close> raises nothing but
  \<open>UnsafeIdentifierError\<close>, which the loop catches.\<close>

definition plan_key ::
  "identifier_map \<Rightarrow> identifier_map \<Rightarrow> (string, identifier_map) dict \<Rightarrow> sqlite_foreign_key \<Rightarrow> key_plan option" where
  "plan_key columns tables column_maps key =
     (case (resolve_fk_table (sk_referenced_table key) tables, dict_get column_maps (sk_referenced_table key)) of
        (Some target, Some remote_columns) \<Rightarrow>
         (case (safe_names columns (sk_columns key), safe_names remote_columns (sk_referenced_columns key)) of
            (Inr local, Inr remote) \<Rightarrow> Some (local, target, remote)
          | _ \<Rightarrow> None)
      | _ \<Rightarrow> None)"

fun plan_columns ::
  "identifier_map \<Rightarrow> (string, string set) dict \<Rightarrow> sqlite_column list \<Rightarrow> exn + column_plan list" where
  "plan_columns columns classes [] = Inr []"
| "plan_columns columns classes (c # cs) =
     (case safe_name columns (sc_name c) of
        Inl e \<Rightarrow> Inl e
      | Inr target \<Rightarrow>
         (case plan_columns columns classes cs of
            Inl e \<Rightarrow> Inl e
          | Inr ps \<Rightarrow> Inr (\<lparr>cp_source_name = sc_name c, cp_target_name = target,
              cp_pg_type = pg_type_for_storage_classes (of_option {} (dict_get classes (sc_name c))) (sc_declared_type c),
              cp_declared_type = sc_declared_type c\<rparr> # ps)))"

definition plan_table ::
  "sqlite_database \<Rightarrow> sqlite_table \<Rightarrow> string \<Rightarrow> identifier_map \<Rightarrow> (string, identifier_map) dict \<Rightarrow> exn + table_plan" where
  "plan_table db source target_name tables column_maps =
     (let columns = the (dict_get column_maps (st_name source));
          names = map sc_name (st_columns source);
          classes = storage_classes db (st_name source) names in
      case plan_columns columns classes (st_columns source) of
        Inl e \<Rightarrow> Inl e
      | Inr plans \<Rightarrow>
         (let keys = somes (map (plan_key columns tables column_maps) (st_foreign_keys source)) in
          case safe_names columns (primary_key_of_table source) of
            Inl e \<Rightarrow> Inl e
          | Inr primary \<Rightarrow> Inr \<lparr>tp_source_name = st_name source, tp_target_name = target_name,
              tp_columns = plans, tp_primary_key = primary, tp_foreign_keys = keys\<rparr>))"

section \<open>Retyping foreign keys\<close>

text \<open>A loop over a state whose step can raise.\<close>

fun fold_result :: "('a \<Rightarrow> 's \<Rightarrow> exn + 's) \<Rightarrow> 'a list \<Rightarrow> 's \<Rightarrow> exn + 's" where
  "fold_result f [] s = Inr s"
| "fold_result f (x # xs) s = (case f x s of Inl e \<Rightarrow> Inl e | Inr s' \<Rightarrow> fold_result f xs s')"

definition numeric :: "pg_type \<Rightarrow> bool" where
  "numeric t \<longleftrightarrow> t = BIGINT \<or> t = DOUBLE"

definition unified_type :: "pg_type \<Rightarrow> pg_type \<Rightarrow> pg_type option" where
  "unified_type left right =
     (if left = right then None
      else if left = BYTEA \<or> right = BYTEA then None
      else if numeric left \<and> numeric right then Some DOUBLE
      else if numeric left then Some left else if numeric right then Some right else None)"

definition value_or_type_error :: "exn \<Rightarrow> bool" where
  "value_or_type_error e \<longleftrightarrow> (case e of OtherError c _ \<Rightarrow> c = ''TypeError'' \<or> c = ''ValueError'' | _ \<Rightarrow> False)"

definition cell_fits :: "runtime \<Rightarrow> pg_type \<Rightarrow> cell \<Rightarrow> exn + bool" where
  "cell_fits rt ty v =
     (if v = SNull then Inr True
      else if ty = BIGINT
      then (case int_of_cell v of
              Inl e \<Rightarrow> if value_or_type_error e then Inr False else Inl e
            | Inr i \<Rightarrow> Inr (case v of SReal r \<Rightarrow> r = RFin (of_int i) | _ \<Rightarrow> True))
      else (case float_of_cell rt v of
              Inl e \<Rightarrow> if value_or_type_error e then Inr False else Inl e
            | Inr r \<Rightarrow> Inr True))"

fun values_fit :: "runtime \<Rightarrow> pg_type \<Rightarrow> cell list list \<Rightarrow> exn + bool" where
  "values_fit rt ty [] = Inr True"
| "values_fit rt ty (row # rs) =
     (case cell_fits rt ty (hd row) of
        Inl e \<Rightarrow> Inl e
      | Inr ok \<Rightarrow> if ok then values_fit rt ty rs else Inr False)"

type_synonym retypes = "(string \<times> string, pg_type) dict"

definition column_named :: "table_plan \<Rightarrow> string \<Rightarrow> column_plan option" where
  "column_named plan target_name = find (\<lambda>c. cp_target_name c = target_name) (tp_columns plan)"

definition current_type :: "retypes \<Rightarrow> table_plan \<Rightarrow> column_plan \<Rightarrow> pg_type" where
  "current_type retyped owner c =
     of_option (cp_pg_type c) (dict_get retyped (tp_target_name owner, cp_target_name c))"

definition retype ::
  "runtime \<Rightarrow> sqlite_database \<Rightarrow> pg_type \<Rightarrow> table_plan \<Rightarrow> column_plan \<Rightarrow> retypes \<Rightarrow> exn + retypes" where
  "retype rt db wanted owner c retyped =
     (if current_type retyped owner c = wanted then Inr retyped
      else case values_fit rt wanted (rows db (tp_source_name owner) [cp_source_name c]) of
        Inl e \<Rightarrow> Inl e
      | Inr ok \<Rightarrow> Inr (if ok then dict_set retyped (tp_target_name owner, cp_target_name c) wanted else retyped))"

definition unify_pair ::
  "runtime \<Rightarrow> sqlite_database \<Rightarrow> table_plan \<Rightarrow> table_plan \<Rightarrow> string \<Rightarrow> string \<Rightarrow> retypes \<Rightarrow> exn + retypes" where
  "unify_pair rt db plan target local remote retyped =
     (case (column_named plan local, column_named target remote) of
        (Some left, Some right) \<Rightarrow>
         (case unified_type (current_type retyped plan left) (current_type retyped target right) of
            None \<Rightarrow> Inr retyped
          | Some wanted \<Rightarrow>
             (case retype rt db wanted plan left retyped of
                Inl e \<Rightarrow> Inl e
              | Inr retyped' \<Rightarrow> retype rt db wanted target right retyped'))
      | _ \<Rightarrow> Inr retyped)"

text \<open>\<open>zip(local, remote, strict=True)\<close> raises when one side runs out first.\<close>

fun unify_pairs ::
  "runtime \<Rightarrow> sqlite_database \<Rightarrow> table_plan \<Rightarrow> table_plan \<Rightarrow> string list \<Rightarrow> string list \<Rightarrow> retypes \<Rightarrow> exn + retypes" where
  "unify_pairs rt db plan target [] [] retyped = Inr retyped"
| "unify_pairs rt db plan target (l # ls) (r # rs) retyped =
     (case unify_pair rt db plan target l r retyped of
        Inl e \<Rightarrow> Inl e | Inr retyped' \<Rightarrow> unify_pairs rt db plan target ls rs retyped')"
| "unify_pairs rt db plan target (l # ls) [] retyped = Inl (value_error ''zip() argument 2 is shorter than argument 1'')"
| "unify_pairs rt db plan target [] (r # rs) retyped = Inl (value_error ''zip() argument 2 is longer than argument 1'')"

definition unify_key ::
  "runtime \<Rightarrow> sqlite_database \<Rightarrow> (string, table_plan) dict \<Rightarrow> table_plan \<Rightarrow> key_plan \<Rightarrow> retypes \<Rightarrow> exn + retypes" where
  "unify_key rt db by_name plan key retyped =
     (case dict_get by_name (fst (snd key)) of
        None \<Rightarrow> Inr retyped
      | Some target \<Rightarrow> unify_pairs rt db plan target (fst key) (snd (snd key)) retyped)"

definition plans_by_name :: "table_plan list \<Rightarrow> (string, table_plan) dict" where
  "plans_by_name plans = fold (\<lambda>p d. dict_set d (tp_target_name p) p) plans []"

definition apply_retypes :: "retypes \<Rightarrow> table_plan \<Rightarrow> table_plan" where
  "apply_retypes retyped plan =
     plan\<lparr>tp_columns := map (\<lambda>c. case dict_get retyped (tp_target_name plan, cp_target_name c) of
        Some ty \<Rightarrow> c\<lparr>cp_pg_type := ty\<rparr> | None \<Rightarrow> c) (tp_columns plan)\<rparr>"

definition unify_foreign_key_types ::
  "runtime \<Rightarrow> sqlite_database \<Rightarrow> table_plan list \<Rightarrow> exn + table_plan list" where
  "unify_foreign_key_types rt db plans =
     (case fold_result (\<lambda>plan. fold_result (unify_key rt db (plans_by_name plans) plan) (tp_foreign_keys plan)) plans [] of
        Inl e \<Rightarrow> Inl e
      | Inr retyped \<Rightarrow> Inr (if retyped = [] then plans else map (apply_retypes retyped) plans))"

section \<open>Planning a database\<close>

fun each_table :: "(string \<Rightarrow> exn + 'a) \<Rightarrow> string list \<Rightarrow> exn + (string, 'a) dict" where
  "each_table f [] = Inr []"
| "each_table f (n # ns) =
     (case f n of
        Inl e \<Rightarrow> Inl e
      | Inr x \<Rightarrow> (case each_table f ns of Inl e \<Rightarrow> Inl e | Inr xs \<Rightarrow> Inr ((n, x) # xs)))"

definition column_map_of :: "(string, sqlite_table) dict \<Rightarrow> string \<Rightarrow> exn + identifier_map" where
  "column_map_of sources name = build_map ''column'' (map sc_name (st_columns (the (dict_get sources name))))"

definition plan_named ::
  "sqlite_database \<Rightarrow> (string, sqlite_table) dict \<Rightarrow> identifier_map \<Rightarrow> (string, identifier_map) dict \<Rightarrow> string
     \<Rightarrow> exn + table_plan" where
  "plan_named db sources tables column_maps name =
     (case safe_name tables name of
        Inl e \<Rightarrow> Inl e
      | Inr target \<Rightarrow> plan_table db (the (dict_get sources name)) target tables column_maps)"

definition plan_database :: "runtime \<Rightarrow> sqlite_database \<Rightarrow> string \<Rightarrow> exn + string \<times> table_plan list" where
  "plan_database rt db pre =
     (case schema_name_for (sd_db_id db) pre of
        Inl e \<Rightarrow> Inl e
      | Inr schema \<Rightarrow>
         (let names = table_names db in
          if names = [] then Inl (ConversionError (sd_db_id db @ '': no ordinary tables to convert''))
          else case build_map ''table'' names of
            Inl e \<Rightarrow> Inl e
          | Inr tables \<Rightarrow>
             (case each_table (read_table db) names of
                Inl e \<Rightarrow> Inl e
              | Inr sources \<Rightarrow>
                 (case each_table (column_map_of sources) names of
                    Inl e \<Rightarrow> Inl e
                  | Inr column_maps \<Rightarrow>
                     (case each_table (plan_named db sources tables column_maps) names of
                        Inl e \<Rightarrow> Inl e
                      | Inr plans \<Rightarrow>
                         (case unify_foreign_key_types rt db (map snd plans) of
                            Inl e \<Rightarrow> Inl e
                          | Inr unified \<Rightarrow> Inr (schema, unified)))))))"

section \<open>Values\<close>

definition py_str_of :: "runtime \<Rightarrow> cell \<Rightarrow> string" where
  "py_str_of rt v =
     (case v of SNull \<Rightarrow> ''None'' | SInt i \<Rightarrow> show_int i | SReal r \<Rightarrow> rt_show_float rt r
      | SText s \<Rightarrow> s | SBlob b \<Rightarrow> ''b'' @ py_repr b)"

definition adapt :: "runtime \<Rightarrow> cell \<Rightarrow> pg_type \<Rightarrow> exn + cell" where
  "adapt rt v ty =
     (if v = SNull then Inr SNull
      else case ty of
        BYTEA \<Rightarrow> Inr (case v of SBlob b \<Rightarrow> v | _ \<Rightarrow> SBlob (rt_encode rt (py_str_of rt v)))
      | TEXT \<Rightarrow> Inr (SText (case v of SText s \<Rightarrow> s | SBlob b \<Rightarrow> rt_decode rt b | _ \<Rightarrow> py_str_of rt v))
      | BIGINT \<Rightarrow> (case int_of_cell v of Inl e \<Rightarrow> Inl e | Inr i \<Rightarrow> Inr (SInt i))
      | DOUBLE \<Rightarrow> (case float_of_cell rt v of Inl e \<Rightarrow> Inl e | Inr r \<Rightarrow> Inr (SReal r)))"

fun adapt_row :: "runtime \<Rightarrow> cell list \<Rightarrow> pg_type list \<Rightarrow> exn + cell list" where
  "adapt_row rt [] [] = Inr []"
| "adapt_row rt (v # vs) (ty # tys) =
     (case adapt rt v ty of
        Inl e \<Rightarrow> Inl e
      | Inr w \<Rightarrow> (case adapt_row rt vs tys of Inl e \<Rightarrow> Inl e | Inr ws \<Rightarrow> Inr (w # ws)))"
| "adapt_row rt (v # vs) [] = Inl (value_error ''zip() argument 2 is shorter than argument 1'')"
| "adapt_row rt [] (ty # tys) = Inl (value_error ''zip() argument 2 is longer than argument 1'')"

section \<open>Facts\<close>

lemma sees:
  "let f' = fold see cells f in
   (seen_empty f' \<longleftrightarrow> seen_empty f \<and> set cells \<subseteq> {SNull})
   \<and> (seen_int f' \<longleftrightarrow> seen_int f \<or> ''integer'' \<in> storage_class ` set cells)
   \<and> (seen_float f' \<longleftrightarrow> seen_float f \<or> ''real'' \<in> storage_class ` set cells)
   \<and> (seen_str f' \<longleftrightarrow> seen_str f \<or> ''text'' \<in> storage_class ` set cells)
   \<and> (seen_bytes f' \<longleftrightarrow> seen_bytes f \<or> ''blob'' \<in> storage_class ` set cells)
   \<and> (seen_other f' \<longleftrightarrow> seen_other f)"
proof (induction cells arbitrary: f)
  case (Cons v vs)
  show ?case using Cons [of "see v f"] by (cases v) (auto simp: Let_def)
qed (simp add: Let_def)

lemma classes_empty: "storage_class ` set cells \<subseteq> {''null''} \<longleftrightarrow> set cells \<subseteq> {SNull}"
proof -
  have "storage_class v = ''null'' \<longleftrightarrow> v = SNull" for v by (cases v) auto
  then show ?thesis by blast
qed

lemma infer_from_classes:
  "pg_type_for_storage_classes (storage_class ` set cells) declared = infer_pg_type cells declared"
proof -
  let ?C = "storage_class ` set cells"
  note s = sees [of cells nothing_seen, unfolded Let_def nothing_seen_def seen.simps simp_thms]
  have mixed: "(?C - {''null''}) \<inter> {''integer'', ''real''} \<noteq> {} \<longleftrightarrow> ''integer'' \<in> ?C \<or> ''real'' \<in> ?C" by auto
  have "infer_pg_type cells declared =
     (if set cells \<subseteq> {SNull} then default_type declared
      else if ''text'' \<in> ?C then TEXT
      else if ''blob'' \<in> ?C then (if ''integer'' \<in> ?C \<or> ''real'' \<in> ?C then TEXT else BYTEA)
      else if ''real'' \<in> ?C then DOUBLE
      else if ''integer'' \<in> ?C then BIGINT else TEXT)"
    using s by (simp add: infer_pg_type_def Let_def nothing_seen_def)
  then show ?thesis
    by (simp add: pg_type_for_storage_classes_def Let_def classes_empty mixed)
qed

text \<open>The values a column of a type can hold.\<close>

fun of_type :: "pg_type \<Rightarrow> cell \<Rightarrow> bool" where
  "of_type BIGINT v \<longleftrightarrow> (\<exists>i. v = SInt i)"
| "of_type DOUBLE v \<longleftrightarrow> (\<exists>r. v = SReal r)"
| "of_type TEXT v \<longleftrightarrow> (\<exists>s. v = SText s)"
| "of_type BYTEA v \<longleftrightarrow> (\<exists>b. v = SBlob b)"

definition well_typed :: "pg_type \<Rightarrow> cell \<Rightarrow> bool" where
  "well_typed ty v \<longleftrightarrow> v = SNull \<or> of_type ty v"

lemma adapt_preserves: "adapt rt v ty = Inr w \<Longrightarrow> well_typed ty w"
  by (cases ty; cases v) (auto simp: adapt_def well_typed_def split: sum.splits)

text \<open>Python reads every stored integer as a float.\<close>

definition reads_integers :: "runtime \<Rightarrow> bool" where
  "reads_integers rt \<longleftrightarrow> (\<forall>i. - (2 ^ 63) \<le> i \<and> i < 2 ^ 63 \<longrightarrow> rt_float_of_int rt i \<noteq> None)"

lemma inferred_accepts:
  assumes "v \<in> set cells"
  shows "case v of SText s \<Rightarrow> infer_pg_type cells declared = TEXT
    | SBlob b \<Rightarrow> infer_pg_type cells declared \<in> {TEXT, BYTEA}
    | SReal r \<Rightarrow> infer_pg_type cells declared \<in> {TEXT, DOUBLE}
    | SInt i \<Rightarrow> infer_pg_type cells declared \<in> {TEXT, DOUBLE, BIGINT}
    | SNull \<Rightarrow> True"
proof -
  have "storage_class v \<in> storage_class ` set cells" "v \<noteq> SNull \<Longrightarrow> \<not> set cells \<subseteq> {SNull}" using assms by auto
  then show ?thesis unfolding infer_from_classes [symmetric]
    by (cases v) (simp_all add: pg_type_for_storage_classes_def Let_def classes_empty)
qed

lemma adapt_inferred:
  assumes "v \<in> set cells" "list_all stored cells" "reads_integers rt"
  shows "\<exists>w. adapt rt v (infer_pg_type cells declared) = Inr w"
proof -
  have st: "stored v" using assms(1,2) by (simp add: list_all_iff)
  show ?thesis using inferred_accepts [OF assms(1), of declared] st assms(3)
    by (cases v) (auto simp: adapt_def reads_integers_def)
qed

lemma adapt_fitting: "cell_fits rt ty v = Inr True \<Longrightarrow> numeric ty \<Longrightarrow> \<exists>w. adapt rt v ty = Inr w"
  by (auto simp: cell_fits_def adapt_def numeric_def split: if_splits sum.splits)

lemma values_fit_all: "values_fit rt ty rs = Inr True \<Longrightarrow> row \<in> set rs \<Longrightarrow> cell_fits rt ty (hd row) = Inr True"
  by (induction rs) (auto split: sum.splits if_splits)

text \<open>What the retyping may record: a numeric type for a column of a plan whose values all fit it.\<close>

definition justified :: "runtime \<Rightarrow> sqlite_database \<Rightarrow> table_plan list \<Rightarrow> retypes \<Rightarrow> bool" where
  "justified rt db plans retyped \<longleftrightarrow>
     (\<forall>t c ty. dict_get retyped (t, c) = Some ty \<longrightarrow> numeric ty
        \<and> (\<exists>owner \<in> set plans. \<exists>col. tp_target_name owner = t \<and> column_named owner c = Some col
             \<and> values_fit rt ty (rows db (tp_source_name owner) [cp_source_name col]) = Inr True))"

lemma unified_numeric: "unified_type l r = Some ty \<Longrightarrow> numeric ty"
  by (auto simp: unified_type_def numeric_def split: if_splits)

lemma column_named_target: "column_named p n = Some c \<Longrightarrow> cp_target_name c = n"
  by (auto simp: column_named_def find_Some_iff)

lemma retype_justified:
  assumes "justified rt db plans d" "retype rt db ty owner c d = Inr d'" "numeric ty" "owner \<in> set plans"
    "column_named owner (cp_target_name c) = Some c"
  shows "justified rt db plans d'"
proof (cases "d' = d")
  case False
  then have "values_fit rt ty (rows db (tp_source_name owner) [cp_source_name c]) = Inr True"
    "d' = dict_set d (tp_target_name owner, cp_target_name c) ty"
    using assms(2) by (auto simp: retype_def split: if_splits sum.splits)
  note new = this
  show ?thesis unfolding justified_def
  proof (intro allI impI)
    fix t n ty'
    assume some: "dict_get d' (t, n) = Some ty'"
    show "numeric ty' \<and> (\<exists>owner \<in> set plans. \<exists>col. tp_target_name owner = t \<and> column_named owner n = Some col
             \<and> values_fit rt ty' (rows db (tp_source_name owner) [cp_source_name col]) = Inr True)"
    proof (cases "(t, n) = (tp_target_name owner, cp_target_name c)")
      case True
      then have "ty' = ty" using some new(2) by simp
      then show ?thesis using True new(1) assms(3-5) by blast
    next
      case False
      then have "dict_get d (t, n) = Some ty'" using some new(2) by auto
      then show ?thesis using assms(1) unfolding justified_def by blast
    qed
  qed
qed (use assms in simp)

lemma unify_pair_justified:
  assumes "justified rt db plans d" "unify_pair rt db p q l r d = Inr d'" "p \<in> set plans" "q \<in> set plans"
  shows "justified rt db plans d'"
proof (cases "d' = d")
  case False
  then obtain left right wanted d1 where s: "column_named p l = Some left" "column_named q r = Some right"
      "unified_type (current_type d p left) (current_type d q right) = Some wanted"
      "retype rt db wanted p left d = Inr d1" "retype rt db wanted q right d1 = Inr d'"
    using assms(2) by (auto simp: unify_pair_def split: option.splits sum.splits)
  note targets = column_named_target [OF s(1)] column_named_target [OF s(2)]
  have "justified rt db plans d1"
    using retype_justified [OF assms(1) s(4) unified_numeric [OF s(3)] assms(3)] s(1) targets by simp
  then show ?thesis
    using retype_justified [OF _ s(5) unified_numeric [OF s(3)] assms(4)] s(2) targets by simp
qed (use assms in simp)

lemma unify_pairs_justified:
  assumes "justified rt db plans d" "unify_pairs rt db p q ls rs d = Inr d'" "p \<in> set plans" "q \<in> set plans"
  shows "justified rt db plans d'"
  using assms by (induction rt db p q ls rs d rule: unify_pairs.induct)
    (auto split: sum.splits dest: unify_pair_justified)

lemma fold_result_invariant:
  assumes "fold_result f xs s = Inr s'" "I s" "\<And>x t t'. x \<in> set xs \<Longrightarrow> I t \<Longrightarrow> f x t = Inr t' \<Longrightarrow> I t'"
  shows "I s'"
  using assms
proof (induction xs arbitrary: s)
  case (Cons x xs)
  then obtain t where "f x s = Inr t" "fold_result f xs t = Inr s'" by (auto split: sum.splits)
  with Cons show ?case by (metis list.set_intros)
qed simp

lemma plans_by_name_get: "dict_get (plans_by_name plans) t = Some p \<Longrightarrow> p \<in> set plans \<and> tp_target_name p = t"
proof -
  have "dict_get (fold (\<lambda>p d. dict_set d (tp_target_name p) p) ps d) t = Some p
      \<Longrightarrow> dict_get d t = Some p \<or> p \<in> set ps \<and> tp_target_name p = t" for ps d
    by (induction ps arbitrary: d) (fastforce split: if_splits)+
  then show "dict_get (plans_by_name plans) t = Some p \<Longrightarrow> ?thesis" by (fastforce simp: plans_by_name_def)
qed


lemma unify_justified:
  assumes "fold_result (\<lambda>plan. fold_result (unify_key rt db (plans_by_name plans) plan) (tp_foreign_keys plan)) plans [] = Inr d"
  shows "justified rt db plans d"
proof (rule fold_result_invariant [where I = "justified rt db plans", OF assms])
  show "justified rt db plans []" by (simp add: justified_def)
next
  fix plan s s'
  assume plan: "plan \<in> set plans" and s: "justified rt db plans s"
    and f: "fold_result (unify_key rt db (plans_by_name plans) plan) (tp_foreign_keys plan) s = Inr s'"
  show "justified rt db plans s'"
  proof (rule fold_result_invariant [where I = "justified rt db plans", OF f s])
    fix key u u'
    assume "justified rt db plans u" "unify_key rt db (plans_by_name plans) plan key u = Inr u'"
    then show "justified rt db plans u'"
      using plan plans_by_name_get unify_pairs_justified
      by (auto simp: unify_key_def split: option.splits)
  qed
qed

lemma column_named_self:
  "distinct (map cp_target_name (tp_columns p)) \<Longrightarrow> c \<in> set (tp_columns p) \<Longrightarrow> column_named p (cp_target_name c) = Some c"
proof -
  assume d: "distinct (map cp_target_name (tp_columns p))" and c: "c \<in> set (tp_columns p)"
  then obtain c' where "column_named p (cp_target_name c) = Some c'"
    by (cases "column_named p (cp_target_name c)") (auto simp: column_named_def find_None_iff)
  moreover then have "c' \<in> set (tp_columns p)" "cp_target_name c' = cp_target_name c"
    by (auto simp: column_named_def find_Some_iff)
  ultimately show ?thesis using d c by (metis distinct_map inj_onD)
qed

text \<open>One plan after the retyping: nothing but the types of columns changes, and a type changes only to
  a numeric one that every value of the column converts to.\<close>

definition widened :: "runtime \<Rightarrow> sqlite_database \<Rightarrow> table_plan \<Rightarrow> column_plan \<Rightarrow> column_plan \<Rightarrow> bool" where
  "widened rt db plan c c' \<longleftrightarrow>
     c' = c \<or> (\<exists>ty. numeric ty \<and> c' = c\<lparr>cp_pg_type := ty\<rparr>
       \<and> (\<forall>row \<in> set (rows db (tp_source_name plan) [cp_source_name c]). cell_fits rt ty (hd row) = Inr True))"

definition retyped_plan :: "runtime \<Rightarrow> sqlite_database \<Rightarrow> table_plan \<Rightarrow> table_plan \<Rightarrow> bool" where
  "retyped_plan rt db plan plan' \<longleftrightarrow>
     plan' = plan\<lparr>tp_columns := tp_columns plan'\<rparr>
     \<and> list_all2 (widened rt db plan) (tp_columns plan) (tp_columns plan')"

definition named_apart :: "table_plan list \<Rightarrow> bool" where
  "named_apart plans \<longleftrightarrow> distinct (map tp_target_name plans)
     \<and> (\<forall>p \<in> set plans. distinct (map cp_target_name (tp_columns p)))"

lemma apply_retyped:
  assumes j: "justified rt db plans d" and p: "plan \<in> set plans" and a: "named_apart plans"
  shows "retyped_plan rt db plan (apply_retypes d plan)"
proof -
  have "widened rt db plan c (case dict_get d (tp_target_name plan, cp_target_name c) of
          Some ty \<Rightarrow> c\<lparr>cp_pg_type := ty\<rparr> | None \<Rightarrow> c)" if c: "c \<in> set (tp_columns plan)" for c
  proof (cases "dict_get d (tp_target_name plan, cp_target_name c)")
    case (Some ty)
    then obtain owner col where o: "numeric ty" "owner \<in> set plans" "tp_target_name owner = tp_target_name plan"
        "column_named owner (cp_target_name c) = Some col"
        "values_fit rt ty (rows db (tp_source_name owner) [cp_source_name col]) = Inr True"
      using j unfolding justified_def by blast
    have "owner = plan" using a o(2,3) p by (metis named_apart_def distinct_map inj_onD)
    moreover have "col = c" using o(4) calculation column_named_self [OF _ c] a p by (auto simp: named_apart_def)
    ultimately show ?thesis using o values_fit_all Some unfolding widened_def by fastforce
  qed (simp add: widened_def)
  then have "list_all2 (widened rt db plan) (tp_columns plan) (tp_columns (apply_retypes d plan))"
    by (auto simp: apply_retypes_def list_all2_conv_all_nth)
  then show ?thesis by (simp add: retyped_plan_def apply_retypes_def)
qed

lemma widened_refl: "widened rt db plan c c" by (simp add: widened_def)

lemma retyped_plan_refl: "retyped_plan rt db plan plan"
  by (simp add: retyped_plan_def list_all2_conv_all_nth widened_refl)

lemma unify_retyped:
  assumes "unify_foreign_key_types rt db plans = Inr plans'" "named_apart plans"
  shows "list_all2 (retyped_plan rt db) plans plans'"
proof -
  obtain d where "fold_result (\<lambda>plan. fold_result (unify_key rt db (plans_by_name plans) plan) (tp_foreign_keys plan)) plans [] = Inr d"
      "plans' = (if d = [] then plans else map (apply_retypes d) plans)"
    using assms(1) by (auto simp: unify_foreign_key_types_def split: sum.splits)
  with unify_justified [of rt db plans d] apply_retyped [of rt db plans d] assms(2) retyped_plan_refl show ?thesis
    by (auto simp: list_all2_conv_all_nth)
qed

lemma safe_name_injective:
  assumes "build_map kind raws = Inr m" "safe_name m a = Inr s" "safe_name m b = Inr s"
  shows "a = b"
proof -
  obtain seen where "linked kind (im_forward m) seen" using build_map_facts(1) [OF assms(1)] by blast
  then show ?thesis using assms(2,3) by (auto simp: linked_def safe_name_def split: option.splits)
      (metis option.inject)
qed

lemma plan_columns_facts:
  "plan_columns m classes cs = Inr ps \<Longrightarrow>
     map cp_source_name ps = map sc_name cs
     \<and> (\<forall>p \<in> set ps. safe_name m (cp_source_name p) = Inr (cp_target_name p)
          \<and> cp_pg_type p = pg_type_for_storage_classes (of_option {} (dict_get classes (cp_source_name p))) (cp_declared_type p))"
  by (induction cs arbitrary: ps) (auto split: sum.splits)

lemma distinct_targets:
  assumes "map f ps = ns" "distinct ns" "\<And>p. p \<in> set ps \<Longrightarrow> safe_name m (f p) = Inr (g p)" "build_map kind raws = Inr m"
  shows "distinct (map g ps)"
proof -
  have "inj_on g (set ps)" if "inj_on f (set ps)"
    using that assms(3) safe_name_injective [OF assms(4)] unfolding inj_on_def by metis
  then show ?thesis using assms(1,2) by (auto simp: distinct_map)
qed

lemma each_table_facts:
  "each_table f ns = Inr d \<Longrightarrow> map fst d = ns \<and> (\<forall>n x. (n, x) \<in> set d \<longrightarrow> f n = Inr x)"
  by (induction ns arbitrary: d) (auto split: sum.splits)

lemma each_table_get:
  "each_table f ns = Inr d \<Longrightarrow> n \<in> set ns \<Longrightarrow> \<exists>x. dict_get d n = Some x \<and> f n = Inr x"
  by (induction ns arbitrary: d) (auto split: sum.splits)

text \<open>A database whose names are its own and whose answers are those of SQLite.\<close>

definition honest_database :: "sqlite_database \<Rightarrow> bool" where
  "honest_database db \<longleftrightarrow> distinct (table_names db)
     \<and> (\<forall>name \<in> set (table_names db).
          distinct (map fst (sd_info db name)) \<and> honest_answers db name (map fst (sd_info db name)))"

definition source_columns :: "table_plan \<Rightarrow> string list" where
  "source_columns p = map cp_source_name (tp_columns p)"

text \<open>A plan before the retyping: its columns are those of the table, typed by their values.\<close>

definition inferred_plan :: "sqlite_database \<Rightarrow> table_plan \<Rightarrow> bool" where
  "inferred_plan db p \<longleftrightarrow> tp_source_name p \<in> set (table_names db)
     \<and> source_columns p = map fst (sd_info db (tp_source_name p))
     \<and> (\<forall>i < length (tp_columns p). cp_pg_type (tp_columns p ! i)
          = infer_pg_type (column_cells db (tp_source_name p) (source_columns p) i) (cp_declared_type (tp_columns p ! i)))"

lemma read_table_columns:
  "read_table db name = Inr t \<Longrightarrow> st_name t = name \<and> map sc_name (st_columns t) = map fst (sd_info db name)"
  by (auto simp: read_table_def Let_def split: if_splits)

lemma plan_table_inferred:
  assumes p: "plan_table db t target tables maps = Inr p" and t: "read_table db name = Inr t"
    and n: "name \<in> set (table_names db)" and h: "honest_database db"
    and m: "dict_get maps name = Some m" "build_map ''column'' (map sc_name (st_columns t)) = Inr m"
  shows "inferred_plan db p" "tp_source_name p = name" "tp_target_name p = target"
    "distinct (map cp_target_name (tp_columns p))"
proof -
  let ?names = "map fst (sd_info db name)"
  note tf = read_table_columns [OF t]
  have dist: "distinct ?names" and ha: "honest_answers db name ?names"
    using h n by (auto simp: honest_database_def)
  obtain ps where ps: "plan_columns m (storage_classes db name ?names) (st_columns t) = Inr ps"
    "tp_source_name p = name" "tp_target_name p = target" "tp_columns p = ps"
    using p tf m(1) by (auto simp: plan_table_def Let_def split: sum.splits)
  note pc = plan_columns_facts [OF ps(1)]
  have src: "map cp_source_name ps = ?names" using pc tf by simp
  show "tp_source_name p = name" "tp_target_name p = target" by (fact ps)+
  show "distinct (map cp_target_name (tp_columns p))"
    using distinct_targets [OF src dist _ m(2)] pc ps(4) by simp
  have "cp_pg_type (ps ! i) = infer_pg_type (column_cells db name ?names i) (cp_declared_type (ps ! i))"
    if i: "i < length ps" for i
  proof -
    have "length ps = length ?names" using src by (metis length_map)
    then have il: "i < length ?names" using i by simp
    have "cp_source_name (ps ! i) = ?names ! i" using src i by (metis nth_map)
    moreover have "cp_pg_type (ps ! i) = pg_type_for_storage_classes
        (of_option {} (dict_get (storage_classes db name ?names) (cp_source_name (ps ! i)))) (cp_declared_type (ps ! i))"
      using pc nth_mem [OF i] by blast
    ultimately show ?thesis
      using storage_classes_exact [OF ha dist il] infer_from_classes by (simp add: of_option_def)
  qed
  then show "inferred_plan db p" using n ps src by (simp add: inferred_plan_def source_columns_def)
qed

lemma plan_database_inferred:
  assumes "plan_database rt db pre = Inr (schema, plans')" "honest_database db"
  shows "\<exists>plans. (\<forall>p \<in> set plans. inferred_plan db p) \<and> map tp_source_name plans = table_names db
    \<and> named_apart plans \<and> unify_foreign_key_types rt db plans = Inr plans'"
proof -
  let ?names = "table_names db"
  obtain tables sources maps plans where
      tables: "build_map ''table'' ?names = Inr tables"
    and sources: "each_table (read_table db) ?names = Inr sources"
    and maps: "each_table (column_map_of sources) ?names = Inr maps"
    and plans: "each_table (plan_named db sources tables maps) ?names = Inr plans"
    and unify: "unify_foreign_key_types rt db (map snd plans) = Inr plans'"
    using assms(1) by (auto simp: plan_database_def Let_def split: sum.splits if_splits)
  have each: "inferred_plan db p" "tp_source_name p = n" "safe_name tables n = Inr (tp_target_name p)"
      "distinct (map cp_target_name (tp_columns p))" if "(n, p) \<in> set plans" for n p
  proof -
    have n: "n \<in> set ?names" using each_table_facts [OF plans] that by (metis fst_conv image_eqI set_map)
    obtain t where t: "dict_get sources n = Some t" "read_table db n = Inr t"
      using each_table_get [OF sources n] by blast
    obtain m where m: "dict_get maps n = Some m" "build_map ''column'' (map sc_name (st_columns t)) = Inr m"
      using each_table_get [OF maps n] t(1) by (auto simp: column_map_of_def)
    have "plan_named db sources tables maps n = Inr p" using each_table_facts [OF plans] that by blast
    then obtain target where target: "safe_name tables n = Inr target" "plan_table db t target tables maps = Inr p"
      using t(1) by (auto simp: plan_named_def split: sum.splits)
    note pt = plan_table_inferred [OF target(2) t(2) n assms(2) m]
    show "inferred_plan db p" "tp_source_name p = n" "safe_name tables n = Inr (tp_target_name p)"
      "distinct (map cp_target_name (tp_columns p))" using pt target(1) by auto
  qed
  have names: "map tp_source_name (map snd plans) = ?names"
  proof -
    have "map tp_source_name (map snd plans) = map fst plans" using each(2) by auto
    then show ?thesis using each_table_facts [OF plans] by simp
  qed
  have "distinct ?names" using assms(2) by (simp add: honest_database_def)
  from distinct_targets [OF names this _ tables]
  have "named_apart (map snd plans)" using each by (fastforce simp: named_apart_def)
  then show ?thesis using names unify each(1) by (intro exI [of _ "map snd plans"]) auto
qed

lemma adapt_widened:
  assumes w: "widened rt db p c c'" and v: "v \<in> set cells" "list_all stored cells" "reads_integers rt"
    and c: "cp_pg_type c = infer_pg_type cells (cp_declared_type c)"
    and alone: "rows db (tp_source_name p) [cp_source_name c] = map (\<lambda>v. [v]) cells"
  shows "\<exists>w. adapt rt v (cp_pg_type c') = Inr w \<and> well_typed (cp_pg_type c') w"
proof -
  have "\<exists>w. adapt rt v (cp_pg_type c') = Inr w"
  proof (cases "c' = c")
    case True
    then show ?thesis using adapt_inferred [OF v] c by simp
  next
    case False
    then obtain ty where "numeric ty" "c' = c\<lparr>cp_pg_type := ty\<rparr>" "cell_fits rt ty v = Inr True"
      using w v(1) alone by (auto simp: widened_def)
    then show ?thesis using adapt_fitting by simp
  qed
  then show ?thesis using adapt_preserves by blast
qed

lemma adapt_row_all:
  "list_all2 (\<lambda>v ty. \<exists>w. adapt rt v ty = Inr w \<and> well_typed ty w) vs tys \<Longrightarrow>
     \<exists>ws. adapt_row rt vs tys = Inr ws \<and> list_all2 well_typed tys ws"
  by (induction vs tys rule: list_all2_induct) auto

lemma converted_rows_typed:
  assumes plan: "plan_database rt db pre = Inr (schema, plans)" and h: "honest_database db" and rt: "reads_integers rt"
    and p: "p \<in> set plans" and row: "row \<in> set (rows db (tp_source_name p) (source_columns p))"
  shows "\<exists>ws. adapt_row rt row (map cp_pg_type (tp_columns p)) = Inr ws
    \<and> list_all2 well_typed (map cp_pg_type (tp_columns p)) ws"
proof -
  obtain ps where ps: "\<forall>p \<in> set ps. inferred_plan db p" "named_apart ps" "unify_foreign_key_types rt db ps = Inr plans"
    using plan_database_inferred [OF plan h] by blast
  obtain q where q: "q \<in> set ps" "retyped_plan rt db q p"
    using unify_retyped [OF ps(3,2)] p by (metis list_all2_conv_all_nth in_set_conv_nth)
  let ?name = "tp_source_name q" and ?cols = "source_columns q"
  have same: "tp_source_name p = ?name" using q(2) by (metis retyped_plan_def table_plan.select_convs(1) table_plan.surjective table_plan.update_convs(3))
  have w: "list_all2 (widened rt db q) (tp_columns q) (tp_columns p)" using q(2) by (simp add: retyped_plan_def)
  then have "source_columns p = ?cols"
    by (auto simp: source_columns_def widened_def list_all2_conv_all_nth intro!: nth_equalityI)
  note inf = bspec [OF ps(1) q(1), unfolded inferred_plan_def]
  have ha: "honest_answers db ?name ?cols" using inf h by (auto simp: honest_database_def)
  have row': "row \<in> set (sd_select db ?name ?cols)" using row same \<open>source_columns p = ?cols\<close> by (simp add: rows_def)
  have len: "length row = length ?cols" "list_all stored row" using ha row' by (auto simp: honest_answers_def)
  have "\<exists>w. adapt rt (row ! i) (cp_pg_type (tp_columns p ! i)) = Inr w \<and> well_typed (cp_pg_type (tp_columns p ! i)) w"
    if i: "i < length ?cols" for i
  proof (rule adapt_widened [where cells = "column_cells db ?name ?cols i"])
    have iq: "i < length (tp_columns q)" using i by (simp add: source_columns_def)
    show "widened rt db q (tp_columns q ! i) (tp_columns p ! i)" using w iq by (simp add: list_all2_conv_all_nth)
    show "row ! i \<in> set (column_cells db ?name ?cols i)" using row' by (simp add: column_cells_def)
    show "list_all stored (column_cells db ?name ?cols i)"
      using ha i by (auto simp: honest_answers_def column_cells_def list_all_iff)
    show "cp_pg_type (tp_columns q ! i) = infer_pg_type (column_cells db ?name ?cols i) (cp_declared_type (tp_columns q ! i))"
      using inf iq by blast
    have "cp_source_name (tp_columns q ! i) = ?cols ! i" using iq by (simp add: source_columns_def)
    then show "rows db ?name [cp_source_name (tp_columns q ! i)] = map (\<lambda>v. [v]) (column_cells db ?name ?cols i)"
      using ha i by (auto simp: honest_answers_def rows_def)
  qed (rule rt)
  moreover have "length (tp_columns p) = length ?cols" using list_all2_lengthD [OF w] by (simp add: source_columns_def)
  ultimately show ?thesis using len(1) by (intro adapt_row_all) (simp add: list_all2_conv_all_nth)
qed

section \<open>Properties\<close>


definition toy_runtime :: runtime where
  "toy_runtime = \<lparr>rt_float_of_text = (\<lambda>s. Some (RFin 1)), rt_float_of_bytes = (\<lambda>s. None), rt_float_of_int = (\<lambda>i. Some (RFin (of_int i))),
     rt_show_float = (\<lambda>r. ''x''), rt_encode = id, rt_decode = id\<rparr>"

definition toy_database :: sqlite_database where
  "toy_database = \<lparr>sd_db_id = ''d'', sd_master = [(''o'', ''table'', Some ''x''), (''p'', ''table'', Some ''x'')],
     sd_info = (\<lambda>t. if t = ''o'' then [(''i'', Some ''INT'', 0, 1)] else if t = ''p'' then [(''r'', Some ''TEXT'', 0, 0)] else []),
     sd_keys = (\<lambda>t. if t = ''p'' then [(0, 0, ''o'', ''r'', Some ''i'')] else []),
     sd_select = (\<lambda>t cs. if t = ''o'' then [[SInt 1]] else [[SText ''1'']]),
     sd_typeof = (\<lambda>t cs. if t = ''o'' then [Some ''integer''] else [Some ''text'']),
     sd_text_replacements = 0\<rparr>"

definition toy_plans :: "table_plan list" where
  "toy_plans =
     [\<lparr>tp_source_name = ''o'', tp_target_name = ''o'', tp_columns = [\<lparr>cp_source_name = ''i'', cp_target_name = ''i'',
         cp_pg_type = BIGINT, cp_declared_type = ''INT''\<rparr>], tp_primary_key = [''i''], tp_foreign_keys = []\<rparr>,
      \<lparr>tp_source_name = ''p'', tp_target_name = ''p'', tp_columns = [\<lparr>cp_source_name = ''r'', cp_target_name = ''r'',
         cp_pg_type = BIGINT, cp_declared_type = ''TEXT''\<rparr>], tp_primary_key = [], tp_foreign_keys = [([''r''], ''o'', [''i''])]\<rparr>]"

lemma toy_planned: "plan_database toy_runtime toy_database [] = Inr (''d'', toy_plans)"
  by code_simp

lemma toy_honest: "honest_database toy_database"
proof -
  have names: "table_names toy_database = [''o'', ''p'']" by code_simp
  have ok: "typeof_ok [SInt 1] (Some ''integer'')" "typeof_ok [SText ''1''] (Some ''text'')"
    by (simp_all add: typeof_ok_def exI [of _ "[''integer'']"] exI [of _ "[''text'']"])
  have "honest_answers toy_database ''o'' [''i'']" "honest_answers toy_database ''p'' [''r'']"
    using ok by (simp_all add: honest_answers_def column_cells_def toy_database_def)
  then show ?thesis unfolding honest_database_def names by (simp add: toy_database_def)
qed

lemma conversion_toy_reads: "reads_integers toy_runtime"
  by (simp add: reads_integers_def toy_runtime_def)


text \<open>Retyping loses nothing. The plans returned are the inferred ones, table by table in the order of
  the database, with nothing changed but types of columns; and a type is changed only to a numeric
  one, never to text, and only when every value of the column converts to it.\<close>

theorem retyping_is_justified:
  assumes "plan_database rt db pre = Inr (schema, plans)" "honest_database db"
  shows "\<exists>inferred. map tp_source_name inferred = table_names db \<and> (\<forall>p \<in> set inferred. inferred_plan db p)
    \<and> list_all2 (retyped_plan rt db) inferred plans"
  using plan_database_inferred [OF assms] unify_retyped by blast

theorem retyping_is_justified_witness:
  "\<exists>inferred. map tp_source_name inferred = [''o'', ''p''] \<and> (\<forall>p \<in> set inferred. inferred_plan toy_database p)
    \<and> list_all2 (retyped_plan toy_runtime toy_database) inferred toy_plans"
proof -
  have "table_names toy_database = [''o'', ''p'']" by code_simp
  then show ?thesis using retyping_is_justified [OF toy_planned toy_honest] by simp
qed

section \<open>Where the code and its comments part\<close>

text \<open>A key that spells its target in another case resolves, and is then dropped all the same.\<close>

lemma other_case_is_dropped:
  "resolve_fk_table ''O'' \<lparr>im_kind = ''table'', im_forward = [(''o'', ''o'')]\<rparr> = Some ''o''
   \<and> plan_key m \<lparr>im_kind = ''table'', im_forward = [(''o'', ''o'')]\<rparr> [(''o'', r)]
        \<lparr>sk_columns = cs, sk_referenced_table = ''O'', sk_referenced_columns = rs\<rparr> = None"
  by (simp add: resolve_fk_table_def plan_key_def py_lower_def lower_char_def char_eval)

text \<open>Values that fit without being kept: blanks and leading zeros disappear, and an integer of any width
  fits, though a \<open>bigint\<close> has 64 bits. An infinite value raises instead of not fitting.\<close>

lemma fits_with_loss:
  "cell_fits rt BIGINT (SText '' 007 '') = Inr True \<and> adapt rt (SText '' 007 '') BIGINT = Inr (SInt 7)"
  by (simp add: cell_fits_def adapt_def int_reading_def int_blank_def is_digit_def digits_to_nat_def
      from_reading_def Let_def code_def)

lemma wide_integer_fits: "cell_fits rt BIGINT (SText ''10000000000000000000'') = Inr True"
  by (simp add: cell_fits_def int_reading_def int_blank_def is_digit_def from_reading_def Let_def code_def)

lemma infinity_raises:
  "values_fit rt BIGINT [[SReal (RInf False)]] = Inl (overflow_error ''cannot convert float infinity to integer'')"
  by (simp add: cell_fits_def value_or_type_error_def overflow_error_def)

text \<open>One pass over the keys: \<open>a.x\<close> and \<open>b.y\<close> are made \<open>bigint\<close>, then the key from \<open>b.y\<close> to \<open>c.z\<close> moves
  \<open>b.y\<close> on to \<open>double precision\<close>, and the first key joins two types again.\<close>

definition one_column :: "string \<Rightarrow> string \<Rightarrow> pg_type \<Rightarrow> key_plan list \<Rightarrow> table_plan" where
  "one_column name col ty keys = \<lparr>tp_source_name = name, tp_target_name = name,
     tp_columns = [\<lparr>cp_source_name = col, cp_target_name = col, cp_pg_type = ty, cp_declared_type = []\<rparr>],
     tp_primary_key = [], tp_foreign_keys = keys\<rparr>"

lemma later_key_parts_earlier:
  "unify_foreign_key_types toy_runtime toy_database
     [one_column ''a'' ''x'' BIGINT [([''x''], ''b'', [''y''])], one_column ''b'' ''y'' TEXT [([''y''], ''c'', [''z''])],
      one_column ''c'' ''z'' DOUBLE []]
   = Inr [one_column ''a'' ''x'' BIGINT [([''x''], ''b'', [''y''])], one_column ''b'' ''y'' DOUBLE [([''y''], ''c'', [''z''])],
      one_column ''c'' ''z'' DOUBLE []]"
  by code_simp

text \<open>Bytes beside a number give \<open>text\<close>, though no text is present.\<close>

lemma bytes_and_number: "infer_pg_type [SBlob b, SInt 1] declared = TEXT"
  by (simp add: infer_pg_type_def nothing_seen_def Let_def)

text \<open>The underscore of \<open>LIKE 'sqlite_%'\<close> is a wildcard: an ordinary table of the user is left out.\<close>

lemma like_is_too_wide: "sql_like ''sqlite_%'' ''sqlitecloud''"
  by code_simp

end
