(* ===== verification/Loading.thy ===== *)
theory Loading
  imports Conversion
begin

text \<open>
  Loading a planned database into PostgreSQL (\<open>convert_database\<close> of \<open>src/benchmark/convert.py\<close>): one
  transaction that opens the schema, creates and fills the tables, adds the constraints the data
  admits and grants the read-only role. The rows of a \<open>COPY\<close> are sent together here, so an exception
  while adapting them comes before one of the server.
\<close>

section \<open>Loading\<close>

text \<open>A statement as the server sees it, with the rows of a \<open>COPY\<close>. \<open>sv_ident\<close> quotes an identifier.
  The server answers a statement, after those already executed, by an error or not at all.\<close>

datatype pg_statement = Execute string | CopyIn string "cell list list"

record pg_server =
  sv_ident :: "string \<Rightarrow> string"
  sv_schema_exists :: "string \<Rightarrow> bool"
  sv_refuses :: "pg_statement list \<Rightarrow> pg_statement \<Rightarrow> exn option"

definition idents :: "pg_server \<Rightarrow> string list \<Rightarrow> string" where
  "idents sv names = join '', '' (map (sv_ident sv) names)"

definition dotted :: "pg_server \<Rightarrow> string \<Rightarrow> string \<Rightarrow> string" where
  "dotted sv schema name = sv_ident sv schema @ ''.'' @ sv_ident sv name"

definition create_table_text :: "pg_server \<Rightarrow> string \<Rightarrow> table_plan \<Rightarrow> string" where
  "create_table_text sv schema plan =
     ''CREATE TABLE '' @ dotted sv schema (tp_target_name plan) @ '' (''
     @ join '', '' (map (\<lambda>c. sv_ident sv (cp_target_name c) @ '' '' @ pg_name (cp_pg_type c)) (tp_columns plan)) @ '')''"

definition copy_text :: "pg_server \<Rightarrow> string \<Rightarrow> table_plan \<Rightarrow> string" where
  "copy_text sv schema plan =
     ''COPY '' @ dotted sv schema (tp_target_name plan) @ '' ('' @ idents sv (map cp_target_name (tp_columns plan))
     @ '') FROM STDIN''"

definition primary_key_text :: "pg_server \<Rightarrow> string \<Rightarrow> table_plan \<Rightarrow> string" where
  "primary_key_text sv schema plan =
     ''ALTER TABLE '' @ dotted sv schema (tp_target_name plan) @ '' ADD PRIMARY KEY ('' @ idents sv (tp_primary_key plan) @ '')''"

definition foreign_key_text :: "pg_server \<Rightarrow> string \<Rightarrow> table_plan \<Rightarrow> nat \<Rightarrow> key_plan \<Rightarrow> string" where
  "foreign_key_text sv schema plan i key =
     ''ALTER TABLE '' @ dotted sv schema (tp_target_name plan) @ '' ADD CONSTRAINT ''
     @ sv_ident sv (take 63 (tp_target_name plan @ ''_fk_'' @ show_nat i)) @ '' FOREIGN KEY ('' @ idents sv (fst key)
     @ '') REFERENCES '' @ dotted sv schema (fst (snd key)) @ '' ('' @ idents sv (snd (snd key)) @ '') NOT VALID''"

definition grant_texts :: "pg_server \<Rightarrow> string \<Rightarrow> string \<Rightarrow> string list" where
  "grant_texts sv schema grantee =
     [''GRANT USAGE ON SCHEMA '' @ sv_ident sv schema @ '' TO '' @ sv_ident sv grantee,
      ''GRANT SELECT ON ALL TABLES IN SCHEMA '' @ sv_ident sv schema @ '' TO '' @ sv_ident sv grantee]"

text \<open>The transaction: the statements executed so far, or the exception that ends it and rolls it back.\<close>

definition pg_execute :: "pg_server \<Rightarrow> pg_statement \<Rightarrow> pg_statement list \<Rightarrow> exn + pg_statement list" where
  "pg_execute sv s sent = (case sv_refuses sv sent s of Some e \<Rightarrow> Inl e | None \<Rightarrow> Inr (sent @ [s]))"

text \<open>\<open>_try_constraint\<close>: a refusal by the driver undoes the statement and is reported, nothing more.\<close>

definition try_constraint :: "pg_server \<Rightarrow> string \<Rightarrow> pg_statement list \<Rightarrow> exn + bool \<times> pg_statement list" where
  "try_constraint sv q sent =
     (case pg_execute sv (Execute q) sent of
        Inr sent' \<Rightarrow> Inr (True, sent')
      | Inl e \<Rightarrow> (case e of DriverError s p t \<Rightarrow> Inr (False, sent) | _ \<Rightarrow> Inl e))"

definition add_primary_key :: "pg_server \<Rightarrow> string \<Rightarrow> table_plan \<Rightarrow> pg_statement list \<Rightarrow> exn + bool \<times> pg_statement list" where
  "add_primary_key sv schema plan sent =
     (if tp_primary_key plan = [] then Inr (True, sent)
      else try_constraint sv (primary_key_text sv schema plan) sent)"

definition add_foreign_key ::
  "pg_server \<Rightarrow> string \<Rightarrow> table_plan \<Rightarrow> key_plan \<Rightarrow> nat \<Rightarrow> pg_statement list \<Rightarrow> exn + bool \<times> pg_statement list" where
  "add_foreign_key sv schema plan key i sent = try_constraint sv (foreign_key_text sv schema plan i key) sent"

fun adapt_rows :: "runtime \<Rightarrow> pg_type list \<Rightarrow> cell list list \<Rightarrow> exn + cell list list" where
  "adapt_rows rt tys [] = Inr []"
| "adapt_rows rt tys (row # rs) =
     (case adapt_row rt row tys of
        Inl e \<Rightarrow> Inl e
      | Inr out \<Rightarrow> (case adapt_rows rt tys rs of Inl e \<Rightarrow> Inl e | Inr outs \<Rightarrow> Inr (out # outs)))"

definition load_table ::
  "runtime \<Rightarrow> pg_server \<Rightarrow> sqlite_database \<Rightarrow> string \<Rightarrow> table_plan \<Rightarrow> pg_statement list \<Rightarrow> exn + nat \<times> pg_statement list" where
  "load_table rt sv db schema plan sent =
     (case adapt_rows rt (map cp_pg_type (tp_columns plan)) (rows db (tp_source_name plan) (map cp_source_name (tp_columns plan))) of
        Inl e \<Rightarrow> Inl e
      | Inr out \<Rightarrow>
         (case pg_execute sv (CopyIn (copy_text sv schema plan) out) sent of
            Inl e \<Rightarrow> Inl e | Inr sent' \<Rightarrow> Inr (length out, sent')))"

record conversion_report =
  cr_db_id :: string
  cr_schema :: string
  cr_tables :: nat
  cr_rows :: nat
  cr_coerced_columns :: "string list"
  cr_skipped_primary_keys :: "string list"
  cr_skipped_foreign_keys :: "string list"
  cr_text_replacements :: nat
  cr_notes :: "string list"

type_synonym loading = "conversion_report \<times> pg_statement list"

definition coerced_names :: "table_plan \<Rightarrow> string list" where
  "coerced_names plan =
     map (\<lambda>c. tp_target_name plan @ ''.'' @ cp_target_name c @ '':'' @ pg_name (cp_pg_type c))
       (filter coerced (tp_columns plan))"

definition create_and_load ::
  "runtime \<Rightarrow> pg_server \<Rightarrow> sqlite_database \<Rightarrow> string \<Rightarrow> table_plan \<Rightarrow> loading \<Rightarrow> exn + loading" where
  "create_and_load rt sv db schema plan st =
     (case pg_execute sv (Execute (create_table_text sv schema plan)) (snd st) of
        Inl e \<Rightarrow> Inl e
      | Inr sent \<Rightarrow>
         (case load_table rt sv db schema plan sent of
            Inl e \<Rightarrow> Inl e
          | Inr (written, sent') \<Rightarrow>
              Inr ((fst st)\<lparr>cr_rows := cr_rows (fst st) + written, cr_tables := cr_tables (fst st) + 1,
                     cr_coerced_columns := cr_coerced_columns (fst st) @ coerced_names plan\<rparr>, sent')))"

definition key_primary :: "pg_server \<Rightarrow> string \<Rightarrow> table_plan \<Rightarrow> loading \<Rightarrow> exn + loading" where
  "key_primary sv schema plan st =
     (case add_primary_key sv schema plan (snd st) of
        Inl e \<Rightarrow> Inl e
      | Inr (ok, sent) \<Rightarrow>
          Inr (if ok then fst st
               else (fst st)\<lparr>cr_skipped_primary_keys := cr_skipped_primary_keys (fst st) @ [tp_target_name plan]\<rparr>, sent))"

definition skipped_key_name :: "table_plan \<Rightarrow> key_plan \<Rightarrow> string" where
  "skipped_key_name plan key = tp_target_name plan @ ''('' @ join '','' (fst key) @ '')->'' @ fst (snd key)"

definition key_foreign :: "pg_server \<Rightarrow> string \<Rightarrow> table_plan \<Rightarrow> nat \<times> key_plan \<Rightarrow> loading \<Rightarrow> exn + loading" where
  "key_foreign sv schema plan ik st =
     (case add_foreign_key sv schema plan (snd ik) (fst ik) (snd st) of
        Inl e \<Rightarrow> Inl e
      | Inr (ok, sent) \<Rightarrow>
          Inr (if ok then fst st
               else (fst st)\<lparr>cr_skipped_foreign_keys := cr_skipped_foreign_keys (fst st) @ [skipped_key_name plan (snd ik)]\<rparr>, sent))"

definition run_statement :: "pg_server \<Rightarrow> string \<Rightarrow> loading \<Rightarrow> exn + loading" where
  "run_statement sv q st =
     (case pg_execute sv (Execute q) (snd st) of Inl e \<Rightarrow> Inl e | Inr sent \<Rightarrow> Inr (fst st, sent))"

definition start_schema :: "pg_server \<Rightarrow> string \<Rightarrow> bool \<Rightarrow> loading \<Rightarrow> exn + loading" where
  "start_schema sv schema replace st =
     (let drop = ''DROP SCHEMA '' @ sv_ident sv schema @ '' CASCADE'';
          create = ''CREATE SCHEMA '' @ sv_ident sv schema in
      if sv_schema_exists sv schema
      then if \<not> replace
        then Inl (ConversionError (''schema '' @ py_repr schema
          @ '' already exists. Pass --replace to drop and reload it; loading into it would leave a mix of two databases.''))
        else fold_result (run_statement sv) [drop, create] st
      else run_statement sv create st)"

definition grant_readonly :: "pg_server \<Rightarrow> string \<Rightarrow> string \<Rightarrow> loading \<Rightarrow> exn + loading" where
  "grant_readonly sv schema role st =
     (case to_pg_identifier ''role'' role of
        Inl e \<Rightarrow> Inl e
      | Inr grantee \<Rightarrow> fold_result (run_statement sv) (grant_texts sv schema grantee) st)"

text \<open>The steps of the transaction, in order; the first exception ends them all.\<close>

definition load_steps ::
  "runtime \<Rightarrow> pg_server \<Rightarrow> sqlite_database \<Rightarrow> string \<Rightarrow> table_plan list \<Rightarrow> string \<Rightarrow> bool \<Rightarrow> (loading \<Rightarrow> exn + loading) list" where
  "load_steps rt sv db schema plans role replace =
     [start_schema sv schema replace]
     @ map (create_and_load rt sv db schema) plans
     @ map (key_primary sv schema) plans
     @ concat (map (\<lambda>plan. map (key_foreign sv schema plan) (enumerate 0 (tp_foreign_keys plan))) plans)
     @ [grant_readonly sv schema role]"

definition replacement_note :: "nat \<Rightarrow> string" where
  "replacement_note n = show_nat n @ '' value(s) contained bytes that are not valid UTF-8 and were decoded with replacement characters''"

definition empty_report :: "string \<Rightarrow> string \<Rightarrow> conversion_report" where
  "empty_report db_id schema = \<lparr>cr_db_id = db_id, cr_schema = schema, cr_tables = 0, cr_rows = 0, cr_coerced_columns = [],
     cr_skipped_primary_keys = [], cr_skipped_foreign_keys = [], cr_text_replacements = 0, cr_notes = []\<rparr>"

definition convert_database ::
  "runtime \<Rightarrow> pg_server \<Rightarrow> sqlite_database \<Rightarrow> string \<Rightarrow> table_plan list \<Rightarrow> string \<Rightarrow> bool \<Rightarrow> exn + loading" where
  "convert_database rt sv db schema plans role replace =
     (case fold_result (\<lambda>step. step) (load_steps rt sv db schema plans role replace)
             (empty_report (sd_db_id db) schema, []) of
        Inl e \<Rightarrow> Inl e
      | Inr (report, sent) \<Rightarrow>
         (let n = sd_text_replacements db;
              report' = report\<lparr>cr_text_replacements := n\<rparr> in
          Inr (if n = 0 then report' else report'\<lparr>cr_notes := cr_notes report' @ [replacement_note n]\<rparr>, sent)))"

definition report_json :: "conversion_report \<Rightarrow> json" where
  "report_json r = JObj [(''db_id'', JStr (cr_db_id r)), (''schema'', JStr (cr_schema r)), (''tables'', JInt (int (cr_tables r))),
     (''rows'', JInt (int (cr_rows r))), (''coerced_columns'', JArr (map JStr (cr_coerced_columns r))),
     (''skipped_primary_keys'', JArr (map JStr (cr_skipped_primary_keys r))),
     (''skipped_foreign_keys'', JArr (map JStr (cr_skipped_foreign_keys r))),
     (''text_replacements'', JInt (int (cr_text_replacements r))), (''notes'', JArr (map JStr (cr_notes r)))]"


lemma fold_result_append:
  "fold_result f (xs @ ys) s = (case fold_result f xs s of Inl e \<Rightarrow> Inl e | Inr t \<Rightarrow> fold_result f ys t)"
  by (induction xs arbitrary: s) (auto split: sum.splits)

lemma fold_result_append_Inr:
  "fold_result f (xs @ ys) s = Inr u \<longleftrightarrow> (\<exists>t. fold_result f xs s = Inr t \<and> fold_result f ys t = Inr u)"
  by (auto simp: fold_result_append split: sum.splits)

lemma fold_result_map: "fold_result (\<lambda>step. step) (map f xs) s = fold_result f xs s"
  by (induction xs arbitrary: s) (auto split: sum.splits)

lemma fold_result_one: "fold_result (\<lambda>step. step) [f] s = f s"
  by (cases "f s") auto

lemma pg_execute_sent: "pg_execute sv s sent = Inr sent' \<longleftrightarrow> sv_refuses sv sent s = None \<and> sent' = sent @ [s]"
  by (auto simp: pg_execute_def split: option.splits)

lemma run_statement_sent: "run_statement sv q st = Inr st' \<Longrightarrow> st' = (fst st, snd st @ [Execute q])"
  by (auto simp: run_statement_def pg_execute_def split: sum.splits option.splits)

lemma run_statements_sent:
  "fold_result (run_statement sv) qs st = Inr st' \<Longrightarrow> st' = (fst st, snd st @ map Execute qs)"
proof (induction qs arbitrary: st)
  case (Cons q qs)
  obtain t where t: "run_statement sv q st = Inr t" "fold_result (run_statement sv) qs t = Inr st'"
    using Cons.prems by (auto split: sum.splits)
  show ?case using Cons.IH [OF t(2)] run_statement_sent [OF t(1)] by simp
qed simp

lemma adapt_rows_length: "adapt_rows rt tys rs = Inr out \<Longrightarrow> length out = length rs"
  by (induction rs arbitrary: out) (auto split: sum.splits)

definition table_statements :: "runtime \<Rightarrow> pg_server \<Rightarrow> sqlite_database \<Rightarrow> string \<Rightarrow> table_plan \<Rightarrow> pg_statement list" where
  "table_statements rt sv db schema plan =
     [Execute (create_table_text sv schema plan),
      CopyIn (copy_text sv schema plan)
        (projr (adapt_rows rt (map cp_pg_type (tp_columns plan)) (rows db (tp_source_name plan) (source_columns plan))))]"

lemma create_and_load_step:
  assumes "create_and_load rt sv db schema plan st = Inr st'"
  shows "snd st' = snd st @ table_statements rt sv db schema plan"
    "cr_tables (fst st') = cr_tables (fst st) + 1"
    "cr_rows (fst st') = cr_rows (fst st) + length (rows db (tp_source_name plan) (source_columns plan))"
    "cr_skipped_primary_keys (fst st') = cr_skipped_primary_keys (fst st)"
    "cr_skipped_foreign_keys (fst st') = cr_skipped_foreign_keys (fst st)"
  using assms adapt_rows_length
  by (auto simp: create_and_load_def load_table_def pg_execute_sent table_statements_def source_columns_def
       split: sum.splits)

lemma create_and_load_all:
  "fold_result (create_and_load rt sv db schema) plans st = Inr st' \<Longrightarrow>
     snd st' = snd st @ concat (map (table_statements rt sv db schema) plans)
     \<and> cr_tables (fst st') = cr_tables (fst st) + length plans
     \<and> cr_rows (fst st') = cr_rows (fst st)
         + (\<Sum>p \<leftarrow> plans. length (rows db (tp_source_name p) (source_columns p)))
     \<and> cr_skipped_primary_keys (fst st') = cr_skipped_primary_keys (fst st)
     \<and> cr_skipped_foreign_keys (fst st') = cr_skipped_foreign_keys (fst st)"
proof (induction plans arbitrary: st)
  case (Cons p ps)
  then obtain t where t: "create_and_load rt sv db schema p st = Inr t" "fold_result (create_and_load rt sv db schema) ps t = Inr st'"
    by (auto split: sum.splits)
  show ?case using Cons.IH [OF t(2)] create_and_load_step [OF t(1)] by simp
qed simp

text \<open>What a constraint step does: it sends its text, or puts its name into the report.\<close>

definition tallies :: "(conversion_report \<Rightarrow> string list) \<Rightarrow> (conversion_report \<Rightarrow> string list) \<Rightarrow> ('a \<Rightarrow> string) \<Rightarrow> ('a \<Rightarrow> string)
    \<Rightarrow> 'a \<Rightarrow> loading \<Rightarrow> loading \<Rightarrow> bool" where
  "tallies names others q name x st st' \<longleftrightarrow>
     cr_tables (fst st') = cr_tables (fst st) \<and> cr_rows (fst st') = cr_rows (fst st) \<and> others (fst st') = others (fst st)
     \<and> (snd st' = snd st @ [Execute (q x)] \<and> names (fst st') = names (fst st)
        \<or> snd st' = snd st \<and> names (fst st') = names (fst st) @ [name x])"

lemma tallies_all:
  assumes "\<And>x st st'. x \<in> set xs \<Longrightarrow> f x st = Inr st' \<Longrightarrow> tallies names others q name x st st'"
    and "fold_result f xs st = Inr st'"
  shows "\<exists>texts. snd st' = snd st @ map Execute texts
    \<and> cr_tables (fst st') = cr_tables (fst st) \<and> cr_rows (fst st') = cr_rows (fst st) \<and> others (fst st') = others (fst st)
    \<and> set (names (fst st)) \<subseteq> set (names (fst st'))
    \<and> (\<forall>x \<in> set xs. q x \<in> set texts \<or> name x \<in> set (names (fst st')))
    \<and> length texts + length (names (fst st')) = length xs + length (names (fst st))"
  using assms
proof (induction xs arbitrary: st)
  case (Cons x xs)
  obtain t where t: "f x st = Inr t" "fold_result f xs t = Inr st'" using Cons.prems(2) by (auto split: sum.splits)
  have step: "tallies names others q name x st t" using Cons.prems(1) t(1) by simp
  obtain texts where IH: "snd st' = snd t @ map Execute texts"
      "cr_tables (fst st') = cr_tables (fst t)" "cr_rows (fst st') = cr_rows (fst t)" "others (fst st') = others (fst t)"
      "set (names (fst t)) \<subseteq> set (names (fst st'))"
      "\<forall>x \<in> set xs. q x \<in> set texts \<or> name x \<in> set (names (fst st'))"
      "length texts + length (names (fst st')) = length xs + length (names (fst t))"
    using Cons.IH [OF Cons.prems(1) t(2)] by auto
  from step consider (sent) "snd t = snd st @ [Execute (q x)]" "names (fst t) = names (fst st)"
    | (named) "snd t = snd st" "names (fst t) = names (fst st) @ [name x]" by (auto simp: tallies_def)
  then show ?case
  proof cases
    case sent
    then show ?thesis using IH step by (intro exI [of _ "q x # texts"]) (auto simp: tallies_def)
  next
    case named
    then show ?thesis using IH step by (intro exI [of _ texts]) (auto simp: tallies_def)
  qed
qed simp

lemma try_constraint_cases:
  "try_constraint sv q sent = Inr (ok, sent') \<Longrightarrow> sent' = (if ok then sent @ [Execute q] else sent)"
  by (auto simp: try_constraint_def pg_execute_def split: option.splits exn.splits)

lemma key_primary_tallies:
  "tp_primary_key p \<noteq> [] \<Longrightarrow> key_primary sv schema p st = Inr st' \<Longrightarrow>
     tallies cr_skipped_primary_keys cr_skipped_foreign_keys (primary_key_text sv schema) tp_target_name p st st'"
  by (auto simp: key_primary_def add_primary_key_def tallies_def split: sum.splits if_splits dest: try_constraint_cases)

lemma key_primary_none: "tp_primary_key p = [] \<Longrightarrow> key_primary sv schema p st = Inr st"
  by (simp add: key_primary_def add_primary_key_def)

lemma key_primary_filter:
  "fold_result (key_primary sv schema) plans st
     = fold_result (key_primary sv schema) (filter (\<lambda>p. tp_primary_key p \<noteq> []) plans) st"
  by (induction plans arbitrary: st) (auto simp: key_primary_none split: sum.splits)

definition all_keys :: "table_plan list \<Rightarrow> (table_plan \<times> nat \<times> key_plan) list" where
  "all_keys plans = concat (map (\<lambda>p. map (Pair p) (enumerate 0 (tp_foreign_keys p))) plans)"

lemma key_steps: "concat (map (\<lambda>plan. map (key_foreign sv schema plan) (enumerate 0 (tp_foreign_keys plan))) plans)
    = map (\<lambda>(p, ik). key_foreign sv schema p ik) (all_keys plans)"
  by (induction plans) (simp_all add: all_keys_def)

lemma key_foreign_tallies:
  "key_foreign sv schema p ik st = Inr st' \<Longrightarrow>
     tallies cr_skipped_foreign_keys cr_skipped_primary_keys
       (\<lambda>(p, i, k). foreign_key_text sv schema p i k) (\<lambda>(p, i, k). skipped_key_name p k) (p, ik) st st'"
  by (cases ik) (auto simp: key_foreign_def add_foreign_key_def tallies_def split: sum.splits if_splits dest: try_constraint_cases)

lemma primary_stage:
  assumes "fold_result (key_primary sv schema) plans st = Inr st'"
  shows "\<exists>texts. snd st' = snd st @ map Execute texts \<and> cr_tables (fst st') = cr_tables (fst st)
      \<and> cr_rows (fst st') = cr_rows (fst st) \<and> cr_skipped_foreign_keys (fst st') = cr_skipped_foreign_keys (fst st)
      \<and> set (cr_skipped_primary_keys (fst st)) \<subseteq> set (cr_skipped_primary_keys (fst st'))
      \<and> (\<forall>p \<in> set (filter (\<lambda>p. tp_primary_key p \<noteq> []) plans).
           primary_key_text sv schema p \<in> set texts \<or> tp_target_name p \<in> set (cr_skipped_primary_keys (fst st')))
      \<and> length texts + length (cr_skipped_primary_keys (fst st'))
         = length (filter (\<lambda>p. tp_primary_key p \<noteq> []) plans) + length (cr_skipped_primary_keys (fst st))"
proof -
  have "fold_result (key_primary sv schema) (filter (\<lambda>p. tp_primary_key p \<noteq> []) plans) st = Inr st'"
    using assms by (subst key_primary_filter [symmetric])
  then show ?thesis by (rule tallies_all [rotated]) (simp add: key_primary_tallies)
qed

lemma foreign_stage:
  assumes "fold_result (\<lambda>(p, ik). key_foreign sv schema p ik) keys st = Inr st'"
  shows "\<exists>texts. snd st' = snd st @ map Execute texts \<and> cr_tables (fst st') = cr_tables (fst st)
      \<and> cr_rows (fst st') = cr_rows (fst st) \<and> cr_skipped_primary_keys (fst st') = cr_skipped_primary_keys (fst st)
      \<and> set (cr_skipped_foreign_keys (fst st)) \<subseteq> set (cr_skipped_foreign_keys (fst st'))
      \<and> (\<forall>x \<in> set keys. (\<lambda>(p, i, k). foreign_key_text sv schema p i k) x \<in> set texts
           \<or> (\<lambda>(p, i, k). skipped_key_name p k) x \<in> set (cr_skipped_foreign_keys (fst st')))
      \<and> length texts + length (cr_skipped_foreign_keys (fst st')) = length keys + length (cr_skipped_foreign_keys (fst st))"
  using assms by (rule tallies_all [rotated]) (auto intro: key_foreign_tallies)

definition opening_texts :: "pg_server \<Rightarrow> string \<Rightarrow> string list" where
  "opening_texts sv schema = (if sv_schema_exists sv schema then [''DROP SCHEMA '' @ sv_ident sv schema @ '' CASCADE''] else [])
     @ [''CREATE SCHEMA '' @ sv_ident sv schema]"

lemma start_schema_sent:
  "start_schema sv schema replace st = Inr st' \<Longrightarrow>
     (sv_schema_exists sv schema \<longrightarrow> replace) \<and> st' = (fst st, snd st @ map Execute (opening_texts sv schema))"
  by (auto simp: start_schema_def opening_texts_def Let_def split: if_splits sum.splits dest!: run_statement_sent)

lemma conversion_accounts:
  assumes "convert_database rt sv db schema plans role replace = Inr (report, sent)"
  shows "(sv_schema_exists sv schema \<longrightarrow> replace) \<and> cr_tables report = length plans
    \<and> cr_rows report = (\<Sum>p \<leftarrow> plans. length (rows db (tp_source_name p) (source_columns p)))
    \<and> (\<exists>grantee primary foreign. to_pg_identifier ''role'' role = Inr grantee
        \<and> sent = map Execute (opening_texts sv schema) @ concat (map (table_statements rt sv db schema) plans)
            @ map Execute (primary @ foreign) @ map Execute (grant_texts sv schema grantee)
        \<and> (\<forall>p \<in> set plans. tp_primary_key p \<noteq> [] \<longrightarrow>
             primary_key_text sv schema p \<in> set primary \<or> tp_target_name p \<in> set (cr_skipped_primary_keys report))
        \<and> (\<forall>(p, i, k) \<in> set (all_keys plans).
             foreign_key_text sv schema p i k \<in> set foreign \<or> skipped_key_name p k \<in> set (cr_skipped_foreign_keys report))
        \<and> length primary + length (cr_skipped_primary_keys report) = length (filter (\<lambda>p. tp_primary_key p \<noteq> []) plans)
        \<and> length foreign + length (cr_skipped_foreign_keys report) = length (all_keys plans))"
proof -
  let ?st0 = "(empty_report (sd_db_id db) schema, [])"
  obtain r where run: "fold_result (\<lambda>step. step) (load_steps rt sv db schema plans role replace) ?st0 = Inr (r, sent)"
    and r: "cr_tables report = cr_tables r" "cr_rows report = cr_rows r"
      "cr_skipped_primary_keys report = cr_skipped_primary_keys r" "cr_skipped_foreign_keys report = cr_skipped_foreign_keys r"
    using assms by (auto simp: convert_database_def Let_def split: sum.splits if_splits)
  obtain s1 s2 s3 s4 where s1: "start_schema sv schema replace ?st0 = Inr s1"
    and s2: "fold_result (create_and_load rt sv db schema) plans s1 = Inr s2"
    and s3: "fold_result (key_primary sv schema) plans s2 = Inr s3"
    and s4: "fold_result (\<lambda>(p, ik). key_foreign sv schema p ik) (all_keys plans) s3 = Inr s4"
    and s5: "grant_readonly sv schema role s4 = Inr (r, sent)"
    using run unfolding load_steps_def key_steps fold_result_append_Inr fold_result_map fold_result_one
    by blast
  note a1 = start_schema_sent [OF s1]
  note a2 = create_and_load_all [OF s2]
  from primary_stage [OF s3]
  obtain primary where a3: "snd s3 = snd s2 @ map Execute primary"
      "cr_tables (fst s3) = cr_tables (fst s2)" "cr_rows (fst s3) = cr_rows (fst s2)"
      "cr_skipped_foreign_keys (fst s3) = cr_skipped_foreign_keys (fst s2)"
      "\<forall>p \<in> set plans. tp_primary_key p \<noteq> [] \<longrightarrow>
         primary_key_text sv schema p \<in> set primary \<or> tp_target_name p \<in> set (cr_skipped_primary_keys (fst s3))"
      "length primary + length (cr_skipped_primary_keys (fst s3))
         = length (filter (\<lambda>p. tp_primary_key p \<noteq> []) plans) + length (cr_skipped_primary_keys (fst s2))"
    by auto
  from foreign_stage [OF s4]
  obtain foreign where a4: "snd s4 = snd s3 @ map Execute foreign"
      "cr_tables (fst s4) = cr_tables (fst s3)" "cr_rows (fst s4) = cr_rows (fst s3)"
      "cr_skipped_primary_keys (fst s4) = cr_skipped_primary_keys (fst s3)"
      "\<forall>(p, i, k) \<in> set (all_keys plans).
         foreign_key_text sv schema p i k \<in> set foreign \<or> skipped_key_name p k \<in> set (cr_skipped_foreign_keys (fst s4))"
      "length foreign + length (cr_skipped_foreign_keys (fst s4)) = length (all_keys plans) + length (cr_skipped_foreign_keys (fst s3))"
    by (auto simp: split_def)
  obtain grantee where a5: "to_pg_identifier ''role'' role = Inr grantee" "r = fst s4"
      "sent = snd s4 @ map Execute (grant_texts sv schema grantee)"
    using s5 by (auto simp: grant_readonly_def split: sum.splits dest: run_statements_sent)
  have zero: "cr_tables (fst ?st0) = 0" "cr_rows (fst ?st0) = 0" "cr_skipped_primary_keys (fst ?st0) = []"
    "cr_skipped_foreign_keys (fst ?st0) = []" by (simp_all add: empty_report_def)
  have sent: "sent = map Execute (opening_texts sv schema) @ concat (map (table_statements rt sv db schema) plans)
            @ map Execute (primary @ foreign) @ map Execute (grant_texts sv schema grantee)"
    using a1 a2 a3(1) a4(1) a5(3) by simp
  show ?thesis
    using a1 a2 a3 a4 a5(1,2) r zero sent by (intro conjI exI [of _ grantee] exI [of _ primary] exI [of _ foreign]) auto
qed

section \<open>Properties\<close>

text \<open>C23: a load accounts for everything. When the conversion returns, an existing schema was replaced only
  on request; the statements went out in this order: the schema, each table created and then filled
  with the adapted rows of the source, the constraints, the grants to the role; the report counts the
  tables and their rows; and every primary and foreign key of the plans was either sent and accepted or
  is named in the report, the two kinds adding up to the number of keys.\<close>

theorem load_accounts:
  assumes "convert_database rt sv db schema plans role replace = Inr (report, sent)"
  shows "(sv_schema_exists sv schema \<longrightarrow> replace) \<and> cr_tables report = length plans
    \<and> cr_rows report = (\<Sum>p \<leftarrow> plans. length (rows db (tp_source_name p) (source_columns p)))
    \<and> (\<exists>grantee primary foreign. to_pg_identifier ''role'' role = Inr grantee
        \<and> sent = map Execute (opening_texts sv schema) @ concat (map (table_statements rt sv db schema) plans)
            @ map Execute (primary @ foreign) @ map Execute (grant_texts sv schema grantee)
        \<and> (\<forall>p \<in> set plans. tp_primary_key p \<noteq> [] \<longrightarrow>
             primary_key_text sv schema p \<in> set primary \<or> tp_target_name p \<in> set (cr_skipped_primary_keys report))
        \<and> (\<forall>(p, i, k) \<in> set (all_keys plans).
             foreign_key_text sv schema p i k \<in> set foreign \<or> skipped_key_name p k \<in> set (cr_skipped_foreign_keys report))
        \<and> length primary + length (cr_skipped_primary_keys report) = length (filter (\<lambda>p. tp_primary_key p \<noteq> []) plans)
        \<and> length foreign + length (cr_skipped_foreign_keys report) = length (all_keys plans))"
  using assms by (rule conversion_accounts)

definition toy_server :: pg_server where
  "toy_server = \<lparr>sv_ident = id, sv_schema_exists = (\<lambda>s. False),
     sv_refuses = (\<lambda>sent s. case s of
        Execute q \<Rightarrow> if prefix ''ALTER TABLE d.p'' q then Some (DriverError None None ''refused'') else None
      | CopyIn q out \<Rightarrow> None)\<rparr>"

theorem load_accounts_witness:
  "\<exists>report sent. convert_database toy_runtime toy_server toy_database ''d'' toy_plans ''r'' False = Inr (report, sent)
     \<and> cr_tables report = 2 \<and> cr_rows report = 2 \<and> cr_skipped_foreign_keys report = [''p(r)->o'']
     \<and> length sent = 8"
proof -
  obtain report sent where run: "convert_database toy_runtime toy_server toy_database ''d'' toy_plans ''r'' False = Inr (report, sent)"
    and r: "cr_skipped_foreign_keys report = [''p(r)->o'']" "length sent = 8"
    by (rule that [of "fst (projr (convert_database toy_runtime toy_server toy_database ''d'' toy_plans ''r'' False))"
          "snd (projr (convert_database toy_runtime toy_server toy_database ''d'' toy_plans ''r'' False))"]) code_simp+
  have "cr_tables report = 2" "cr_rows report = 2"
    using load_accounts [OF run] by (simp_all add: toy_plans_def toy_database_def rows_def source_columns_def)
  then show ?thesis using run r by blast
qed

end
