(* ===== verification/SearchClients.thy ===== *)
theory SearchClients
  imports Tools
begin

text \<open>
  The retrieval clients of an evaluation (\<open>src/evals/mcp_client.py\<close>): the environment a server is
  started with, one client with its thread, and the pool that keeps at most \<open>max_live\<close> of them. A
  client owns a thread that connects the servers of one dataset and then answers a queue; the model
  follows its state as the caller sees it. What is outside is the world: the transport a start gets
  in an environment, or none when the servers are not up in time, and which calls are not answered in
  time.
\<close>

section \<open>The environment of a server\<close>

definition secret_words :: "string list" where
  "secret_words = [''api_key'', ''secret'', ''token'', ''password'', ''credential'']"

definition secret_name :: "string \<Rightarrow> bool" where
  "secret_name name \<longleftrightarrow> list_ex (contains (py_lower name)) secret_words"

definition env_kept :: "string list" where
  "env_kept = [''DATABASE_URL'', ''DATABASE_RO_URL'']"

definition scrubbed_environment :: "(string, string) dict \<Rightarrow> (string, string) dict" where
  "scrubbed_environment source = filter (\<lambda>(name, value). name \<in> set env_kept \<or> \<not> secret_name name) source"

definition client_environment :: "(string, string) dict \<Rightarrow> string \<Rightarrow> (string, string) dict" where
  "client_environment env dataset =
     dict_set (dict_set (scrubbed_environment env) ''DATASET'' dataset) ''DB_TARGET_SCHEMA'' dataset"

section \<open>One client\<close>

text \<open>\<open>mc_running\<close> stands for \<open>_thread is not None\<close>, \<open>mc_server\<close> for the loop with its queue and the
  registry behind it; \<open>mc_orphans\<close> counts the threads that were given up while they were still starting.\<close>

record 's search_client =
  mc_dataset :: string
  mc_modules :: "string list"
  mc_env :: "(string, string) dict"
  mc_running :: bool
  mc_ready :: bool
  mc_failure :: "exn option"
  mc_server :: "('s transport \<times> 's registry) option"
  mc_starts :: nat
  mc_orphans :: nat

record 's client_world =
  cw_transport :: "(string, string) dict \<Rightarrow> nat \<Rightarrow> 's transport option"
  cw_late :: "string \<Rightarrow> payload \<Rightarrow> bool"
  cw_environ :: "(string, string) dict"
  cw_read :: "string \<Rightarrow> rat"
  cw_show :: "rat \<Rightarrow> string"
  cw_score :: "string \<Rightarrow> rat option"

definition new_client :: "'s client_world \<Rightarrow> string list \<Rightarrow> string \<Rightarrow> exn + 's search_client" where
  "new_client W modules dataset =
     (if dataset = [] then Inl (OtherError ''ValueError'' ''an MCP retrieval client must name the dataset it is scoped to'')
      else Inr \<lparr>mc_dataset = dataset, mc_modules = modules, mc_env = client_environment (cw_environ W) dataset,
        mc_running = False, mc_ready = False, mc_failure = None, mc_server = None, mc_starts = 0, mc_orphans = 0\<rparr>)"

definition search_tool :: string where
  "search_tool = ''search_schema''"

text \<open>\<open>_run\<close> and \<open>_serve\<close> up to the queue: every server connected and the tool there, or the failure.\<close>

definition boot :: "'s transport \<Rightarrow> string list \<Rightarrow> string \<Rightarrow> exn + 's registry" where
  "boot T modules dataset =
     (case connect_all T modules empty_registry of
        (Some e, _) \<Rightarrow> Inl (RetrievalError (''the mcp_servers.schema_search server for dataset '' @ py_repr dataset
          @ '' failed to start: '' @ type_name e @ '': '' @ exn_str e))
      | (None, r) \<Rightarrow>
          if dict_get (rg_tools r) search_tool = None
          then Inl (RetrievalError (''mcp_servers.schema_search started but did not advertise ''
            @ py_repr search_tool @ '' for dataset '' @ py_repr dataset @ ''. Unavailable servers: ''
            @ (if rg_unavailable r = [] then ''(none)''
               else ''{'' @ join '', '' (map (\<lambda>(k, v). py_repr k @ '': '' @ py_repr v) (rg_unavailable r)) @ ''}'')))
          else Inr r)"

definition late_start :: "string \<Rightarrow> exn" where
  "late_start dataset = RetrievalError (''the mcp_servers.schema_search server for dataset '' @ py_repr dataset
     @ '' did not become answerable within 300s. The first start loads a sentence-transformer; a cold model cache downloads it.'')"

definition arm :: "'s search_client \<Rightarrow> 's search_client" where
  "arm c = c\<lparr>mc_ready := False, mc_failure := None\<rparr>"

definition close_client :: "'s search_client \<Rightarrow> 's search_client" where
  "close_client c = (if \<not> mc_running c then c else c\<lparr>mc_running := False, mc_server := None\<rparr>)"

definition start_client :: "'s client_world \<Rightarrow> 's search_client \<Rightarrow> (exn + unit) \<times> 's search_client" where
  "start_client W c =
     (if mc_running c then (Inr (), c)
      else let c1 = (arm c)\<lparr>mc_starts := mc_starts c + 1, mc_running := True\<rparr> in
        case cw_transport W (mc_env c) (mc_starts c) of
          None \<Rightarrow> (Inl (late_start (mc_dataset c)), c1\<lparr>mc_running := False, mc_orphans := mc_orphans c + 1\<rparr>)
        | Some T \<Rightarrow>
           (case boot T (mc_modules c) (mc_dataset c) of
              Inl e \<Rightarrow> (Inl e, close_client (c1\<lparr>mc_ready := True, mc_failure := Some e\<rparr>))
            | Inr r \<Rightarrow> (Inr (), c1\<lparr>mc_ready := True, mc_server := Some (T, r)\<rparr>)))"

text \<open>The queue of \<open>_serve\<close>: each call in turn until \<open>None\<close>. A cancelled call is passed over; what is not
  an \<open>Exception\<close> leaves \<open>_answer\<close> and ends the thread.\<close>

datatype queue_item = Stop | Ask nat payload bool

fun serve_queue :: "(payload \<Rightarrow> exn + tool_result) \<Rightarrow> queue_item list \<Rightarrow> (nat \<times> (exn + tool_result)) list" where
  "serve_queue call [] = []"
| "serve_queue call (Stop # q) = []"
| "serve_queue call (Ask i args cancelled # q) =
     (if cancelled then serve_queue call q
      else case call args of
        Inl e \<Rightarrow> if isinst e CException then (i, Inl e) # serve_queue call q else []
      | Inr r \<Rightarrow> (i, Inr r) # serve_queue call q)"

definition call_arguments :: "string \<Rightarrow> int \<Rightarrow> payload" where
  "call_arguments question k = [(''query'', JStr question), (''k'', JInt k)]"

definition late_answer :: "string \<Rightarrow> exn" where
  "late_answer dataset = RetrievalError (''search_schema did not answer within 120s for dataset '' @ py_repr dataset)"

text \<open>\<open>search\<close> posts one call to the thread and waits for its answer.\<close>

definition ask_server ::
  "'s client_world \<Rightarrow> string \<Rightarrow> 's transport \<Rightarrow> 's registry \<Rightarrow> payload \<Rightarrow> exn + retrieval_result" where
  "ask_server W dataset T r args =
     (if cw_late W dataset args then Inl (late_answer dataset)
      else case serve_queue (registry_call (cw_read W) T r search_tool) [Ask 0 args False] of
        [(_, Inl e)] \<Rightarrow> Inl e
      | [(_, Inr result)] \<Rightarrow> client_answer (cw_show W) (cw_score W) result
      | _ \<Rightarrow> Inl (late_answer dataset))"

definition client_search ::
  "'s client_world \<Rightarrow> 's search_client \<Rightarrow> string \<Rightarrow> int \<Rightarrow> (exn + retrieval_result) \<times> 's search_client" where
  "client_search W c question k =
     (case start_client W c of
        (Inl e, c') \<Rightarrow> (Inl e, c')
      | (Inr _, c') \<Rightarrow>
         ((case mc_server c' of
             None \<Rightarrow> Inl (RetrievalError (''the '' @ py_repr (mc_dataset c) @ '' retrieval client is not running''))
           | Some (T, r) \<Rightarrow> ask_server W (mc_dataset c) T r (call_arguments question k)), c'))"

section \<open>The pool\<close>

record 's client_pool =
  pl_max_live :: int
  pl_clients :: "(string, 's search_client) dict"
  pl_starts :: nat

definition make_pool :: "int \<Rightarrow> exn + 's client_pool" where
  "make_pool max_live =
     (if max_live < 1 then Inl (OtherError ''ValueError'' ''a pool must keep at least one client live'')
      else Inr \<lparr>pl_max_live = max_live, pl_clients = [], pl_starts = 0\<rparr>)"

definition dict_del :: "('k, 'v) dict \<Rightarrow> 'k \<Rightarrow> ('k, 'v) dict" where
  "dict_del d k = filter (\<lambda>(k', v). k' \<noteq> k) d"

text \<open>The eviction loop as it is written: it stops when fewer than \<open>max_live\<close> clients are left, and
  \<open>popitem\<close> raises \<open>KeyError\<close> on an empty dictionary. None is a loop that does not return. The clients
  shut are its second result.\<close>

partial_function (option) evict ::
  "int \<Rightarrow> (string, 's search_client) dict \<Rightarrow> 's search_client list
     \<Rightarrow> (exn + (string, 's search_client) dict \<times> 's search_client list) option" where
  "evict max_live clients shut =
     (if int (length clients) < max_live then Some (Inr (clients, shut))
      else case clients of
        [] \<Rightarrow> Some (Inl (OtherError ''KeyError'' ''dictionary is empty''))
      | (dataset, evicted) # rest \<Rightarrow> evict max_live rest (shut @ [close_client evicted]))"

declare evict.simps [code]

definition take_client :: "'s client_world \<Rightarrow> string list \<Rightarrow> 's client_pool \<Rightarrow> string \<Rightarrow> exn + 's search_client" where
  "take_client W modules p dataset =
     (case dict_get (pl_clients p) dataset of Some c \<Rightarrow> Inr c | None \<Rightarrow> new_client W modules dataset)"

definition acquire_client ::
  "'s client_world \<Rightarrow> string list \<Rightarrow> 's client_pool \<Rightarrow> string \<Rightarrow> ((exn + 's search_client) \<times> 's client_pool) option" where
  "acquire_client W modules p dataset =
     (let rest = dict_del (pl_clients p) dataset in
      case take_client W modules p dataset of
        Inl e \<Rightarrow> Some (Inl e, p\<lparr>pl_clients := rest\<rparr>)
      | Inr c \<Rightarrow>
         (case evict (pl_max_live p) rest [] of
            None \<Rightarrow> None
          | Some (Inl e) \<Rightarrow> Some (Inl e, p\<lparr>pl_clients := []\<rparr>)
          | Some (Inr (kept, shut)) \<Rightarrow>
              if mc_running c then Some (Inr c, p\<lparr>pl_clients := kept @ [(dataset, c)]\<rparr>)
              else (case start_client W c of
                  (Inl e, c') \<Rightarrow> Some (Inl e, p\<lparr>pl_clients := kept\<rparr>)
                | (Inr _, c') \<Rightarrow>
                    Some (Inr c', p\<lparr>pl_clients := kept @ [(dataset, c')], pl_starts := pl_starts p + 1\<rparr>))))"

definition pool_search ::
  "'s client_world \<Rightarrow> string list \<Rightarrow> 's client_pool \<Rightarrow> string \<Rightarrow> string \<Rightarrow> int
     \<Rightarrow> ((exn + retrieval_result) \<times> 's client_pool) option" where
  "pool_search W modules p dataset question k =
     (case acquire_client W modules p dataset of
        None \<Rightarrow> None
      | Some (Inl e, p') \<Rightarrow> Some (Inl e, p')
      | Some (Inr c, p') \<Rightarrow>
         (let (out, c') = client_search W c question k in
          Some (out, p'\<lparr>pl_clients := dict_set (pl_clients p') dataset c'\<rparr>)))"

definition close_pool :: "'s client_pool \<Rightarrow> 's search_client list \<times> 's client_pool" where
  "close_pool p = (map (close_client \<circ> snd) (pl_clients p), p\<lparr>pl_clients := []\<rparr>)"

section \<open>Facts\<close>

subsection \<open>The eviction loop\<close>

text \<open>The loop pops the oldest clients, no more than it must.\<close>

lemma evict_returns:
  assumes "1 \<le> max_live"
  shows "evict max_live clients shut =
    Some (Inr (let surplus = length clients - (nat max_live - 1) in
      (drop surplus clients, shut @ map (close_client \<circ> snd) (take surplus clients))))"
proof (induction clients arbitrary: shut)
  case Nil
  then show ?case using assms by (subst evict.simps) simp
next
  case (Cons x rest)
  show ?case
  proof (cases "int (length (x # rest)) < max_live")
    case True
    then show ?thesis by (subst evict.simps) (simp add: nat_less_iff)
  next
    case False
    then have "length (x # rest) - (nat max_live - 1) = Suc (length rest - (nat max_live - 1))"
      using assms by simp
    then show ?thesis using False Cons.IH by (subst evict.simps) (cases x, simp add: Let_def)
  qed
qed

subsection \<open>The state of a pool\<close>

text \<open>Every client of the pool is up, and up for the dataset it is filed under: its servers were started
  in the scrubbed environment that names that dataset.\<close>

definition client_up :: "'s client_world \<Rightarrow> string list \<Rightarrow> string \<Rightarrow> 's search_client \<Rightarrow> bool" where
  "client_up W modules dataset c \<longleftrightarrow> dataset \<noteq> [] \<and> mc_dataset c = dataset \<and> mc_modules c = modules
     \<and> mc_env c = client_environment (cw_environ W) dataset \<and> mc_running c
     \<and> (\<exists>n T r. mc_server c = Some (T, r) \<and> cw_transport W (mc_env c) n = Some T \<and> boot T modules dataset = Inr r)"

definition pool_ok :: "'s client_world \<Rightarrow> string list \<Rightarrow> 's client_pool \<Rightarrow> bool" where
  "pool_ok W modules p \<longleftrightarrow> 1 \<le> pl_max_live p \<and> distinct (map fst (pl_clients p))
     \<and> int (length (pl_clients p)) \<le> pl_max_live p
     \<and> (\<forall>(dataset, c) \<in> set (pl_clients p). client_up W modules dataset c)"

lemma start_client_up:
  assumes "start_client W c = (Inr (), c')" "\<not> mc_running c" "mc_dataset c = dataset" "mc_modules c = modules"
    "mc_env c = client_environment (cw_environ W) dataset" "dataset \<noteq> []"
  shows "client_up W modules dataset c'"
proof -
  obtain T r where "cw_transport W (mc_env c) (mc_starts c) = Some T" "boot T (mc_modules c) (mc_dataset c) = Inr r"
      "c' = (arm c)\<lparr>mc_starts := mc_starts c + 1, mc_running := True, mc_ready := True, mc_server := Some (T, r)\<rparr>"
    using assms(1,2) by (auto simp: start_client_def Let_def split: option.splits sum.splits)
  then show ?thesis using assms(3-6) by (auto simp: client_up_def arm_def)
qed

lemma dict_del_facts:
  "set (dict_del d k) \<subseteq> set d" "k \<notin> fst ` set (dict_del d k)"
  "distinct (map fst d) \<Longrightarrow> distinct (map fst (dict_del d k))"
  by (auto simp: dict_del_def distinct_map_filter)

lemma dict_del_length:
  "k \<in> fst ` set d \<Longrightarrow> length (dict_del d k) < length d"
  by (auto simp: dict_del_def intro!: length_filter_less)

text \<open>The clients after an acquisition: those kept, and the one asked for, last.\<close>

lemma acquire_client_ok:
  assumes ok: "pool_ok W modules p"
  shows "\<exists>out p'. acquire_client W modules p dataset = Some (out, p') \<and> pool_ok W modules p'
    \<and> (\<forall>c. out = Inr c \<longrightarrow> client_up W modules dataset c \<and> dict_get (pl_clients p') dataset = Some c)"
proof -
  define rest where "rest = dict_del (pl_clients p) dataset"
  define surplus where "surplus = length rest - (nat (pl_max_live p) - 1)"
  define kept where "kept = drop surplus rest"
  have max: "1 \<le> pl_max_live p" using ok by (simp add: pool_ok_def)
  have sub: "set kept \<subseteq> set (pl_clients p)" unfolding kept_def rest_def by (rule order_trans [OF set_drop_subset dict_del_facts(1)])
  have "distinct (map fst rest)" using ok unfolding rest_def by (intro dict_del_facts(3)) (simp add: pool_ok_def)
  then have dist1: "distinct (map fst kept)" by (simp add: kept_def flip: drop_map)
  have "fst ` set kept \<subseteq> fst ` set rest" unfolding kept_def by (intro image_mono set_drop_subset)
  then have dist2: "dataset \<notin> fst ` set kept" using dict_del_facts(2) [of dataset "pl_clients p"] unfolding rest_def by blast
  note dist = dist1 dist2
  have "length kept \<le> nat (pl_max_live p) - 1" by (simp add: kept_def surplus_def)
  then have short: "int (length kept) < pl_max_live p" using max by linarith
  have up: "\<forall>(d, c) \<in> set kept. client_up W modules d c" using ok sub by (auto simp: pool_ok_def)
  have kept_ok: "pool_ok W modules (p\<lparr>pl_clients := kept\<rparr>)"
    using max dist short up by (simp add: pool_ok_def)
  have added: "pool_ok W modules (p\<lparr>pl_clients := kept @ [(dataset, c)], pl_starts := n\<rparr>)"
    and got: "dict_get (kept @ [(dataset, c)]) dataset = Some c"
    if "client_up W modules dataset c" for c n
    using max dist short up that by (auto simp: pool_ok_def map_add_def map_of_eq_None_iff [THEN iffD2])
  have rest_ok: "pool_ok W modules (p\<lparr>pl_clients := rest\<rparr>)"
    using ok unfolding rest_def by (auto simp: pool_ok_def dict_del_def distinct_map_filter intro: order_trans [OF of_nat_mono [OF length_filter_le]])
  have ev: "\<exists>shut. evict (pl_max_live p) rest [] = Some (Inr (kept, shut))"
    using evict_returns [OF max, of rest "[]"] by (simp only: Let_def kept_def surplus_def) blast
  then obtain shut where ev: "evict (pl_max_live p) rest [] = Some (Inr (kept, shut))" ..
  show ?thesis
  proof (cases "take_client W modules p dataset")
    case (Inl e)
    then show ?thesis using rest_ok by (simp add: acquire_client_def Let_def rest_def [symmetric])
  next
    case (Inr c)
    note run = acquire_client_def Let_def Inr rest_def [symmetric] ev
    show ?thesis
    proof (cases "mc_running c")
      case True
      then have "dict_get (pl_clients p) dataset = Some c"
        using Inr by (auto simp: take_client_def new_client_def split: option.splits if_splits)
      then have "client_up W modules dataset c" using ok by (auto simp: pool_ok_def dest: map_of_SomeD)
      then show ?thesis using True added [of c "pl_starts p"] got by (simp add: run)
    next
      case False
      then have "dataset \<noteq> [] \<and> mc_dataset c = dataset \<and> mc_modules c = modules \<and> mc_env c = client_environment (cw_environ W) dataset"
        using Inr ok
        by (auto simp: take_client_def new_client_def pool_ok_def client_up_def split: option.splits if_splits dest: map_of_SomeD)
      then show ?thesis
        using False kept_ok added got start_client_up [of W c]
        by (cases "start_client W c") (auto simp: run split: sum.splits)
    qed
  qed
qed


text \<open>A client that is up answers without changing.\<close>

lemma client_search_up:
  assumes "client_up W modules dataset c"
  shows "snd (client_search W c question k) = c"
  using assms by (simp add: client_up_def client_search_def start_client_def)

lemma pool_search_ok:
  assumes "pool_ok W modules p"
  shows "\<exists>out p'. pool_search W modules p dataset question k = Some (out, p') \<and> pool_ok W modules p'"
proof -
  obtain out p' where a: "acquire_client W modules p dataset = Some (out, p')" "pool_ok W modules p'"
      "\<forall>c. out = Inr c \<longrightarrow> client_up W modules dataset c \<and> dict_get (pl_clients p') dataset = Some c"
    using acquire_client_ok [OF assms] by blast
  show ?thesis
  proof (cases out)
    case (Inr c)
    have same: "dict_set d dataset c = d" if "dict_get d dataset = Some c" for d
      using that by (induction d) auto
    then show ?thesis using a Inr client_search_up [of W modules dataset c question k] same
      by (cases "client_search W c question k") (simp add: pool_search_def)
  qed (use a in \<open>simp add: pool_search_def\<close>)
qed

text \<open>The pools an evaluation can reach.\<close>

inductive pool_reach :: "'s client_world \<Rightarrow> string list \<Rightarrow> int \<Rightarrow> 's client_pool \<Rightarrow> bool"
  for W :: "'s client_world" and modules :: "string list" and max_live :: int where
  made: "make_pool max_live = Inr p \<Longrightarrow> pool_reach W modules max_live p"
| searched: "pool_reach W modules max_live p \<Longrightarrow> pool_search W modules p dataset question k = Some (out, p')
    \<Longrightarrow> pool_reach W modules max_live p'"
| shut_down: "pool_reach W modules max_live p \<Longrightarrow> close_pool p = (shut, p') \<Longrightarrow> pool_reach W modules max_live p'"

lemma acquire_max: "acquire_client W modules p dataset = Some (out, p') \<Longrightarrow> pl_max_live p' = pl_max_live p"
  by (auto simp: acquire_client_def Let_def split: sum.splits option.splits prod.splits if_splits)

lemma pool_search_max: "pool_search W modules p dataset question k = Some (out, p') \<Longrightarrow> pl_max_live p' = pl_max_live p"
  by (auto simp: pool_search_def Let_def split: sum.splits option.splits prod.splits dest!: acquire_max)

lemma reach_ok: "pool_reach W modules max_live p \<Longrightarrow> pool_ok W modules p \<and> pl_max_live p = max_live"
proof (induction rule: pool_reach.induct)
  case (made p)
  then show ?case by (auto simp: make_pool_def pool_ok_def split: if_splits)
next
  case (searched p dataset question k out p')
  then show ?case using pool_search_ok [of W modules p dataset question k] pool_search_max by fastforce
next
  case (shut_down p shut p')
  then show ?case by (auto simp: close_pool_def pool_ok_def)
qed

subsection \<open>The environment\<close>

lemma scrubbed_names:
  "(name, v) \<in> set (scrubbed_environment env) \<longleftrightarrow> (name, v) \<in> set env \<and> (name \<in> set env_kept \<or> \<not> secret_name name)"
  by (auto simp: scrubbed_environment_def)

lemma in_dict_set: "kv \<in> set (dict_set d k v) \<Longrightarrow> kv = (k, v) \<or> kv \<in> set d"
  by (induction d k v rule: dict_set.induct) (auto split: if_splits)

lemma client_environment_names:
  "(name, v) \<in> set (client_environment env dataset) \<Longrightarrow>
     (name, v) \<in> set env \<and> (name \<in> set env_kept \<or> \<not> secret_name name)
     \<or> name \<in> {''DATASET'', ''DB_TARGET_SCHEMA''} \<and> v = dataset"
  unfolding client_environment_def by (auto dest!: in_dict_set simp: scrubbed_names)

lemma client_environment_scope:
  "dict_get (client_environment env dataset) ''DATASET'' = Some dataset"
  "dict_get (client_environment env dataset) ''DB_TARGET_SCHEMA'' = Some dataset"
  by (simp_all add: client_environment_def)

subsection \<open>A client of its own\<close>

text \<open>The search a pool saves: a new client, started for this question alone.\<close>

definition own_search :: "'s client_world \<Rightarrow> string list \<Rightarrow> string \<Rightarrow> string \<Rightarrow> int \<Rightarrow> exn + retrieval_result" where
  "own_search W modules dataset question k =
     (case new_client W modules dataset of
        Inl e \<Rightarrow> Inl e
      | Inr c \<Rightarrow> fst (client_search W c question k))"

definition steady :: "'s client_world \<Rightarrow> bool" where
  "steady W \<longleftrightarrow> (\<forall>env n. cw_transport W env n = cw_transport W env 0)"

text \<open>What the answer of a client depends on.\<close>

definition scoped :: "'s client_world \<Rightarrow> string list \<Rightarrow> string \<Rightarrow> 's search_client \<Rightarrow> bool" where
  "scoped W modules dataset c \<longleftrightarrow> mc_dataset c = dataset \<and> mc_modules c = modules
     \<and> mc_env c = client_environment (cw_environ W) dataset"

lemma start_outcome:
  assumes "steady W" "scoped W modules dataset c" "\<not> mc_running c"
  shows "fst (start_client W c) =
    (case cw_transport W (client_environment (cw_environ W) dataset) 0 of
       None \<Rightarrow> Inl (late_start dataset)
     | Some T \<Rightarrow> (case boot T modules dataset of Inl e \<Rightarrow> Inl e | Inr r \<Rightarrow> Inr ()))"
proof -
  have "cw_transport W (mc_env c) (mc_starts c) = cw_transport W (client_environment (cw_environ W) dataset) 0"
    using assms(1,2) unfolding steady_def scoped_def by metis
  then show ?thesis using assms(2,3) by (auto simp: start_client_def scoped_def Let_def split: option.splits sum.splits)
qed

lemma client_up_scoped: "client_up W modules dataset c \<Longrightarrow> scoped W modules dataset c"
  by (simp add: client_up_def scoped_def)

lemma answer_up:
  assumes "steady W" "client_up W modules dataset c"
  shows "\<exists>T r. cw_transport W (client_environment (cw_environ W) dataset) 0 = Some T \<and> boot T modules dataset = Inr r
    \<and> fst (client_search W c question k) = ask_server W dataset T r (call_arguments question k)"
proof -
  obtain n T r where c: "mc_server c = Some (T, r)" "cw_transport W (mc_env c) n = Some T" "boot T modules dataset = Inr r"
    using assms(2) unfolding client_up_def by blast
  have "mc_running c" "mc_dataset c = dataset" "mc_env c = client_environment (cw_environ W) dataset"
    using assms(2) by (simp_all add: client_up_def)
  then have "fst (client_search W c question k) = ask_server W dataset T r (call_arguments question k)"
    using c(1) by (simp add: client_search_def start_client_def)
  moreover have "cw_transport W (client_environment (cw_environ W) dataset) 0 = Some T"
    using c(2) assms(1) \<open>mc_env c = _\<close> unfolding steady_def by metis
  ultimately show ?thesis using c(3) by blast
qed

lemma new_client_facts:
  "new_client W modules dataset = Inr c \<Longrightarrow> dataset \<noteq> [] \<and> scoped W modules dataset c \<and> \<not> mc_running c"
  by (auto simp: new_client_def scoped_def split: if_splits)

lemma start_scoped_up:
  "start_client W c = (Inr (), c') \<Longrightarrow> new_client W modules dataset = Inr c \<Longrightarrow> client_up W modules dataset c'"
  using start_client_up new_client_facts by (fastforce simp: scoped_def)

lemma search_new:
  assumes "new_client W modules dataset = Inr c"
  shows "fst (client_search W c question k) =
    (case start_client W c of (Inl e, c') \<Rightarrow> Inl e | (Inr _, c') \<Rightarrow> fst (client_search W c' question k))"
proof (cases "start_client W c")
  case (Pair out c')
  show ?thesis
  proof (cases out)
    case (Inl e)
    then show ?thesis using Pair by (simp add: client_search_def)
  next
    case (Inr u)
    then have up: "client_up W modules dataset c'" using start_scoped_up [OF _ assms] Pair by simp
    then have "start_client W c' = (Inr (), c')" "mc_dataset c' = mc_dataset c"
      using new_client_facts [OF assms] by (simp_all add: start_client_def client_up_def scoped_def)
    then show ?thesis using Pair Inr by (simp add: client_search_def split: option.split)
  qed
qed

lemma dict_set_same: "dict_get d k = Some v \<Longrightarrow> dict_set d k v = d"
  by (induction d) auto

lemma pool_search_own:
  assumes ok: "pool_ok W modules p" and st: "steady W"
  shows "\<exists>p'. pool_search W modules p dataset question k = Some (own_search W modules dataset question k, p')"
proof (cases "take_client W modules p dataset")
  case (Inl e)
  then have "new_client W modules dataset = Inl e" by (auto simp: take_client_def split: option.splits)
  then show ?thesis using Inl by (simp add: pool_search_def acquire_client_def own_search_def)
next
  case (Inr c)
  define rest where "rest = dict_del (pl_clients p) dataset"
  have "1 \<le> pl_max_live p" using ok by (simp add: pool_ok_def)
  then obtain kept shut where ev: "evict (pl_max_live p) rest [] = Some (Inr (kept, shut))"
    by (simp add: evict_returns Let_def)
  note run = pool_search_def acquire_client_def Let_def rest_def [symmetric] Inr ev
  have pooled: "client_up W modules dataset c" if "dict_get (pl_clients p) dataset = Some c" for c
    using that ok by (auto simp: pool_ok_def dest: map_of_SomeD)
  have nonempty: "dataset \<noteq> []"
    using Inr pooled new_client_facts by (auto simp: take_client_def client_up_def split: option.splits)
  then obtain c0 where c0: "new_client W modules dataset = Inr c0" by (simp add: new_client_def)
  have own: "own_search W modules dataset question k =
      (case start_client W c0 of (Inl e, c') \<Rightarrow> Inl e | (Inr _, c') \<Rightarrow> fst (client_search W c' question k))"
    using c0 search_new [OF c0] by (simp add: own_search_def)
  show ?thesis
  proof (cases "mc_running c")
    case True
    then have up: "client_up W modules dataset c"
      using Inr pooled new_client_facts by (auto simp: take_client_def split: option.splits)
    obtain T r where Tr: "cw_transport W (client_environment (cw_environ W) dataset) 0 = Some T" "boot T modules dataset = Inr r"
        "fst (client_search W c question k) = ask_server W dataset T r (call_arguments question k)"
      using answer_up [OF st up] by blast
    have "fst (start_client W c0) = Inr ()" using start_outcome [OF st] new_client_facts [OF c0] Tr by auto
    then obtain c' where c': "start_client W c0 = (Inr (), c')" by (cases "start_client W c0") auto
    note up' = start_scoped_up [OF c' c0]
    have "fst (client_search W c' question k) = fst (client_search W c question k)"
      using answer_up [OF st up'] Tr by (metis option.inject sum.inject(2))
    then show ?thesis using True own c'
      by (cases "client_search W c question k") (simp add: run)
  next
    case False
    then have "c = c0" using Inr pooled c0 by (auto simp: take_client_def client_up_def split: option.splits)
    then show ?thesis using False own
      by (cases "start_client W c0"; cases "client_search W (snd (start_client W c0)) question k")
        (auto simp: run split: sum.splits)
  qed
qed

subsection \<open>Which clients a pool keeps\<close>

text \<open>The specification: the \<open>m\<close> datasets asked for last, the latest at the end.\<close>

definition recent :: "nat \<Rightarrow> string list \<Rightarrow> string list" where
  "recent m ds = rev (take m (fromkeys (rev ds)))"

fun misses :: "nat \<Rightarrow> string list \<Rightarrow> string list \<Rightarrow> nat" where
  "misses m past [] = 0"
| "misses m past (d # ds) = (if d \<in> set (recent m past) then 0 else 1) + misses m (past @ [d]) ds"

fun acquire_all :: "'s client_world \<Rightarrow> string list \<Rightarrow> 's client_pool \<Rightarrow> string list \<Rightarrow> 's client_pool option" where
  "acquire_all W modules p [] = Some p"
| "acquire_all W modules p (d # ds) =
     (case acquire_client W modules p d of
        Some (Inr c, p') \<Rightarrow> acquire_all W modules p' ds
      | _ \<Rightarrow> None)"

definition always_up :: "'s client_world \<Rightarrow> string list \<Rightarrow> bool" where
  "always_up W modules \<longleftrightarrow> (\<forall>env n dataset. \<exists>T r. cw_transport W env n = Some T \<and> boot T modules dataset = Inr r)"

lemma take_filter_take:
  assumes "distinct xs" "1 \<le> m"
  shows "take (m - 1) (filter (\<lambda>x. x \<noteq> d) (take m xs)) = take (m - 1) (filter (\<lambda>x. x \<noteq> d) xs)"
proof (cases "length xs \<le> m")
  case False
  let ?P = "\<lambda>x. x \<noteq> d"
  have "card (set (filter ?P (take m xs))) \<ge> m - 1"
  proof -
    have "set (filter ?P (take m xs)) = set (take m xs) - {d}" by auto
    moreover have "card (set (take m xs)) = m" using assms(1) False by (simp add: distinct_card)
    ultimately show ?thesis by (simp add: card_Diff_singleton_if)
  qed
  then have len: "m - 1 \<le> length (filter ?P (take m xs))" using card_length order_trans by blast
  have "filter ?P xs = filter ?P (take m xs) @ filter ?P (drop m xs)"
    by (metis append_take_drop_id filter_append)
  then show ?thesis using len by simp
qed simp

lemma recent_snoc:
  assumes "1 \<le> m"
  shows "recent m (ds @ [d]) = (let rest = filter (\<lambda>x. x \<noteq> d) (recent m ds) in drop (length rest - (m - 1)) rest @ [d])"
proof -
  let ?xs = "fromkeys (rev ds)"
  have "fromkeys (d # rev ds) = d # filter (\<lambda>x. x \<noteq> d) ?xs" by simp
  then have "recent m (ds @ [d]) = rev (take (m - 1) (filter (\<lambda>x. x \<noteq> d) ?xs)) @ [d]"
    using assms by (cases m) (simp_all add: recent_def)
  also have "\<dots> = rev (take (m - 1) (filter (\<lambda>x. x \<noteq> d) (take m ?xs))) @ [d]"
    using take_filter_take [of ?xs m d] assms by simp
  also have "\<dots> = (let rest = filter (\<lambda>x. x \<noteq> d) (recent m ds) in drop (length rest - (m - 1)) rest @ [d])"
  proof -
    let ?zs = "filter (\<lambda>x. x \<noteq> d) (take m ?xs)"
    have "rev (take (m - 1) ?zs) = drop (length ?zs - (m - 1)) (rev ?zs)"
      by (cases "m - 1 \<le> length ?zs") (simp_all only: drop_rev, simp_all)
    moreover have "filter (\<lambda>x. x \<noteq> d) (recent m ds) = rev ?zs" by (simp only: recent_def rev_filter)
    ultimately show ?thesis by (simp only: Let_def length_rev)
  qed
  finally show ?thesis .
qed

lemma length_recent: "length (recent m ds) \<le> m" by (simp add: recent_def)

lemma dict_del_keys: "map fst (dict_del d k) = filter (\<lambda>x. x \<noteq> k) (map fst d)"
  by (induction d) (auto simp: dict_del_def)

lemma start_always_up:
  assumes "always_up W modules" "mc_modules c = modules"
  shows "\<exists>c'. start_client W c = (Inr (), c')"
proof -
  obtain T r where "cw_transport W (mc_env c) (mc_starts c) = Some T" "boot T modules (mc_dataset c) = Inr r"
    using assms(1) unfolding always_up_def by metis
  then show ?thesis using assms(2) by (simp add: start_client_def Let_def)
qed

lemma acquire_recent:
  assumes up: "always_up W modules" and ok: "pool_ok W modules p" and d: "d \<noteq> []"
    and keys: "map fst (pl_clients p) = recent m ds" and m: "pl_max_live p = int m"
  shows "\<exists>c p'. acquire_client W modules p d = Some (Inr c, p') \<and> map fst (pl_clients p') = recent m (ds @ [d])
    \<and> pl_starts p' = pl_starts p + (if d \<in> set (recent m ds) then 0 else 1)"
proof -
  define rest where "rest = dict_del (pl_clients p) d"
  have m1: "1 \<le> pl_max_live p" "1 \<le> m" using ok m by (simp_all add: pool_ok_def)
  define kept where "kept = drop (length rest - (m - 1)) rest"
  obtain shut where ev: "evict (pl_max_live p) rest [] = Some (Inr (kept, shut))"
    using evict_returns [OF m1(1), of rest "[]"] m by (simp add: Let_def kept_def)
  have rk: "map fst rest = filter (\<lambda>x. x \<noteq> d) (recent m ds)" by (simp add: rest_def dict_del_keys keys)
  have "map fst kept = drop (length rest - (m - 1)) (map fst rest)" by (simp add: kept_def drop_map)
  also have "\<dots> @ [d] = recent m (ds @ [d])"
    unfolding recent_snoc [OF m1(2)] Let_def rk [symmetric] length_map ..
  finally have after: "map fst kept @ [d] = recent m (ds @ [d])" by simp
  note run = acquire_client_def Let_def rest_def [symmetric] ev
  show ?thesis
  proof (cases "dict_get (pl_clients p) d")
    case (Some c)
    then have "mc_running c" using ok by (auto simp: pool_ok_def client_up_def dest: map_of_SomeD)
    moreover have "d \<in> set (recent m ds)" using Some keys by (metis dom_map_of_conv_image_fst domI image_set)
    ultimately show ?thesis using Some after by (simp add: run take_client_def)
  next
    case None
    then obtain c where c: "new_client W modules d = Inr c" using d by (simp add: new_client_def)
    moreover have "\<not> mc_running c" "mc_modules c = modules" using new_client_facts [OF c] by (auto simp: scoped_def)
    moreover from this(2) obtain c' where "start_client W c = (Inr (), c')" using start_always_up [OF up] by blast
    moreover have "d \<notin> set (recent m ds)" using None keys by (metis map_of_eq_None_iff image_set)
    ultimately show ?thesis using None after by (simp add: run take_client_def)
  qed
qed

lemma acquire_all_recent:
  assumes "always_up W modules" "pool_ok W modules p" "[] \<notin> set ds"
    and "map fst (pl_clients p) = recent m past" "pl_max_live p = int m"
  shows "\<exists>p'. acquire_all W modules p ds = Some p' \<and> map fst (pl_clients p') = recent m (past @ ds)
    \<and> pl_starts p' = pl_starts p + misses m past ds"
  using assms(2-)
proof (induction ds arbitrary: p past)
  case (Cons d ds)
  obtain c p' where a: "acquire_client W modules p d = Some (Inr c, p')" "map fst (pl_clients p') = recent m (past @ [d])"
      "pl_starts p' = pl_starts p + (if d \<in> set (recent m past) then 0 else 1)"
    using acquire_recent [OF assms(1) Cons.prems(1) _ Cons.prems(3,4), of d] Cons.prems(2) by auto
  have "pool_ok W modules p'" using acquire_client_ok [OF Cons.prems(1), of d] a(1) by auto
  moreover have "pl_max_live p' = int m" using acquire_max [OF a(1)] Cons.prems(4) by simp
  ultimately obtain p'' where "acquire_all W modules p' ds = Some p''" "map fst (pl_clients p'') = recent m ((past @ [d]) @ ds)"
      "pl_starts p'' = pl_starts p' + misses m (past @ [d]) ds"
    using Cons.IH [of p' "past @ [d]"] Cons.prems(2) a(2) by auto
  then show ?case using a by auto
qed simp

subsection \<open>The queue\<close>

fun asked :: "queue_item list \<Rightarrow> nat list" where
  "asked [] = []"
| "asked (Stop # q) = []"
| "asked (Ask i args cancelled # q) = (if cancelled then asked q else i # asked q)"

lemma queue_is_answered:
  "(\<And>args e. call args = Inl e \<Longrightarrow> isinst e CException) \<Longrightarrow> map fst (serve_queue call q) = asked q"
  by (induction call q rule: serve_queue.induct) (auto split: sum.splits)

text \<open>A start that is not up in time leaves its thread behind: \<open>close\<close> finds no thread to stop.\<close>

lemma late_start_leaks:
  assumes "cw_transport W (mc_env c) (mc_starts c) = None" "\<not> mc_running c"
  shows "\<exists>c'. start_client W c = (Inl (late_start (mc_dataset c)), c') \<and> close_client c' = c' \<and> mc_orphans c' = mc_orphans c + 1"
  using assms by (simp add: start_client_def close_client_def Let_def)

lemma client_up_facts:
  "client_up W modules d c \<Longrightarrow> mc_running c \<and> mc_dataset c = d \<and> dict_get (mc_env c) ''DATASET'' = Some d
     \<and> list_all (\<lambda>(name, v). name \<in> set env_kept \<or> \<not> secret_name name) (mc_env c)"
proof -
  have plain: "\<not> secret_name ''DATASET''" "\<not> secret_name ''DB_TARGET_SCHEMA''" by code_simp+
  have "list_all (\<lambda>(name, v). name \<in> set env_kept \<or> \<not> secret_name name) (client_environment env d)" for env
    unfolding list_all_iff using client_environment_names plain by blast
  then show "client_up W modules d c \<Longrightarrow> ?thesis" by (simp add: client_up_def client_environment_scope)
qed

section \<open>Properties\<close>

text \<open>C24: every search returns, and the pool it leaves is in bounds. From a new pool, after any searches and
  closings, the eviction loop of the next search stops and never pops an empty pool; at most
  \<open>max_live\<close> clients are kept, each running, filed under its own dataset, started with that dataset in
  its environment and with no secret but the two connection strings.\<close>

theorem pool_searches_return:
  assumes "pool_reach W modules max_live p"
  shows "\<exists>out p'. pool_search W modules p dataset question k = Some (out, p')
    \<and> int (length (pl_clients p')) \<le> max_live
    \<and> list_all (\<lambda>(d, c). mc_running c \<and> mc_dataset c = d \<and> dict_get (mc_env c) ''DATASET'' = Some d
        \<and> list_all (\<lambda>(name, v). name \<in> set env_kept \<or> \<not> secret_name name) (mc_env c)) (pl_clients p')"
proof -
  obtain out p' where run: "pool_search W modules p dataset question k = Some (out, p')" and ok: "pool_ok W modules p'"
    using pool_search_ok reach_ok [OF assms] by blast
  have "list_all (\<lambda>(d, c). mc_running c \<and> mc_dataset c = d \<and> dict_get (mc_env c) ''DATASET'' = Some d
        \<and> list_all (\<lambda>(name, v). name \<in> set env_kept \<or> \<not> secret_name name) (mc_env c)) (pl_clients p')"
    using ok client_up_facts unfolding list_all_iff [of _ "pl_clients p'"] pool_ok_def by blast
  moreover have "int (length (pl_clients p')) \<le> max_live"
    using ok pool_search_max [OF run] reach_ok [OF assms] by (simp add: pool_ok_def)
  ultimately show ?thesis using run by blast
qed

definition search_transport :: "unit transport" where
  "search_transport = \<lparr>tr_launch = (\<lambda>m. Inr ()),
     tr_list = (\<lambda>_. Inr [\<lparr>wt_name = search_tool, wt_description = None, wt_input_schema = JNull\<rparr>]),
     tr_call = (\<lambda>_ _ _. Inr \<lparr>cr_content = [], cr_structured = Some [(''elements'', JArr []), (''foreign_keys'', JArr [])],
       cr_is_error = False\<rparr>)\<rparr>"

definition toy_world :: "unit client_world" where
  "toy_world = \<lparr>cw_transport = (\<lambda>env n. Some search_transport), cw_late = (\<lambda>d args. False), cw_environ = [(''PATH'', ''p''), (''LLM_API_KEY'', ''s'')],
     cw_read = (\<lambda>s. 0), cw_show = (\<lambda>r. []), cw_score = (\<lambda>s. None)\<rparr>"

definition toy_pool :: "unit client_pool" where
  "toy_pool = \<lparr>pl_max_live = 1, pl_clients = [], pl_starts = 0\<rparr>"

lemma toy_pool_made: "make_pool 1 = Inr toy_pool"
  by (simp add: make_pool_def toy_pool_def)

theorem pool_searches_return_witness:
  "\<exists>out p'. pool_search toy_world [''s''] toy_pool ''a'' ''q'' 5 = Some (out, p') \<and> int (length (pl_clients p')) \<le> 1"
  using pool_searches_return [OF pool_reach.made [OF toy_pool_made]] by blast

text \<open>C26: pooling changes no answer. Where a dataset is served alike by every start of its servers, a search
  through any pool reached answers what a client started for that question alone would: the same
  elements and join paths, or the same exception.\<close>

theorem pool_is_transparent:
  assumes "pool_reach W modules max_live p" "steady W"
  shows "\<exists>p'. pool_search W modules p dataset question k = Some (own_search W modules dataset question k, p')"
  using pool_search_own reach_ok [OF assms(1)] assms(2) by blast

theorem pool_is_transparent_witness:
  "\<exists>p'. pool_search toy_world [''s''] toy_pool ''a'' ''q'' 5 = Some (Inr \<lparr>rr_elements = [], rr_foreign_keys = []\<rparr>, p')"
proof -
  have "steady toy_world" by (simp add: steady_def toy_world_def)
  moreover have "own_search toy_world [''s''] ''a'' ''q'' 5 = Inr \<lparr>rr_elements = [], rr_foreign_keys = []\<rparr>" by code_simp
  ultimately show ?thesis
    using pool_is_transparent [OF pool_reach.made [OF toy_pool_made], of toy_world "[''s'']" "''a''" "''q''" 5] by simp
qed

text \<open>C25: a pool keeps the datasets used last. Where every start succeeds, after acquiring the clients of any
  datasets in any order the pool holds those of the last \<open>max_live\<close> different datasets, the latest
  last, and it has started servers exactly when the dataset asked for was not among those kept.\<close>

theorem pool_keeps_recent:
  assumes "make_pool max_live = Inr p" "always_up W modules" "[] \<notin> set ds"
  shows "\<exists>p'. acquire_all W modules p ds = Some p' \<and> map fst (pl_clients p') = recent (nat max_live) ds
    \<and> pl_starts p' = misses (nat max_live) [] ds"
proof -
  have "pool_ok W modules p" "pl_max_live p = int (nat max_live)"
    using reach_ok [OF pool_reach.made [OF assms(1), of W modules]] by (auto simp: pool_ok_def)
  moreover have "map fst (pl_clients p) = recent (nat max_live) []" "pl_starts p = 0"
    using assms(1) by (auto simp: make_pool_def recent_def split: if_splits)
  ultimately show ?thesis using acquire_all_recent [OF assms(2) _ assms(3)] by fastforce
qed

theorem pool_keeps_recent_witness:
  "\<exists>p'. acquire_all toy_world [''s''] toy_pool [''a'', ''b'', ''b'', ''a''] = Some p' \<and> map fst (pl_clients p') = [''a'']
     \<and> pl_starts p' = 3"
proof -
  have "\<exists>r. boot search_transport [''s''] d = Inr r" for d
    by (simp add: boot_def connect_one_def search_transport_def empty_registry_def search_tool_def discovered_def)
  then have "always_up toy_world [''s'']" by (simp add: always_up_def toy_world_def)
  moreover have "recent (nat 1) [''a'', ''b'', ''b'', ''a''] = [''a'']" "misses (nat 1) [] [''a'', ''b'', ''b'', ''a''] = 3"
    by (simp_all add: recent_def)
  ultimately show ?thesis
    using pool_keeps_recent [OF toy_pool_made, of toy_world "[''s'']" "[''a'', ''b'', ''b'', ''a'']"] by simp
qed

end
