(* ===== verification/Pipeline.thy ===== *)
theory Pipeline
  imports SearchClients Runs Conversion Generation Validation
begin

text \<open>
  The pipelines an evaluation compares (\<open>src/evals/pipeline.py\<close>): the scope of a database, the query
  runner gold and predictions share, and the answerer that turns a question into an attempt, with the
  baselines as its one variable. It composes the retriever, the generator, the validator and the
  search clients of the other theories. The catalog is the indexer's store; the order the
  database gives text is the argument \<open>collate\<close>, and \<open>EXPLAIN\<close> answers by the search path of the session.
\<close>

section \<open>Baselines and sources\<close>

datatype baseline = FULL_SCHEMA | RETRIEVAL_ONLY | WITH_VALIDATION | MCP_RETRIEVAL

fun baseline_value :: "baseline \<Rightarrow> string" where
  "baseline_value FULL_SCHEMA = ''full-schema''"
| "baseline_value RETRIEVAL_ONLY = ''retrieval-only''"
| "baseline_value WITH_VALIDATION = ''with-validation''"
| "baseline_value MCP_RETRIEVAL = ''mcp-retrieval''"

datatype 'v context_source =
    FullSchemaSource retrieval_result
  | RetrieverSource "'v retriever" int
  | McpRetrievalSource string int

record 'v database_scope =
  ds_db_id :: string
  ds_schema :: string
  ds_dataset :: string
  ds_catalog :: schema_catalog
  ds_retriever :: "'v retriever option"
  ds_validator :: "schema_catalog option"
  ds_full_schema :: retrieval_result
  ds_source :: "'v context_source"

text \<open>The parts a pipeline is built of. \<open>pi_store\<close> is what the owner connection reads about a dataset.\<close>

record ('v, 'n, 's, 'l) pipeline =
  pi_baseline :: baseline
  pi_prefix :: string
  pi_top_k :: int
  pi_default_k :: int
  pi_ef_search :: int
  pi_iterative :: bool
  pi_embedder :: "'v embedder option"
  pi_is_zero :: "'v \<Rightarrow> bool"
  pi_nearest :: "'v search_params \<Rightarrow> exn + retrieved_element list"
  pi_store :: "string \<Rightarrow> exn + 'v store"
  pi_collate :: "string \<Rightarrow> nat list"
  pi_sqlglot :: "'n sqlglot"
  pi_enum :: "string set \<Rightarrow> string list"
  pi_settings :: execution_settings
  pi_to_str :: "json \<Rightarrow> string"
  pi_explain :: "string \<Rightarrow> database"
  pi_world :: "'s client_world"
  pi_modules :: "string list"
  pi_call :: "'l complete"
  pi_generator :: generator

text \<open>What it changes: the scopes it has opened, the client pool, the search path of the read-only session,
  the model client and the statements of the validator.\<close>

record ('v, 's, 'l) pipeline_state =
  ps_scopes :: "(string, 'v database_scope) dict"
  ps_pool :: "'s client_pool"
  ps_path :: string
  ps_llm :: 'l
  ps_explained :: "db_statement list"

definition needs_retrieval :: "baseline \<Rightarrow> bool" where
  "needs_retrieval b \<longleftrightarrow> b = RETRIEVAL_ONLY \<or> b = WITH_VALIDATION"

definition needs_validation :: "baseline \<Rightarrow> bool" where
  "needs_validation b \<longleftrightarrow> b = WITH_VALIDATION"

text \<open>The checks of \<open>ScopeRegistry.__init__\<close>: the default of \<open>top_k\<close>, and a pool for the one baseline that
  needs it.\<close>

definition registry_top_k :: "int option \<Rightarrow> int \<Rightarrow> int" where
  "registry_top_k top_k setting = (case top_k of None \<Rightarrow> setting | Some k \<Rightarrow> k)"

definition registry_refuses :: "baseline \<Rightarrow> 's client_pool option \<Rightarrow> exn option" where
  "registry_refuses b pool =
     (if b = MCP_RETRIEVAL \<and> pool = None
      then Some (OtherError ''ValueError'' ''the mcp-retrieval baseline needs a client pool'') else None)"

section \<open>Scopes\<close>

definition dataset_rows :: "'v store \<Rightarrow> string \<Rightarrow> 'v element list" where
  "dataset_rows S dataset = filter (\<lambda>e. el_dataset e = dataset) (st_elements S)"

definition catalog_of :: "'v store \<Rightarrow> string \<Rightarrow> schema_catalog" where
  "catalog_of S dataset = load_catalog (map (\<lambda>e. (el_table e, el_column e)) (dataset_rows S dataset))"

text \<open>The two queries order by table then column, NULL first, and by the near end of the edge.\<close>

definition read_full_schema :: "(string \<Rightarrow> nat list) \<Rightarrow> 'v store \<Rightarrow> string \<Rightarrow> retrieval_result" where
  "read_full_schema collate S dataset =
     \<lparr>rr_elements = map (\<lambda>e. \<lparr>re_type = el_type e, re_table = el_table e, re_column = el_column e,
          re_data_type = el_data_type e, re_comment = el_comment e, re_serialized = el_serialized e, re_score = 1\<rparr>)
        (sort_key (\<lambda>e. collate (el_table e))
          (sort_key (\<lambda>e. case el_column e of None \<Rightarrow> [] | Some c \<Rightarrow> 0 # collate c) (dataset_rows S dataset))),
      rr_foreign_keys = sort_key (\<lambda>f. collate (from_table f))
        (sort_key (\<lambda>f. collate (from_column f)) (map snd (filter (\<lambda>(d, f). d = dataset) (st_edges S))))\<rparr>"

definition build_retriever :: "('v, 'n, 's, 'l) pipeline \<Rightarrow> string \<Rightarrow> exn + 'v retriever" where
  "build_retriever P dataset =
     (case pi_embedder P of
        None \<Rightarrow> Inl (RetrievalError ''retrieval was requested without an embedder'')
      | Some em \<Rightarrow> Inr (make_retriever em (pi_is_zero P) dataset (pi_default_k P) (pi_ef_search P) (pi_iterative P) (pi_nearest P)))"

definition build_source ::
  "('v, 'n, 's, 'l) pipeline \<Rightarrow> string \<Rightarrow> 'v retriever option \<Rightarrow> retrieval_result \<Rightarrow> exn + 'v context_source" where
  "build_source P dataset retriever full =
     (if pi_baseline P = FULL_SCHEMA then Inr (FullSchemaSource full)
      else if pi_baseline P = MCP_RETRIEVAL then Inr (McpRetrievalSource dataset (pi_top_k P))
      else case retriever of
        None \<Rightarrow> Inl (RetrievalError ''a retrieval baseline was selected without an embedder'')
      | Some R \<Rightarrow> Inr (RetrieverSource R (pi_top_k P)))"

definition dataset_for :: "('v, 'n, 's, 'l) pipeline \<Rightarrow> string \<Rightarrow> exn + string" where
  "dataset_for P db_id = schema_name_for db_id (pi_prefix P)"

definition empty_result :: retrieval_result where
  "empty_result = \<lparr>rr_elements = [], rr_foreign_keys = []\<rparr>"

text \<open>The body of \<open>scope\<close> past its cache.\<close>

definition open_scope :: "('v, 'n, 's, 'l) pipeline \<Rightarrow> string \<Rightarrow> exn + 'v database_scope" where
  "open_scope P db_id =
     (case dataset_for P db_id of
        Inl e \<Rightarrow> Inl e
      | Inr dataset \<Rightarrow>
         (case pi_store P dataset of
            Inl e \<Rightarrow> Inl e
          | Inr S \<Rightarrow>
             (let cat = catalog_of S dataset in
              if is_empty cat
              then Inl (RetrievalError (''no schema elements indexed for '' @ py_repr db_id @ '' (dataset '' @ py_repr dataset
                @ ''). Run `python -m benchmark.load index` over the converted schemas before evaluating -- without a catalog every identifier resolves to nothing and every question fails for the same uninformative reason.''))
              else case (if needs_retrieval (pi_baseline P) then map_sum id Some (build_retriever P dataset) else Inr None) of
                Inl e \<Rightarrow> Inl e
              | Inr retriever \<Rightarrow>
                 (let full = (if pi_baseline P = FULL_SCHEMA then read_full_schema (pi_collate P) S dataset else empty_result) in
                  case build_source P dataset retriever full of
                    Inl e \<Rightarrow> Inl e
                  | Inr source \<Rightarrow> Inr \<lparr>ds_db_id = db_id, ds_schema = dataset, ds_dataset = dataset, ds_catalog = cat,
                      ds_retriever = retriever,
                      ds_validator = (if needs_validation (pi_baseline P) then Some cat else None),
                      ds_full_schema = full, ds_source = source\<rparr>))))"

definition resolve_scope ::
  "('v, 'n, 's, 'l) pipeline \<Rightarrow> string \<Rightarrow> (string, 'v database_scope) dict
     \<Rightarrow> (exn + 'v database_scope) \<times> (string, 'v database_scope) dict" where
  "resolve_scope P db_id scopes =
     (if db_id = [] then (Inl (OtherError ''ValueError'' ''a benchmark question must name the database it is about''), scopes)
      else case dict_get scopes db_id of
        Some sc \<Rightarrow> (Inr sc, scopes)
      | None \<Rightarrow>
         (case open_scope P db_id of
            Inl e \<Rightarrow> (Inl e, scopes)
          | Inr sc \<Rightarrow> (Inr sc, dict_set scopes db_id sc)))"

definition activate :: "'v database_scope \<Rightarrow> ('v, 's, 'l) pipeline_state \<Rightarrow> ('v, 's, 'l) pipeline_state" where
  "activate sc st = st\<lparr>ps_path := ds_schema sc\<rparr>"

section \<open>The query runner\<close>

text \<open>\<open>qx_run\<close> is the database: the schema it looks names up in, the timeout, the statement; no rows at all
  when the statement describes none.\<close>

record query_runner =
  qx_run :: "string \<Rightarrow> int \<Rightarrow> string \<Rightarrow> exn + db_value list list option"
  qx_schema_for :: "(string, string) dict"
  qx_timeout_ms :: int
  qx_max_rows :: nat
  qx_prefix :: string

definition max_result_rows :: nat where
  "max_result_rows = 100000"

definition query_schema :: "query_runner \<Rightarrow> string \<Rightarrow> string" where
  "query_schema Q db_id =
     (let known = dict_get (qx_schema_for Q) db_id in if truthy known then the known else qx_prefix Q @ db_id)"

definition run_scoped :: "query_runner \<Rightarrow> string \<Rightarrow> string \<Rightarrow> exn + db_value list list" where
  "run_scoped Q sql db_id =
     (if db_id = [] then Inl (OtherError ''ValueError'' ''a benchmark query must name the database it runs against'')
      else case qx_run Q (query_schema Q db_id) (qx_timeout_ms Q) sql of
        Inl e \<Rightarrow> Inl e
      | Inr None \<Rightarrow> Inr []
      | Inr (Some rs) \<Rightarrow>
         (let fetched = take (qx_max_rows Q + 1) rs in
          if length fetched > qx_max_rows Q
          then Inl (OtherError ''ValueError'' (''the query returned more than '' @ show_thousands (int (qx_max_rows Q))
            @ '' rows. Refused rather than truncated -- a truncated comparison scores correct answers wrong.''))
          else Inr fetched))"

section \<open>The answerer\<close>

text \<open>A search of the pool returns for every pool an evaluation reaches
  (\<open>SearchClients.pool_searches_return\<close>).\<close>

definition source_context ::
  "('v, 'n, 's, 'l) pipeline \<Rightarrow> 'v context_source \<Rightarrow> string \<Rightarrow> 's client_pool \<Rightarrow> (exn + retrieval_result) \<times> 's client_pool" where
  "source_context P source question pool =
     (case source of
        FullSchemaSource r \<Rightarrow> (Inr r, pool)
      | RetrieverSource R k \<Rightarrow>
         ((case pi_store P (rt_dataset R) of Inl e \<Rightarrow> Inl e | Inr S \<Rightarrow> search R S question (Some k) None), pool)
      | McpRetrievalSource dataset k \<Rightarrow> the (pool_search (pi_world P) (pi_modules P) pool dataset question k))"

definition is_value_error :: "exn \<Rightarrow> bool" where
  "is_value_error e \<longleftrightarrow> (case e of OtherError c m \<Rightarrow> c = ''ValueError'' | _ \<Rightarrow> False)"

definition failed_attempt :: "string \<Rightarrow> string \<Rightarrow> attempt" where
  "failed_attempt kind message = no_attempt\<lparr>at_error_type := Some kind, at_error_message := message\<rparr>"

definition retrieved_pairs :: "retrieval_result \<Rightarrow> (string \<times> string option) list" where
  "retrieved_pairs ctx = map (\<lambda>(t, c). (t, Some c)) (retrieved_columns ctx)"

definition answered :: "retrieval_result \<Rightarrow> candidate \<Rightarrow> string option \<Rightarrow> attempt" where
  "answered ctx c sql = no_attempt\<lparr>at_sql := sql, at_retrieved := retrieved_pairs ctx,
     at_input_tokens := input_tokens (cd_usage c), at_output_tokens := output_tokens (cd_usage c),
     at_answering_model := cd_model c\<rparr>"

definition generation_failure :: "retrieval_result \<Rightarrow> exn \<Rightarrow> exn + attempt" where
  "generation_failure ctx e =
     (case e of
        UnanswerableQuestionError m u model \<Rightarrow>
          Inr ((failed_attempt ''unanswerable'' m)\<lparr>at_retrieved := retrieved_pairs ctx, at_input_tokens := input_tokens u,
            at_output_tokens := output_tokens u, at_answering_model := model\<rparr>)
      | _ \<Rightarrow>
          if isinst e CLLMError
          then Inr ((failed_attempt ''llm_failed'' (type_name e @ '': '' @ exn_str e))\<lparr>at_retrieved := retrieved_pairs ctx\<rparr>)
          else Inl e)"

text \<open>From the candidate on: the validator, where the scope has one, on the activated session.\<close>

definition judge ::
  "('v, 'n, 's, 'l) pipeline \<Rightarrow> 'v database_scope \<Rightarrow> retrieval_result \<Rightarrow> candidate \<Rightarrow> ('v, 's, 'l) pipeline_state
     \<Rightarrow> (exn + attempt) \<times> ('v, 's, 'l) pipeline_state" where
  "judge P sc ctx c st =
     (case ds_validator sc of
        None \<Rightarrow> (Inr (answered ctx c (Some (cd_sql c))), st)
      | Some cat \<Rightarrow>
         (let st1 = activate sc st;
              (out, log) = validate (pi_sqlglot P) (pi_enum P) cat (pi_settings P) (pi_to_str P)
                 (pi_explain P (ps_path st1)) (cd_sql c);
              st2 = st1\<lparr>ps_explained := ps_explained st1 @ log\<rparr> in
          case out of
            Inl e \<Rightarrow> (Inl e, st2)
          | Inr r \<Rightarrow>
              (Inr (if \<not> valid r
                 then (answered ctx c None)\<lparr>at_error_type := vr_error_type r, at_error_message := feedback r, at_validation_attempts := 1\<rparr>
                 else (answered ctx c (Some (cd_sql c)))\<lparr>at_validation_attempts := 1\<rparr>), st2)))"

definition pipeline_answer ::
  "('v, 'n, 's, 'l) pipeline \<Rightarrow> ('v, 's, 'l) pipeline_state \<Rightarrow> question \<Rightarrow> (exn + attempt) \<times> ('v, 's, 'l) pipeline_state" where
  "pipeline_answer P st q =
     (case resolve_scope P (qn_db_id q) (ps_scopes st) of
        (Inl e, scopes) \<Rightarrow>
          (if isinst e CRetrievalError \<or> is_value_error e then Inr (failed_attempt ''scope_unavailable'' (exn_str e)) else Inl e, st)
      | (Inr sc, scopes) \<Rightarrow>
         (case source_context P (ds_source sc) (qn_question q) (ps_pool st) of
            (out, pool) \<Rightarrow>
             (let st1 = st\<lparr>ps_scopes := scopes, ps_pool := pool\<rparr> in
              case out of
                Inl e \<Rightarrow>
                  (if isinst e CRetrievalError then Inr (failed_attempt ''retrieval_failed'' (exn_str e)) else Inl e, st1)
              | Inr ctx \<Rightarrow>
                 (case generate (pi_call P) (pi_generator P) (qn_question q) ctx None None (ps_llm st1) of
                    (Inl e, l) \<Rightarrow> (generation_failure ctx e, st1\<lparr>ps_llm := l\<rparr>)
                  | (Inr c, l) \<Rightarrow> judge P sc ctx c (st1\<lparr>ps_llm := l\<rparr>)))))"

text \<open>The evaluation of \<open>build_pipeline\<close>: this answerer, this runner, and what the comparison is given.\<close>

definition pipeline_eval ::
  "('v, 'n, 's, 'l) pipeline \<Rightarrow> query_runner \<Rightarrow> ('n, ('v, 's, 'l) pipeline_state) eval_env
     \<Rightarrow> ('n, ('v, 's, 'l) pipeline_state) eval_env" where
  "pipeline_eval P Q V = V\<lparr>ev_answer := pipeline_answer P, ev_query := (\<lambda>st sql db_id. (run_scoped Q sql db_id, st)),
     ev_sqlglot := pi_sqlglot P\<rparr>"

section \<open>Facts\<close>

subsection \<open>Scopes\<close>

definition scopes_ok :: "('v, 'n, 's, 'l) pipeline \<Rightarrow> (string, 'v database_scope) dict \<Rightarrow> bool" where
  "scopes_ok P scopes \<longleftrightarrow> (\<forall>db_id sc. dict_get scopes db_id = Some sc \<longrightarrow> open_scope P db_id = Inr sc)"

text \<open>The cache changes nothing: a scope resolved is the one a new registry would open.\<close>

lemma resolve_scope_fresh:
  assumes "scopes_ok P scopes" "db_id \<noteq> []"
  shows "fst (resolve_scope P db_id scopes) = open_scope P db_id"
    and "scopes_ok P (snd (resolve_scope P db_id scopes))"
  using assms by (auto simp: resolve_scope_def scopes_ok_def split: option.splits sum.splits)

lemma resolve_scope_ok: "scopes_ok P scopes \<Longrightarrow> scopes_ok P (snd (resolve_scope P db_id scopes))"
  using resolve_scope_fresh(2) by (cases "db_id = []") (auto simp: resolve_scope_def)

lemma open_scope_facts:
  assumes "open_scope P db_id = Inr sc"
  shows "\<exists>dataset S. dataset_for P db_id = Inr dataset \<and> pi_store P dataset = Inr S \<and> ds_schema sc = dataset
    \<and> ds_catalog sc = catalog_of S dataset \<and> \<not> is_empty (catalog_of S dataset)
    \<and> ds_validator sc = (if needs_validation (pi_baseline P) then Some (catalog_of S dataset) else None)"
  using assms by (auto simp: open_scope_def Let_def split: sum.splits if_splits)

subsection \<open>Attempts\<close>

lemma judge_keeps: "ps_scopes (snd (judge P sc ctx c st)) = ps_scopes st" "ps_pool (snd (judge P sc ctx c st)) = ps_pool st"
  by (auto simp: judge_def activate_def Let_def split: option.splits sum.splits prod.splits)

lemma pipeline_answer_scopes:
  "ps_scopes (snd (pipeline_answer P st q)) = snd (resolve_scope P (qn_db_id q) (ps_scopes st))
     \<or> ps_scopes (snd (pipeline_answer P st q)) = ps_scopes st"
  by (auto simp: pipeline_answer_def Let_def judge_keeps split: sum.splits prod.splits)

lemma pipeline_answer_ok: "scopes_ok P (ps_scopes st) \<Longrightarrow> scopes_ok P (ps_scopes (snd (pipeline_answer P st q)))"
  using pipeline_answer_scopes [of P st q] resolve_scope_ok by metis

definition answer_all ::
  "('v, 'n, 's, 'l) pipeline \<Rightarrow> question list \<Rightarrow> ('v, 's, 'l) pipeline_state \<Rightarrow> ('v, 's, 'l) pipeline_state" where
  "answer_all P qs st = fold (\<lambda>q st. snd (pipeline_answer P st q)) qs st"

lemma answer_all_ok: "scopes_ok P (ps_scopes st) \<Longrightarrow> scopes_ok P (ps_scopes (answer_all P qs st))"
  unfolding answer_all_def by (induction qs arbitrary: st) (auto simp: pipeline_answer_ok)

text \<open>An attempt that carries a statement: what the scope was, and what the validator said.\<close>

lemma answered_simps [simp]:
  "at_sql (answered ctx c sql) = sql" "at_error_type (answered ctx c sql) = None"
  "at_sql (failed_attempt k m) = None"
  by (simp_all add: answered_def failed_attempt_def no_attempt_def)

lemma generation_failure_sql: "generation_failure ctx e = Inr a \<Longrightarrow> at_sql a = None"
  by (cases e) (auto simp: generation_failure_def split: if_splits)

lemma judge_sql:
  assumes "judge P sc ctx c st = (Inr a, st')" "at_sql a = Some sql" "ds_validator sc = Some cat"
  shows "\<exists>r log. validate (pi_sqlglot P) (pi_enum P) cat (pi_settings P) (pi_to_str P) (pi_explain P (ds_schema sc)) sql
      = (Inr r, log) \<and> valid r \<and> at_error_type a = None \<and> ps_path st' = ds_schema sc"
  using assms
  by (auto simp: judge_def Let_def activate_def split: sum.splits prod.splits if_splits)

lemma pipeline_answer_sql:
  assumes "pipeline_answer P st q = (Inr a, st')" "at_sql a = Some sql" "scopes_ok P (ps_scopes st)" "needs_validation (pi_baseline P)"
  shows "\<exists>dataset S r log. dataset_for P (qn_db_id q) = Inr dataset \<and> pi_store P dataset = Inr S
    \<and> validate (pi_sqlglot P) (pi_enum P) (catalog_of S dataset) (pi_settings P) (pi_to_str P) (pi_explain P dataset) sql = (Inr r, log)
    \<and> valid r \<and> at_error_type a = None \<and> ps_path st' = dataset"
proof -
  obtain sc scopes where sc: "resolve_scope P (qn_db_id q) (ps_scopes st) = (Inr sc, scopes)"
    using assms(1,2) by (auto simp: pipeline_answer_def split: sum.splits prod.splits if_splits)
  then have "qn_db_id q \<noteq> []" by (auto simp: resolve_scope_def)
  then have "open_scope P (qn_db_id q) = Inr sc" using resolve_scope_fresh(1) [OF assms(3)] sc by fastforce
  then obtain dataset S where d: "dataset_for P (qn_db_id q) = Inr dataset" "pi_store P dataset = Inr S" "ds_schema sc = dataset"
      "ds_validator sc = Some (catalog_of S dataset)"
    using open_scope_facts assms(4) by force
  obtain ctx c st2 where "judge P sc ctx c st2 = (Inr a, st')"
    using assms(1,2) sc
    by (auto simp: pipeline_answer_def Let_def dest: generation_failure_sql split: sum.splits prod.splits if_splits)
  from judge_sql [OF this assms(2) d(4)] show ?thesis using d by blast
qed

subsection \<open>The wire\<close>

lemma render_edge_wire: "render_edge (f\<lparr>constraint_name := n\<rparr>) = render_edge f"
  by (simp add: render_edge_def)

lemma render_context_edges:
  "map render_edge (rr_foreign_keys r) = map render_edge (rr_foreign_keys r') \<Longrightarrow> rr_elements r = rr_elements r' \<Longrightarrow>
     render_context r = render_context r'"
proof -
  assume e: "map render_edge (rr_foreign_keys r) = map render_edge (rr_foreign_keys r')" and s: "rr_elements r = rr_elements r'"
  have "map (\<lambda>fk. ''  '' @ render_edge fk) xs = map (\<lambda>t. ''  '' @ t) (map render_edge xs)" for xs by simp
  moreover have "rr_foreign_keys r = [] \<longleftrightarrow> rr_foreign_keys r' = []" using e by (metis map_is_Nil_conv)
  ultimately show ?thesis using e s by (simp only: render_context_def)
qed

lemma render_context_wire: "render_context (wire_form r) = render_context r"
proof -
  have "map bare (rr_elements (wire_form r)) = map bare (rr_elements r)" by (simp add: wire_form_def bare_def)
  moreover have "map render_edge (rr_foreign_keys (wire_form r)) = map render_edge (rr_foreign_keys r)"
    by (simp add: wire_form_def render_edge_wire)
  ultimately have "render_context ((wire_form r)\<lparr>rr_elements := map bare (rr_elements (wire_form r))\<rparr>)
      = render_context (r\<lparr>rr_elements := map bare (rr_elements r)\<rparr>)"
    by (intro render_context_edges) simp_all
  then show ?thesis by (simp only: render_context_bare)
qed

lemma retrieved_wire: "retrieved_columns (wire_form r) = retrieved_columns r"
  by (simp add: retrieved_columns_def wire_form_def filter_map comp_def)

text \<open>The same question over the wire: the same request, hence the same candidate but for its context.\<close>

lemma generate_wire:
  "generate call g q (wire_form r) fb prev l =
     (case generate call g q r fb prev l of
        (Inl e, l') \<Rightarrow> (Inl e, l') | (Inr c, l') \<Rightarrow> (Inr (c\<lparr>cd_context := wire_form r\<rparr>), l'))"
  by (auto simp: generate_def generate_detailed_def build_messages_def user_text_def render_context_wire retrieved_wire Let_def
      split: prod.splits sum.splits)

text \<open>The servers an evaluation starts for a dataset: each start gets a transport whose one source of the
  search tool is the server of \<open>Tools\<close> over the retriever of that dataset, and calls are answered in
  time. \<open>fr\<close> prints a float, \<open>conforms\<close> is the schema check.\<close>

definition serves_search ::
  "('v, 'n, 's, 'l) pipeline \<Rightarrow> (rat \<Rightarrow> string) \<Rightarrow> conforms \<Rightarrow> string \<Rightarrow> 's transport \<Rightarrow> bool" where
  "serves_search P fr conforms dataset T \<longleftrightarrow> fails_softly T \<and> (\<exists>m \<in> set (pi_modules P). offers T m search_tool)
     \<and> (\<forall>R S s args. build_retriever P dataset = Inr R \<longrightarrow> pi_store P dataset = Inr S \<longrightarrow>
          tr_call T s search_tool args = fst (call_tool fr conforms (search_specs R S []) search_tool args ()))"

definition well_served :: "('v, 'n, 's, 'l) pipeline \<Rightarrow> (rat \<Rightarrow> string) \<Rightarrow> conforms \<Rightarrow> bool" where
  "well_served P fr conforms \<longleftrightarrow> steady (pi_world P) \<and> distinct (pi_modules P)
     \<and> (\<forall>d args. \<not> cw_late (pi_world P) d args) \<and> float_reads (cw_read (pi_world P)) fr
     \<and> (\<forall>dataset. \<exists>T. cw_transport (pi_world P) (client_environment (cw_environ (pi_world P)) dataset) 0 = Some T
          \<and> serves_search P fr conforms dataset T)"

lemma boot_serves:
  assumes "fails_softly T" "distinct modules" "\<exists>m \<in> set modules. offers T m search_tool"
  shows "\<exists>rg t s. boot T modules dataset = Inr rg \<and> dict_get (rg_tools rg) search_tool = Some t
    \<and> dict_get (rg_sessions rg) (dt_server t) = Some s"
proof -
  obtain err rg where run: "connect_all T modules empty_registry = (err, rg)" by fastforce
  have "registry_inv T {} empty_registry" by (simp add: registry_inv_def empty_registry_def)
  from connect_all_inv [OF assms(1) this run assms(2)]
  have inv: "err = None" "registry_inv T (set modules) rg" by auto
  then have "search_tool \<in> dom (map_of (rg_tools rg))" using assms(3) by (simp add: registry_inv_def)
  then obtain t where t: "dict_get (rg_tools rg) search_tool = Some t" by blast
  then obtain s where "dict_get (rg_sessions rg) (dt_server t) = Some s"
    using inv(2) unfolding registry_inv_def by blast
  then show ?thesis using t run inv(1) by (simp add: boot_def)
qed

lemma wire_search:
  assumes W: "well_served P fr conforms" and d: "dataset \<noteq> []"
    and R: "build_retriever P dataset = Inr R" "pi_store P dataset = Inr S"
    and run: "search R S q (Some k) None = Inr r" and named: "\<forall>e \<in> set (rr_elements r). re_table e \<noteq> []"
    and accepted: "conforms search_input_schema [(''query'', JStr q), (''k'', JInt k)] = None"
    and show_fr: "cw_show (pi_world P) = fr"
  shows "own_search (pi_world P) (pi_modules P) dataset q k = Inr (wire_form r)"
proof -
  let ?W = "pi_world P"
  obtain T where T: "cw_transport ?W (client_environment (cw_environ ?W) dataset) 0 = Some T" "serves_search P fr conforms dataset T"
    using W unfolding well_served_def by blast
  have fl: "float_reads (cw_read ?W) fr" and late: "\<not> cw_late ?W dataset args" for args
    using W by (simp_all add: well_served_def)
  obtain rg t s where rg: "boot T (pi_modules P) dataset = Inr rg" "dict_get (rg_tools rg) search_tool = Some t"
      "dict_get (rg_sessions rg) (dt_server t) = Some s"
    using boot_serves [of T "pi_modules P" dataset] T(2) W by (auto simp: serves_search_def well_served_def)
  let ?d = "succeeded (render_retrieval r)"
  let ?c = "to_call_result fr ?d"
  have "search_schema R S (call_arguments q k) () = (Inr ?d, ())"
    by (simp add: search_schema_def text_arg_def int_arg_def texts_arg_def call_arguments_def run)
  then have "call_tool fr conforms (search_specs R S []) search_tool (call_arguments q k) () = (Inr ?c, ())"
    using accepted by (simp add: call_tool_def dispatch_tool_def by_name_def search_specs_def search_tool_def call_arguments_def)
  then have call: "registry_call (cw_read ?W) T rg search_tool (call_arguments q k) = Inr (to_result (cw_read ?W) ?c)"
    using rg T(2) R by (simp add: registry_call_def serves_search_def)
  have whole: "?c\<lparr>cr_structured := Some ?d\<rparr> = ?c" by (simp add: to_call_result_def)
  have "tr_payload (to_result (cw_read ?W) ?c) = ?d"
    using to_result_call [OF fl retrieval_payload_ok [of r], where st = "Some ?d"] unfolding whole by simp
  moreover have "\<not> tr_is_error (to_result (cw_read ?W) ?c)"
    using to_result_error [where st = "Some ?d" and fr = fr and d = ?d and rd = "cw_read ?W"] unfolding whole
    by (simp add: succeeded_retrieval of_option_def)
  ultimately have read: "client_answer fr pf (to_result (cw_read ?W) ?c) = Inr (wire_form r)" for pf
    using retrieval_read_back [OF named] by (simp add: client_answer_def)
  obtain c where c: "new_client ?W (pi_modules P) dataset = Inr c" using d by (simp add: new_client_def)
  have "fst (start_client ?W c) = Inr ()"
    using start_outcome [of ?W "pi_modules P" dataset c] new_client_facts [OF c] T(1) rg(1) W by (simp add: well_served_def)
  then obtain c' where c': "start_client ?W c = (Inr (), c')" by (cases "start_client ?W c") auto
  obtain T' r' where "cw_transport ?W (client_environment (cw_environ ?W) dataset) 0 = Some T'" "boot T' (pi_modules P) dataset = Inr r'"
      "fst (client_search ?W c' q k) = ask_server ?W dataset T' r' (call_arguments q k)"
    using answer_up [OF _ start_scoped_up [OF c' c]] W unfolding well_served_def by blast
  then have "fst (client_search ?W c' q k) = Inr (wire_form r)"
    using T(1) rg(1) late call read show_fr by (simp add: ask_server_def)
  then show ?thesis using c c' search_new [OF c, of q k] by (simp add: own_search_def)
qed

definition in_process :: "('v, 'n, 's, 'l) pipeline \<Rightarrow> ('v, 'n, 's, 'l) pipeline" where
  "in_process P = P\<lparr>pi_baseline := RETRIEVAL_ONLY\<rparr>"

definition over_wire :: "('v, 'n, 's, 'l) pipeline \<Rightarrow> ('v, 'n, 's, 'l) pipeline" where
  "over_wire P = P\<lparr>pi_baseline := MCP_RETRIEVAL\<rparr>"

lemma in_process_parts [simp]:
  "pi_baseline (in_process P) = RETRIEVAL_ONLY" "pi_store (in_process P) = pi_store P" "pi_top_k (in_process P) = pi_top_k P"
  "pi_call (in_process P) = pi_call P" "pi_generator (in_process P) = pi_generator P"
  "dataset_for (in_process P) = dataset_for P" "build_retriever (in_process P) = build_retriever P"
  by (auto simp: in_process_def dataset_for_def build_retriever_def fun_eq_iff split: option.split)

lemma over_wire_parts [simp]:
  "pi_baseline (over_wire P) = MCP_RETRIEVAL" "pi_store (over_wire P) = pi_store P" "pi_top_k (over_wire P) = pi_top_k P"
  "pi_call (over_wire P) = pi_call P" "pi_generator (over_wire P) = pi_generator P"
  "pi_world (over_wire P) = pi_world P" "pi_modules (over_wire P) = pi_modules P" "dataset_for (over_wire P) = dataset_for P"
  by (auto simp: over_wire_def dataset_for_def fun_eq_iff)

lemma answer_unvalidated:
  assumes "resolve_scope P (qn_db_id q) (ps_scopes st) = (Inr sc, scopes)"
    and "source_context P (ds_source sc) (qn_question q) (ps_pool st) = (Inr ctx, pool)" "ds_validator sc = None"
  shows "fst (pipeline_answer P st q) =
      (case fst (generate (pi_call P) (pi_generator P) (qn_question q) ctx None None (ps_llm st)) of
         Inl e \<Rightarrow> generation_failure ctx e | Inr c \<Rightarrow> Inr (answered ctx c (Some (cd_sql c))))"
    "ps_llm (snd (pipeline_answer P st q)) =
      snd (generate (pi_call P) (pi_generator P) (qn_question q) ctx None None (ps_llm st))"
  using assms by (auto simp: pipeline_answer_def Let_def judge_def split: sum.splits prod.splits)

lemma baselines_agree_lemma:
  assumes W: "well_served P fr conforms" "cw_show (pi_world P) = fr"
    and st: "scopes_ok (in_process P) (ps_scopes st)" "scopes_ok (over_wire P) (ps_scopes st')"
      "pool_ok (pi_world P) (pi_modules P) (ps_pool st')" "ps_llm st' = ps_llm st"
    and q: "qn_db_id q \<noteq> []" "dataset_for P (qn_db_id q) = Inr dataset" "pi_store P dataset = Inr S"
      "\<not> is_empty (catalog_of S dataset)" "build_retriever P dataset = Inr R"
    and run: "search R S (qn_question q) (Some (pi_top_k P)) None = Inr r" "\<forall>e \<in> set (rr_elements r). re_table e \<noteq> []"
    and accepted: "conforms search_input_schema [(''query'', JStr (qn_question q)), (''k'', JInt (pi_top_k P))] = None"
  shows "fst (pipeline_answer (over_wire P) st' q) = fst (pipeline_answer (in_process P) st q)"
    "ps_llm (snd (pipeline_answer (over_wire P) st' q)) = ps_llm (snd (pipeline_answer (in_process P) st q))"
proof -
  have ds: "dataset \<noteq> []" using q(2) to_pg_ok(2) by (auto simp: dataset_for_def schema_name_for_def)
  have RS: "rt_dataset R = dataset" using q(5) by (auto simp: build_retriever_def make_retriever_def split: option.splits)
  obtain sc where sc: "open_scope (in_process P) (qn_db_id q) = Inr sc" "ds_source sc = RetrieverSource R (pi_top_k P)"
      "ds_validator sc = None"
    using q by (simp add: open_scope_def build_source_def needs_retrieval_def needs_validation_def Let_def)
  obtain sc' where sc': "open_scope (over_wire P) (qn_db_id q) = Inr sc'" "ds_source sc' = McpRetrievalSource dataset (pi_top_k P)"
      "ds_validator sc' = None"
    using q by (simp add: open_scope_def build_source_def needs_retrieval_def needs_validation_def Let_def)
  obtain scopes where s: "resolve_scope (in_process P) (qn_db_id q) (ps_scopes st) = (Inr sc, scopes)"
    using resolve_scope_fresh(1) [OF st(1) q(1)] sc(1) by (cases "resolve_scope (in_process P) (qn_db_id q) (ps_scopes st)") auto
  obtain scopes' where s': "resolve_scope (over_wire P) (qn_db_id q) (ps_scopes st') = (Inr sc', scopes')"
    using resolve_scope_fresh(1) [OF st(2) q(1)] sc'(1) by (cases "resolve_scope (over_wire P) (qn_db_id q) (ps_scopes st')") auto
  have c: "source_context (in_process P) (ds_source sc) (qn_question q) (ps_pool st) = (Inr r, ps_pool st)"
    using sc(2) q(3) RS run(1) by (simp add: source_context_def)
  have "own_search (pi_world P) (pi_modules P) dataset (qn_question q) (pi_top_k P) = Inr (wire_form r)"
    by (rule wire_search [OF W(1) ds q(5,3) run accepted W(2)])
  moreover have "steady (pi_world P)" using W(1) by (simp add: well_served_def)
  ultimately obtain pool where c': "source_context (over_wire P) (ds_source sc') (qn_question q) (ps_pool st') = (Inr (wire_form r), pool)"
    using pool_search_own [OF st(3), of dataset "qn_question q" "pi_top_k P"] sc'(2)
    by (auto simp: source_context_def)
  note u = answer_unvalidated [OF s c sc(3)] and u' = answer_unvalidated [OF s' c' sc'(3)]
  have same: "generation_failure (wire_form r) e = generation_failure r e"
      "answered (wire_form r) (x\<lparr>cd_context := wire_form r\<rparr>) sql = answered r x sql" for e x sql
    by (simp_all add: generation_failure_def answered_def retrieved_pairs_def retrieved_wire split: exn.split)
  show "fst (pipeline_answer (over_wire P) st' q) = fst (pipeline_answer (in_process P) st q)"
    "ps_llm (snd (pipeline_answer (over_wire P) st' q)) = ps_llm (snd (pipeline_answer (in_process P) st q))"
    unfolding u u' in_process_parts over_wire_parts st(4) generate_wire
    by (auto simp: same split: prod.splits sum.splits)
qed

text \<open>The attempts of a run, in order.\<close>

fun attempts ::
  "('v, 'n, 's, 'l) pipeline \<Rightarrow> ('v, 's, 'l) pipeline_state \<Rightarrow> question list \<Rightarrow> (exn + attempt) list" where
  "attempts P st [] = []"
| "attempts P st (q # qs) = (let (a, st') = pipeline_answer P st q in a # attempts P st' qs)"

text \<open>A question whose database is indexed and whose retrieval succeeds with a query the tool accepts.\<close>

definition retrievable :: "('v, 'n, 's, 'l) pipeline \<Rightarrow> conforms \<Rightarrow> question \<Rightarrow> bool" where
  "retrievable P conforms q \<longleftrightarrow> qn_db_id q \<noteq> []
     \<and> conforms search_input_schema [(''query'', JStr (qn_question q)), (''k'', JInt (pi_top_k P))] = None
     \<and> (\<exists>dataset S R r. dataset_for P (qn_db_id q) = Inr dataset \<and> pi_store P dataset = Inr S
          \<and> \<not> is_empty (catalog_of S dataset) \<and> build_retriever P dataset = Inr R
          \<and> search R S (qn_question q) (Some (pi_top_k P)) None = Inr r \<and> (\<forall>e \<in> set (rr_elements r). re_table e \<noteq> []))"

lemma source_context_pool:
  assumes "source_context P source question pool = (out, pool')" "pool_ok (pi_world P) (pi_modules P) pool"
  shows "pool_ok (pi_world P) (pi_modules P) pool'"
proof (cases source)
  case (McpRetrievalSource dataset k)
  obtain out' p' where "pool_search (pi_world P) (pi_modules P) pool dataset question k = Some (out', p')"
      "pool_ok (pi_world P) (pi_modules P) p'"
    using pool_search_ok [OF assms(2)] by blast
  then show ?thesis using assms(1) McpRetrievalSource by (simp add: source_context_def)
qed (use assms in \<open>auto simp: source_context_def\<close>)

lemma pipeline_answer_pool:
  "pool_ok (pi_world P) (pi_modules P) (ps_pool st) \<Longrightarrow>
     pool_ok (pi_world P) (pi_modules P) (ps_pool (snd (pipeline_answer P st q)))"
  by (auto simp: pipeline_answer_def Let_def judge_keeps split: sum.splits prod.splits dest: source_context_pool)

lemma attempts_agree:
  assumes W: "well_served P fr conforms" "cw_show (pi_world P) = fr" and qs: "\<forall>q \<in> set qs. retrievable P conforms q"
    and st: "scopes_ok (in_process P) (ps_scopes st)" "scopes_ok (over_wire P) (ps_scopes st')"
      "pool_ok (pi_world P) (pi_modules P) (ps_pool st')" "ps_llm st' = ps_llm st"
  shows "attempts (over_wire P) st' qs = attempts (in_process P) st qs"
  using qs st
proof (induction qs arbitrary: st st')
  case (Cons q qs)
  obtain dataset S R r where q: "qn_db_id q \<noteq> []" "dataset_for P (qn_db_id q) = Inr dataset" "pi_store P dataset = Inr S"
      "\<not> is_empty (catalog_of S dataset)" "build_retriever P dataset = Inr R"
      "search R S (qn_question q) (Some (pi_top_k P)) None = Inr r" "\<forall>e \<in> set (rr_elements r). re_table e \<noteq> []"
      "conforms search_input_schema [(''query'', JStr (qn_question q)), (''k'', JInt (pi_top_k P))] = None"
    using Cons.prems(1) unfolding retrievable_def by auto
  note agree = baselines_agree_lemma [OF W Cons.prems(2-5) q]
  have "attempts (over_wire P) (snd (pipeline_answer (over_wire P) st' q)) qs
      = attempts (in_process P) (snd (pipeline_answer (in_process P) st q)) qs"
    by (rule Cons.IH) (use Cons.prems agree(2) pipeline_answer_ok pipeline_answer_pool [of "over_wire P" st' q] in simp_all)
  then show ?case using agree(1) by (simp add: Let_def split_def)
qed simp

section \<open>Properties\<close>


definition toy_answer :: "unit complete" where
  "toy_answer rq l = (Inr \<lparr>lr_text = ''SELECT 1'', lr_tool_calls = [], lr_usage = no_usage, lr_model = ''m'', lr_truncated = False\<rparr>, l)"

definition wired_transport :: "string \<Rightarrow> unit transport" where
  "wired_transport dataset = \<lparr>tr_launch = (\<lambda>m. Inr ()),
     tr_list = (\<lambda>_. Inr [\<lparr>wt_name = search_tool, wt_description = None, wt_input_schema = JNull\<rparr>]),
     tr_call = (\<lambda>_ name args. fst (call_tool show_ratio (\<lambda>_ _. None)
        (search_specs (toy_retriever\<lparr>rt_dataset := dataset\<rparr>) toy_store []) name args ()))\<rparr>"

definition wired_world :: "unit client_world" where
  "wired_world = \<lparr>cw_transport = (\<lambda>env n. Some (wired_transport (the (dict_get env ''DATASET'')))), cw_late = (\<lambda>d args. False),
     cw_environ = [], cw_read = read_ratio, cw_show = show_ratio, cw_score = (\<lambda>s. None)\<rparr>"

definition toy_pipeline :: "baseline \<Rightarrow> (nat, toy_node, unit, unit) pipeline" where
  "toy_pipeline b = \<lparr>pi_baseline = b, pi_prefix = [], pi_top_k = 5, pi_default_k = 10, pi_ef_search = 40, pi_iterative = True,
     pi_embedder = Some (toy_embedder\<lparr>em_model := ''m''\<rparr>), pi_is_zero = (\<lambda>v. v = 0), pi_nearest = rt_nearest toy_retriever,
     pi_store = (\<lambda>d. Inr toy_store), pi_collate = map code, pi_sqlglot = toy (\<lambda>_. Inr [Some toy_select]), pi_enum = (\<lambda>_. []),
     pi_settings = default_execution, pi_to_str = (\<lambda>_. []), pi_explain = (\<lambda>path. toy_plan_db 5), pi_world = wired_world,
     pi_modules = [''s''], pi_call = toy_answer, pi_generator = \<lparr>ge_dialect = ''postgres'', ge_max_rows = None\<rparr>\<rparr>"

definition toy_state :: "(nat, unit, unit) pipeline_state" where
  "toy_state = \<lparr>ps_scopes = [], ps_pool = toy_pool, ps_path = [], ps_llm = (), ps_explained = []\<rparr>"

definition e_question :: question where
  "e_question = \<lparr>qn_id = ''1'', qn_question = ''q'', qn_gold_sql = [], qn_dataset = [], qn_split = DEV, qn_db_id = ''e''\<rparr>"

lemma wired_world_serves: "well_served (toy_pipeline b) show_ratio (\<lambda>_ _. None)"
proof -
  have "offers (wired_transport d) ''s'' search_tool" "fails_softly (wired_transport d)" for d
    by (simp_all add: offers_def fails_softly_def wired_transport_def)
  moreover have "tr_call (wired_transport d) s search_tool args =
      fst (call_tool show_ratio (\<lambda>_ _. None) (search_specs R S []) search_tool args ())"
    if "build_retriever (toy_pipeline b) d = Inr R" "pi_store (toy_pipeline b) d = Inr S" for d s args R S
  proof -
    have "R = toy_retriever\<lparr>rt_dataset := d\<rparr>" "S = toy_store"
      using that by (auto simp: build_retriever_def toy_pipeline_def toy_retriever_def make_retriever_def)
    then show ?thesis by (simp add: wired_transport_def)
  qed
  moreover have "cw_transport wired_world (client_environment (cw_environ wired_world) d) 0 = Some (wired_transport d)" for d
    by (simp add: wired_world_def client_environment_scope)
  ultimately show ?thesis
    unfolding well_served_def serves_search_def
    by (auto simp: toy_pipeline_def wired_world_def steady_def ratios_read)
qed

lemma toy_retrievable: "retrievable (toy_pipeline b) (\<lambda>_ _. None) e_question"
proof -
  let ?R = "toy_retriever\<lparr>rt_dataset := ''e''\<rparr>"
  have "dataset_for (toy_pipeline b) ''e'' = Inr ''e''" "\<not> is_empty (catalog_of toy_store ''e'')" by code_simp+
  moreover have "build_retriever (toy_pipeline b) ''e'' = Inr ?R"
    by (simp add: build_retriever_def toy_pipeline_def toy_retriever_def make_retriever_def)
  moreover have q: "strip ''q'' = ''q''" by code_simp
  then obtain r where "search ?R toy_store ''q'' (Some 5) None = Inr r" "\<forall>e \<in> set (rr_elements r). re_table e \<noteq> []"
    by (simp add: search_def Let_def clean_table_filter_def toy_retriever_def make_retriever_def
        embed_query_def toy_embedder_def clamp_def max_k_def max_ef_search_def rank_def)
  ultimately show ?thesis
    unfolding retrievable_def by (auto simp: e_question_def toy_pipeline_def)
qed


text \<open>C27: only validated statements are scored. With validation, whatever questions came before, an attempt
  that carries a statement carries one the validator accepted against the catalog of the question's own
  database, planned on a session whose search path is the schema of that database; and it records no
  error.\<close>

theorem attempts_are_validated:
  assumes "needs_validation (pi_baseline P)" "ps_scopes st0 = []"
    and "pipeline_answer P (answer_all P qs st0) q = (Inr a, st)" "at_sql a = Some sql"
  shows "\<exists>dataset S r log. dataset_for P (qn_db_id q) = Inr dataset \<and> pi_store P dataset = Inr S
    \<and> validate (pi_sqlglot P) (pi_enum P) (catalog_of S dataset) (pi_settings P) (pi_to_str P) (pi_explain P dataset) sql = (Inr r, log)
    \<and> valid r \<and> at_error_type a = None \<and> ps_path st = dataset"
proof (rule pipeline_answer_sql [OF assms(3,4) _ assms(1)])
  show "scopes_ok P (ps_scopes (answer_all P qs st0))"
    by (rule answer_all_ok) (simp add: scopes_ok_def assms(2))
qed

lemma pipeline_toy_validates:
  "fst (validate (toy (\<lambda>_. Inr [Some toy_select])) (\<lambda>_. []) [(''t'', {})] default_execution (\<lambda>_. [])
     (toy_plan_db 5) ''SELECT 1'') = Inr ((ok_result ''SELECT 1'' [])\<lparr>estimated_cost := Some 5\<rparr>)"
proof -
  have "strip ''SELECT 1'' = ''SELECT 1''" by code_simp
  moreover have "toy_walk 8 toy_select = [toy_select]" by (simp add: toy_select_def eval_nat_numeral)
  ultimately show ?thesis
    by (simp add: validate_def validate_static_def Let_def toy_def max_sql_chars_def
      check_read_only_def isa_any_def allowed_roots_def forbidden_nodes_def toy_select_def
      check_identifiers_def is_empty_def referenced_tables_def find_all_def explain_stage_def local_names_def
      toy_plan_db_def read_plan_def first_row_def of_option_def default_execution_def ok_result_def)
qed

lemma toy_generates:
  "\<exists>c. generate toy_answer g ''q'' ctx None None () = (Inr c, ()) \<and> cd_sql c = ''SELECT 1''"
proof -
  have "strip ''q'' = ''q''" "strip_formatting ''SELECT 1'' = ''SELECT 1''" "\<not> startswith (py_upper ''SELECT 1'') ''CANNOT_ANSWER''"
    by code_simp+
  then show ?thesis by (simp add: generate_def generate_detailed_def toy_answer_def read_response_def Let_def)
qed

lemma toy_validated_run:
  "\<exists>a st. pipeline_answer (toy_pipeline WITH_VALIDATION) toy_state e_question = (Inr a, st) \<and> at_sql a = Some ''SELECT 1''"
proof -
  let ?P = "toy_pipeline WITH_VALIDATION"
  have cat: "catalog_of toy_store ''e'' = [(''t'', {})]" by code_simp
  have "dataset_for ?P ''e'' = Inr ''e''" by code_simp
  then obtain sc R where sc: "open_scope ?P ''e'' = Inr sc" "ds_validator sc = Some [(''t'', {})]" "ds_source sc = RetrieverSource R 5"
      "build_retriever ?P ''e'' = Inr R"
    by (simp add: open_scope_def cat is_empty_def needs_retrieval_def needs_validation_def build_source_def Let_def
        toy_pipeline_def build_retriever_def)
  obtain ctx where ctx: "source_context ?P (ds_source sc) ''q'' toy_pool = (Inr ctx, toy_pool)"
  proof -
    have R: "R = toy_retriever\<lparr>rt_dataset := ''e''\<rparr>"
      using sc(4) by (auto simp: build_retriever_def toy_pipeline_def toy_retriever_def make_retriever_def)
    have "strip ''q'' = ''q''" by code_simp
    then show thesis using that unfolding sc(3) R
      by (simp add: source_context_def toy_pipeline_def search_def Let_def clean_table_filter_def toy_retriever_def
          make_retriever_def embed_query_def toy_embedder_def clamp_def max_k_def max_ef_search_def)
  qed
  obtain c where c: "generate toy_answer (pi_generator ?P) ''q'' ctx None None () = (Inr c, ())" "cd_sql c = ''SELECT 1''"
    using toy_generates by blast
  obtain log where v: "validate (toy (\<lambda>_. Inr [Some toy_select])) (\<lambda>_. []) [(''t'', {})] default_execution (\<lambda>_. []) (toy_plan_db 5) ''SELECT 1''
      = (Inr ((ok_result ''SELECT 1'' [])\<lparr>estimated_cost := Some 5\<rparr>), log)"
    using pipeline_toy_validates by (metis prod.collapse)
  have parts: "pi_call ?P = toy_answer" "ps_llm toy_state = ()" "ps_pool toy_state = toy_pool" "ps_scopes toy_state = []"
    "qn_db_id e_question = ''e''" "qn_question e_question = ''q''"
    by (simp_all add: toy_pipeline_def toy_state_def e_question_def)
  have "valid ((ok_result ''SELECT 1'' [])\<lparr>estimated_cost := Some 5\<rparr>)" by (simp add: ok_result_def)
  then show ?thesis
    using sc(1,2) ctx c v
    by (simp add: pipeline_answer_def resolve_scope_def parts Let_def judge_def) (simp add: toy_pipeline_def)
qed

theorem attempts_are_validated_witness:
  "\<exists>a st r log. pipeline_answer (toy_pipeline WITH_VALIDATION) (answer_all (toy_pipeline WITH_VALIDATION) [] toy_state) e_question
       = (Inr a, st) \<and> ps_path st = ''e''
     \<and> validate (toy (\<lambda>_. Inr [Some toy_select])) (\<lambda>_. []) (catalog_of toy_store ''e'') default_execution (\<lambda>_. []) (toy_plan_db 5) ''SELECT 1''
       = (Inr r, log) \<and> valid r"
proof -
  let ?P = "toy_pipeline WITH_VALIDATION"
  obtain a st where run: "pipeline_answer ?P (answer_all ?P [] toy_state) e_question = (Inr a, st)" "at_sql a = Some ''SELECT 1''"
    using toy_validated_run by (auto simp: answer_all_def)
  have "dataset_for ?P (qn_db_id e_question) = Inr ''e''" by code_simp
  moreover have "needs_validation (pi_baseline ?P)" "ps_scopes toy_state = []"
    by (simp_all add: toy_pipeline_def needs_validation_def toy_state_def)
  ultimately show ?thesis
    using attempts_are_validated [OF _ _ run] run by (auto simp: toy_pipeline_def)
qed

text \<open>A result is whole or refused. A query names its database; it runs in the schema recorded for that
  database, or in the one named after it, under the timeout; and its rows come back all of them, or not
  at all when they are more than the bound, never truncated. Reference and generated statements go
  through this one function.\<close>

theorem rows_whole_or_refused:
  "(\<forall>rs. run_scoped Q sql db_id = Inr rs \<longleftrightarrow>
      db_id \<noteq> [] \<and> length rs \<le> qx_max_rows Q
      \<and> (\<exists>answer. qx_run Q (query_schema Q db_id) (qx_timeout_ms Q) sql = Inr answer \<and> rs = of_option [] answer))
   \<and> ev_query (pipeline_eval P Q V) st sql db_id = (run_scoped Q sql db_id, st)"
  by (auto simp: run_scoped_def of_option_def Let_def pipeline_eval_def split: sum.splits option.splits)

text \<open>The schema the runner falls back to is not folded, the one the scopes and the loader use is.\<close>

lemma fallback_schema_is_not_folded:
  "dataset_for P ''A'' = schema_name_for ''A'' (pi_prefix P)" "schema_name_for ''A'' [] = Inr ''a''"
  "qx_schema_for Q = [] \<Longrightarrow> qx_prefix Q = [] \<Longrightarrow> query_schema Q ''A'' = ''A''"
  by (simp add: dataset_for_def, code_simp, simp add: query_schema_def truthy_def)

end
