(* ===== verification/Lockfile.thy ===== *)
theory Lockfile
  imports Conversion
begin

text \<open>
  The allowlist of benchmark archives and the lockfile of their digests (\<open>src/benchmark/sources.py\<close>). A
  path is the list of its components under the root of the filesystem, and a filesystem the content of
  its files. The dictionary of entries keeps insertion order, as the code's does.
\<close>

section \<open>Files\<close>

type_synonym path = "string list"
type_synonym files = "(path, string) dict"

definition show_path :: "path \<Rightarrow> string" where
  "show_path p = (if p = [] then ''/'' else concat (map (\<lambda>c. CHR ''/'' # c) p))"

section \<open>The allowlist\<close>

record known_artifact =
  ka_key :: string
  ka_filename :: string
  ka_homepage :: string
  ka_url :: "string option"
  ka_max_bytes :: nat
  ka_note :: string

definition default_max_bytes :: nat where
  "default_max_bytes = 16 * 1024 ^ 3"

definition known_artifacts :: "(string, known_artifact) dict" where
  "known_artifacts =
     [(''spider'', \<lparr>ka_key = ''spider'', ka_filename = ''spider.zip'', ka_homepage = ''https://yale-lily.github.io/spider'',
        ka_url = None, ka_max_bytes = default_max_bytes,
        ka_note = ''Spider 1.0 -- NOT Spider 2.0, which is a different task: enterprise workflows whose expected output is CSV files, and which releases only a small amount of gold SQL. This harness computes execution accuracy and Recall@k *from* a reference query, so it has nothing to work with there. See DATASETS.md section 1. Distributed via Google Drive, which serves an interstitial rather than the file for automated clients. Download it in a browser and pass --archive.''\<rparr>),
      (''bird-dev'', \<lparr>ka_key = ''bird-dev'', ka_filename = ''bird_dev.zip'', ka_homepage = ''https://bird-bench.github.io/'',
        ka_url = None, ka_max_bytes = default_max_bytes,
        ka_note = ''Download the dev pack from the project page and pass --archive.''\<rparr>),
      (''bird-train'', \<lparr>ka_key = ''bird-train'', ka_filename = ''bird_train.zip'', ka_homepage = ''https://bird-bench.github.io/'',
        ka_url = None, ka_max_bytes = default_max_bytes,
        ka_note = ''Large. Not needed to produce a dev or held-out number.''\<rparr>)]"

definition key_error :: "string \<Rightarrow> exn" where
  "key_error m = OtherError ''KeyError'' m"

definition resolve_artifact :: "(string, known_artifact) dict \<Rightarrow> string \<Rightarrow> exn + known_artifact" where
  "resolve_artifact known key =
     (case dict_get known key of
        Some a \<Rightarrow> Inr a
      | None \<Rightarrow> Inl (key_error (''unknown artifact '' @ py_repr key @ ''; known artifacts are: ''
          @ join '', '' (sorted_texts (map fst known)))))"

section \<open>The lock\<close>

record lock_entry =
  le_key :: string
  le_filename :: string
  le_sha256 :: string
  le_size_bytes :: int
  le_recorded_at :: string
  le_source :: string

type_synonym lock = "(string, lock_entry) dict"

text \<open>\<open>value["..."]\<close> and \<open>int(...)\<close> of what was read.\<close>

definition subscript :: "json \<Rightarrow> string \<Rightarrow> exn + json" where
  "subscript v k =
     (case v of
        JObj d \<Rightarrow> (case dict_get d k of Some j \<Rightarrow> Inr j | None \<Rightarrow> Inl (key_error (py_repr k)))
      | _ \<Rightarrow> Inl (type_error (py_repr (py_type_name v) @ '' cannot be indexed by a str'')))"

fun int_of_json :: "json \<Rightarrow> exn + int" where
  "int_of_json (JInt i) = Inr i"
| "int_of_json (JBool b) = Inr (if b then 1 else 0)"
| "int_of_json (JFloat r) = Inr (truncated r)"
| "int_of_json (JStr s) = from_reading (''invalid literal for int() with base 10: '' @ py_repr s) (int_reading int_blank s)"
| "int_of_json j = Inl (type_error (''int() argument must be a string, a bytes-like object or a real number, not '' @ py_repr (py_type_name j)))"

definition read_lock_entry :: "(rat \<Rightarrow> string) \<Rightarrow> string \<Rightarrow> json \<Rightarrow> exn + lock_entry" where
  "read_lock_entry fr key value =
     (case subscript value ''filename'' of Inl e \<Rightarrow> Inl e | Inr filename \<Rightarrow>
      case subscript value ''sha256'' of Inl e \<Rightarrow> Inl e | Inr sha \<Rightarrow>
      case subscript value ''size_bytes'' of Inl e \<Rightarrow> Inl e | Inr raw \<Rightarrow>
      case int_of_json raw of Inl e \<Rightarrow> Inl e | Inr bytes \<Rightarrow>
      case subscript value ''recorded_at'' of Inl e \<Rightarrow> Inl e | Inr stamp \<Rightarrow>
        Inr \<lparr>le_key = key, le_filename = json_str fr filename, le_sha256 = json_str fr sha, le_size_bytes = bytes,
          le_recorded_at = json_str fr stamp,
          le_source = (case subscript value ''source'' of Inl e \<Rightarrow> [] | Inr s \<Rightarrow> json_str fr s)\<rparr>)"

fun read_lock_entries :: "(rat \<Rightarrow> string) \<Rightarrow> (string \<times> json) list \<Rightarrow> exn + lock" where
  "read_lock_entries fr [] = Inr []"
| "read_lock_entries fr ((key, value) # rest) =
     (case read_lock_entry fr key value of
        Inl e \<Rightarrow> Inl e
      | Inr entry \<Rightarrow> (case read_lock_entries fr rest of Inl e \<Rightarrow> Inl e | Inr es \<Rightarrow> Inr ((key, entry) # es)))"

definition no_attribute :: "json \<Rightarrow> string \<Rightarrow> exn" where
  "no_attribute j name =
     OtherError ''AttributeError'' (py_repr (py_type_name j) @ '' object has no attribute '' @ py_repr name)"

definition load_lock ::
  "(rat \<Rightarrow> string) \<Rightarrow> (string \<Rightarrow> rat) \<Rightarrow> (string \<Rightarrow> string) \<Rightarrow> string option \<Rightarrow> exn + lock" where
  "load_lock fr rd why content =
     (case content of
        None \<Rightarrow> Inr []
      | Some s \<Rightarrow>
         (case loads rd s of
            None \<Rightarrow> Inl (value_error (why s))
          | Some (JObj d) \<Rightarrow>
             (case entry_of d ''artifacts'' (JObj []) of
                JObj kvs \<Rightarrow> read_lock_entries fr kvs
              | j \<Rightarrow> Inl (no_attribute j ''items''))
          | Some j \<Rightarrow> Inl (no_attribute j ''get'')))"

definition lock_comment :: string where
  "lock_comment = ''Digests of the benchmark archives this project has been run against. Committed on purpose: a benchmark number is only comparable to another one computed from the same bytes. Recorded by `python -m benchmark.load acquire --trust-on-first-use`; never edit by hand to make a check pass.''"

definition entry_json :: "lock_entry \<Rightarrow> json" where
  "entry_json e = JObj
     [(''filename'', JStr (le_filename e)), (''sha256'', JStr (le_sha256 e)), (''size_bytes'', JInt (le_size_bytes e)),
      (''recorded_at'', JStr (le_recorded_at e)), (''source'', JStr (le_source e))]"

definition lock_json :: "lock \<Rightarrow> json" where
  "lock_json es = JObj
     [(''_comment'', JStr lock_comment),
      (''artifacts'', JObj (map (\<lambda>(k, e). (k, entry_json e)) (sort_key (\<lambda>(k, e). map code k) es)))]"

definition save_lock :: "(rat \<Rightarrow> string) \<Rightarrow> lock \<Rightarrow> string" where
  "save_lock fr es = render_json fr (indented 2) 0 (lock_json es) @ [newline]"

text \<open>\<open>check\<close>: None when the digest is the recorded one.\<close>

definition check_lock :: "lock \<Rightarrow> string \<Rightarrow> string \<Rightarrow> nat \<Rightarrow> exn option" where
  "check_lock es key digest bytes =
     (case dict_get es key of
        None \<Rightarrow> Some (ArtifactIntegrityError (''no digest is recorded for '' @ py_repr key
          @ ''. Re-run with --trust-on-first-use to record the one you have, and commit the lockfile so later runs are checked against it.''))
      | Some e \<Rightarrow>
          if le_sha256 e \<noteq> digest
          then Some (ArtifactIntegrityError (py_repr key @ '' does not match the recorded digest.'' @ [newline]
            @ ''  recorded: '' @ le_sha256 e @ '' ('' @ show_int (le_size_bytes e) @ '' bytes, '' @ le_recorded_at e @ '')'' @ [newline]
            @ ''  observed: '' @ digest @ '' ('' @ show_nat bytes @ '' bytes)'' @ [newline]
            @ ''The benchmark has either been re-released or the download is not what it claims to be. Every number already recorded came from the first one; do not overwrite the lockfile to make this pass without deciding which archive the project is measuring against and re-running the affected benchmarks.''))
          else None)"

definition record_digest ::
  "string \<Rightarrow> string \<Rightarrow> string \<Rightarrow> string \<Rightarrow> nat \<Rightarrow> string \<Rightarrow> lock \<Rightarrow> lock" where
  "record_digest now key filename digest bytes source es =
     (if dict_get es key \<noteq> None then es
      else dict_set es key \<lparr>le_key = key, le_filename = filename, le_sha256 = digest, le_size_bytes = int bytes,
        le_recorded_at = now, le_source = source\<rparr>)"

definition with_entry :: "lock_entry \<Rightarrow> lock \<Rightarrow> lock" where
  "with_entry e es = dict_set es (le_key e) e"

section \<open>Laws of the lock\<close>

definition lock_ok :: "lock \<Rightarrow> bool" where
  "lock_ok es \<longleftrightarrow> distinct (map fst es) \<and> list_all (\<lambda>(k, e). le_key e = k) es"

lemma read_entry_written: "read_lock_entry fr (le_key e) (entry_json e) = Inr e"
  by (simp add: read_lock_entry_def entry_json_def subscript_def json_str_def)

lemma read_entries_written:
  "list_all (\<lambda>(k, e). le_key e = k) es \<Longrightarrow>
   read_lock_entries fr (map (\<lambda>(k, e). (k, entry_json e)) es) = Inr es"
proof (induction es)
  case (Cons x es)
  obtain k e where x: "x = (k, e)" by (cases x)
  then show ?case using Cons read_entry_written [of fr e] by auto
qed simp

lemma lock_ok_record: "lock_ok es \<Longrightarrow> lock_ok (record_digest now key filename digest bytes source es)"
  by (induction es) (auto simp: lock_ok_def record_digest_def keys_dict_set list_all_iff split: if_splits)

lemma lock_ok_with_entry: "lock_ok es \<Longrightarrow> lock_ok (with_entry e es)"
  unfolding lock_ok_def with_entry_def
  by (induction es) (auto simp: keys_dict_set split: if_splits)

lemma lock_ok_sorted: "lock_ok es \<Longrightarrow> lock_ok (sort_key (\<lambda>(k, e). map code k) es)"
  using mset_eq_imp_distinct_iff [of "map fst (sort_key (\<lambda>(k, e). map code k) es)" "map fst es"]
  by (simp add: lock_ok_def list_all_iff)

lemma lock_json_ok:
  assumes "lock_ok es"
  shows "json_ok (lock_json es)"
proof -
  let ?s = "sort_key (\<lambda>(k, e). map code k) es"
  have "map fst (map (\<lambda>(k, e). (k, entry_json e)) ?s) = map fst ?s" by (auto simp: case_prod_beta)
  moreover have "distinct (map fst ?s)" using lock_ok_sorted [OF assms] by (simp add: lock_ok_def)
  ultimately show ?thesis by (auto simp: lock_json_def entry_json_def simp del: map_map)
qed

text \<open>Saving and loading gives the entries back, in the order of their keys.\<close>

lemma load_saved:
  assumes "float_reads rd fr" "lock_ok es"
  shows "load_lock fr rd why (Some (save_lock fr es)) = Inr (sort_key (\<lambda>(k, e). map code k) es)"
proof -
  have "loads rd (save_lock fr es) = Some (lock_json es)"
    unfolding save_lock_def using assms by (simp add: loads_render_line lock_json_ok)
  moreover have "read_lock_entries fr (map (\<lambda>(k, e). (k, entry_json e)) (sort_key (\<lambda>(k, e). map code k) es))
      = Inr (sort_key (\<lambda>(k, e). map code k) es)"
    using lock_ok_sorted [OF assms(2)] by (simp add: read_entries_written lock_ok_def)
  ultimately show ?thesis by (simp add: load_lock_def lock_json_def entry_of_def of_option_def)
qed

lemma sorted_same_entries:
  "lock_ok es \<Longrightarrow> dict_get (sort_key (\<lambda>(k, e). map code k) es) k = dict_get es k"
  using lock_ok_sorted [of es] by (simp add: lock_ok_def map_of_inject_set [THEN iffD2, THEN fun_cong])

end
