(* ===== verification/Acquisition.thy ===== *)
theory Acquisition
  imports Lockfile "HOL-Library.Word"
begin

text \<open>
  Obtaining the benchmark archives (\<open>src/benchmark/acquire.py\<close> and \<open>command_acquire\<close> of
  \<open>src/benchmark/load.py\<close>): the capped download, the digest check, and the extraction of a zip that may
  be hostile. Files are kept under their resolved paths: \<open>follow\<close> is \<open>Path.resolve\<close>, which follows
  whatever links exist, and every access goes through it. Directories are made as needed, and exist
  when something is below them. The archive library gives the members and what reading each one does;
  the hash, the network and the clock are arguments.
\<close>

unbundle bit_operations_syntax

section \<open>Paths of members\<close>

definition slashes :: "string \<Rightarrow> string" where
  "slashes name = map (\<lambda>c. if c = backslash then CHR ''/'' else c) name"

fun split_slash :: "string \<Rightarrow> string \<Rightarrow> string list" where
  "split_slash w [] = [rev w]"
| "split_slash w (c # cs) = (if c = CHR ''/'' then rev w # split_slash [] cs else split_slash (c # w) cs)"

text \<open>\<open>PurePosixPath(name).parts\<close> of a relative name: empty and \<open>.\<close> components do not count.\<close>

definition member_parts :: "string \<Rightarrow> string list" where
  "member_parts name = filter (\<lambda>p. p \<noteq> [] \<and> p \<noteq> ''.'') (split_slash [] (slashes name))"

definition has_drive :: "string \<Rightarrow> bool" where
  "has_drive part \<longleftrightarrow> 2 \<le> length part \<and> is_ascii_letter (part ! 0) \<and> part ! 1 = CHR '':''"

definition resolve_member :: "(path \<Rightarrow> path) \<Rightarrow> string \<Rightarrow> path \<Rightarrow> exn + path" where
  "resolve_member follow name destination =
     (let member = ''archive member '' @ py_repr name in
      if name = [] \<or> hd name \<in> {CHR ''/'', backslash}
      then Inl (UnsafeArchiveError (member @ '' is an absolute path''))
      else let parts = member_parts name in
        if list_ex (\<lambda>p. p = ''..'') parts
        then Inl (UnsafeArchiveError (member @ '' escapes the destination with '' @ py_repr ''..''))
        else if list_ex has_drive parts
        then Inl (UnsafeArchiveError (member @ '' contains a drive reference''))
        else if parts = [] then Inl (UnsafeArchiveError (member @ '' has no usable path''))
        else let root = follow destination; resolved = follow (root @ parts) in
          if resolved \<noteq> root \<and> \<not> strict_prefix root resolved
          then Inl (UnsafeArchiveError (member @ '' resolves to '' @ show_path resolved @ '', outside '' @ show_path root))
          else Inr resolved)"

definition windows_illegal :: string where
  "windows_illegal = [CHR ''<'', CHR ''>'', CHR '':'', dquote, CHR ''|'', CHR ''?'', CHR ''*'']"

definition rstrip_dots :: "string \<Rightarrow> string" where
  "rstrip_dots part = rev (dropWhile (\<lambda>c. c = CHR '' '' \<or> c = CHR ''.'') (rev part))"

definition part_problem :: "string \<Rightarrow> string option" where
  "part_problem part =
     (if part = [] \<or> part = ''.'' \<or> part = ''..'' then None
      else let illegal = sort_key code (remdups (filter (\<lambda>c. c \<in> set windows_illegal) part)) in
        if illegal \<noteq> [] then Some (''contains '' @ py_repr illegal @ '', which Windows filenames cannot hold'')
        else if part \<noteq> rstrip_dots part then Some ''ends in a space or dot, which Windows silently strips''
        else None)"

text \<open>\<open>nt\<close> is \<open>os.name == "nt"\<close>.\<close>

definition unrepresentable_reason :: "bool \<Rightarrow> string \<Rightarrow> string option" where
  "unrepresentable_reason nt name =
     (if \<not> nt then None
      else case somes (map part_problem (split_slash [] (slashes name))) of [] \<Rightarrow> None | r # _ \<Rightarrow> Some r)"

section \<open>Extraction\<close>

text \<open>A member as the archive library presents it: \<open>za_reads\<close> is what opening it gives, an error or what
  its successive reads return, a chunk or an error each. An empty chunk is the end.\<close>

record zip_member =
  za_filename :: string
  za_external_attr :: "32 word"
  za_file_size :: nat
  za_reads :: "exn + (exn + string) list"

definition is_link :: "zip_member \<Rightarrow> bool" where
  "is_link info =
     (let file_type = drop_bit 16 (za_external_attr info) AND 61440 in
      file_type \<noteq> 0 \<and> file_type \<noteq> 32768 \<and> file_type \<noteq> 16384)"

definition is_dir :: "zip_member \<Rightarrow> bool" where
  "is_dir info \<longleftrightarrow> endswith (za_filename info) ''/''"

definition database_suffixes :: "string list" where
  "database_suffixes = [''.sqlite'', ''.sqlite3'', ''.db'']"

definition names_database :: "string \<Rightarrow> bool" where
  "names_database name \<longleftrightarrow> list_ex (endswith (py_lower name)) database_suffixes"

record extract_limits =
  li_archive_bytes :: nat
  li_archive_members :: nat
  li_member_bytes :: nat

record extraction =
  xt_written :: "path list"
  xt_skipped :: "(string \<times> string) list"
  xt_total_bytes :: nat

text \<open>The first pass: every member judged before anything is written.\<close>

definition judge_member ::
  "bool \<Rightarrow> (path \<Rightarrow> path) \<Rightarrow> path \<Rightarrow> zip_member \<Rightarrow> exn + (path, string) sum" where
  "judge_member nt follow destination info =
     (if is_link info
      then Inl (UnsafeArchiveError (''archive member '' @ py_repr (za_filename info) @ '' is a symlink or special file''))
      else case resolve_member follow (za_filename info) destination of
        Inl e \<Rightarrow> Inl e
      | Inr target \<Rightarrow>
         (case unrepresentable_reason nt (za_filename info) of
            None \<Rightarrow> Inr (Inl target)
          | Some reason \<Rightarrow>
              if names_database (za_filename info)
              then Inl (UnsafeArchiveError (''database file '' @ py_repr (za_filename info) @ '' '' @ reason
                @ ''. Skipping it would silently drop a database from the corpus, so the archive is refused instead. Extract it on a filesystem that can hold the name.''))
              else Inr (Inr reason)))"

fun judge_members ::
  "bool \<Rightarrow> (path \<Rightarrow> path) \<Rightarrow> path \<Rightarrow> zip_member list \<Rightarrow> exn + (zip_member \<times> path) list \<times> (string \<times> string) list" where
  "judge_members nt follow destination [] = Inr ([], [])"
| "judge_members nt follow destination (info # infos) =
     (case judge_member nt follow destination info of
        Inl e \<Rightarrow> Inl e
      | Inr verdict \<Rightarrow>
         (case judge_members nt follow destination infos of
            Inl e \<Rightarrow> Inl e
          | Inr (targets, skipped) \<Rightarrow>
             (case verdict of
                Inl target \<Rightarrow> Inr ((info, target) # targets, skipped)
              | Inr reason \<Rightarrow> Inr (targets, (za_filename info, reason) # skipped))))"

definition forget :: "files \<Rightarrow> path \<Rightarrow> files" where
  "forget fs p = filter (\<lambda>(q, c). q \<noteq> p) fs"

text \<open>The loop of \<open>_copy_member\<close>. The second component is what is left at the target: a member over its
  budget is removed, one whose read fails is left as far as it was written.\<close>

fun copy_reads :: "zip_member \<Rightarrow> nat \<Rightarrow> string \<Rightarrow> (exn + string) list \<Rightarrow> (exn + nat) \<times> string option" where
  "copy_reads info budget got [] = (Inr (length got), Some got)"
| "copy_reads info budget got (Inl e # reads) = (Inl e, Some got)"
| "copy_reads info budget got (Inr chunk # reads) =
     (if chunk = [] then (Inr (length got), Some got)
      else if length got + length chunk > budget
      then (Inl (UnsafeArchiveError (''archive member '' @ py_repr (za_filename info) @ '' expanded past its ''
        @ show_nat budget @ ''-byte budget; refusing to continue (declared size was '' @ show_nat (za_file_size info) @ '')'')), None)
      else copy_reads info budget (got @ chunk) reads)"

definition put :: "path \<Rightarrow> string option \<Rightarrow> files \<Rightarrow> files" where
  "put p content fs = (case content of None \<Rightarrow> forget fs p | Some c \<Rightarrow> dict_set fs p c)"

definition copy_member :: "zip_member \<Rightarrow> path \<Rightarrow> nat \<Rightarrow> files \<Rightarrow> (exn + nat) \<times> files" where
  "copy_member info target budget fs =
     (case za_reads info of
        Inl e \<Rightarrow> (Inl e, fs)
      | Inr reads \<Rightarrow> (case copy_reads info budget [] reads of (res, content) \<Rightarrow> (res, put target content fs)))"

text \<open>The second pass; \<open>used\<close> counts the bytes written, and the budget of a member is what is left.\<close>

fun write_members ::
  "extract_limits \<Rightarrow> nat \<Rightarrow> (zip_member \<times> path) list \<Rightarrow> files \<Rightarrow> (exn + path list \<times> nat) \<times> files" where
  "write_members L used [] fs = (Inr ([], used), fs)"
| "write_members L used ((info, target) # rest) fs =
     (if is_dir info then write_members L used rest fs
      else case copy_member info target (min (li_member_bytes L) (li_archive_bytes L - used)) fs of
        (Inl e, fs') \<Rightarrow> (Inl e, fs')
      | (Inr n, fs') \<Rightarrow>
         (case write_members L (used + n) rest fs' of
            (Inl e, fs2) \<Rightarrow> (Inl e, fs2)
          | (Inr (written, n_all), fs2) \<Rightarrow> (Inr (target # written, n_all), fs2)))"

definition extract_archive ::
  "bool \<Rightarrow> (path \<Rightarrow> path) \<Rightarrow> extract_limits \<Rightarrow> string \<Rightarrow> zip_member list \<Rightarrow> path \<Rightarrow> files \<Rightarrow> (exn + extraction) \<times> files" where
  "extract_archive nt follow L archive infos destination fs =
     (if length infos > li_archive_members L
      then (Inl (UnsafeArchiveError (archive @ '' declares '' @ show_nat (length infos) @ '' members, over the ''
             @ show_nat (li_archive_members L) @ '' limit'')), fs)
      else case judge_members nt follow destination infos of
        Inl e \<Rightarrow> (Inl e, fs)
      | Inr (targets, skipped) \<Rightarrow>
         (case write_members L 0 targets fs of
            (Inl e, fs') \<Rightarrow> (Inl e, fs')
          | (Inr (written, used), fs') \<Rightarrow>
              (Inr \<lparr>xt_written = written, xt_skipped = skipped, xt_total_bytes = used\<rparr>, fs')))"

section \<open>Downloads and removals\<close>

record acquired =
  aq_path :: path
  aq_sha256 :: string
  aq_size_bytes :: nat

definition part_of :: "path \<Rightarrow> path" where
  "part_of p = butlast p @ [last p @ ''.part'']"

text \<open>The loop of \<open>download\<close> over what the reads of the response do.\<close>

fun receive_body :: "string \<Rightarrow> nat \<Rightarrow> string \<Rightarrow> (exn + string) list \<Rightarrow> exn + string" where
  "receive_body url max_bytes got [] = Inr got"
| "receive_body url max_bytes got (Inl e # reads) = Inl e"
| "receive_body url max_bytes got (Inr chunk # reads) =
     (if chunk = [] then Inr got
      else if length got + length chunk > max_bytes
      then Inl (ArtifactIntegrityError (''download from '' @ py_repr url @ '' exceeded '' @ show_nat max_bytes
        @ '' bytes and was abandoned. Raise BENCHMARK_MAX_ARCHIVE_BYTES if the artifact really is this large.''))
      else receive_body url max_bytes (got @ chunk) reads)"

text \<open>The default fetcher: \<open>scheme\<close> is the URL library's reading, \<open>fetch\<close> the network.\<close>

definition urlopen ::
  "(string \<Rightarrow> string) \<Rightarrow> (string \<Rightarrow> exn + (exn + string) list) \<Rightarrow> string \<Rightarrow> exn + (exn + string) list" where
  "urlopen scheme fetch url =
     (if scheme url \<noteq> ''https''
      then Inl (ArtifactIntegrityError (''refusing to download over a non-https URL: '' @ py_repr url))
      else fetch url)"

definition download ::
  "(string \<Rightarrow> string) \<Rightarrow> (path \<Rightarrow> path) \<Rightarrow> (string \<Rightarrow> exn + (exn + string) list) \<Rightarrow> nat \<Rightarrow> string \<Rightarrow> path \<Rightarrow> files
     \<Rightarrow> (exn + acquired) \<times> files" where
  "download sha follow fetch max_bytes url destination fs =
     (let partial = follow (part_of destination) in
      case (case fetch url of Inl e \<Rightarrow> Inl e | Inr reads \<Rightarrow> receive_body url max_bytes [] reads) of
        Inl e \<Rightarrow> (Inl e, forget fs partial)
      | Inr got \<Rightarrow>
          (Inr \<lparr>aq_path = destination, aq_sha256 = sha got, aq_size_bytes = length got\<rparr>,
           dict_set (forget fs partial) (follow destination) got))"

definition file_missing :: "path \<Rightarrow> exn" where
  "file_missing p = OtherError ''FileNotFoundError'' (show_path p)"

definition sha256_file :: "(string \<Rightarrow> string) \<Rightarrow> (path \<Rightarrow> path) \<Rightarrow> files \<Rightarrow> path \<Rightarrow> exn + string \<times> nat" where
  "sha256_file sha follow fs p =
     (case dict_get fs (follow p) of
        None \<Rightarrow> Inl (file_missing p)
      | Some content \<Rightarrow> Inr (sha content, length content))"

text \<open>\<open>clear_directory\<close>; \<open>is_link\<close> of the environment says which paths are symbolic links.\<close>

definition clear_directory :: "(path \<Rightarrow> path) \<Rightarrow> (path \<Rightarrow> bool) \<Rightarrow> path \<Rightarrow> files \<Rightarrow> (exn + unit) \<times> files" where
  "clear_directory follow links p fs =
     (let here = follow p in
      if \<not> list_ex (\<lambda>(q, c). prefix here q) fs then (Inr (), fs)
      else if dict_get fs here \<noteq> None \<or> links p
      then (Inl (UnsafeArchiveError (show_path p @ '' is not a plain directory; refusing to remove it'')), fs)
      else if here = [] then (Inl (UnsafeArchiveError (''refusing to remove '' @ show_path p)), fs)
      else (Inr (), filter (\<lambda>(q, c). \<not> prefix here q) fs))"

section \<open>The command\<close>

record acquire_env =
  ce_sha :: "string \<Rightarrow> string"
  ce_follow :: "path \<Rightarrow> path"
  ce_links :: "path \<Rightarrow> bool"
  ce_nt :: bool
  ce_scheme :: "string \<Rightarrow> string"
  ce_fetch :: "string \<Rightarrow> exn + (exn + string) list"
  ce_members :: "string \<Rightarrow> exn + zip_member list"
  ce_now :: string
  ce_limits :: extract_limits
  ce_data_dir :: path
  ce_known :: "(string, known_artifact) dict"
  ce_fr :: "rat \<Rightarrow> string"
  ce_rd :: "string \<Rightarrow> rat"
  ce_why :: "string \<Rightarrow> string"

record acquire_args =
  ca_artifact :: string
  ca_archive :: "path option"
  ca_data :: "path option"
  ca_lockfile :: path
  ca_trust :: bool
  ca_replace :: bool

text \<open>An archive at hand: where it is, its digest and size, and where it came from.\<close>

record in_hand =
  ih_archive :: path
  ih_digest :: string
  ih_bytes :: nat
  ih_source :: string

definition data_directory :: "acquire_env \<Rightarrow> acquire_args \<Rightarrow> path" where
  "data_directory V a = of_option (ce_data_dir V) (ca_data a)"

definition obtain_archive ::
  "acquire_env \<Rightarrow> acquire_args \<Rightarrow> known_artifact \<Rightarrow> files \<Rightarrow> (exn + in_hand option) \<times> files" where
  "obtain_archive V a artifact fs =
     (case ca_archive a of
        Some archive \<Rightarrow>
         (case sha256_file (ce_sha V) (ce_follow V) fs archive of
            Inl _ \<Rightarrow> (Inl (BenchmarkError (''no archive at '' @ show_path archive)), fs)
          | Inr (digest, n) \<Rightarrow> (Inr (Some \<lparr>ih_archive = archive, ih_digest = digest, ih_bytes = n,
              ih_source = ''local:'' @ last archive\<rparr>), fs))
      | None \<Rightarrow>
         (if truthy (ka_url artifact)
          then case download (ce_sha V) (ce_follow V) (urlopen (ce_scheme V) (ce_fetch V))
                 (min (ka_max_bytes artifact) (li_archive_bytes (ce_limits V))) (the (ka_url artifact))
                 (data_directory V a @ [''archives'', ka_filename artifact]) fs of
              (Inl e, fs') \<Rightarrow> (Inl e, fs')
            | (Inr r, fs') \<Rightarrow> (Inr (Some \<lparr>ih_archive = aq_path r, ih_digest = aq_sha256 r, ih_bytes = aq_size_bytes r,
                ih_source = the (ka_url artifact)\<rparr>), fs')
          else (Inr None, fs)))"

text \<open>The lock after \<open>--trust-on-first-use\<close>: written to disk when an entry was added.\<close>

definition trust_first_use ::
  "acquire_env \<Rightarrow> acquire_args \<Rightarrow> known_artifact \<Rightarrow> in_hand \<Rightarrow> lock \<times> files \<Rightarrow> lock \<times> files" where
  "trust_first_use V a artifact h lf =
     (case lf of (lock, fs) \<Rightarrow>
        if ca_trust a \<and> dict_get lock (ka_key artifact) = None
        then let lock' = record_digest (ce_now V) (ka_key artifact) (last (ih_archive h)) (ih_digest h) (ih_bytes h)
               (ih_source h) lock in
             (lock', dict_set fs (ce_follow V (ca_lockfile a)) (save_lock (ce_fr V) lock'))
        else (lock, fs))"

definition open_archive :: "acquire_env \<Rightarrow> path \<Rightarrow> files \<Rightarrow> exn + zip_member list" where
  "open_archive V archive fs =
     (case dict_get fs (ce_follow V archive) of None \<Rightarrow> Inl (file_missing archive) | Some content \<Rightarrow> ce_members V content)"

definition unpack ::
  "acquire_env \<Rightarrow> acquire_args \<Rightarrow> known_artifact \<Rightarrow> in_hand \<Rightarrow> files \<Rightarrow> (exn + extraction) \<times> files" where
  "unpack V a artifact h fs =
     (let destination = data_directory V a @ [ka_key artifact] in
      case (if ca_replace a then clear_directory (ce_follow V) (ce_links V) destination fs else (Inr (), fs)) of
        (Inl e, fs') \<Rightarrow> (Inl e, fs')
      | (Inr _, fs') \<Rightarrow>
         (case open_archive V (ih_archive h) fs' of
            Inl e \<Rightarrow> (Inl e, fs')
          | Inr infos \<Rightarrow>
              extract_archive (ce_nt V) (ce_follow V) (ce_limits V) (last (ih_archive h)) infos destination fs'))"

text \<open>The command returns the extraction it reports, or None for the usage exit.\<close>

definition command_acquire ::
  "acquire_env \<Rightarrow> acquire_args \<Rightarrow> files \<Rightarrow> (exn + (in_hand \<times> extraction) option) \<times> files" where
  "command_acquire V a fs =
     (case resolve_artifact (ce_known V) (ca_artifact a) of
        Inl e \<Rightarrow> (Inl e, fs)
      | Inr artifact \<Rightarrow>
     (case load_lock (ce_fr V) (ce_rd V) (ce_why V) (dict_get fs (ce_follow V (ca_lockfile a))) of
        Inl e \<Rightarrow> (Inl e, fs)
      | Inr lock \<Rightarrow>
     (case obtain_archive V a artifact fs of
        (Inl e, fs1) \<Rightarrow> (Inl e, fs1)
      | (Inr None, fs1) \<Rightarrow> (Inr None, fs1)
      | (Inr (Some h), fs1) \<Rightarrow>
     (case trust_first_use V a artifact h (lock, fs1) of (lock', fs2) \<Rightarrow>
     (case check_lock lock' (ka_key artifact) (ih_digest h) (ih_bytes h) of
        Some e \<Rightarrow> (Inl e, fs2)
      | None \<Rightarrow>
         (case unpack V a artifact h fs2 of
            (Inl e, fs3) \<Rightarrow> (Inl e, fs3)
          | (Inr x, fs3) \<Rightarrow> (Inr (Some (h, x)), fs3)))))))"

definition acquire_report :: "known_artifact \<Rightarrow> path \<Rightarrow> in_hand \<Rightarrow> extraction \<Rightarrow> json" where
  "acquire_report artifact destination h x = JObj
     [(''artifact'', JStr (ka_key artifact)), (''sha256'', JStr (ih_digest h)), (''size_bytes'', JInt (int (ih_bytes h))),
      (''extracted_to'', JStr (show_path destination)), (''files'', JInt (int (length (xt_written x)))),
      (''skipped'', JArr (map (\<lambda>(name, reason). JObj [(''member'', JStr name), (''reason'', JStr reason)]) (xt_skipped x)))]"

section \<open>Extraction stays inside\<close>

lemma dict_get_forget [simp]: "dict_get (forget fs p) q = (if q = p then None else dict_get fs q)"
  by (induction fs) (auto simp: forget_def)

lemma dict_get_put: "dict_get (put p content fs) q = (if q = p then content else dict_get fs q)"
  by (auto simp: put_def split: option.splits)

lemma resolved_inside: "resolve_member follow name destination = Inr target \<Longrightarrow> prefix (follow destination) target"
  by (auto simp: resolve_member_def Let_def split: if_splits)

lemma judge_member_inside: "judge_member nt follow destination info = Inr (Inl target) \<Longrightarrow> prefix (follow destination) target"
  by (auto simp: judge_member_def resolved_inside split: if_splits sum.splits option.splits)

lemma judge_members_inside:
  "judge_members nt follow destination infos = Inr (targets, skipped) \<Longrightarrow> (i, target) \<in> set targets \<Longrightarrow>
   prefix (follow destination) target"
  by (induction infos arbitrary: targets skipped)
     (auto simp: judge_member_inside split: sum.splits prod.splits)

text \<open>What an archive may not hold: links, absolute names, climbing names, drive letters.\<close>

definition hostile :: "zip_member \<Rightarrow> bool" where
  "hostile info \<longleftrightarrow> is_link info \<or> za_filename info = [] \<or> hd (za_filename info) \<in> {CHR ''/'', backslash} \<or>
     ''..'' \<in> set (member_parts (za_filename info)) \<or> (\<exists>part \<in> set (member_parts (za_filename info)). has_drive part)"

lemma hostile_refused:
  "hostile info \<Longrightarrow> \<exists>m. judge_member nt follow destination info = Inl (UnsafeArchiveError m)"
  by (auto simp: hostile_def judge_member_def resolve_member_def list_ex_iff Let_def)

lemma judge_member_refusal:
  "judge_member nt follow destination info = Inl e \<Longrightarrow> \<exists>m. e = UnsafeArchiveError m"
  by (auto simp: judge_member_def resolve_member_def Let_def split: if_splits sum.splits option.splits)

lemma hostile_among_refused:
  "\<exists>i \<in> set infos. hostile i \<Longrightarrow> \<exists>m. judge_members nt follow destination infos = Inl (UnsafeArchiveError m)"
proof (induction infos)
  case (Cons i rest)
  show ?case
  proof (cases "judge_member nt follow destination i")
    case (Inl e)
    then show ?thesis using judge_member_refusal by force
  next
    case (Inr v)
    then have "\<not> hostile i" using hostile_refused [of i nt follow destination] by auto
    then show ?thesis using Inr Cons by auto
  qed
qed simp

section \<open>Extraction is bounded\<close>

lemma copy_reads_bounded:
  "copy_reads info budget got reads = (res, content) \<Longrightarrow> length got \<le> budget \<Longrightarrow>
   (\<forall>c. content = Some c \<longrightarrow> length c \<le> budget) \<and> (\<forall>n. res = Inr n \<longrightarrow> (\<exists>c. content = Some c \<and> n = length c))"
  by (induction info budget got reads rule: copy_reads.induct) (auto split: if_splits)

text \<open>The ledger of a second pass: what was written where, whatever the outcome.\<close>

definition ledger :: "extract_limits \<Rightarrow> nat \<Rightarrow> path set \<Rightarrow> files \<Rightarrow> files \<Rightarrow> (path \<times> string) list \<Rightarrow> bool" where
  "ledger L budget targets fs fs' ws \<longleftrightarrow>
     sum_list (map (length \<circ> snd) ws) \<le> budget \<and>
     (\<forall>(p, c) \<in> set ws. length c \<le> li_member_bytes L) \<and>
     (\<forall>p. dict_get fs' p \<noteq> dict_get fs p \<longrightarrow> p \<in> targets) \<and>
     (\<forall>p c. dict_get fs' p = Some c \<longrightarrow> dict_get fs p = Some c \<or> (p, c) \<in> set ws)"

lemma ledger_none: "ledger L budget targets fs fs []"
  by (simp add: ledger_def)

lemma ledger_some [simp, intro]: "\<exists>ws. ledger L budget targets fs fs ws"
  using ledger_none by blast

lemma ledger_widen: "ledger L budget targets fs fs' ws \<Longrightarrow> targets \<subseteq> targets' \<Longrightarrow> ledger L budget targets' fs fs' ws"
  unfolding ledger_def by blast

lemma ledger_put:
  "(\<And>c. content = Some c \<Longrightarrow> length c \<le> li_member_bytes L \<and> length c \<le> budget) \<Longrightarrow>
   ledger L budget {p} fs (put p content fs) (case content of None \<Rightarrow> [] | Some c \<Rightarrow> [(p, c)])"
  by (auto simp: ledger_def dict_get_put split: option.splits)

lemma ledger_then:
  assumes "ledger L a ps fs fs1 ws1" "ledger L b qs fs1 fs2 ws2" "sum_list (map (length \<circ> snd) ws1) + b \<le> budget"
  shows "ledger L budget (ps \<union> qs) fs fs2 (ws1 @ ws2)"
proof -
  have "sum_list (map (length \<circ> snd) (ws1 @ ws2)) \<le> budget" using assms by (simp add: ledger_def)
  moreover have "p \<in> ps \<union> qs" if "dict_get fs2 p \<noteq> dict_get fs p" for p
    using assms that by (metis UnCI ledger_def)
  ultimately show ?thesis using assms unfolding ledger_def by fastforce
qed

lemma copy_member_ledger:
  assumes copy: "copy_member info target budget fs = (res, fs')" and small: "budget \<le> li_member_bytes L"
  shows "\<exists>ws. ledger L budget {target} fs fs' ws \<and> (\<forall>n. res = Inr n \<longrightarrow> sum_list (map (length \<circ> snd) ws) = n \<and> n \<le> budget)"
proof (cases "za_reads info")
  case (Inl e)
  then have "res = Inl e \<and> fs' = fs" using copy by (simp add: copy_member_def)
  then show ?thesis by auto
next
  case (Inr reads)
  then obtain content where c: "copy_reads info budget [] reads = (res, content)" and fs': "fs' = put target content fs"
    using copy by (auto simp: copy_member_def split: prod.splits)
  note b = copy_reads_bounded [OF c]
  have "ledger L budget {target} fs fs' (case content of None \<Rightarrow> [] | Some c \<Rightarrow> [(target, c)])"
    unfolding fs' using b small by (intro ledger_put) auto
  then show ?thesis using b by (intro exI conjI) auto
qed

lemma write_members_ledger:
  "write_members L used ts fs = (res, fs') \<Longrightarrow> used \<le> li_archive_bytes L \<Longrightarrow>
   (\<exists>ws. ledger L (li_archive_bytes L - used) (snd ` set ts) fs fs' ws) \<and>
   (\<forall>ps n. res = Inr (ps, n) \<longrightarrow> n \<le> li_archive_bytes L)"
proof (induction L used ts fs arbitrary: res fs' rule: write_members.induct)
  case (1 L used fs)
  then show ?case by auto
next
  case (2 L used info target rest fs)
  let ?budget = "min (li_member_bytes L) (li_archive_bytes L - used)"
  show ?case
  proof (cases "is_dir info")
    case True
    then have "write_members L used rest fs = (res, fs')" using 2(3) by simp
    from 2(1) [OF True this 2(4)] show ?thesis
      using ledger_widen [of L "li_archive_bytes L - used" "snd ` set rest" fs fs' _ "snd ` set ((info, target) # rest)"] by auto
  next
    case False
    obtain r fs1 where copy: "copy_member info target ?budget fs = (r, fs1)" by force
    obtain ws where ws: "ledger L ?budget {target} fs fs1 ws"
      "\<And>n. r = Inr n \<Longrightarrow> sum_list (map (length \<circ> snd) ws) = n \<and> n \<le> ?budget"
      using copy_member_ledger [OF copy] by (metis min.cobounded1)
    show ?thesis
    proof (cases r)
      case (Inl e)
      then have "res = Inl e" "fs' = fs1" using 2(3) False copy by simp_all
      then show ?thesis
        using ledger_then [OF ws(1) ledger_none [of L 0 "snd ` set rest"], of "li_archive_bytes L - used"] ws(1)
        by (auto simp: ledger_def)
    next
      case (Inr n)
      obtain r2 fs2 where more: "write_members L (used + n) rest fs1 = (r2, fs2)" by force
      have n: "sum_list (map (length \<circ> snd) ws) = n" "used + n \<le> li_archive_bytes L"
        using ws(2) [OF Inr] \<open>used \<le> li_archive_bytes L\<close> by auto
      note IH = 2(2) [OF False copy [symmetric] Inr more n(2)]
      have res: "res = (case r2 of Inl e \<Rightarrow> Inl e | Inr (w, m) \<Rightarrow> Inr (target # w, m))" "fs' = fs2"
        using 2(3) False copy Inr more by (auto split: sum.splits)
      obtain ws2 where "ledger L (li_archive_bytes L - (used + n)) (snd ` set rest) fs1 fs2 ws2" using IH by blast
      from ledger_then [OF ws(1) this, of "li_archive_bytes L - used"] n res IH
      show ?thesis by (auto split: sum.splits)
    qed
  qed
qed

lemma sum_set_le: "(\<Sum>x \<in> set xs. f x) \<le> (sum_list (map f xs) :: nat)"
  by (induction xs) (auto simp: sum.insert_if)

text \<open>Files that an extraction left with a content they did not have.\<close>

definition grown :: "files \<Rightarrow> files \<Rightarrow> path set" where
  "grown fs fs' = {p. dict_get fs' p \<noteq> dict_get fs p \<and> dict_get fs' p \<noteq> None}"

definition bytes_at :: "files \<Rightarrow> path \<Rightarrow> nat" where
  "bytes_at fs p = (case dict_get fs p of None \<Rightarrow> 0 | Some c \<Rightarrow> length c)"

lemma ledger_bytes:
  assumes "ledger L budget targets fs fs' ws"
  shows "(\<Sum>p \<in> grown fs fs'. bytes_at fs' p) \<le> budget" "p \<in> grown fs fs' \<Longrightarrow> bytes_at fs' p \<le> li_member_bytes L"
proof -
  let ?pair = "\<lambda>p. (p, the (dict_get fs' p))"
  have sub: "?pair ` grown fs fs' \<subseteq> set ws" using assms by (force simp: ledger_def grown_def)
  have "(\<Sum>p \<in> grown fs fs'. bytes_at fs' p) = (\<Sum>p \<in> grown fs fs'. (length \<circ> snd) (?pair p))"
    by (intro sum.cong refl) (auto simp: grown_def bytes_at_def)
  also have "\<dots> = (\<Sum>w \<in> ?pair ` grown fs fs'. (length \<circ> snd) w)" by (subst sum.reindex) (auto simp: inj_on_def)
  also have "\<dots> \<le> (\<Sum>w \<in> set ws. (length \<circ> snd) w)" by (intro sum_mono2 sub) auto
  also have "\<dots> \<le> sum_list (map (length \<circ> snd) ws)" by (rule sum_set_le)
  finally show "(\<Sum>p \<in> grown fs fs'. bytes_at fs' p) \<le> budget" using assms by (simp add: ledger_def)
  show "p \<in> grown fs fs' \<Longrightarrow> bytes_at fs' p \<le> li_member_bytes L"
    using sub assms by (fastforce simp: ledger_def bytes_at_def grown_def image_subset_iff)
qed

lemma extract_ledger:
  assumes "extract_archive nt follow L archive infos destination fs = (res, fs')"
  shows "(\<exists>ws targets. ledger L (li_archive_bytes L) targets fs fs' ws \<and> (\<forall>t \<in> targets. prefix (follow destination) t)) \<and>
     (\<forall>x. res = Inr x \<longrightarrow> xt_total_bytes x \<le> li_archive_bytes L)"
proof (cases "length infos > li_archive_members L")
  case True
  then show ?thesis using assms by (intro conjI exI [of _ "{}"] exI [of _ "[]"]) (auto simp: extract_archive_def ledger_none)
next
  case few: False
  show ?thesis
  proof (cases "judge_members nt follow destination infos")
    case (Inl e)
    then show ?thesis using assms few by (intro conjI exI [of _ "{}"] exI [of _ "[]"]) (auto simp: extract_archive_def ledger_none)
  next
    case (Inr ts)
    obtain targets skipped where ts: "ts = (targets, skipped)" by (cases ts)
    obtain r fs1 where w: "write_members L 0 targets fs = (r, fs1)" by force
    have r: "res = (case r of Inl e \<Rightarrow> Inl e | Inr (written, n) \<Rightarrow>
        Inr \<lparr>xt_written = written, xt_skipped = skipped, xt_total_bytes = n\<rparr>)" "fs' = fs1"
      using assms few Inr ts w by (auto simp: extract_archive_def split: sum.splits)
    have inside: "\<forall>t \<in> snd ` set targets. prefix (follow destination) t"
      using judge_members_inside [OF Inr [unfolded ts]] by auto
    from write_members_ledger [OF w] show ?thesis using r inside by (auto split: sum.splits)
  qed
qed

text \<open>C28: an extraction stays inside its destination. Whatever the archive holds and however it ends, every
  file it creates, changes or removes is at or below the resolved destination; and an archive with a link, an absolute
  name, a climbing name or a drive letter among its members is refused with nothing written at all, even
  if every other member is fine.\<close>

theorem extraction_contained:
  assumes "extract_archive nt follow L archive infos destination fs = (res, fs')"
  shows "(\<forall>p. dict_get fs' p \<noteq> dict_get fs p \<longrightarrow> prefix (follow destination) p) \<and>
    ((\<exists>i \<in> set infos. hostile i) \<longrightarrow> fs' = fs \<and> (\<exists>m. res = Inl (UnsafeArchiveError m)))"
proof (intro conjI impI)
  show "\<forall>p. dict_get fs' p \<noteq> dict_get fs p \<longrightarrow> prefix (follow destination) p"
    using extract_ledger [OF assms] unfolding ledger_def by blast
  assume "\<exists>i \<in> set infos. hostile i"
  then obtain m where "judge_members nt follow destination infos = Inl (UnsafeArchiveError m)"
    using hostile_among_refused by blast
  then show "fs' = fs" "\<exists>m. res = Inl (UnsafeArchiveError m)"
    using assms by (auto simp: extract_archive_def split: if_splits)
qed

definition toy_limits :: extract_limits where
  "toy_limits = \<lparr>li_archive_bytes = 5, li_archive_members = 3, li_member_bytes = 4\<rparr>"

definition toy_member :: "string \<Rightarrow> string list \<Rightarrow> zip_member" where
  "toy_member name chunks = \<lparr>za_filename = name, za_external_attr = 0, za_file_size = 1, za_reads = Inr (map Inr chunks)\<rparr>"

theorem extraction_contained_witness:
  "extract_archive False (\<lambda>p. p) toy_limits ''a.zip'' [toy_member ''x/f'' [''ab''], toy_member ''../f'' [''c'']] [''d''] []
     = (Inl (UnsafeArchiveError (''archive member '' @ py_repr ''../f'' @ '' escapes the destination with '' @ py_repr ''..'')), [])
   \<and> hostile (toy_member ''../f'' [''c''])"
proof -
  have e: "extract_archive False (\<lambda>p. p) toy_limits ''a.zip'' [toy_member ''x/f'' [''ab''], toy_member ''../f'' [''c'']] [''d''] []
     = (Inl (UnsafeArchiveError (''archive member '' @ py_repr ''../f'' @ '' escapes the destination with '' @ py_repr ''..'')), [])"
    by code_simp
  have h: "hostile (toy_member ''../f'' [''c''])" by code_simp
  show ?thesis using extraction_contained [OF e] e h by auto
qed

text \<open>C29: an extraction writes no more than its budget. However it ends, and whatever sizes the archive
  declares, the files it left with new content hold at most the archive's limit together and at most the
  member's limit each, and a reported total is within the limit.\<close>

theorem extraction_bounded:
  assumes "extract_archive nt follow L archive infos destination fs = (res, fs')"
  shows "(\<Sum>p \<in> grown fs fs'. bytes_at fs' p) \<le> li_archive_bytes L \<and>
    (\<forall>p \<in> grown fs fs'. bytes_at fs' p \<le> li_member_bytes L) \<and>
    (\<forall>x. res = Inr x \<longrightarrow> xt_total_bytes x \<le> li_archive_bytes L)"
  using extract_ledger [OF assms] ledger_bytes by blast

theorem extraction_bounded_witness:
  "snd (extract_archive False (\<lambda>p. p) toy_limits ''a.zip'' [toy_member ''f'' [''ab'', ''cd''], toy_member ''g'' [''e'', ''f'']] [''d''] [])
     = [([''d'', ''f''], ''abcd'')]
   \<and> bytes_at [([''d'', ''f''], ''abcd'')] [''d'', ''f''] \<le> 4"
proof -
  let ?x = "extract_archive False (\<lambda>p. p) toy_limits ''a.zip'' [toy_member ''f'' [''ab'', ''cd''], toy_member ''g'' [''e'', ''f'']] [''d''] []"
  have e: "snd ?x = [([''d'', ''f''], ''abcd'')]" by code_simp
  then have x: "?x = (fst ?x, [([''d'', ''f''], ''abcd'')])" by (metis prod.collapse)
  have "[''d'', ''f''] \<in> grown [] [([''d'', ''f''], ''abcd'')]" by (simp add: grown_def)
  then show ?thesis using extraction_bounded [OF x] e by (auto simp: toy_limits_def)
qed

text \<open>A cap hit in the middle leaves the members before it on disk, and a member whose read fails stays
  there as far as it got: only the over-long member itself is removed.\<close>

lemma overrun_leaves_earlier_members:
  "extract_archive False (\<lambda>p. p) toy_limits ''a.zip'' [toy_member ''f'' [''ab''], toy_member ''g'' [''abcde'']] [''d''] []
     = (Inl (UnsafeArchiveError (''archive member '' @ py_repr ''g'' @ '' expanded past its 3-byte budget; refusing to continue (declared size was 1)'')),
        [([''d'', ''f''], ''ab'')])"
  by code_simp

lemma failed_read_leaves_member:
  "extract_archive False (\<lambda>p. p) toy_limits ''a.zip''
     [\<lparr>za_filename = ''f'', za_external_attr = 0, za_file_size = 4, za_reads = Inr [Inr ''ab'', Inl (OtherError ''BadZipFile'' ''crc'')]\<rparr>] [''d''] []
     = (Inl (OtherError ''BadZipFile'' ''crc''), [([''d'', ''f''], ''ab'')])"
  by code_simp

text \<open>A database is never among the members an extraction skips, and only Windows skips any.\<close>

lemma judge_members_skipped:
  "judge_members nt follow destination infos = Inr (targets, skipped) \<Longrightarrow> (n, r) \<in> set skipped \<Longrightarrow> nt \<and> \<not> names_database n"
proof (induction infos arbitrary: targets skipped)
  case (Cons i infos)
  have one: "judge_member nt follow destination i = Inr (Inr reason) \<Longrightarrow> nt \<and> \<not> names_database (za_filename i)" for reason
    by (auto simp: judge_member_def unrepresentable_reason_def split: if_splits sum.splits option.splits)
  from Cons show ?case by (auto dest: one split: sum.splits prod.splits)
qed simp

lemma skipped_not_database:
  "extract_archive nt follow L archive infos destination fs = (Inr x, fs') \<Longrightarrow> (n, r) \<in> set (xt_skipped x) \<Longrightarrow>
   nt \<and> \<not> names_database n"
  by (auto simp: extract_archive_def dest: judge_members_skipped split: if_splits sum.splits prod.splits)

section \<open>Hash first, extract second\<close>

definition archive_path :: "acquire_env \<Rightarrow> acquire_args \<Rightarrow> known_artifact \<Rightarrow> path" where
  "archive_path V a artifact =
     (case ca_archive a of Some p \<Rightarrow> p | None \<Rightarrow> data_directory V a @ [''archives'', ka_filename artifact])"

text \<open>Where a download writes.\<close>

definition download_files :: "acquire_env \<Rightarrow> acquire_args \<Rightarrow> known_artifact \<Rightarrow> path set" where
  "download_files V a artifact =
     (if ca_archive a = None
      then {ce_follow V (archive_path V a artifact), ce_follow V (part_of (archive_path V a artifact))} else {})"

text \<open>A download is whole or leaves the file it was to replace as it was.\<close>

lemma download_whole_or_untouched:
  assumes "download sha follow fetch max_bytes url destination fs = (res, fs')" "follow (part_of destination) \<noteq> follow destination"
  shows "(case res of
      Inl e \<Rightarrow> dict_get fs' (follow destination) = dict_get fs (follow destination)
    | Inr r \<Rightarrow> (\<exists>c. dict_get fs' (follow destination) = Some c \<and> aq_sha256 r = sha c \<and> aq_size_bytes r = length c))
    \<and> dict_get fs' (follow (part_of destination)) = None"
  using assms by (auto simp: download_def Let_def split: sum.splits)

lemma download_touches:
  "download sha follow fetch max_bytes url destination fs = (res, fs') \<Longrightarrow> dict_get fs' p \<noteq> dict_get fs p \<Longrightarrow>
   p \<in> {follow destination, follow (part_of destination)}"
  by (auto simp: download_def Let_def split: sum.splits if_splits)

lemma download_hashed:
  "download sha follow fetch max_bytes url destination fs = (Inr r, fs') \<Longrightarrow>
   aq_path r = destination \<and> dict_get fs' (follow destination) \<noteq> None \<and>
   aq_sha256 r = sha (the (dict_get fs' (follow destination)))"
  by (auto simp: download_def Let_def split: sum.splits)

lemma obtain_touches:
  "obtain_archive V a artifact fs = (res, fs') \<Longrightarrow> dict_get fs' p \<noteq> dict_get fs p \<Longrightarrow> p \<in> download_files V a artifact"
  by (auto simp: obtain_archive_def download_files_def archive_path_def
      dest: download_touches split: option.splits sum.splits prod.splits if_splits)

lemma obtain_hashed:
  "obtain_archive V a artifact fs = (Inr (Some h), fs') \<Longrightarrow>
   ih_archive h = archive_path V a artifact \<and>
   (\<exists>c. dict_get fs' (ce_follow V (ih_archive h)) = Some c \<and> ih_digest h = ce_sha V c)"
  by (auto simp: obtain_archive_def archive_path_def sha256_file_def
      dest!: download_hashed split: option.splits sum.splits prod.splits if_splits)

lemma filter_keeps: "dict_get (filter (\<lambda>(q, c). \<not> prefix h q) fs) p = (if prefix h p then None else dict_get fs p)"
  by (induction fs) auto

lemma clear_inside:
  "clear_directory follow links d fs = (res, fs') \<Longrightarrow> dict_get fs' p \<noteq> dict_get fs p \<Longrightarrow> prefix (follow d) p"
  by (auto simp: clear_directory_def Let_def filter_keeps split: if_splits)

lemma unpack_inside:
  assumes "unpack V a artifact h fs = (res, fs')" "dict_get fs' p \<noteq> dict_get fs p"
  shows "prefix (ce_follow V (data_directory V a @ [ka_key artifact])) p"
proof -
  let ?d = "data_directory V a @ [ka_key artifact]"
  obtain c fs1 where c: "(if ca_replace a then clear_directory (ce_follow V) (ce_links V) ?d fs else (Inr (), fs)) = (c, fs1)"
    by force
  have clear: "dict_get fs1 p \<noteq> dict_get fs p \<Longrightarrow> prefix (ce_follow V ?d) p"
    using c clear_inside by (auto split: if_splits)
  have "fs' = fs1 \<or> (\<exists>infos x. extract_archive (ce_nt V) (ce_follow V) (ce_limits V) (last (ih_archive h)) infos ?d fs1 = (x, fs'))"
    using assms(1) c by (auto simp: unpack_def Let_def split: sum.splits)
  then have "dict_get fs' p \<noteq> dict_get fs1 p \<Longrightarrow> prefix (ce_follow V ?d) p"
    using extract_ledger unfolding ledger_def by metis
  with clear assms(2) show ?thesis by (cases "dict_get fs1 p = dict_get fs p") simp_all
qed

lemma trusted_lock:
  assumes "trust_first_use V a artifact h (lock, fs) = (lock', fs')" "check_lock lock' (ka_key artifact) (ih_digest h) n = None"
  shows "case dict_get lock (ka_key artifact) of Some e \<Rightarrow> le_sha256 e = ih_digest h | None \<Rightarrow> ca_trust a"
  using assms by (auto simp: trust_first_use_def check_lock_def Let_def split: if_splits option.splits)

lemma trust_touches:
  "trust_first_use V a artifact h (lock, fs) = (lock', fs') \<Longrightarrow> dict_get fs' p \<noteq> dict_get fs p \<Longrightarrow>
   p = ce_follow V (ca_lockfile a)"
  by (auto simp: trust_first_use_def Let_def split: if_splits)

text \<open>C30: hash first, extract second. If the acquire command changes any file besides the lockfile and
  the files of its own download, then that file is inside the directory of the artifact, the artifact is
  on the allowlist, and the bytes of the archive had the digest the lockfile records for it; with nothing
  recorded, trust on first use had been asked for. So an archive whose digest differs touches nothing.\<close>

theorem acquire_checks_digest:
  assumes run: "command_acquire V a fs = (res, fs')" and diff: "dict_get fs' p \<noteq> dict_get fs p"
  shows "\<exists>artifact lock.
    resolve_artifact (ce_known V) (ca_artifact a) = Inr artifact \<and>
    load_lock (ce_fr V) (ce_rd V) (ce_why V) (dict_get fs (ce_follow V (ca_lockfile a))) = Inr lock \<and>
    (p \<notin> download_files V a artifact \<longrightarrow> p \<noteq> ce_follow V (ca_lockfile a) \<longrightarrow>
     prefix (ce_follow V (data_directory V a @ [ka_key artifact])) p \<and>
     (\<exists>content. dict_get (snd (obtain_archive V a artifact fs)) (ce_follow V (archive_path V a artifact)) = Some content \<and>
        (case dict_get lock (ka_key artifact) of Some e \<Rightarrow> le_sha256 e = ce_sha V content | None \<Rightarrow> ca_trust a)))"
proof -
  obtain artifact where A: "resolve_artifact (ce_known V) (ca_artifact a) = Inr artifact"
    using run diff by (auto simp: command_acquire_def split: sum.splits)
  obtain lock where L: "load_lock (ce_fr V) (ce_rd V) (ce_why V) (dict_get fs (ce_follow V (ca_lockfile a))) = Inr lock"
    using run diff A by (auto simp: command_acquire_def split: sum.splits)
  obtain r fs1 where O: "obtain_archive V a artifact fs = (r, fs1)" by force
  { assume out: "p \<notin> download_files V a artifact" "p \<noteq> ce_follow V (ca_lockfile a)"
    have same1: "dict_get fs1 p = dict_get fs p" using obtain_touches [OF O] out(1) by blast
    then obtain h where h: "r = Inr (Some h)"
      using run diff A L O by (auto simp: command_acquire_def split: sum.splits option.splits)
    obtain lock' fs2 where T: "trust_first_use V a artifact h (lock, fs1) = (lock', fs2)" by force
    have same2: "dict_get fs2 p = dict_get fs p" using trust_touches [OF T] out(2) same1 by metis
    have check: "check_lock lock' (ka_key artifact) (ih_digest h) (ih_bytes h) = None"
      using run diff same2 A L O h T by (auto simp: command_acquire_def split: option.splits)
    then obtain x where "unpack V a artifact h fs2 = (x, fs')"
      using run A L O h T by (auto simp: command_acquire_def split: sum.splits prod.splits)
    then have "prefix (ce_follow V (data_directory V a @ [ka_key artifact])) p"
      using unpack_inside diff same2 by metis
    moreover have "\<exists>content. dict_get fs1 (ce_follow V (archive_path V a artifact)) = Some content \<and>
        (case dict_get lock (ka_key artifact) of Some e \<Rightarrow> le_sha256 e = ce_sha V content | None \<Rightarrow> ca_trust a)"
      using obtain_hashed [OF O [unfolded h]] trusted_lock [OF T check] by (auto split: option.splits)
    ultimately have "prefix (ce_follow V (data_directory V a @ [ka_key artifact])) p \<and>
      (\<exists>content. dict_get fs1 (ce_follow V (archive_path V a artifact)) = Some content \<and>
        (case dict_get lock (ka_key artifact) of Some e \<Rightarrow> le_sha256 e = ce_sha V content | None \<Rightarrow> ca_trust a))" .. }
  then show ?thesis using A L O by auto
qed

text \<open>An archive of one member whose content is the archive's own bytes, and a hash that is the identity.\<close>

definition toy_known :: "(string, known_artifact) dict" where
  "toy_known = [(''spider'', \<lparr>ka_key = ''spider'', ka_filename = ''spider.zip'', ka_homepage = [], ka_url = None,
     ka_max_bytes = 9, ka_note = []\<rparr>)]"

definition toy_acquire :: acquire_env where
  "toy_acquire = \<lparr>ce_sha = (\<lambda>s. s), ce_follow = (\<lambda>p. p), ce_links = (\<lambda>p. False), ce_nt = False, ce_scheme = (\<lambda>u. ''https''),
     ce_fetch = (\<lambda>u. Inl (OtherError ''URLError'' u)), ce_members = (\<lambda>s. Inr [toy_member ''f'' [s]]), ce_now = ''t'',
     ce_limits = toy_limits, ce_data_dir = [''data''], ce_known = toy_known, ce_fr = (\<lambda>r. []), ce_rd = (\<lambda>s. 0),
     ce_why = (\<lambda>s. s)\<rparr>"

definition toy_acquire_args :: "bool \<Rightarrow> acquire_args" where
  "toy_acquire_args trust = \<lparr>ca_artifact = ''spider'', ca_archive = Some [''a.zip''], ca_data = None, ca_lockfile = [''lock''],
     ca_trust = trust, ca_replace = False\<rparr>"

lemma unlocked_is_refused:
  "snd (command_acquire toy_acquire (toy_acquire_args False) [([''a.zip''], ''zz'')]) = [([''a.zip''], ''zz'')]"
  by code_simp

theorem acquire_checks_digest_witness:
  "dict_get (snd (command_acquire toy_acquire (toy_acquire_args True) [([''a.zip''], ''zz'')])) [''data'', ''spider'', ''f''] = Some ''zz''
   \<and> (\<exists>artifact. resolve_artifact toy_known ''spider'' = Inr artifact \<and> prefix [''data'', ka_key artifact] [''data'', ''spider'', ''f''])"
proof -
  let ?x = "command_acquire toy_acquire (toy_acquire_args True) [([''a.zip''], ''zz'')]"
  have e: "dict_get (snd ?x) [''data'', ''spider'', ''f''] = Some ''zz''" by code_simp
  have "[''data'', ''spider'', ''f''] \<notin> download_files toy_acquire (toy_acquire_args True) artifact" for artifact
    by (simp add: download_files_def toy_acquire_args_def)
  with e acquire_checks_digest [of toy_acquire "toy_acquire_args True" "[([''a.zip''], ''zz'')]" "fst ?x" "snd ?x" "[''data'', ''spider'', ''f'']"]
  show ?thesis by (auto simp: toy_acquire_def toy_acquire_args_def data_directory_def of_option_def)
qed

end
