(* ===== verification/Readers.thy ===== *)
theory Readers
  imports Lockfile
begin

text \<open>
  The question files of the benchmarks (\<open>src/benchmark/readers.py\<close>): one reader per format, and the
  search for the SQLite file of every database. A file is its content, or the text of the error that
  reading it gives; \<open>why\<close> is the message of the JSON parser.
\<close>

section \<open>Records\<close>

definition json_records ::
  "(string \<Rightarrow> rat) \<Rightarrow> (string \<Rightarrow> string) \<Rightarrow> string \<Rightarrow> string + string \<Rightarrow> exn + (string, json) dict list" where
  "json_records rd why path content =
     (case content of
        Inl m \<Rightarrow> Inl (BenchmarkError (''cannot read '' @ path @ '': '' @ m))
      | Inr s \<Rightarrow>
         (case loads rd s of
            None \<Rightarrow> Inl (BenchmarkError (''cannot read '' @ path @ '': '' @ why s))
          | Some (JArr items) \<Rightarrow> Inr (somes (map (\<lambda>j. case j of JObj d \<Rightarrow> Some d | _ \<Rightarrow> None) items))
          | Some _ \<Rightarrow> Inl (BenchmarkError (path @ '' should hold a JSON array of questions''))))"

definition require_text ::
  "(rat \<Rightarrow> string) \<Rightarrow> (string, json) dict \<Rightarrow> string \<Rightarrow> string \<Rightarrow> nat \<Rightarrow> exn + string" where
  "require_text fr d key path i =
     (case entry_of d key JNull of
        JNull \<Rightarrow> Inl (BenchmarkError (path @ ''['' @ show_nat i @ ''] has no '' @ py_repr key))
      | j \<Rightarrow> if strip (json_str fr j) = []
             then Inl (BenchmarkError (path @ ''['' @ show_nat i @ ''] has no '' @ py_repr key))
             else Inr (json_str fr j))"

text \<open>\<open>f"{index:05d}"\<close>.\<close>

definition pad5 :: "nat \<Rightarrow> string" where
  "pad5 n = replicate (5 - length (show_nat n)) (CHR ''0'') @ show_nat n"

text \<open>A question from one record: the identifier and the key of the gold query are the reader's.\<close>

definition build_question ::
  "(rat \<Rightarrow> string) \<Rightarrow> string \<Rightarrow> string \<Rightarrow> string \<Rightarrow> string \<Rightarrow> nat \<Rightarrow> (string, json) dict \<Rightarrow> exn + question" where
  "build_question fr dataset path gold_key question_id i d =
     (case require_text fr d ''question'' path i of Inl e \<Rightarrow> Inl e | Inr q \<Rightarrow>
      case require_text fr d gold_key path i of Inl e \<Rightarrow> Inl e | Inr g \<Rightarrow>
      case require_text fr d ''db_id'' path i of Inl e \<Rightarrow> Inl e | Inr db \<Rightarrow>
        Inr \<lparr>qn_id = question_id, qn_question = q, qn_gold_sql = g, qn_dataset = dataset, qn_split = DEV, qn_db_id = db\<rparr>)"

fun build_questions :: "(nat \<Rightarrow> (string, json) dict \<Rightarrow> exn + question) \<Rightarrow> nat \<Rightarrow> (string, json) dict list \<Rightarrow> exn + question list" where
  "build_questions f i [] = Inr []"
| "build_questions f i (d # ds) =
     (case f i d of
        Inl e \<Rightarrow> Inl e
      | Inr q \<Rightarrow> (case build_questions f (Suc i) ds of Inl e \<Rightarrow> Inl e | Inr qs \<Rightarrow> Inr (q # qs)))"

definition read_spider ::
  "(rat \<Rightarrow> string) \<Rightarrow> (string \<Rightarrow> rat) \<Rightarrow> (string \<Rightarrow> string) \<Rightarrow> string \<Rightarrow> string \<Rightarrow> string \<Rightarrow> string + string \<Rightarrow> exn + question list" where
  "read_spider fr rd why dataset path stem content =
     (case json_records rd why path content of
        Inl e \<Rightarrow> Inl e
      | Inr ds \<Rightarrow>
          build_questions (\<lambda>i. build_question fr dataset path ''query'' (dataset @ '':'' @ stem @ '':'' @ pad5 i) i) 0 ds)"

definition bird_id :: "(rat \<Rightarrow> string) \<Rightarrow> string \<Rightarrow> nat \<Rightarrow> (string, json) dict \<Rightarrow> string" where
  "bird_id fr dataset i d =
     (case entry_of d ''question_id'' JNull of
        JNull \<Rightarrow> dataset @ '':'' @ pad5 i
      | j \<Rightarrow> dataset @ '':'' @ json_str fr j)"

definition read_bird ::
  "(rat \<Rightarrow> string) \<Rightarrow> (string \<Rightarrow> rat) \<Rightarrow> (string \<Rightarrow> string) \<Rightarrow> string \<Rightarrow> string \<Rightarrow> string \<Rightarrow> string + string \<Rightarrow> exn + question list" where
  "read_bird fr rd why dataset path stem content =
     (case json_records rd why path content of
        Inl e \<Rightarrow> Inl e
      | Inr ds \<Rightarrow> build_questions (\<lambda>i d. build_question fr dataset path ''SQL'' (bird_id fr dataset i d) i d) 0 ds)"

section \<open>Databases\<close>

definition below :: "files \<Rightarrow> path \<Rightarrow> string list" where
  "below fs folder = map (\<lambda>(p, c). p ! length folder) (filter (\<lambda>(p, c). strict_prefix folder p) fs)"

definition is_directory :: "files \<Rightarrow> path \<Rightarrow> bool" where
  "is_directory fs p \<longleftrightarrow> below fs p \<noteq> []"

definition database_file :: "files \<Rightarrow> path \<Rightarrow> string \<Rightarrow> path option" where
  "database_file fs folder name =
     (case filter (\<lambda>p. dict_get fs p \<noteq> None)
             (map (\<lambda>suffix. folder @ [name, name @ suffix]) [''.sqlite'', ''.sqlite3'', ''.db'']) of
        [] \<Rightarrow> None | p # _ \<Rightarrow> Some p)"

definition find_databases :: "files \<Rightarrow> path \<Rightarrow> (string, path) dict" where
  "find_databases fs folder =
     somes (map (\<lambda>name. map_option (Pair name) (database_file fs folder name))
       (filter (\<lambda>name. is_directory fs (folder @ [name])) (sorted_texts (remdups (below fs folder)))))"

section \<open>Facts\<close>

lemma build_questions_length: "build_questions f i ds = Inr qs \<Longrightarrow> length qs = length ds"
  by (induction ds arbitrary: i qs) (auto split: sum.splits)

lemma build_questions_nth:
  "build_questions f i ds = Inr qs \<Longrightarrow> k < length ds \<Longrightarrow> f (i + k) (ds ! k) = Inr (qs ! k)"
proof (induction ds arbitrary: i qs k)
  case (Cons d ds)
  then obtain q qs' where q: "f i d = Inr q" "build_questions f (Suc i) ds = Inr qs'" "qs = q # qs'"
    by (auto split: sum.splits)
  show ?case
  proof (cases k)
    case (Suc j)
    then show ?thesis using Cons.IH [OF q(2), of j] Cons.prems(2) q(3) by simp
  qed (simp add: q)
qed simp

lemma require_text_Inr: "require_text fr d key path i = Inr s \<Longrightarrow> strip s \<noteq> []"
  unfolding require_text_def by (cases "entry_of d key JNull") (auto split: if_splits)

lemma build_question_Inr:
  "build_question fr dataset path g qid i d = Inr q \<Longrightarrow>
   qn_id q = qid \<and> strip (qn_question q) \<noteq> [] \<and> strip (qn_gold_sql q) \<noteq> [] \<and> strip (qn_db_id q) \<noteq> []"
  unfolding build_question_def by (auto dest: require_text_Inr split: sum.splits)

lemma digits_zeros: "digits_to_nat (replicate k (CHR ''0'') @ s) = digits_to_nat s"
  by (induction k) (simp_all add: digits_to_nat_def code_def)

lemma pad5_value: "digits_to_nat (pad5 n) = n"
  by (simp add: pad5_def digits_zeros digits_show)

lemma pad5_inject: "pad5 m = pad5 n \<longleftrightarrow> m = n"
  by (metis pad5_value)

text \<open>Spider identifiers are distinct, whatever the records hold.\<close>

lemma spider_ids_distinct:
  assumes "read_spider fr rd why dataset path stem content = Inr qs"
  shows "distinct (map qn_id qs)"
proof -
  let ?f = "\<lambda>i. build_question fr dataset path ''query'' (dataset @ '':'' @ stem @ '':'' @ pad5 i) i"
  obtain ds where b: "build_questions ?f 0 ds = Inr qs"
    using assms by (auto simp: read_spider_def split: sum.splits)
  have "qn_id (qs ! k) = dataset @ '':'' @ stem @ '':'' @ pad5 k" if "k < length qs" for k
    using build_questions_nth [OF b, of k] build_questions_length [OF b] that build_question_Inr by simp
  then show ?thesis by (auto simp: distinct_conv_nth pad5_inject)
qed

text \<open>A record of BIRD with an identifier can share it with one that has none.\<close>

lemma bird_ids_can_repeat:
  "bird_id show_ratio ''bird'' 0 [(''question_id'', JStr ''00001'')] = bird_id show_ratio ''bird'' 1 []"
  by code_simp

text \<open>Elements of the array that are not objects disappear without a word, and the positions that name
  Spider's questions count what is left.\<close>

lemma stray_elements_vanish:
  "json_records rd why path (Inr s) = Inr [d]" if "loads rd s = Some (JArr [JNull, JObj d])"
  using that by (simp add: json_records_def)

lemma found_database:
  "(name, p) \<in> set (find_databases fs folder) \<Longrightarrow>
   dict_get fs p \<noteq> None \<and> (\<exists>suffix \<in> {''.sqlite'', ''.sqlite3'', ''.db''}. p = folder @ [name, name @ suffix])"
proof -
  assume "(name, p) \<in> set (find_databases fs folder)"
  then have "database_file fs folder name = Some p" by (auto simp: find_databases_def in_somes dest!: sym [of "Some _"])
  then show ?thesis by (auto simp: database_file_def split: if_splits)
qed

end
