(* ===== verification/GoldCheck.thy ===== *)
theory GoldCheck
  imports Conversion Comparison
begin

text \<open>
  Proving a conversion by its gold queries (\<open>src/benchmark/verify.py\<close>): every query runs on the SQLite
  original and, rewritten by \<open>sqlglot\<close>, on the converted schema, and the comparison of the evaluation
  harness says whether they agree. The SQLite dialect of the parser is the record \<open>rewriter\<close>:
  \<open>rw_replace\<close> puts a replacement in the place of the nodes of a class, as \<open>find_all\<close> with \<open>replace\<close> does.
  Both engines are functions of the text they run.
\<close>

section \<open>The parser's other dialect\<close>

datatype node_class = NExpression | NSelect | NColumn | NIdentifier | NLike | NLiteral

record 'm rewriter =
  rw_parse :: "string \<Rightarrow> string + 'm option list"
  rw_parse_one :: "string \<Rightarrow> string + 'm"
  rw_isa :: "'m \<Rightarrow> node_class \<Rightarrow> bool"
  rw_this :: "'m \<Rightarrow> 'm"
  rw_arg :: "'m \<Rightarrow> string \<Rightarrow> 'm option"
  rw_expressions :: "'m \<Rightarrow> 'm list"
  rw_name :: "'m \<Rightarrow> string"
  rw_quoted :: "'m \<Rightarrow> bool"
  rw_is_string :: "'m \<Rightarrow> bool"
  rw_replace :: "node_class \<Rightarrow> ('m \<Rightarrow> 'm option) \<Rightarrow> 'm \<Rightarrow> 'm"
  rw_string :: "string \<Rightarrow> 'm"
  rw_ilike :: "'m \<Rightarrow> 'm"
  rw_drop :: "string \<Rightarrow> 'm \<Rightarrow> 'm"
  rw_project :: "'m \<Rightarrow> 'm \<Rightarrow> 'm"
  rw_postgres :: "'m \<Rightarrow> string + string"
  rw_sqlite :: "'m \<Rightarrow> string + string"

text \<open>A double-quoted token that names no table or column is a string, as SQLite reads it.\<close>

definition repair_column :: "'m rewriter \<Rightarrow> string list \<Rightarrow> 'm \<Rightarrow> 'm option" where
  "repair_column R known column =
     (let identifier = rw_this R column in
      if \<not> rw_isa R identifier NIdentifier \<or> \<not> rw_quoted R identifier then None
      else if rw_arg R column ''table'' \<noteq> None then None
      else if py_lower (rw_name R identifier) \<in> set known then None
      else Some (rw_string R (rw_name R identifier)))"

definition repair_quoted_literals :: "'m rewriter \<Rightarrow> string list \<Rightarrow> 'm \<Rightarrow> 'm" where
  "repair_quoted_literals R known statement =
     (if known = [] then statement else rw_replace R NColumn (repair_column R known) statement)"

definition match_sqlite_like :: "'m rewriter \<Rightarrow> 'm \<Rightarrow> 'm" where
  "match_sqlite_like R statement = rw_replace R NLike (\<lambda>node. Some (rw_ilike R node)) statement"

fun render_all :: "'m rewriter \<Rightarrow> string list \<Rightarrow> 'm list \<Rightarrow> string + string list" where
  "render_all R known [] = Inr []"
| "render_all R known (s # ss) =
     (case rw_postgres R (match_sqlite_like R (repair_quoted_literals R known s)) of
        Inl m \<Rightarrow> Inl m
      | Inr t \<Rightarrow> (case render_all R known ss of Inl m \<Rightarrow> Inl m | Inr ts \<Rightarrow> Inr (t # ts)))"

text \<open>The left side is the message of the \<open>ValueError\<close>: every exception of the library becomes one.\<close>

definition transpile_to_postgres :: "'m rewriter \<Rightarrow> string list \<Rightarrow> string \<Rightarrow> string + string" where
  "transpile_to_postgres R known gold_sql =
     (case rw_parse R gold_sql of
        Inl m \<Rightarrow> Inl m
      | Inr parsed \<Rightarrow>
         (case render_all R known (filter (\<lambda>n. rw_isa R n NExpression) (somes parsed)) of
            Inl m \<Rightarrow> Inl m
          | Inr [] \<Rightarrow> Inl ''transpiled to an empty statement''
          | Inr (t # ts) \<Rightarrow> Inr t))"

section \<open>Cells\<close>

definition cell_value :: "cell \<Rightarrow> db_value" where
  "cell_value c =
     (case c of SNull \<Rightarrow> VNull | SInt i \<Rightarrow> VInt i | SReal (RFin r) \<Rightarrow> VFloat r | SReal (RInf neg) \<Rightarrow> VInf (\<not> neg)
      | SReal RNan \<Rightarrow> VNan | SText s \<Rightarrow> VText s | SBlob b \<Rightarrow> VBytes b)"

text \<open>\<open>==\<close> of two values Python read from SQLite.\<close>

fun cell_eq :: "cell \<Rightarrow> cell \<Rightarrow> bool" where
  "cell_eq (SInt i) (SReal (RFin r)) = (of_int i = r)"
| "cell_eq (SReal (RFin r)) (SInt i) = (of_int i = r)"
| "cell_eq (SReal RNan) c = False"
| "cell_eq c d = (c = d)"

definition last_cells :: "nat \<Rightarrow> cell list \<Rightarrow> cell list" where
  "last_cells width row = drop (length row - width) row"

section \<open>One query\<close>

datatype check_outcome =
    OMatch | OMismatch | OGoldError | OTranspileError | ODialectError | OAmbiguousOrder | OUndeterminedLimit | OPostgresError

fun outcome_value :: "check_outcome \<Rightarrow> string" where
  "outcome_value OMatch = ''match''"
| "outcome_value OMismatch = ''mismatch''"
| "outcome_value OGoldError = ''gold_error''"
| "outcome_value OTranspileError = ''transpile_error''"
| "outcome_value ODialectError = ''dialect_error''"
| "outcome_value OAmbiguousOrder = ''ambiguous_order''"
| "outcome_value OUndeterminedLimit = ''undetermined_limit''"
| "outcome_value OPostgresError = ''postgres_error''"

definition all_outcomes :: "check_outcome list" where
  "all_outcomes = [OMatch, OMismatch, OGoldError, OTranspileError, ODialectError, OAmbiguousOrder, OUndeterminedLimit, OPostgresError]"

definition comparable_outcomes :: "check_outcome list" where
  "comparable_outcomes = [OMatch, OMismatch, OAmbiguousOrder]"

record query_check =
  qc_question_id :: string
  qc_outcome :: check_outcome
  qc_verdict :: "verdict option"
  qc_detail :: string
  qc_postgres_sql :: string

text \<open>The two engines, the parser's dialects and the comparison's arguments. \<open>gv_sqlite\<close> gives rows or the
  text of an \<open>sqlite3.Error\<close>; \<open>gv_pg\<close>, under a search path and a timeout, rows, no result set, or the
  SQLSTATE and text of a driver error; \<open>gv_config\<close> is \<open>set_config\<close>.\<close>

record ('n, 'm) gold_env =
  gv_rw :: "'m rewriter"
  gv_sqlglot :: "'n sqlglot"
  gv_fl :: "rat \<Rightarrow> rat"
  gv_pr :: "canon \<Rightarrow> string"
  gv_sqlite :: "string \<Rightarrow> string + cell list list"
  gv_pg :: "string \<Rightarrow> int \<Rightarrow> string \<Rightarrow> (string option \<times> string) + db_value list list option"
  gv_config :: "string \<Rightarrow> string \<Rightarrow> exn option"
  gv_database :: sqlite_database

definition run_pg :: "('n, 'm) gold_env \<Rightarrow> string \<Rightarrow> int \<Rightarrow> string \<Rightarrow> (string option \<times> string) + db_value list list" where
  "run_pg V schema timeout statement =
     (case gv_pg V schema timeout statement of
        Inl e \<Rightarrow> Inl e | Inr None \<Rightarrow> Inr [] | Inr (Some answer) \<Rightarrow> Inr answer)"

definition run_sqlite :: "('n, 'm) gold_env \<Rightarrow> string \<Rightarrow> string + db_value list list" where
  "run_sqlite V statement =
     (case gv_sqlite V statement of Inl m \<Rightarrow> Inl m | Inr answer \<Rightarrow> Inr (map (map cell_value) answer))"

definition conversion_faults :: "string list" where
  "conversion_faults = [''42P01'', ''42703'', ''3F000'']"

definition classify_pg_error :: "string option \<Rightarrow> check_outcome" where
  "classify_pg_error state =
     (case state of None \<Rightarrow> ODialectError
      | Some s \<Rightarrow> if s \<in> set conversion_faults then OPostgresError else ODialectError)"

text \<open>\<open>str(exc).splitlines()[0]\<close>: an empty message has no first line.\<close>

definition first_message_line :: "string \<Rightarrow> exn + string" where
  "first_message_line s =
     (case split_lines s of [] \<Rightarrow> Inl (OtherError ''IndexError'' ''list index out of range'') | l # ls \<Rightarrow> Inr l)"

definition parse_select :: "'m rewriter \<Rightarrow> string \<Rightarrow> 'm option" where
  "parse_select R gold_sql =
     (case rw_parse_one R gold_sql of Inl m \<Rightarrow> None | Inr n \<Rightarrow> if rw_isa R n NSelect then Some n else None)"

definition literal_count :: "'m rewriter \<Rightarrow> 'm \<Rightarrow> int option" where
  "literal_count R clause =
     (case rw_arg R clause ''expression'' of
        None \<Rightarrow> None
      | Some v \<Rightarrow> if \<not> rw_isa R v NLiteral \<or> rw_is_string R v then None else int_reading int_blank (rw_name R v))"

definition cut_position :: "'m rewriter \<Rightarrow> 'm \<Rightarrow> nat option" where
  "cut_position R select =
     (case rw_arg R select ''limit'' of None \<Rightarrow> None | Some limit \<Rightarrow>
      case literal_count R limit of None \<Rightarrow> None | Some n \<Rightarrow>
      case (case rw_arg R select ''offset'' of None \<Rightarrow> Some 0 | Some offset \<Rightarrow> literal_count R offset) of
        None \<Rightarrow> None
      | Some skipped \<Rightarrow> if n + skipped > 0 then Some (nat (n + skipped)) else None)"

definition render_error :: "string \<Rightarrow> exn" where
  "render_error m = OtherError ''SqlglotError'' m"

definition unlimited :: "'m rewriter \<Rightarrow> 'm \<Rightarrow> 'm" where
  "unlimited R select = rw_drop R ''offset'' (rw_drop R ''limit'' select)"

definition without_limit :: "'m rewriter \<Rightarrow> string \<Rightarrow> exn + string option" where
  "without_limit R gold_sql =
     (case parse_select R gold_sql of
        None \<Rightarrow> Inr None
      | Some select \<Rightarrow>
         (case rw_sqlite R (unlimited R select) of Inl m \<Rightarrow> Inl (render_error m) | Inr s \<Rightarrow> Inr (Some s)))"

definition order_keys :: "'m rewriter \<Rightarrow> 'm \<Rightarrow> 'm list" where
  "order_keys R select =
     (case rw_arg R select ''order'' of None \<Rightarrow> [] | Some order \<Rightarrow> map (rw_this R) (rw_expressions R order))"

definition rows_tie :: "nat \<Rightarrow> nat \<Rightarrow> cell list list \<Rightarrow> bool" where
  "rows_tie width edge answer \<longleftrightarrow>
     edge < length answer \<and>
     (width = 0 \<or> list_all2 cell_eq (last_cells width (answer ! (edge - 1))) (last_cells width (answer ! edge)))"

definition limit_cut_is_tied :: "('n, 'm) gold_env \<Rightarrow> string \<Rightarrow> exn + bool" where
  "limit_cut_is_tied V gold_sql =
     (let R = gv_rw V in
      case parse_select R gold_sql of
        None \<Rightarrow> Inr False
      | Some select \<Rightarrow>
          if rw_arg R select ''distinct'' \<noteq> None then Inr False
          else case cut_position R select of
            None \<Rightarrow> Inr False
          | Some edge \<Rightarrow>
             (let keys = order_keys R select in
              case rw_sqlite R (foldl (rw_project R) (unlimited R select) keys) of
                Inl m \<Rightarrow> Inl (render_error m)
              | Inr probe \<Rightarrow>
                 (case gv_sqlite V probe of
                    Inl m \<Rightarrow> Inr False
                  | Inr answer \<Rightarrow> Inr (rows_tie (length keys) edge answer))))"

definition compare_rows ::
  "('n, 'm) gold_env \<Rightarrow> string option \<Rightarrow> bool option \<Rightarrow> db_value list list \<Rightarrow> db_value list list \<Rightarrow> comparison" where
  "compare_rows V gold order actual expected =
     compare (gv_sqlglot V) (gv_fl V) (gv_pr V) gold order actual expected"

definition limit_is_undetermined ::
  "('n, 'm) gold_env \<Rightarrow> string \<Rightarrow> int \<Rightarrow> string list \<Rightarrow> string \<Rightarrow> exn + bool" where
  "limit_is_undetermined V schema timeout known gold_sql =
     (case limit_cut_is_tied V gold_sql of
        Inl e \<Rightarrow> Inl e
      | Inr False \<Rightarrow> Inr False
      | Inr True \<Rightarrow>
         (case without_limit (gv_rw V) gold_sql of
            Inl e \<Rightarrow> Inl e
          | Inr None \<Rightarrow> Inr False
          | Inr (Some bare) \<Rightarrow>
             (case run_sqlite V bare of
                Inl m \<Rightarrow> Inr False
              | Inr expected \<Rightarrow>
                 (case transpile_to_postgres (gv_rw V) known bare of
                    Inl m \<Rightarrow> Inr False
                  | Inr t \<Rightarrow>
                     (case run_pg V schema timeout t of
                        Inl e \<Rightarrow> Inr False
                      | Inr actual \<Rightarrow> Inr (cmp_matched (compare_rows V None (Some False) actual expected)))))))"

definition make_check :: "question \<Rightarrow> check_outcome \<Rightarrow> verdict option \<Rightarrow> string \<Rightarrow> string \<Rightarrow> query_check" where
  "make_check q oc v detail sql =
     \<lparr>qc_question_id = qn_id q, qc_outcome = oc, qc_verdict = v, qc_detail = detail, qc_postgres_sql = sql\<rparr>"

text \<open>The verdict once both engines have answered.\<close>

definition judge_rows ::
  "('n, 'm) gold_env \<Rightarrow> string \<Rightarrow> int \<Rightarrow> string list \<Rightarrow> question \<Rightarrow> string \<Rightarrow> db_value list list \<Rightarrow> db_value list list
     \<Rightarrow> exn + query_check" where
  "judge_rows V schema timeout known q translated actual expected =
     (let result = compare_rows V (Some (qn_gold_sql q)) None actual expected;
          check = (\<lambda>oc detail. make_check q oc (Some (cmp_verdict result)) detail translated) in
      if cmp_matched result then Inr (check OMatch [])
      else if order_enforced result \<and> cmp_matched (compare_rows V None (Some False) actual expected)
      then Inr (check OAmbiguousOrder ''same rows; the gold ORDER BY does not determine their order'')
      else case limit_is_undetermined V schema timeout known (qn_gold_sql q) of
        Inl e \<Rightarrow> Inl e
      | Inr True \<Rightarrow> Inr (check OUndeterminedLimit ''the gold ORDER BY ties across the LIMIT; no single answer is correct'')
      | Inr False \<Rightarrow> Inr (check OMismatch (cmp_detail result)))"

definition check_one ::
  "('n, 'm) gold_env \<Rightarrow> string \<Rightarrow> int \<Rightarrow> string list \<Rightarrow> question \<Rightarrow> exn + query_check" where
  "check_one V schema timeout known q =
     (case run_sqlite V (qn_gold_sql q) of
        Inl m \<Rightarrow> Inr (make_check q OGoldError None m [])
      | Inr expected \<Rightarrow>
         (case transpile_to_postgres (gv_rw V) known (qn_gold_sql q) of
            Inl m \<Rightarrow> Inr (make_check q OTranspileError None m [])
          | Inr translated \<Rightarrow>
             (case run_pg V schema timeout translated of
                Inl (state, message) \<Rightarrow>
                 (case first_message_line message of
                    Inl e \<Rightarrow> Inl e
                  | Inr line \<Rightarrow> Inr (make_check q (classify_pg_error state) None line translated))
              | Inr actual \<Rightarrow> judge_rows V schema timeout known q translated actual expected)))"

section \<open>The report\<close>

record verification =
  vr_db_id :: string
  vr_schema :: string
  vr_checks :: "query_check list"

definition count_outcomes :: "check_outcome list \<Rightarrow> verification \<Rightarrow> nat" where
  "count_outcomes ocs r = length (filter (\<lambda>c. qc_outcome c \<in> set ocs) (vr_checks r))"

definition comparable :: "verification \<Rightarrow> nat" where
  "comparable r = count_outcomes comparable_outcomes r"

definition matched_count :: "verification \<Rightarrow> nat" where
  "matched_count r = count_outcomes [OMatch, OAmbiguousOrder] r"

definition unscoreable :: "verification \<Rightarrow> nat" where
  "unscoreable r = count_outcomes [OGoldError, ODialectError, OUndeterminedLimit] r"

definition ambiguous_count :: "verification \<Rightarrow> nat" where
  "ambiguous_count r = count_outcomes [OAmbiguousOrder] r"

definition verified :: "verification \<Rightarrow> bool" where
  "verified r \<longleftrightarrow> comparable r > 0 \<and> matched_count r = comparable r"

definition outcome_counts :: "verification \<Rightarrow> (string, nat) dict" where
  "outcome_counts r = map (\<lambda>oc. (outcome_value oc, count_outcomes [oc] r)) all_outcomes"

fun verdict_value :: "verdict \<Rightarrow> string" where
  "verdict_value MATCH = ''match''"
| "verdict_value SHAPE_MISMATCH = ''shape_mismatch''"
| "verdict_value VALUE_MISMATCH = ''value_mismatch''"
| "verdict_value ORDER_MISMATCH = ''order_mismatch''"
| "verdict_value NO_COLUMN_BIJECTION = ''no_column_bijection''"

definition verification_json :: "verification \<Rightarrow> json" where
  "verification_json r = JObj
     [(''db_id'', JStr (vr_db_id r)), (''schema'', JStr (vr_schema r)), (''verified'', JBool (verified r)),
      (''comparable'', JInt (int (comparable r))), (''matched'', JInt (int (matched_count r))),
      (''unscoreable'', JInt (int (unscoreable r))), (''ambiguous_order'', JInt (int (ambiguous_count r))),
      (''counts'', JObj (map (\<lambda>(k, n). (k, JInt (int n))) (outcome_counts r))),
      (''failures'', JArr (map (\<lambda>c. JObj
         [(''question_id'', JStr (qc_question_id c)), (''outcome'', JStr (outcome_value (qc_outcome c))),
          (''verdict'', (case qc_verdict c of None \<Rightarrow> JNull | Some v \<Rightarrow> JStr (verdict_value v))),
          (''detail'', JStr (qc_detail c))])
         (filter (\<lambda>c. qc_outcome c \<notin> {OMatch, OGoldError}) (vr_checks r))))]"

definition gold_line :: "verification \<Rightarrow> query_check \<Rightarrow> json" where
  "gold_line r c = JObj
     [(''question_id'', JStr (qc_question_id c)), (''db_id'', JStr (vr_db_id r)), (''schema'', JStr (vr_schema r)),
      (''outcome'', JStr (outcome_value (qc_outcome c))), (''scoreable'', JBool (qc_outcome c \<in> set comparable_outcomes)),
      (''sql'', JStr (qc_postgres_sql c))]"

definition gold_lines :: "verification \<Rightarrow> json list" where
  "gold_lines r = map (gold_line r) (vr_checks r)"

definition schema_names :: "sqlite_database \<Rightarrow> exn + string list" where
  "schema_names db =
     (case each_table (read_table db) (table_names db) of
        Inl e \<Rightarrow> Inl e
      | Inr tables \<Rightarrow>
          Inr (concat (map (\<lambda>(name, t). py_lower name # map (py_lower \<circ> sc_name) (st_columns t)) tables)))"

fun check_all :: "(question \<Rightarrow> exn + query_check) \<Rightarrow> question list \<Rightarrow> exn + query_check list" where
  "check_all f [] = Inr []"
| "check_all f (q # qs) =
     (case f q of
        Inl e \<Rightarrow> Inl e
      | Inr c \<Rightarrow> (case check_all f qs of Inl e \<Rightarrow> Inl e | Inr cs \<Rightarrow> Inr (c # cs)))"

definition verify_database ::
  "('n, 'm) gold_env \<Rightarrow> question list \<Rightarrow> string \<Rightarrow> int \<Rightarrow> exn + verification" where
  "verify_database V questions schema timeout =
     (case schema_names (gv_database V) of
        Inl e \<Rightarrow> Inl e
      | Inr known \<Rightarrow>
         (case gv_config V ''search_path'' schema of
            Some e \<Rightarrow> Inl e
          | None \<Rightarrow>
             (case gv_config V ''statement_timeout'' (show_int timeout) of
                Some e \<Rightarrow> Inl e
              | None \<Rightarrow>
                 (case check_all (check_one V schema timeout known) questions of
                    Inl e \<Rightarrow> Inl e
                  | Inr cs \<Rightarrow>
                      Inr \<lparr>vr_db_id = sd_db_id (gv_database V), vr_schema = schema, vr_checks = cs\<rparr>))))"

section \<open>Facts\<close>

lemma check_all_map:
  "check_all f qs = Inr cs \<Longrightarrow> list_all2 (\<lambda>q c. f q = Inr c) qs cs"
  by (induction qs arbitrary: cs) (auto split: sum.splits)

lemma list_all2_left: "list_all2 P xs ys \<Longrightarrow> x \<in> set xs \<Longrightarrow> \<exists>y \<in> set ys. P x y"
  by (induction rule: list_all2_induct) auto

lemma list_all2_right: "list_all2 P xs ys \<Longrightarrow> y \<in> set ys \<Longrightarrow> \<exists>x \<in> set xs. P x y"
  by (induction rule: list_all2_induct) auto

lemma verify_database_Inr:
  "verify_database V qs schema timeout = Inr r \<longleftrightarrow>
   (\<exists>known. schema_names (gv_database V) = Inr known \<and> gv_config V ''search_path'' schema = None
     \<and> gv_config V ''statement_timeout'' (show_int timeout) = None
     \<and> check_all (check_one V schema timeout known) qs = Inr (vr_checks r)
     \<and> r = \<lparr>vr_db_id = sd_db_id (gv_database V), vr_schema = schema, vr_checks = vr_checks r\<rparr>)"
  unfolding verify_database_def by (auto split: sum.splits option.splits)

lemma comparable_split: "comparable r = matched_count r + count_outcomes [OMismatch] r"
proof -
  have "length (filter (\<lambda>c. qc_outcome c \<in> {OMatch, OMismatch, OAmbiguousOrder}) cs) =
     length (filter (\<lambda>c. qc_outcome c \<in> {OMatch, OAmbiguousOrder}) cs) + length (filter (\<lambda>c. qc_outcome c = OMismatch) cs)" for cs
    by (induction cs) auto
  from this [of "vr_checks r"] show ?thesis
    by (simp add: comparable_def matched_count_def count_outcomes_def comparable_outcomes_def)
qed

lemma verified_iff:
  "verified r \<longleftrightarrow> (\<exists>c \<in> set (vr_checks r). qc_outcome c \<in> {OMatch, OAmbiguousOrder}) \<and>
     (\<forall>c \<in> set (vr_checks r). qc_outcome c \<noteq> OMismatch)"
proof -
  have none: "count_outcomes [OMismatch] r = 0 \<longleftrightarrow> (\<forall>c \<in> set (vr_checks r). qc_outcome c \<noteq> OMismatch)"
    by (simp add: count_outcomes_def filter_empty_conv)
  have some: "matched_count r > 0 \<longleftrightarrow> (\<exists>c \<in> set (vr_checks r). qc_outcome c \<in> {OMatch, OAmbiguousOrder})"
    by (simp add: matched_count_def count_outcomes_def filter_empty_conv)
  have "verified r \<longleftrightarrow> matched_count r > 0 \<and> count_outcomes [OMismatch] r = 0"
    unfolding verified_def comparable_split by auto
  then show ?thesis by (simp only: none some)
qed

text \<open>A table the conversion did not create does not make it unverified.\<close>

lemma missing_table_still_verified:
  "verified \<lparr>vr_db_id = d, vr_schema = s, vr_checks =
     [make_check q1 OMatch (Some MATCH) [] t, make_check q2 OPostgresError None ''relation does not exist'' u]\<rparr>"
  by (simp add: verified_iff make_check_def)

text \<open>Every outcome is counted once.\<close>

lemma counts_add_up: "sum_list (map snd (outcome_counts r)) = length (vr_checks r)"
proof -
  have "sum_list (map (\<lambda>oc. length (filter (\<lambda>c. qc_outcome c = oc) cs)) all_outcomes) = length cs" for cs
  proof (induction cs)
    case (Cons c cs)
    then show ?case by (cases "qc_outcome c") (simp_all add: all_outcomes_def)
  qed (simp add: all_outcomes_def)
  then show ?thesis by (simp add: outcome_counts_def count_outcomes_def comp_def)
qed

section \<open>What a verified conversion is\<close>

text \<open>Two results are the same when they have as many rows and some renaming of columns makes the rows
  agree, as lists or as multisets; above eight columns, only the identity.\<close>

definition same_result :: "(rat \<Rightarrow> rat) \<Rightarrow> bool \<Rightarrow> db_value list list \<Rightarrow> db_value list list \<Rightarrow> bool" where
  "same_result fl ordered actual expected \<longleftrightarrow>
     length actual = length expected \<and>
     (let w = length (hd expected); A = map (map (canonical fl)) actual; E = map (map (canonical fl)) expected in
      expected = [] \<or> uniform w expected \<and> uniform w actual \<and>
        (if w \<le> max_columns_for_permutation then same_answer ordered w A E else agree ordered A E))"

lemma agree_unordered: "agree b xs ys \<Longrightarrow> agree False xs ys"
  by (auto simp: agree_def simp del: map_map split: if_splits)

lemma same_result_unordered: "same_result fl b actual expected \<Longrightarrow> same_result fl False actual expected"
  unfolding same_result_def Let_def same_answer_def using agree_unordered by (auto split: if_splits)

lemma compare_rows_same:
  "inj (gv_pr V) \<Longrightarrow> cmp_matched (compare_rows V gold order actual expected) \<longleftrightarrow>
   same_result (gv_fl V) (case order of None \<Rightarrow> order_matters (gv_sqlglot V) gold | Some b \<Rightarrow> b) actual expected"
  unfolding compare_rows_def same_result_def Let_def by (rule compare_matched_iff) simp_all

text \<open>An excuse: the order keys tie across the cut on SQLite, and without the limit the engines agree.\<close>

definition excused :: "('n, 'm) gold_env \<Rightarrow> string \<Rightarrow> int \<Rightarrow> string list \<Rightarrow> string \<Rightarrow> bool" where
  "excused V schema timeout known gold \<longleftrightarrow>
     limit_cut_is_tied V gold = Inr True \<and>
     (\<exists>bare expected translated actual.
        without_limit (gv_rw V) gold = Inr (Some bare) \<and> run_sqlite V bare = Inr expected \<and>
        transpile_to_postgres (gv_rw V) known bare = Inr translated \<and>
        run_pg V schema timeout translated = Inr actual \<and> same_result (gv_fl V) False actual expected)"

lemma undetermined_excused:
  "inj (gv_pr V) \<Longrightarrow> limit_is_undetermined V schema timeout known gold = Inr True \<Longrightarrow> excused V schema timeout known gold"
  unfolding limit_is_undetermined_def excused_def
  by (auto simp: compare_rows_same split: sum.splits bool.splits option.splits)

lemma judge_rows_sound:
  assumes "inj (gv_pr V)" "judge_rows V schema timeout known q translated actual expected = Inr c"
  shows "qc_outcome c \<in> {OMatch, OAmbiguousOrder} \<and> same_result (gv_fl V) False actual expected
    \<or> qc_outcome c = OUndeterminedLimit \<and> excused V schema timeout known (qn_gold_sql q)
    \<or> qc_outcome c = OMismatch"
  using assms(2)
  by (auto simp: judge_rows_def Let_def make_check_def compare_rows_same [OF assms(1)]
      dest: same_result_unordered undetermined_excused [OF assms(1)] split: if_splits sum.splits bool.splits)

lemma check_one_answered:
  "run_sqlite V (qn_gold_sql q) = Inr expected \<Longrightarrow> transpile_to_postgres (gv_rw V) known (qn_gold_sql q) = Inr translated \<Longrightarrow>
   run_pg V schema timeout translated = Inr actual \<Longrightarrow>
   check_one V schema timeout known q = judge_rows V schema timeout known q translated actual expected"
  by (simp add: check_one_def)

text \<open>A check that counts as a match is one both engines answered.\<close>

lemma matched_was_answered:
  assumes "check_one V schema timeout known q = Inr c" "qc_outcome c \<in> {OMatch, OAmbiguousOrder}"
  obtains expected translated actual where
    "run_sqlite V (qn_gold_sql q) = Inr expected" "transpile_to_postgres (gv_rw V) known (qn_gold_sql q) = Inr translated"
    "run_pg V schema timeout translated = Inr actual"
proof -
  have "classify_pg_error s \<notin> {OMatch, OAmbiguousOrder}" for s
    by (simp add: classify_pg_error_def split: option.splits)
  then show ?thesis using assms that
    by (auto simp: check_one_def make_check_def split: sum.splits prod.splits)
qed

text \<open>C31: a verified conversion reproduces the benchmark. When verification reports a database verified,
  every gold query that both engines answered gave the same result on both, up to the order of rows and
  of columns, or is excused by a tie: its order keys are equal across the cut of its LIMIT on SQLite
  alone and, without the LIMIT, both engines give the same rows. And at least one query did give
  the same result on both.\<close>

theorem verified_databases_agree:
  assumes pr: "inj (gv_pr V)" and run: "verify_database V qs schema timeout = Inr r" and ok: "verified r"
  shows "\<exists>known. schema_names (gv_database V) = Inr known \<and>
    (\<forall>q expected translated actual. q \<in> set qs \<longrightarrow> run_sqlite V (qn_gold_sql q) = Inr expected \<longrightarrow>
       transpile_to_postgres (gv_rw V) known (qn_gold_sql q) = Inr translated \<longrightarrow>
       run_pg V schema timeout translated = Inr actual \<longrightarrow>
       same_result (gv_fl V) False actual expected \<or> excused V schema timeout known (qn_gold_sql q)) \<and>
    (\<exists>q \<in> set qs. \<exists>expected translated actual. run_sqlite V (qn_gold_sql q) = Inr expected \<and>
       transpile_to_postgres (gv_rw V) known (qn_gold_sql q) = Inr translated \<and>
       run_pg V schema timeout translated = Inr actual \<and> same_result (gv_fl V) False actual expected)"
proof -
  obtain known where known: "schema_names (gv_database V) = Inr known"
    and checks: "list_all2 (\<lambda>q c. check_one V schema timeout known q = Inr c) qs (vr_checks r)"
    using run check_all_map by (auto simp: verify_database_Inr)
  have each: "same_result (gv_fl V) False actual expected \<or> excused V schema timeout known (qn_gold_sql q)"
    if q: "q \<in> set qs" and a: "run_sqlite V (qn_gold_sql q) = Inr expected"
      "transpile_to_postgres (gv_rw V) known (qn_gold_sql q) = Inr translated" "run_pg V schema timeout translated = Inr actual"
    for q expected translated actual
  proof -
    obtain c where c: "c \<in> set (vr_checks r)" "check_one V schema timeout known q = Inr c"
      using list_all2_left [OF checks q] by blast
    then have "judge_rows V schema timeout known q translated actual expected = Inr c"
      using check_one_answered [OF a] by simp
    from judge_rows_sound [OF pr this] show ?thesis using ok c(1) by (auto simp: verified_iff)
  qed
  obtain c where c: "c \<in> set (vr_checks r)" "qc_outcome c \<in> {OMatch, OAmbiguousOrder}"
    using ok by (auto simp: verified_iff)
  then obtain q where q: "q \<in> set qs" "check_one V schema timeout known q = Inr c"
    using list_all2_right [OF checks] by blast
  obtain expected translated actual where a: "run_sqlite V (qn_gold_sql q) = Inr expected"
      "transpile_to_postgres (gv_rw V) known (qn_gold_sql q) = Inr translated" "run_pg V schema timeout translated = Inr actual"
    using matched_was_answered [OF q(2) c(2)] .
  have "judge_rows V schema timeout known q translated actual expected = Inr c"
    using check_one_answered [OF a] q(2) by simp
  from judge_rows_sound [OF pr this] c(2) have "same_result (gv_fl V) False actual expected" by auto
  with known each q(1) a show ?thesis by blast
qed

text \<open>A parser whose nodes are the texts, and two engines that answer alike.\<close>

definition text_rewriter :: "string rewriter" where
  "text_rewriter = \<lparr>rw_parse = (\<lambda>s. Inr [Some s]), rw_parse_one = Inr, rw_isa = (\<lambda>n c. c = NExpression), rw_this = id,
     rw_arg = (\<lambda>n k. None), rw_expressions = (\<lambda>n. []), rw_name = id, rw_quoted = (\<lambda>n. False), rw_is_string = (\<lambda>n. False),
     rw_replace = (\<lambda>c f n. n), rw_string = id, rw_ilike = id, rw_drop = (\<lambda>k n. n), rw_project = (\<lambda>n k. n),
     rw_postgres = Inr, rw_sqlite = Inr\<rparr>"

definition toy_gold :: "(toy_node, string) gold_env" where
  "toy_gold = \<lparr>gv_rw = text_rewriter, gv_sqlglot = toy (\<lambda>_. Inl []), gv_fl = (\<lambda>x. x), gv_pr = toy_repr,
     gv_sqlite = (\<lambda>s. Inr [[SInt 1], [SInt 2]]), gv_pg = (\<lambda>s n t. Inr (Some [[VInt 2], [VInt 1]])),
     gv_config = (\<lambda>k v. None), gv_database = toy_database\<rparr>"

definition toy_gold_question :: question where
  "toy_gold_question = \<lparr>qn_id = ''1'', qn_question = ''?'', qn_gold_sql = [], qn_dataset = ''d'', qn_split = DEV, qn_db_id = ''d''\<rparr>"

lemma gold_toy_names: "schema_names toy_database = Inr [''o'', ''i'', ''p'', ''r'']"
  by code_simp

theorem verified_databases_agree_witness:
  "same_result (\<lambda>x. x) False [[VInt 2], [VInt 1]] [[VFloat 1], [VInt 2]]
   \<and> (\<exists>r. verify_database toy_gold [toy_gold_question] ''s'' 5 = Inr r \<and> verified r)
   \<and> (same_result (\<lambda>x. x) False [[VInt 2], [VInt 1]] [[VInt 1], [VInt 2]]
      \<or> excused toy_gold ''s'' 5 [''o'', ''i'', ''p'', ''r''] [])"
proof -
  have same: "same_result (\<lambda>x. x) False [[VInt 2], [VInt 1]] [[VFloat 1], [VInt 2]]"
    "same_result (\<lambda>x. x) False [[VInt 2], [VInt 1]] [[VInt 1], [VInt 2]]"
    by (auto simp: same_result_def uniform_def max_columns_for_permutation_def same_answer_def agree_def reorder_def
        canonical_number_def intro!: exI [of _ "[0]"])
  have inj: "inj (gv_pr toy_gold)" by (simp add: toy_gold_def inj_toy_repr)
  have answers: "run_sqlite toy_gold (qn_gold_sql toy_gold_question) = Inr [[VInt 1], [VInt 2]]"
    "transpile_to_postgres (gv_rw toy_gold) known (qn_gold_sql toy_gold_question) = Inr []"
    "run_pg toy_gold ''s'' 5 [] = Inr [[VInt 2], [VInt 1]]" for known
    by (simp_all add: toy_gold_def run_sqlite_def run_pg_def transpile_to_postgres_def text_rewriter_def toy_gold_question_def
        cell_value_def repair_quoted_literals_def match_sqlite_like_def)
  have "check_one toy_gold ''s'' 5 known toy_gold_question =
      Inr (make_check toy_gold_question OMatch
        (Some (cmp_verdict (compare_rows toy_gold (Some []) None [[VInt 2], [VInt 1]] [[VInt 1], [VInt 2]]))) [] [])" for known
    unfolding check_one_answered [OF answers] judge_rows_def Let_def compare_rows_same [OF inj]
    using same(2) by (simp add: toy_gold_def toy_gold_question_def order_matters_def truthy_def)
  then obtain r where r: "verify_database toy_gold [toy_gold_question] ''s'' 5 = Inr r" "verified r"
    using gold_toy_names by (auto simp: verify_database_def toy_gold_def verified_iff make_check_def)
  from verified_databases_agree [OF inj r] answers show ?thesis
    using same r gold_toy_names by (auto simp: toy_gold_def toy_gold_question_def)
qed

section \<open>The gold file\<close>

text \<open>\<open>_write_jsonl\<close> of \<open>src/benchmark/load.py\<close>.\<close>

definition write_jsonl :: "(rat \<Rightarrow> string) \<Rightarrow> json list \<Rightarrow> string" where
  "write_jsonl fr js = concat (map (\<lambda>j. render_json fr spaced 0 j @ [newline]) js)"

definition check_entry :: "verification \<Rightarrow> query_check \<Rightarrow> gold_entry" where
  "check_entry r c = \<lparr>ge_question_id = qc_question_id c, ge_sql = qc_postgres_sql c, ge_outcome = outcome_value (qc_outcome c),
     ge_scoreable = (qc_outcome c \<in> set comparable_outcomes), ge_db_id = vr_db_id r, ge_schema = vr_schema r\<rparr>"

definition all_checks :: "verification list \<Rightarrow> (verification \<times> query_check) list" where
  "all_checks rs = concat (map (\<lambda>r. map (Pair r) (vr_checks r)) rs)"

lemma gold_lines_all: "concat (map gold_lines rs) = map (\<lambda>(r, c). gold_line r c) (all_checks rs)"
  by (induction rs) (simp_all add: all_checks_def gold_lines_def)

lemma gold_line_ok: "json_ok (gold_line r c)"
  by (simp add: gold_line_def)

lemma gold_line_ascii: "ascii_line (render_json fr spaced 0 (gold_line r c))"
  by (simp add: gold_line_def spaced_def) (simp add: code_def)

lemma gold_line_not_blank: "strip (render_json fr spaced 0 (gold_line r c)) \<noteq> []"
proof -
  have brace: "\<not> py_space (CHR ''{'')" "\<not> py_space (CHR ''}'')" by (simp_all add: py_space_def code_def)
  obtain m where "render_json fr spaced 0 (gold_line r c) = CHR ''{'' # m @ ''}''"
    by (simp add: gold_line_def spaced_def)
  then show ?thesis using brace by (simp add: strip_def lstrip_def rstrip_def)
qed

lemma set_sorted_texts: "set (sorted_texts xs) = set xs"
  by (simp add: sorted_texts_def)

lemma read_gold_written:
  assumes F: "float_reads rd fr"
  shows "\<exists>d. object_on_line rd why path n [''question_id'', ''outcome'', ''scoreable''] (render_json fr spaced 0 (gold_line r c)) = Inr d
     \<and> read_gold fr d = check_entry r c"
proof -
  obtain d where d: "gold_line r c = JObj d" by (simp add: gold_line_def)
  have raw: "loads rd (render_json fr spaced 0 (gold_line r c)) = Some (gold_line r c)"
    by (rule loads_render [OF _ F gold_line_ok]) simp
  have read: "loads rd (render_json fr spaced 0 (gold_line r c)) = Some (JObj d)"
    by (rule trans [OF raw]) (simp add: d)
  have "dict_get d k \<noteq> None" if "k \<in> set [''question_id'', ''outcome'', ''scoreable'']" for k
    using that d by (auto simp: gold_line_def)
  then have "filter (\<lambda>k. dict_get d k = None) (sorted_texts [''question_id'', ''outcome'', ''scoreable'']) = []"
    unfolding filter_empty_conv set_sorted_texts by blast
  then have "object_on_line rd why path n [''question_id'', ''outcome'', ''scoreable''] (render_json fr spaced 0 (gold_line r c)) = Inr d"
    unfolding object_on_line_def read by simp
  moreover have "read_gold fr d = check_entry r c"
    using d by (auto simp: gold_line_def read_gold_def check_entry_def entry_of_def of_option_def json_str_def)
  ultimately show ?thesis by blast
qed

text \<open>A check that can be scored carries a query.\<close>

definition carries_sql :: "query_check \<Rightarrow> bool" where
  "carries_sql c \<longleftrightarrow> (qc_outcome c \<in> set comparable_outcomes \<longrightarrow> strip (qc_postgres_sql c) \<noteq> [])"

lemma gold_loop_written:
  assumes F: "float_reads rd fr"
  shows "list_all (\<lambda>(r, c). carries_sql c) rcs \<Longrightarrow> distinct (map fst es @ map (\<lambda>(r, c). qc_question_id c) rcs) \<Longrightarrow>
    gold_loop fr rd why path es n (map (\<lambda>(r, c). render_json fr spaced 0 (gold_line r c)) rcs)
      = Inr (es @ map (\<lambda>(r, c). (qc_question_id c, check_entry r c)) rcs)"
proof (induction rcs arbitrary: es n)
  case (Cons x rcs)
  obtain r c where x: "x = (r, c)" by (cases x)
  obtain d where d: "object_on_line rd why path n [''question_id'', ''outcome'', ''scoreable''] (render_json fr spaced 0 (gold_line r c)) = Inr d"
    "read_gold fr d = check_entry r c"
    using read_gold_written [OF F, of why path n r c] by blast
  have new: "dict_get es (qc_question_id c) = None" using Cons.prems x by (auto simp: map_of_eq_None_iff)
  have "dict_set es (qc_question_id c) e = es @ [(qc_question_id c, e)]" for e
    using new by (induction es) (auto split: if_splits)
  then have put: "dict_set es (qc_question_id c) e = es @ [(qc_question_id c, e)]" for e .
  have "gold_loop fr rd why path (es @ [(qc_question_id c, check_entry r c)]) (Suc n)
      (map (\<lambda>(r, c). render_json fr spaced 0 (gold_line r c)) rcs)
    = Inr ((es @ [(qc_question_id c, check_entry r c)]) @ map (\<lambda>(r, c). (qc_question_id c, check_entry r c)) rcs)"
    using Cons.prems x by (intro Cons.IH) auto
  moreover have "\<not> (ge_scoreable (check_entry r c) \<and> strip (ge_sql (check_entry r c)) = [])" "ge_question_id (check_entry r c) = qc_question_id c"
    using Cons.prems(1) x by (auto simp: check_entry_def carries_sql_def)
  ultimately show ?case using d new gold_line_not_blank put by (simp add: x Let_def)
qed simp

text \<open>The evaluation reads the gold file that verification wrote. Loading the file written for any number of
  databases gives one entry per check, in order, with its query, its outcome, its schema and the
  verdict that it can be scored, provided no question was checked twice and the queries of scoreable
  checks are not blank.\<close>

theorem gold_file_roundtrip:
  assumes "float_reads rd fr" "distinct (map (\<lambda>(r, c). qc_question_id c) (all_checks rs))"
    and "list_all (\<lambda>(r, c). carries_sql c) (all_checks rs)"
  shows "load_verified_gold fr rd why path (write_jsonl fr (concat (map gold_lines rs)))
    = Inr (map (\<lambda>(r, c). (qc_question_id c, check_entry r c)) (all_checks rs))"
proof -
  let ?lines = "map (\<lambda>(r, c). render_json fr spaced 0 (gold_line r c)) (all_checks rs)"
  have "write_jsonl fr (concat (map gold_lines rs)) = concat (map (\<lambda>l. l @ [newline]) ?lines)"
    by (simp add: write_jsonl_def gold_lines_all comp_def case_prod_beta)
  moreover have "\<forall>l \<in> set ?lines. \<forall>c \<in> set l. \<not> line_break c"
    using gold_line_ascii ascii_line_one_line by fastforce
  ultimately have "split_lines (write_jsonl fr (concat (map gold_lines rs))) = ?lines"
    using split_lines_written by metis
  then show ?thesis
    using gold_loop_written [OF assms(1,3), of "[]" why path 1] assms(2) by (simp add: load_verified_gold_def)
qed

definition toy_report :: verification where
  "toy_report = \<lparr>vr_db_id = ''d'', vr_schema = ''s'', vr_checks =
     [make_check toy_gold_question OMatch (Some MATCH) [] ''SELECT 1'',
      make_check (toy_gold_question\<lparr>qn_id := ''2''\<rparr>) OGoldError None ''no such table'' []]\<rparr>"

theorem gold_file_roundtrip_witness:
  "load_verified_gold show_ratio read_ratio (\<lambda>_. []) ''g'' (write_jsonl show_ratio (concat (map gold_lines [toy_report])))
   = Inr [(''1'', \<lparr>ge_question_id = ''1'', ge_sql = ''SELECT 1'', ge_outcome = ''match'', ge_scoreable = True, ge_db_id = ''d'', ge_schema = ''s''\<rparr>),
          (''2'', \<lparr>ge_question_id = ''2'', ge_sql = [], ge_outcome = ''gold_error'', ge_scoreable = False, ge_db_id = ''d'', ge_schema = ''s''\<rparr>)]"
proof -
  have "distinct (map (\<lambda>(r, c). qc_question_id c) (all_checks [toy_report]))" by code_simp
  moreover have "list_all (\<lambda>(r, c). carries_sql c) (all_checks [toy_report])" by code_simp
  moreover have "map (\<lambda>(r, c). (qc_question_id c, check_entry r c)) (all_checks [toy_report]) =
    [(''1'', \<lparr>ge_question_id = ''1'', ge_sql = ''SELECT 1'', ge_outcome = ''match'', ge_scoreable = True, ge_db_id = ''d'', ge_schema = ''s''\<rparr>),
     (''2'', \<lparr>ge_question_id = ''2'', ge_sql = [], ge_outcome = ''gold_error'', ge_scoreable = False, ge_db_id = ''d'', ge_schema = ''s''\<rparr>)]"
    by code_simp
  ultimately show ?thesis by (subst gold_file_roundtrip [OF ratios_read]) simp_all
qed

end
