(* ===== verification/Introspection.thy ===== *)
theory Introspection
  imports Indexer "HOL-Library.List_Lexorder"
begin

text \<open>
  Reading the schema out of PostgreSQL's catalog (\<open>src/schema/introspection.py\<close>). The three queries are
  definitions over the catalog relations they read: \<open>pg_class\<close> with its attributes, and \<open>pg_constraint\<close>,
  with the privileges of the connected role as fields. What a sampling query scans is an argument; the
  sampling queries that were sent are returned beside the result, since not sending them is the point.
\<close>

section \<open>The catalog\<close>

record pg_attribute =
  pa_name :: string
  pa_num :: int
  pa_type :: string
  pa_not_null :: bool
  pa_dropped :: bool
  pa_comment :: "string option"
  pa_readable :: bool

record pg_class =
  pc_oid :: nat
  pc_name :: string
  pc_namespace :: string
  pc_kind :: string
  pc_comment :: "string option"
  pc_readable :: bool
  pc_attributes :: "pg_attribute list"

record pg_constraint =
  pk_name :: string
  pk_type :: string
  pk_source :: nat
  pk_target :: nat
  pk_pairs :: "(int \<times> int) list"

text \<open>\<open>ct_scan\<close> gives the values of a column in the order a scan meets them, NULLs included, or the text of a
  driver error; \<open>ct_collate\<close> is the order of the database's collation.\<close>

record pg_catalog =
  ct_classes :: "pg_class list"
  ct_constraints :: "pg_constraint list"
  ct_scan :: "string \<Rightarrow> string \<Rightarrow> string \<Rightarrow> string + string option list"
  ct_collate :: "string list \<Rightarrow> string list"

definition relkinds :: "string list" where
  "relkinds = [''r'', ''p'', ''v'', ''m'', ''f'']"

definition listed :: "string \<Rightarrow> pg_class \<Rightarrow> bool" where
  "listed schema c \<longleftrightarrow> pc_namespace c = schema \<and> pc_kind c \<in> set relkinds \<and> pc_readable c"

definition listed_classes :: "pg_catalog \<Rightarrow> string \<Rightarrow> pg_class list" where
  "listed_classes C schema = sort_key (\<lambda>c. map code (pc_name c)) (filter (listed schema) (ct_classes C))"

definition tables_query :: "pg_catalog \<Rightarrow> string \<Rightarrow> (string \<times> string option) list" where
  "tables_query C schema = map (\<lambda>c. (pc_name c, pc_comment c)) (listed_classes C schema)"

definition shown :: "pg_attribute \<Rightarrow> bool" where
  "shown a \<longleftrightarrow> pa_num a > 0 \<and> \<not> pa_dropped a \<and> pa_readable a"

definition shown_attributes :: "pg_class \<Rightarrow> pg_attribute list" where
  "shown_attributes c = sort_key pa_num (filter shown (pc_attributes c))"

definition columns_query :: "pg_catalog \<Rightarrow> string \<Rightarrow> (string \<times> pg_attribute) list" where
  "columns_query C schema = concat (map (\<lambda>c. map (Pair (pc_name c)) (shown_attributes c)) (listed_classes C schema))"

definition class_of_oid :: "pg_catalog \<Rightarrow> nat \<Rightarrow> pg_class option" where
  "class_of_oid C i = find (\<lambda>c. pc_oid c = i) (ct_classes C)"

definition attribute_name :: "pg_class \<Rightarrow> int \<Rightarrow> string option" where
  "attribute_name c n = map_option pa_name (find (\<lambda>a. pa_num a = n) (pc_attributes c))"

text \<open>One row of the foreign-key query: the joins drop a pair whose tables or attributes are not there.\<close>

definition key_row ::
  "pg_catalog \<Rightarrow> string \<Rightarrow> pg_constraint \<Rightarrow> int \<times> int \<Rightarrow> foreign_key option" where
  "key_row C schema con pair =
     (case (class_of_oid C (pk_source con), class_of_oid C (pk_target con)) of
        (Some src, Some tgt) \<Rightarrow>
          (case (attribute_name src (fst pair), attribute_name tgt (snd pair)) of
             (Some a, Some b) \<Rightarrow>
               if pk_type con = ''f'' \<and> pc_namespace src = schema \<and> pc_readable src \<and> pc_readable tgt
               then Some \<lparr>from_table = pc_name src, from_column = a, to_table = pc_name tgt, to_column = b,
                      constraint_name = Some (pk_name con)\<rparr>
               else None
           | _ \<Rightarrow> None)
      | _ \<Rightarrow> None)"

definition foreign_keys_query :: "pg_catalog \<Rightarrow> string \<Rightarrow> foreign_key list" where
  "foreign_keys_query C schema =
     somes (map (\<lambda>(n, con, pair). key_row C schema con pair)
       (sort_key (\<lambda>(n, con, pair). map code (pk_name con)) (sort_key fst
         (concat (map (\<lambda>con. map (\<lambda>(n, pair). (n, con, pair)) (enumerate 1 (pk_pairs con))) (ct_constraints C))))))"

section \<open>The introspector\<close>

record introspector =
  in_schema :: string
  in_sample_values :: bool
  in_sample_count :: nat
  in_sample_max_chars :: nat
  in_sample_scan_limit :: nat
  in_patterns :: "string list"

definition make_introspector ::
  "bool \<Rightarrow> string \<Rightarrow> bool \<Rightarrow> nat \<Rightarrow> nat \<Rightarrow> nat \<Rightarrow> string list \<Rightarrow> exn + introspector" where
  "make_introspector autocommit schema sample_values how_many max_chars scan_limit patterns =
     (if sample_values \<and> \<not> autocommit
      then Inl (OtherError ''ValueError'' ''sampling requires an autocommit connection'')
      else Inr \<lparr>in_schema = schema, in_sample_values = (sample_values \<and> how_many > 0), in_sample_count = how_many,
        in_sample_max_chars = max_chars, in_sample_scan_limit = scan_limit, in_patterns = patterns\<rparr>)"

definition column_sample_query :: "pg_catalog \<Rightarrow> introspector \<Rightarrow> string \<Rightarrow> string \<Rightarrow> string + string list" where
  "column_sample_query C I tab col =
     (case ct_scan C (in_schema I) tab col of
        Inl m \<Rightarrow> Inl m
      | Inr cells \<Rightarrow>
          Inr (take (in_sample_count I) (ct_collate C (remdups (map (take (in_sample_max_chars I))
            (take (in_sample_scan_limit I) (somes cells)))))))"

text \<open>The second component lists the columns whose rows were read.\<close>

definition samples :: "pg_catalog \<Rightarrow> introspector \<Rightarrow> string \<Rightarrow> string \<Rightarrow> string list \<times> (string \<times> string) list" where
  "samples C I tab col =
     (if \<not> in_sample_values I then ([], [])
      else if is_sensitive col (in_patterns I) then ([], [])
      else ((case column_sample_query C I tab col of Inl m \<Rightarrow> [] | Inr vs \<Rightarrow> vs), [(tab, col)]))"

definition read_column :: "pg_catalog \<Rightarrow> introspector \<Rightarrow> string \<times> pg_attribute \<Rightarrow> column" where
  "read_column C I r =
     \<lparr>col_table = fst r, col_name = pa_name (snd r), col_data_type = pa_type (snd r), col_is_nullable = (\<not> pa_not_null (snd r)),
      col_comment = pa_comment (snd r), col_sample_values = fst (samples C I (fst r) (pa_name (snd r)))\<rparr>"

definition columns_by_table :: "pg_catalog \<Rightarrow> introspector \<Rightarrow> (string, column list) dict" where
  "columns_by_table C I =
     foldl (\<lambda>d r. dict_set d (fst r) (of_option [] (dict_get d (fst r)) @ [read_column C I r])) []
       (columns_query C (in_schema I))"

definition snapshot :: "pg_catalog \<Rightarrow> introspector \<Rightarrow> schema_snapshot \<times> (string \<times> string) list" where
  "snapshot C I =
     (let by_table = columns_by_table C I in
      (\<lparr>snap_tables = map (\<lambda>(name, comment). \<lparr>tab_name = name, tab_comment = comment,
            tab_columns = of_option [] (dict_get by_table name)\<rparr>) (tables_query C (in_schema I)),
        snap_foreign_keys = foreign_keys_query C (in_schema I)\<rparr>,
       concat (map (\<lambda>r. snd (samples C I (fst r) (pa_name (snd r)))) (columns_query C (in_schema I)))))"

section \<open>Facts\<close>

text \<open>What the catalog and the collation promise: \<open>pg_class\<close> has one row per name and namespace, and a
  collation only reorders.\<close>

definition catalog_ok :: "pg_catalog \<Rightarrow> bool" where
  "catalog_ok C \<longleftrightarrow> distinct (map (\<lambda>c. (pc_namespace c, pc_name c)) (ct_classes C)) \<and> (\<forall>xs. mset (ct_collate C xs) = mset xs)"

lemma group_columns:
  "dict_get (foldl (\<lambda>d r. dict_set d (fst r) (of_option [] (dict_get d (fst r)) @ [f r])) d rs) k =
     (let here = map f (filter (\<lambda>r. fst r = k) rs) in
      if here = [] then dict_get d k else Some (of_option [] (dict_get d k) @ here))"
  by (induction rs arbitrary: d) (auto simp: Let_def of_option_def)

lemma listed_distinct:
  assumes "catalog_ok C"
  shows "distinct (map pc_name (listed_classes C schema))"
proof -
  have "distinct (map (\<lambda>c. (pc_namespace c, pc_name c)) (filter (listed schema) (ct_classes C)))"
    using assms by (simp add: catalog_ok_def distinct_map_filter)
  then have "distinct (map pc_name (filter (listed schema) (ct_classes C)))"
    by (auto simp: distinct_map inj_on_def listed_def)
  moreover have "mset (map pc_name (listed_classes C schema)) = mset (map pc_name (filter (listed schema) (ct_classes C)))"
    by (simp add: listed_classes_def)
  ultimately show ?thesis using mset_eq_imp_distinct_iff by metis
qed

lemma columns_of_one:
  "distinct (map pc_name cs) \<Longrightarrow> c \<in> set cs \<Longrightarrow>
   filter (\<lambda>r. fst r = pc_name c) (concat (map (\<lambda>c. map (Pair (pc_name c)) (shown_attributes c)) cs))
     = map (Pair (pc_name c)) (shown_attributes c)"
proof (induction cs)
  case (Cons d cs)
  have other: "filter (\<lambda>r. fst r = pc_name d) (concat (map (\<lambda>c. map (Pair (pc_name c)) (shown_attributes c)) cs)) = []"
  proof -
    have "pc_name c \<noteq> pc_name d" if "c \<in> set cs" for c using Cons.prems(1) that by (auto simp: image_iff)
    then show ?thesis by (auto simp: filter_empty_conv)
  qed
  show ?case
  proof (cases "c = d")
    case True
    then show ?thesis using other by (simp add: filter_map comp_def)
  next
    case False
    then have c: "c \<in> set cs" "pc_name d \<noteq> pc_name c" using Cons.prems by auto
    then show ?thesis using Cons by (simp add: filter_map comp_def)
  qed
qed simp

definition read_table_of :: "pg_catalog \<Rightarrow> introspector \<Rightarrow> pg_class \<Rightarrow> table" where
  "read_table_of C I c = \<lparr>tab_name = pc_name c, tab_comment = pc_comment c,
     tab_columns = map (\<lambda>a. read_column C I (pc_name c, a)) (shown_attributes c)\<rparr>"

lemma snapshot_tables:
  assumes "catalog_ok C"
  shows "snap_tables (fst (snapshot C I)) = map (read_table_of C I) (listed_classes C (in_schema I))"
proof -
  have "of_option [] (dict_get (columns_by_table C I) (pc_name c)) = map (\<lambda>a. read_column C I (pc_name c, a)) (shown_attributes c)"
    if "c \<in> set (listed_classes C (in_schema I))" for c
    using columns_of_one [OF listed_distinct [OF assms] that]
    unfolding columns_by_table_def columns_query_def group_columns Let_def
    by (auto simp: of_option_def comp_def)
  then show ?thesis by (simp add: snapshot_def Let_def tables_query_def read_table_of_def)
qed

lemma column_sample_bounded:
  assumes "catalog_ok C" "column_sample_query C I tab col = Inr vs"
  shows "length vs \<le> in_sample_count I \<and> (\<forall>v \<in> set vs. length v \<le> in_sample_max_chars I)"
proof -
  obtain ws where ws: "vs = take (in_sample_count I) (ct_collate C (remdups (map (take (in_sample_max_chars I)) ws)))"
    using assms(2) by (auto simp: column_sample_query_def split: sum.splits)
  have "set (ct_collate C xs) = set xs" for xs using assms(1) by (metis catalog_ok_def set_mset_mset)
  then have "set vs \<subseteq> set (map (take (in_sample_max_chars I)) ws)" unfolding ws by (metis set_remdups set_take_subset)
  then show ?thesis using ws by auto
qed

lemma samples_bounded:
  "catalog_ok C \<Longrightarrow> length (fst (samples C I tab col)) \<le> in_sample_count I \<and>
     (\<forall>v \<in> set (fst (samples C I tab col)). length v \<le> in_sample_max_chars I)"
  using column_sample_bounded [of C I tab col] by (auto simp: samples_def split: sum.splits)

text \<open>What may be sampled.\<close>

definition sampleable :: "introspector \<Rightarrow> string \<Rightarrow> bool" where
  "sampleable I col \<longleftrightarrow> in_sample_values I \<and> \<not> is_sensitive col (in_patterns I)"

text \<open>C32: the snapshot is what the role can read, and only that. Its tables are exactly the tables and views of the
  schema the role can select from, in the order of their names, each with exactly its live columns the
  role can select, in their order; and rows are read only when sampling is enabled, only of columns
  whose name is not sensitive: every other column carries no sample and had no query sent for it. What
  a sample shows is at most the configured number of values of at most the configured length.\<close>

theorem snapshot_is_what_is_readable:
  assumes "catalog_ok C" and "snapshot C I = (snap, sampled)"
  shows "map (\<lambda>t. (tab_name t, map (\<lambda>c. (col_name c, col_data_type c)) (tab_columns t))) (snap_tables snap) =
       map (\<lambda>c. (pc_name c, map (\<lambda>a. (pa_name a, pa_type a)) (shown_attributes c))) (listed_classes C (in_schema I)) \<and>
    (\<forall>t \<in> set (snap_tables snap). \<forall>c \<in> set (tab_columns t). col_table c = tab_name t \<and>
       (sampleable I (col_name c) \<or> col_sample_values c = []) \<and>
       length (col_sample_values c) \<le> in_sample_count I \<and>
       (\<forall>v \<in> set (col_sample_values c). length v \<le> in_sample_max_chars I)) \<and>
    (\<forall>(tab, col) \<in> set sampled. sampleable I col)"
proof (intro conjI)
  have tabs: "snap_tables snap = map (read_table_of C I) (listed_classes C (in_schema I))"
    using snapshot_tables [OF assms(1), of I] assms(2) by simp
  then show "map (\<lambda>t. (tab_name t, map (\<lambda>c. (col_name c, col_data_type c)) (tab_columns t))) (snap_tables snap) =
       map (\<lambda>c. (pc_name c, map (\<lambda>a. (pa_name a, pa_type a)) (shown_attributes c))) (listed_classes C (in_schema I))"
    by (simp add: read_table_of_def read_column_def comp_def)
  have gate: "fst (samples C I tab col) = [] \<or> sampleable I col" for tab col
    by (simp add: samples_def sampleable_def)
  show "\<forall>t \<in> set (snap_tables snap). \<forall>c \<in> set (tab_columns t). col_table c = tab_name t \<and>
       (sampleable I (col_name c) \<or> col_sample_values c = []) \<and>
       length (col_sample_values c) \<le> in_sample_count I \<and>
       (\<forall>v \<in> set (col_sample_values c). length v \<le> in_sample_max_chars I)"
    using gate samples_bounded [OF assms(1)] by (auto simp: tabs read_table_of_def read_column_def)
  have "sampled = concat (map (\<lambda>r. snd (samples C I (fst r) (pa_name (snd r)))) (columns_query C (in_schema I)))"
    using assms(2) by (auto simp: snapshot_def Let_def)
  then show "\<forall>(tab, col) \<in> set sampled. sampleable I col"
    by (auto simp: samples_def sampleable_def split: if_splits)
qed

definition toy_attribute :: "string \<Rightarrow> int \<Rightarrow> bool \<Rightarrow> pg_attribute" where
  "toy_attribute name n readable = \<lparr>pa_name = name, pa_num = n, pa_type = ''text'', pa_not_null = False, pa_dropped = False,
     pa_comment = None, pa_readable = readable\<rparr>"

definition toy_class :: "nat \<Rightarrow> string \<Rightarrow> string \<Rightarrow> bool \<Rightarrow> pg_class" where
  "toy_class i name space readable = \<lparr>pc_oid = i, pc_name = name, pc_namespace = space, pc_kind = ''r'', pc_comment = None,
     pc_readable = readable, pc_attributes = [toy_attribute ''email'' 2 True, toy_attribute ''city'' 1 True, toy_attribute ''x'' 3 False]\<rparr>"

definition toy_pg_catalog :: pg_catalog where
  "toy_pg_catalog = \<lparr>ct_classes = [toy_class 1 ''u'' ''s'' True, toy_class 2 ''hidden'' ''s'' False, toy_class 3 ''far'' ''elsewhere'' True],
     ct_constraints = [\<lparr>pk_name = ''fk'', pk_type = ''f'', pk_source = 1, pk_target = 3, pk_pairs = [(1, 2)]\<rparr>],
     ct_scan = (\<lambda>s t c. Inr [Some ''Paris'', None, Some ''Oslo'', Some ''Paris'']), ct_collate = (\<lambda>xs. sort_key (map code) xs)\<rparr>"

definition toy_introspector :: introspector where
  "toy_introspector = \<lparr>in_schema = ''s'', in_sample_values = True, in_sample_count = 3, in_sample_max_chars = 4,
     in_sample_scan_limit = 10, in_patterns = [''email'']\<rparr>"

text \<open>A key into another schema is reported by the bare name of its target.\<close>

lemma cross_schema_key_reported:
  "map to_table (foreign_keys_query toy_pg_catalog ''s'') = [''far'']"
  "map fst (tables_query toy_pg_catalog ''s'') = [''u'']"
  by code_simp+

lemma toy_catalog_ok: "catalog_ok toy_pg_catalog"
  by (simp add: catalog_ok_def toy_pg_catalog_def toy_class_def)

theorem snapshot_is_what_is_readable_witness:
  "snd (snapshot toy_pg_catalog toy_introspector) = [(''u'', ''city'')]
   \<and> sampleable toy_introspector ''city''
   \<and> map tab_name (snap_tables (fst (snapshot toy_pg_catalog toy_introspector))) = [''u'']"
proof -
  let ?x = "snapshot toy_pg_catalog toy_introspector"
  have e: "snd ?x = [(''u'', ''city'')]" by code_simp
  have l: "map pc_name (listed_classes toy_pg_catalog (in_schema toy_introspector)) = [''u'']" by code_simp
  note p = snapshot_is_what_is_readable [OF toy_catalog_ok prod.collapse [symmetric], of toy_introspector]
  have "map fst (map (\<lambda>t. (tab_name t, map (\<lambda>c. (col_name c, col_data_type c)) (tab_columns t))) (snap_tables (fst ?x)))
      = map pc_name (listed_classes toy_pg_catalog (in_schema toy_introspector))"
    by (simp only: p [THEN conjunct1]) (simp add: comp_def)
  then have "map tab_name (snap_tables (fst ?x)) = map pc_name (listed_classes toy_pg_catalog (in_schema toy_introspector))"
    by (simp add: comp_def)
  with e l p show ?thesis by simp
qed

end
