(* ===== verification/LoaderCommands.thy ===== *)
theory LoaderCommands
  imports Readers GoldCheck Loading Introspection Dsn
begin

text \<open>
  The loader's commands (\<open>src/benchmark/load.py\<close>, except \<open>acquire\<close>): convert, verify, index and splits
  over the conversion, the gold check, the introspector with the indexer, and the split policy. A
  command returns its exit code with what it prints, and the files it leaves. Opening a SQLite file,
  the PostgreSQL server of each schema and the connections are arguments.
\<close>

section \<open>Shared\<close>

definition exit_ok :: nat where "exit_ok = 0"
definition exit_error :: nat where "exit_error = 1"
definition exit_usage :: nat where "exit_usage = 2"
definition exit_unverified :: nat where "exit_unverified = 3"

text \<open>\<open>xs[:n]\<close>.\<close>

definition slice_to :: "int \<Rightarrow> 'a list \<Rightarrow> 'a list" where
  "slice_to n xs = (if n \<ge> 0 then take (nat n) xs else take (length xs - nat (- n)) xs)"

definition select_databases ::
  "(string, path) dict \<Rightarrow> string list option \<Rightarrow> int option \<Rightarrow> exn + (string, path) dict" where
  "select_databases found only limit =
     (let names = of_option [] only; missing = filter (\<lambda>n. dict_get found n = None) names in
      if names \<noteq> [] \<and> missing \<noteq> []
      then Inl (BenchmarkError (''no such database(s): '' @ list_repr (sorted_texts missing)))
      else let chosen = (if names \<noteq> [] then map (\<lambda>n. (n, the (dict_get found n))) (fromkeys names) else found) in
        Inr (case limit of None \<Rightarrow> chosen | Some n \<Rightarrow> slice_to n chosen))"

definition write_report :: "(rat \<Rightarrow> string) \<Rightarrow> path option \<Rightarrow> json \<Rightarrow> files \<Rightarrow> files" where
  "write_report fr p body fs =
     (case p of None \<Rightarrow> fs | Some q \<Rightarrow> dict_set fs q (render_json fr (indented 2) 0 body @ [newline]))"

text \<open>\<open>Path.stem\<close> of a file name.\<close>

definition file_stem :: "string \<Rightarrow> string" where
  "file_stem name =
     (let tail = takeWhile (\<lambda>c. c \<noteq> CHR ''.'') (rev name); front = drop (length tail + 1) (rev name) in
      if CHR ''.'' \<in> set name \<and> tail \<noteq> [] \<and> front \<noteq> [] then rev front else name)"

record text_env =
  tx_fr :: "rat \<Rightarrow> string"
  tx_rd :: "string \<Rightarrow> rat"
  tx_why :: "string \<Rightarrow> string"
  tx_missing :: "path \<Rightarrow> string"

definition read_benchmark ::
  "text_env \<Rightarrow> string \<Rightarrow> files \<Rightarrow> path \<Rightarrow> exn + question list" where
  "read_benchmark T benchmark fs p =
     (let content = (case dict_get fs p of None \<Rightarrow> Inl (tx_missing T p) | Some s \<Rightarrow> Inr s) in
      if benchmark = ''spider''
      then read_spider (tx_fr T) (tx_rd T) (tx_why T) ''spider'' (show_path p) (file_stem (last p)) content
      else read_bird (tx_fr T) (tx_rd T) (tx_why T) ''bird'' (show_path p) (file_stem (last p)) content)"

fun read_each :: "('a \<Rightarrow> exn + 'b list) \<Rightarrow> 'a list \<Rightarrow> exn + 'b list" where
  "read_each f [] = Inr []"
| "read_each f (x # xs) =
     (case f x of
        Inl e \<Rightarrow> Inl e
      | Inr ys \<Rightarrow> (case read_each f xs of Inl e \<Rightarrow> Inl e | Inr zs \<Rightarrow> Inr (ys @ zs)))"

definition read_questions :: "text_env \<Rightarrow> string \<Rightarrow> files \<Rightarrow> path list \<Rightarrow> exn + question list" where
  "read_questions T benchmark fs paths =
     (case read_each (read_benchmark T benchmark fs) paths of
        Inl e \<Rightarrow> Inl e
      | Inr [] \<Rightarrow> Inl (BenchmarkError ''no questions were read'')
      | Inr (q # qs) \<Rightarrow> Inr (q # qs))"

text \<open>\<open>_open\<close>: \<open>connect\<close> is the driver, which is given the timeout in seconds.\<close>

definition open_connection ::
  "(string \<Rightarrow> int \<Rightarrow> string + 'c) \<Rightarrow> int \<Rightarrow> string option \<Rightarrow> string \<Rightarrow> exn + 'c" where
  "open_connection connect timeout_ms url variable =
     (case url of
        None \<Rightarrow> Inl (ConfigurationError (variable @ '' is required for this command''))
      | Some u \<Rightarrow>
         (case connect (libpq_dsn u) (max 1 (timeout_ms div 1000)) of
            Inl m \<Rightarrow> Inl (ConfigurationError (''could not connect using '' @ variable @ '': '' @ strip (redact_dsn m)))
          | Inr c \<Rightarrow> Inr c))"

text \<open>\<open>main\<close>: what becomes of an exception.\<close>

definition main_exit :: "exn + nat \<Rightarrow> exn + nat" where
  "main_exit r =
     (case r of
        Inr n \<Rightarrow> Inr n
      | Inl e \<Rightarrow>
          if isinst e CBenchmarkError \<or> isinst e CConfigurationError \<or> type_name e = ''KeyError'' then Inr exit_error
          else if isinst e CDriverError
          then (case first_message_line (exn_str e) of Inl f \<Rightarrow> Inl f | Inr l \<Rightarrow> Inr exit_error)
          else Inl e)"

section \<open>Convert\<close>

record convert_args =
  cv_databases :: path
  cv_prefix :: string
  cv_only :: "string list option"
  cv_limit :: "int option"
  cv_replace :: bool
  cv_keep_going :: bool
  cv_report :: "path option"

record convert_env =
  cn_runtime :: runtime
  cn_open :: "path \<Rightarrow> string \<Rightarrow> exn + sqlite_database"
  cn_server :: "string \<Rightarrow> pg_server"
  cn_role :: string
  cn_connected :: "exn option"
  cn_text :: text_env

definition convert_one :: "convert_env \<Rightarrow> convert_args \<Rightarrow> string \<times> path \<Rightarrow> exn + json" where
  "convert_one V a found =
     (case cn_open V (snd found) (fst found) of
        Inl e \<Rightarrow> Inl e
      | Inr db \<Rightarrow>
         (case plan_database (cn_runtime V) db (cv_prefix a) of
            Inl e \<Rightarrow> Inl e
          | Inr (schema, plans) \<Rightarrow>
             (case convert_database (cn_runtime V) (cn_server V schema) db schema plans (cn_role V) (cv_replace a) of
                Inl e \<Rightarrow> Inl e
              | Inr (report, sent) \<Rightarrow> Inr (report_json report))))"

fun convert_all :: "bool \<Rightarrow> (string \<times> path \<Rightarrow> exn + json) \<Rightarrow> (string \<times> path) list \<Rightarrow> exn + json list \<times> nat" where
  "convert_all keep f [] = Inr ([], 0)"
| "convert_all keep f (x # xs) =
     (case f x of
        Inr report \<Rightarrow>
          (case convert_all keep f xs of Inl e \<Rightarrow> Inl e | Inr (js, n) \<Rightarrow> Inr (report # js, n))
      | Inl e \<Rightarrow>
          if \<not> isinst e CBenchmarkError then Inl e
          else let report = JObj [(''db_id'', JStr (fst x)), (''error'', JStr (exn_str e))] in
            if \<not> keep then Inr ([report], 1)
            else (case convert_all keep f xs of Inl e \<Rightarrow> Inl e | Inr (js, n) \<Rightarrow> Inr (report # js, n + 1)))"

definition command_convert ::
  "convert_env \<Rightarrow> convert_args \<Rightarrow> files \<Rightarrow> (exn + nat \<times> json) \<times> files" where
  "command_convert V a fs =
     (let found = find_databases fs (cv_databases a) in
      if found = []
      then (Inl (BenchmarkError (''no <name>/<name>.sqlite databases under '' @ show_path (cv_databases a))), fs)
      else case select_databases found (cv_only a) (cv_limit a) of
        Inl e \<Rightarrow> (Inl e, fs)
      | Inr selected \<Rightarrow>
         (case cn_connected V of
            Some e \<Rightarrow> (Inl e, fs)
          | None \<Rightarrow>
             (case convert_all (cv_keep_going a) (convert_one V a) selected of
                Inl e \<Rightarrow> (Inl e, fs)
              | Inr (reports, failures) \<Rightarrow>
                  (Inr (if failures > 0 \<and> \<not> cv_keep_going a then exit_error else exit_ok,
                        JObj [(''databases'', JInt (int (length reports))), (''failures'', JInt (int failures))]),
                   write_report (tx_fr (cn_text V)) (cv_report a)
                     (JObj [(''converted'', JArr reports), (''failures'', JInt (int failures))]) fs))))"

section \<open>Verify\<close>

record verify_args =
  vf_databases :: path
  vf_questions :: "path list"
  vf_benchmark :: string
  vf_prefix :: string
  vf_only :: "string list option"
  vf_limit :: "int option"
  vf_per_database :: "int option"
  vf_report :: "path option"
  vf_emit_gold :: "path option"

record ('n, 'm) verify_env =
  ve_open :: "path \<Rightarrow> string \<Rightarrow> exn + sqlite_database"
  ve_gold :: "sqlite_database \<Rightarrow> ('n, 'm) gold_env"
  ve_timeout :: int
  ve_connected :: "exn option"
  ve_text :: text_env

definition questions_of :: "question list \<Rightarrow> string \<Rightarrow> question list" where
  "questions_of qs db_id = filter (\<lambda>q. qn_db_id q = db_id) qs"

definition checked_questions :: "verify_args \<Rightarrow> question list \<Rightarrow> string \<Rightarrow> question list" where
  "checked_questions a qs db_id =
     (case vf_per_database a of
        None \<Rightarrow> questions_of qs db_id
      | Some n \<Rightarrow> if n = 0 then questions_of qs db_id else slice_to n (questions_of qs db_id))"

definition verify_one ::
  "('n, 'm) verify_env \<Rightarrow> verify_args \<Rightarrow> question list \<Rightarrow> string \<times> path \<Rightarrow> exn + (string \<times> verification) list" where
  "verify_one V a qs found =
     (if questions_of qs (fst found) = [] then Inr []
      else case schema_name_for (fst found) (vf_prefix a) of
        Inl e \<Rightarrow> Inl e
      | Inr schema \<Rightarrow>
         (case ve_open V (snd found) (fst found) of
            Inl e \<Rightarrow> Inl e
          | Inr db \<Rightarrow>
             (case verify_database (ve_gold V db) (checked_questions a qs (fst found)) schema (ve_timeout V) of
                Inl e \<Rightarrow> Inl e
              | Inr r \<Rightarrow> Inr [(fst found, r)])))"

definition unverified_of :: "(string \<times> verification) list \<Rightarrow> string list" where
  "unverified_of rs = map fst (filter (\<lambda>x. \<not> verified (snd x)) rs)"

definition emit_gold :: "(rat \<Rightarrow> string) \<Rightarrow> path option \<Rightarrow> verification list \<Rightarrow> files \<Rightarrow> files" where
  "emit_gold fr p rs fs =
     (case p of None \<Rightarrow> fs | Some q \<Rightarrow> dict_set fs q (write_jsonl fr (concat (map gold_lines rs))))"

definition verify_exit :: "(string \<times> verification) list \<Rightarrow> nat" where
  "verify_exit rs = (if unverified_of rs \<noteq> [] then exit_unverified else if rs = [] then exit_unverified else exit_ok)"

definition command_verify ::
  "('n, 'm) verify_env \<Rightarrow> verify_args \<Rightarrow> files \<Rightarrow> (exn + nat \<times> json) \<times> files" where
  "command_verify V a fs =
     (let fr = tx_fr (ve_text V) in
      case read_questions (ve_text V) (vf_benchmark a) fs (vf_questions a) of
        Inl e \<Rightarrow> (Inl e, fs)
      | Inr qs \<Rightarrow>
     (case select_databases (find_databases fs (vf_databases a)) (vf_only a) (vf_limit a) of
        Inl e \<Rightarrow> (Inl e, fs)
      | Inr selected \<Rightarrow>
     (case ve_connected V of
        Some e \<Rightarrow> (Inl e, fs)
      | None \<Rightarrow>
     (case read_each (verify_one V a qs) selected of
        Inl e \<Rightarrow> (Inl e, fs)
      | Inr rs \<Rightarrow>
          (Inr (verify_exit rs,
             JObj [(''databases'', JInt (int (length rs))), (''unverified'', JArr (map JStr (unverified_of rs))),
               (''comparable'', JInt (int (sum_list (map (comparable \<circ> snd) rs)))),
               (''matched'', JInt (int (sum_list (map (matched_count \<circ> snd) rs))))]),
           write_report fr (vf_report a)
             (JObj [(''verified'', JArr (map (verification_json \<circ> snd) rs)), (''unverified'', JArr (map JStr (unverified_of rs)))])
             (emit_gold fr (vf_emit_gold a) (map snd rs) fs))))))"

section \<open>Splits\<close>

record splits_args =
  spl_questions :: "path list"
  spl_benchmark :: string
  spl_dataset :: string
  spl_out :: path
  spl_policy :: split_policy
  spl_reserve :: "path list option"

text \<open>\<open>SplitPolicy.__post_init__\<close>.\<close>

definition policy_error :: "(rat \<Rightarrow> string) \<Rightarrow> split_policy \<Rightarrow> exn option" where
  "policy_error fr p =
     (let sum = po_train p + po_dev p + po_held_out p in
      if abs (sum - 1) > 1 / 10 ^ 9 then Some (value_error (''split proportions must sum to 1.0, got '' @ fr sum))
      else if min (po_train p) (min (po_dev p) (po_held_out p)) < 0
      then Some (value_error ''split proportions must be non-negative'')
      else if \<not> (0 \<le> po_smoke p \<and> po_smoke p \<le> po_dev p)
      then Some (value_error (''smoke ('' @ fr (po_smoke p) @ '') must be between 0 and the dev share ('' @ fr (po_dev p)
        @ '') -- it is carved out of dev, not added alongside it''))
      else None)"

definition reserved_on_line :: "text_env \<Rightarrow> string \<Rightarrow> exn + string list" where
  "reserved_on_line T line =
     (if strip line = [] then Inr []
      else case loads (tx_rd T) line of
        None \<Rightarrow> Inl (OtherError ''JSONDecodeError'' (tx_why T line))
      | Some j \<Rightarrow> (case subscript j ''db_id'' of Inl e \<Rightarrow> Inl e | Inr v \<Rightarrow> Inr [json_str (tx_fr T) v]))"

definition reserved_in_file :: "text_env \<Rightarrow> files \<Rightarrow> path \<Rightarrow> exn + string list" where
  "reserved_in_file T fs p =
     (case dict_get fs p of
        None \<Rightarrow> Inl (OtherError ''FileNotFoundError'' (tx_missing T p))
      | Some s \<Rightarrow> read_each (reserved_on_line T) (split_lines s))"

definition reserved_databases :: "text_env \<Rightarrow> files \<Rightarrow> path list option \<Rightarrow> exn + string list" where
  "reserved_databases T fs paths =
     (case of_option [] paths of
        [] \<Rightarrow> Inr []
      | p # ps \<Rightarrow>
         (case read_each (reserved_in_file T fs) (p # ps) of
            Inl e \<Rightarrow> Inl e
          | Inr [] \<Rightarrow> Inl (BenchmarkError (''--reserve named '' @ list_repr (map show_path (p # ps)) @ '' but no db_id was found in them''))
          | Inr (n # ns) \<Rightarrow> Inr (n # ns)))"

definition split_file :: "splits_args \<Rightarrow> split \<Rightarrow> path" where
  "split_file a s = spl_out a @ [spl_dataset a @ ''-'' @ split_value s @ ''.jsonl'']"

definition split_subset :: "question list \<Rightarrow> split \<Rightarrow> question list" where
  "split_subset stamped s = filter (\<lambda>q. qn_split q = s) stamped"

definition used_splits :: "question list \<Rightarrow> split list" where
  "used_splits stamped = filter (\<lambda>s. split_subset stamped s \<noteq> []) [TRAIN, DEV, HELD_OUT, SMOKE]"

definition write_splits :: "(rat \<Rightarrow> string) \<Rightarrow> splits_args \<Rightarrow> question list \<Rightarrow> files \<Rightarrow> files" where
  "write_splits fr a stamped fs =
     foldl (\<lambda>fs s. dict_set fs (split_file a s) (write_questions fr (split_subset stamped s))) fs (used_splits stamped)"

definition assignment_file :: "splits_args \<Rightarrow> path" where
  "assignment_file a = spl_out a @ [spl_dataset a @ ''-assignment.json'']"

definition assignment_json :: "split_policy \<Rightarrow> (string, split) dict \<Rightarrow> json" where
  "assignment_json p assignment = JObj
     [(''seed'', JStr (po_seed p)),
      (''policy'', JObj [(''train'', JFloat (po_train p)), (''dev'', JFloat (po_dev p)), (''held_out'', JFloat (po_held_out p))]),
      (''databases'', JObj (map (\<lambda>(db, s). (db, JStr (split_value s))) (sort_key (\<lambda>(db, s). map code db) assignment)))]"

definition splits_summary :: "(string, split) dict \<Rightarrow> question list \<Rightarrow> json" where
  "splits_summary assignment stamped = JObj (map (\<lambda>s. (split_value s,
     JObj [(''databases'', JInt (int (fst (tally assignment stamped s)))),
           (''questions'', JInt (int (snd (tally assignment stamped s))))])) [TRAIN, DEV, HELD_OUT, SMOKE])"

definition command_splits ::
  "text_env \<Rightarrow> (string \<Rightarrow> nat) \<Rightarrow> splits_args \<Rightarrow> files \<Rightarrow> (exn + nat \<times> json) \<times> files" where
  "command_splits T digest a fs =
     (case read_questions T (spl_benchmark a) fs (spl_questions a) of
        Inl e \<Rightarrow> (Inl e, fs)
      | Inr qs \<Rightarrow>
     (case policy_error (tx_fr T) (spl_policy a) of
        Some e \<Rightarrow> (Inl e, fs)
      | None \<Rightarrow>
     (case reserved_databases T fs (spl_reserve a) of
        Inl e \<Rightarrow> (Inl e, fs)
      | Inr reserved \<Rightarrow>
         (let assignment = assign digest (spl_policy a) reserved (map qn_db_id qs) in
          if leaked_databases assignment reserved \<noteq> {} then (Inr (exit_usage, JNull), fs)
          else case apply_split assignment qs of
            Inl e \<Rightarrow> (Inl e, fs)
          | Inr stamped \<Rightarrow>
              (Inr (exit_ok, JObj
                 [(''files'', JObj (map (\<lambda>s. (show_path (split_file a s), JInt (int (length (split_subset stamped s))))) (used_splits stamped))),
                  (''summary'', splits_summary assignment stamped)]),
               dict_set (write_splits (tx_fr T) a stamped fs) (assignment_file a)
                 (render_json (tx_fr T) (indented 2) 0 (assignment_json (spl_policy a) assignment) @ [newline]))))))"

section \<open>Index\<close>

record index_args =
  ix_databases :: path
  ix_prefix :: string
  ix_only :: "string list option"
  ix_limit :: "int option"
  ix_report :: "path option"

record retrieval_settings =
  rs_sample_values :: bool
  rs_sample_count :: nat
  rs_sample_max_chars :: nat
  rs_sample_scan_limit :: nat
  rs_extra_sensitive_columns :: "string list"

record 'v index_env =
  ie_settings :: retrieval_settings
  ie_catalog :: pg_catalog
  ie_schemas :: "string list"
  ie_embedder :: "'v embedder"
  ie_width :: "string option"
  ie_connected :: "exn option"
  ie_text :: text_env

definition index_introspector :: "retrieval_settings \<Rightarrow> string \<Rightarrow> exn + introspector" where
  "index_introspector S schema =
     make_introspector True schema (rs_sample_values S) (rs_sample_count S) (rs_sample_max_chars S) (rs_sample_scan_limit S)
       default_sensitive_patterns"

definition index_one ::
  "'v index_env \<Rightarrow> index_args \<Rightarrow> string \<Rightarrow> 'v store \<Rightarrow> (exn + (string \<times> index_report) option) \<times> 'v store" where
  "index_one V a db_id S =
     (case schema_name_for db_id (ix_prefix a) of
        Inl e \<Rightarrow> (Inl e, S)
      | Inr schema \<Rightarrow>
          if schema \<notin> set (ie_schemas V) then (Inr None, S)
          else case index_introspector (ie_settings V) schema of
            Inl e \<Rightarrow> (Inl e, S)
          | Inr I \<Rightarrow>
             (let snap = fst (snapshot (ie_catalog V) I) in
              if snap_tables snap = []
              then (Inl (BenchmarkError (''schema '' @ py_repr schema @ '' exists but the read-only role can read no table in it. That is a GRANT problem, not a missing conversion -- re-run `convert --replace` for '' @ db_id @ '', or check DB_READONLY_ROLE.'')), S)
              else case index (ie_width V) schema default_sensitive_patterns (ie_embedder V) snap S of
                (Inl e, S') \<Rightarrow> (Inl e, S')
              | (Inr r, S') \<Rightarrow> (Inr (Some (schema, r)), S')))"

fun index_all ::
  "'v index_env \<Rightarrow> index_args \<Rightarrow> string list \<Rightarrow> 'v store
     \<Rightarrow> (exn + (string \<times> string \<times> index_report) list \<times> string list) \<times> 'v store" where
  "index_all V a [] S = (Inr ([], []), S)"
| "index_all V a (db_id # rest) S =
     (case index_one V a db_id S of
        (Inl e, S') \<Rightarrow> (Inl e, S')
      | (Inr one, S') \<Rightarrow>
         (case index_all V a rest S' of
            (Inl e, S2) \<Rightarrow> (Inl e, S2)
          | (Inr (reports, skipped), S2) \<Rightarrow>
             (case one of
                None \<Rightarrow> (Inr (reports, db_id # skipped), S2)
              | Some (schema, r) \<Rightarrow> (Inr ((db_id, schema, r) # reports, skipped), S2))))"

definition index_report_json :: "string \<times> string \<times> index_report \<Rightarrow> json" where
  "index_report_json x = (case x of (db_id, schema, r) \<Rightarrow> JObj
     [(''db_id'', JStr db_id), (''dataset'', JStr schema), (''model_version'', JStr (ir_model r)),
      (''tables'', JInt (int (ir_tables r))), (''columns'', JInt (int (ir_columns r))),
      (''elements_written'', JInt (int (ir_written r))), (''elements_removed'', JInt (int (ir_removed r))),
      (''foreign_keys'', JInt (int (ir_edges r)))])"

definition command_index ::
  "'v index_env \<Rightarrow> index_args \<Rightarrow> files \<Rightarrow> 'v store \<Rightarrow> (exn + nat \<times> json) \<times> files \<times> 'v store" where
  "command_index V a fs S =
     (case select_databases (find_databases fs (ix_databases a)) (ix_only a) (ix_limit a) of
        Inl e \<Rightarrow> (Inl e, fs, S)
      | Inr selected \<Rightarrow>
     (case ie_connected V of
        Some e \<Rightarrow> (Inl e, fs, S)
      | None \<Rightarrow>
     (case index_all V a (map fst selected) S of
        (Inl e, S') \<Rightarrow> (Inl e, fs, S')
      | (Inr (reports, skipped), S') \<Rightarrow>
          (Inr (if reports = [] then exit_error else exit_ok,
             JObj [(''databases'', JInt (int (length reports))), (''skipped'', JInt (int (length skipped))),
               (''elements'', JInt (int (sum_list (map (\<lambda>(d, s, r). ir_written r) reports)))),
               (''model_version'', JStr (em_model (ie_embedder V)))]),
           write_report (tx_fr (ie_text V)) (ix_report a)
             (JObj [(''indexed'', JArr (map index_report_json reports)), (''skipped'', JArr (map JStr skipped))]) fs, S'))))"

section \<open>Splits on disk\<close>

lemma split_file_inject: "split_file a s = split_file a s' \<longleftrightarrow> s = s'"
  by (cases s; cases s') (simp_all add: split_file_def split_value_def)

lemma split_file_not_assignment: "split_file a s \<noteq> assignment_file a"
  by (cases s) (simp_all add: split_file_def assignment_file_def split_value_def)

lemma written_files:
  "dict_get (foldl (\<lambda>fs s. dict_set fs (split_file a s) (f s)) fs ss) (split_file a s)
     = (if s \<in> set ss then Some (f s) else dict_get fs (split_file a s))"
  by (induction ss arbitrary: fs) (auto simp: split_file_inject)

definition stamp :: "(string \<Rightarrow> nat) \<Rightarrow> split_policy \<Rightarrow> string list \<Rightarrow> question \<Rightarrow> question" where
  "stamp digest rules reserved q = q\<lparr>qn_split := split_of digest rules (set reserved) (qn_db_id q)\<rparr>"

lemma apply_split_stamps:
  "(\<And>q. q \<in> set qs \<Longrightarrow> dict_get A (qn_db_id q) = Some (split_of digest rules (set reserved) (qn_db_id q))) \<Longrightarrow>
   apply_split A qs = Inr (map (stamp digest rules reserved) qs)"
  by (induction qs) (auto simp: stamp_def)

lemma reserved_never_leak: "leaked_databases (assign digest rules reserved ids) reserved = {}"
  by (auto simp: leaked_databases_def assign_def split_of_def)

lemma used_splits_iff: "s \<in> set (used_splits stamped) \<longleftrightarrow> (\<exists>q \<in> set stamped. qn_split q = s)"
  by (cases s) (auto simp: used_splits_def split_subset_def filter_empty_conv)

lemma command_splits_files:
  assumes "read_questions T (spl_benchmark a) fs (spl_questions a) = Inr qs"
    and "policy_error (tx_fr T) (spl_policy a) = None"
    and "reserved_databases T fs (spl_reserve a) = Inr reserved"
  shows "\<exists>out. command_splits T digest a fs = (Inr (exit_ok, out),
       dict_set (write_splits (tx_fr T) a (map (stamp digest (spl_policy a) reserved) qs) fs) (assignment_file a)
         (render_json (tx_fr T) (indented 2) 0
           (assignment_json (spl_policy a) (assign digest (spl_policy a) reserved (map qn_db_id qs))) @ [newline]))"
proof -
  have "apply_split (assign digest (spl_policy a) reserved (map qn_db_id qs)) qs
      = Inr (map (stamp digest (spl_policy a) reserved) qs)"
    by (rule apply_split_stamps) (simp add: map_of_assign)
  then show ?thesis
    using assms by (simp add: command_splits_def reserved_never_leak Let_def)
qed

text \<open>C33: the split files hold the corpus, divided by database. When the questions, the policy and the
  reservations can be read, the command succeeds; each question is stamped with the split of its
  database, which for a reserved one is held-out; for each split that received a question, loading
  its file gives exactly the questions of that split, in order; and the file of a split that
  received none is left as it was.\<close>

theorem split_files_hold_corpus:
  assumes F: "float_reads (tx_rd T) (tx_fr T)"
    and qs: "read_questions T (spl_benchmark a) fs (spl_questions a) = Inr qs" and ids: "distinct (map qn_id qs)"
    and ok: "policy_error (tx_fr T) (spl_policy a) = None" "reserved_databases T fs (spl_reserve a) = Inr reserved"
  shows "\<exists>out fs'. command_splits T digest a fs = (Inr (exit_ok, out), fs') \<and>
    (let stamped = map (stamp digest (spl_policy a) reserved) qs in
      (\<forall>q \<in> set stamped. qn_db_id q \<in> set reserved \<longrightarrow> qn_split q = HELD_OUT) \<and>
      (\<forall>s. if \<exists>q \<in> set stamped. qn_split q = s
           then \<exists>content. dict_get fs' (split_file a s) = Some content \<and>
             load_questions (tx_fr T) (tx_rd T) (tx_why T) path None content = Inr (filter (\<lambda>q. qn_split q = s) stamped)
           else dict_get fs' (split_file a s) = dict_get fs (split_file a s)))"
proof -
  let ?stamped = "map (stamp digest (spl_policy a) reserved) qs"
  obtain out where run: "command_splits T digest a fs = (Inr (exit_ok, out),
       dict_set (write_splits (tx_fr T) a ?stamped fs) (assignment_file a)
         (render_json (tx_fr T) (indented 2) 0
           (assignment_json (spl_policy a) (assign digest (spl_policy a) reserved (map qn_db_id qs))) @ [newline]))" (is "_ = (_, ?fs)")
    using command_splits_files [OF qs ok] by blast
  have get: "dict_get ?fs (split_file a s) = (if \<exists>q \<in> set ?stamped. qn_split q = s
      then Some (write_questions (tx_fr T) (split_subset ?stamped s)) else dict_get fs (split_file a s))" for s
    by (simp only: write_splits_def map_of_dict_set fun_upd_apply written_files used_splits_iff split_file_not_assignment if_False)
  have "map qn_id ?stamped = map qn_id qs" by (simp add: stamp_def comp_def)
  then have "distinct (map qn_id (split_subset ?stamped s))" for s
    using ids by (simp only: split_subset_def distinct_map_filter)
  then have loads: "load_questions (tx_fr T) (tx_rd T) (tx_why T) path None (write_questions (tx_fr T) (split_subset ?stamped s))
      = Inr (filter (\<lambda>q. qn_split q = s) ?stamped)" for s
    using load_written [OF F] by (simp only: split_subset_def)
  have files: "if \<exists>q \<in> set ?stamped. qn_split q = s
      then \<exists>content. dict_get ?fs (split_file a s) = Some content \<and>
        load_questions (tx_fr T) (tx_rd T) (tx_why T) path None content = Inr (filter (\<lambda>q. qn_split q = s) ?stamped)
      else dict_get ?fs (split_file a s) = dict_get fs (split_file a s)" for s
  proof (cases "\<exists>q \<in> set ?stamped. qn_split q = s")
    case True
    show ?thesis unfolding if_P [OF True] get using loads by blast
  next
    case False
    show ?thesis unfolding if_not_P [OF False] get by (rule refl)
  qed
  have held: "\<forall>q \<in> set ?stamped. qn_db_id q \<in> set reserved \<longrightarrow> qn_split q = HELD_OUT"
    by (auto simp: stamp_def split_of_def)
  show ?thesis unfolding Let_def using run held files by blast
qed

definition toy_text :: text_env where
  "toy_text = \<lparr>tx_fr = show_ratio, tx_rd = read_ratio, tx_why = (\<lambda>s. ''bad''), tx_missing = (\<lambda>p. ''no such file'')\<rparr>"

definition spider_file :: string where
  "spider_file = render_json show_ratio spaced 0 (JArr
     [JObj [(''db_id'', JStr ''a''), (''question'', JStr ''x''), (''query'', JStr ''y'')],
      JObj [(''db_id'', JStr ''b''), (''question'', JStr ''z''), (''query'', JStr ''w'')]])"

definition toy_splits :: splits_args where
  "toy_splits = \<lparr>spl_questions = [[''q.json'']], spl_benchmark = ''spider'', spl_dataset = ''s'', spl_out = [''out''],
     spl_policy = default_policy, spl_reserve = None\<rparr>"

definition stamped_example :: "question list" where
  "stamped_example = [\<lparr>qn_id = ''spider:q:00000'', qn_question = ''x'', qn_gold_sql = ''y'', qn_dataset = ''spider'', qn_split = DEV, qn_db_id = ''a''\<rparr>,
     \<lparr>qn_id = ''spider:q:00001'', qn_question = ''z'', qn_gold_sql = ''w'', qn_dataset = ''spider'', qn_split = DEV, qn_db_id = ''b''\<rparr>]"

lemma spider_file_read: "read_questions toy_text ''spider'' [([''q.json''], spider_file)] [[''q.json'']] = Inr stamped_example"
  by code_simp

theorem split_files_hold_corpus_witness:
  "\<exists>out fs'. command_splits toy_text (\<lambda>s. 0) toy_splits [([''q.json''], spider_file)] = (Inr (exit_ok, out), fs') \<and>
     (\<exists>content. dict_get fs' [''out'', ''s-train.jsonl''] = Some content \<and>
        load_questions show_ratio read_ratio (\<lambda>s. ''bad'') [] None content = Inr (map (\<lambda>q. q\<lparr>qn_split := TRAIN\<rparr>) stamped_example))"
proof -
  have F: "float_reads (tx_rd toy_text) (tx_fr toy_text)" by (simp add: toy_text_def ratios_read)
  have q: "read_questions toy_text (spl_benchmark toy_splits) [([''q.json''], spider_file)] (spl_questions toy_splits) = Inr stamped_example"
    using spider_file_read by (simp add: toy_splits_def)
  have ids: "distinct (map qn_id stamped_example)" by code_simp
  have ok: "policy_error (tx_fr toy_text) (spl_policy toy_splits) = None"
    "reserved_databases toy_text [([''q.json''], spider_file)] (spl_reserve toy_splits) = Inr []"
    by (simp_all add: toy_splits_def policy_error_def default_policy_def Let_def reserved_databases_def of_option_def)
  have st: "map (stamp (\<lambda>s. 0) (spl_policy toy_splits) []) stamped_example = map (\<lambda>q. q\<lparr>qn_split := TRAIN\<rparr>) stamped_example"
    by (simp add: stamped_example_def stamp_def split_of_def bucket_def toy_splits_def default_policy_def buckets_def)
  have fname: "split_file toy_splits TRAIN = [''out'', ''s-train.jsonl'']" by (simp add: split_file_def toy_splits_def split_value_def)
  have some: "(\<exists>q \<in> set (map (\<lambda>q. q\<lparr>qn_split := TRAIN\<rparr>) stamped_example). qn_split q = TRAIN) = True" by (simp add: stamped_example_def)
  have all: "filter (\<lambda>q. qn_split q = TRAIN) (map (\<lambda>q. q\<lparr>qn_split := TRAIN\<rparr>) stamped_example) = map (\<lambda>q. q\<lparr>qn_split := TRAIN\<rparr>) stamped_example"
    by (simp add: stamped_example_def)
  have tx: "tx_fr toy_text = show_ratio" "tx_rd toy_text = read_ratio" "tx_why toy_text = (\<lambda>s. ''bad'')" by (simp_all add: toy_text_def)
  from split_files_hold_corpus [OF F q ids ok, of "\<lambda>s. 0" "[]"]
  obtain out fs' where run: "command_splits toy_text (\<lambda>s. 0) toy_splits [([''q.json''], spider_file)] = (Inr (exit_ok, out), fs')"
    and train: "if \<exists>q \<in> set (map (\<lambda>q. q\<lparr>qn_split := TRAIN\<rparr>) stamped_example). qn_split q = TRAIN
      then \<exists>content. dict_get fs' (split_file toy_splits TRAIN) = Some content \<and>
        load_questions (tx_fr toy_text) (tx_rd toy_text) (tx_why toy_text) [] None content
          = Inr (filter (\<lambda>q. qn_split q = TRAIN) (map (\<lambda>q. q\<lparr>qn_split := TRAIN\<rparr>) stamped_example))
      else dict_get fs' (split_file toy_splits TRAIN) = dict_get [([''q.json''], spider_file)] (split_file toy_splits TRAIN)"
    unfolding Let_def st by blast
  from train show ?thesis unfolding some if_True all fname tx using run by blast
qed

section \<open>What an exit code means\<close>

lemma read_each_app: "read_each f (xs @ ys) = (case read_each f xs of Inl e \<Rightarrow> Inl e
    | Inr a \<Rightarrow> (case read_each f ys of Inl e \<Rightarrow> Inl e | Inr b \<Rightarrow> Inr (a @ b)))"
  by (induction xs) (auto split: sum.splits)

lemma read_each_part: "read_each f xs = Inr ys \<Longrightarrow> x \<in> set xs \<Longrightarrow> \<exists>zs. f x = Inr zs \<and> set zs \<subseteq> set ys"
  by (induction xs arbitrary: ys) (auto split: sum.splits, blast)

lemma verify_exit_zero: "verify_exit rs = exit_ok \<longleftrightarrow> rs \<noteq> [] \<and> (\<forall>(db_id, r) \<in> set rs. verified r)"
  by (auto simp: verify_exit_def exit_ok_def exit_unverified_def unverified_of_def filter_empty_conv)

text \<open>The verify command succeeds only when everything it was given to check is verified. On exit code
  0 there was something to check, and each selected database that has questions was opened, checked
  against its own schema over its questions, and its report is verified; the gold file, when one was
  asked for, holds exactly the lines of those reports.\<close>

theorem verify_succeeds_verified:
  assumes run: "command_verify V a fs = (Inr (exit_ok, out), fs')"
  shows "\<exists>qs selected rs. read_questions (ve_text V) (vf_benchmark a) fs (vf_questions a) = Inr qs \<and>
    select_databases (find_databases fs (vf_databases a)) (vf_only a) (vf_limit a) = Inr selected \<and> rs \<noteq> [] \<and>
    (\<forall>(db_id, p) \<in> set selected. questions_of qs db_id \<noteq> [] \<longrightarrow>
      (\<exists>schema db r. schema_name_for db_id (vf_prefix a) = Inr schema \<and> ve_open V p db_id = Inr db \<and>
        verify_database (ve_gold V db) (checked_questions a qs db_id) schema (ve_timeout V) = Inr r \<and> verified r \<and>
        (db_id, r) \<in> set rs)) \<and>
    (\<forall>p. vf_emit_gold a = Some p \<longrightarrow> vf_report a \<noteq> Some p \<longrightarrow>
      dict_get fs' p = Some (write_jsonl (tx_fr (ve_text V)) (concat (map (gold_lines \<circ> snd) rs))))"
proof -
  obtain qs where qs: "read_questions (ve_text V) (vf_benchmark a) fs (vf_questions a) = Inr qs"
    using run by (auto simp: command_verify_def Let_def split: sum.splits)
  obtain selected where sel: "select_databases (find_databases fs (vf_databases a)) (vf_only a) (vf_limit a) = Inr selected"
    using run qs by (auto simp: command_verify_def Let_def split: sum.splits)
  obtain rs where rs: "read_each (verify_one V a qs) selected = Inr rs" "verify_exit rs = exit_ok"
    and fs': "fs' = write_report (tx_fr (ve_text V)) (vf_report a)
       (JObj [(''verified'', JArr (map (verification_json \<circ> snd) rs)), (''unverified'', JArr (map JStr (unverified_of rs)))])
       (emit_gold (tx_fr (ve_text V)) (vf_emit_gold a) (map snd rs) fs)"
    using run qs sel by (auto simp: command_verify_def Let_def split: sum.splits option.splits)
  have each: "\<exists>schema db r. schema_name_for db_id (vf_prefix a) = Inr schema \<and> ve_open V p db_id = Inr db \<and>
        verify_database (ve_gold V db) (checked_questions a qs db_id) schema (ve_timeout V) = Inr r \<and> verified r \<and> (db_id, r) \<in> set rs"
    if here: "(db_id, p) \<in> set selected" "questions_of qs db_id \<noteq> []" for db_id p
  proof -
    obtain zs where "verify_one V a qs (db_id, p) = Inr zs" "set zs \<subseteq> set rs"
      using read_each_part [OF rs(1) here(1)] by blast
    then show ?thesis using here(2) rs(2) by (auto simp: verify_one_def verify_exit_zero split: sum.splits)
  qed
  have "dict_get fs' p = Some (write_jsonl (tx_fr (ve_text V)) (concat (map (gold_lines \<circ> snd) rs)))"
    if "vf_emit_gold a = Some p" "vf_report a \<noteq> Some p" for p
    using that by (auto simp: fs' write_report_def emit_gold_def split: option.splits)
  with qs sel rs(2) each show ?thesis unfolding verify_exit_zero by blast
qed

definition toy_verify :: "(toy_node, string) verify_env" where
  "toy_verify = \<lparr>ve_open = (\<lambda>p d. Inr toy_database),
     ve_gold = (\<lambda>db. \<lparr>gv_rw = text_rewriter, gv_sqlglot = toy (\<lambda>_. Inl []), gv_fl = (\<lambda>x. x), gv_pr = (\<lambda>c. []),
        gv_sqlite = (\<lambda>s. Inr []), gv_pg = (\<lambda>s n t. Inr None), gv_config = (\<lambda>k v. None), gv_database = db\<rparr>),
     ve_timeout = 5, ve_connected = None, ve_text = toy_text\<rparr>"

definition toy_verify_args :: verify_args where
  "toy_verify_args = \<lparr>vf_databases = [''db''], vf_questions = [[''q.json'']], vf_benchmark = ''spider'', vf_prefix = [],
     vf_only = None, vf_limit = None, vf_per_database = None, vf_report = None, vf_emit_gold = Some [''gold'']\<rparr>"

definition toy_files :: files where
  "toy_files = [([''q.json''], spider_file), ([''db'', ''a'', ''a.sqlite''], [])]"

theorem verify_succeeds_verified_witness:
  "(\<exists>out fs'. command_verify toy_verify toy_verify_args toy_files = (Inr (exit_ok, out), fs') \<and> dict_get fs' [''gold''] \<noteq> None)
   \<and> (\<exists>r. verify_database (ve_gold toy_verify toy_database) (take 1 stamped_example) ''a'' 5 = Inr r \<and> verified r)"
proof -
  let ?x = "command_verify toy_verify toy_verify_args toy_files"
  have e: "(case fst ?x of Inl e \<Rightarrow> False | Inr (n, out) \<Rightarrow> n = exit_ok)" by code_simp
  then obtain out where x: "?x = (Inr (exit_ok, out), snd ?x)" by (cases ?x) (auto split: sum.splits)
  have facts: "read_questions (ve_text toy_verify) (vf_benchmark toy_verify_args) toy_files (vf_questions toy_verify_args) = Inr stamped_example"
    "select_databases (find_databases toy_files (vf_databases toy_verify_args)) (vf_only toy_verify_args) (vf_limit toy_verify_args)
      = Inr [(''a'', [''db'', ''a'', ''a.sqlite''])]"
    "questions_of stamped_example ''a'' \<noteq> []" "checked_questions toy_verify_args stamped_example ''a'' = take 1 stamped_example"
    "schema_name_for ''a'' (vf_prefix toy_verify_args) = Inr ''a''"
    by code_simp+
  have "ve_open toy_verify p d = Inr toy_database" "ve_timeout toy_verify = 5" "vf_emit_gold toy_verify_args = Some [''gold'']"
    "vf_report toy_verify_args = None" for p d
    by (simp_all add: toy_verify_def toy_verify_args_def)
  with verify_succeeds_verified [OF x] facts x show ?thesis by auto
qed

text \<open>Questions of a database that was not found, or not selected, are not checked, and the exit code does
  not say so.\<close>

lemma unselected_questions_ignored:
  "qn_db_id q \<notin> fst ` set selected \<Longrightarrow> read_each (verify_one V a (qs @ [q])) selected = read_each (verify_one V a qs) selected"
proof (induction selected)
  case (Cons x xs)
  then have same: "questions_of (qs @ [q]) (fst x) = questions_of qs (fst x)" by (auto simp: questions_of_def)
  have "verify_one V a (qs @ [q]) x = verify_one V a qs x"
    unfolding verify_one_def checked_questions_def same by (rule refl)
  moreover have "read_each (verify_one V a (qs @ [q])) xs = read_each (verify_one V a qs) xs"
    using Cons.prems by (intro Cons.IH) auto
  ultimately show ?case unfolding read_each.simps by (simp only:)
qed simp

text \<open>With \<open>--keep-going\<close> a conversion exits 0 whatever failed.\<close>

lemma keep_going_exits_ok: "command_convert V a fs = (Inr (exit, out), fs') \<Longrightarrow> cv_keep_going a \<Longrightarrow> exit = exit_ok"
  by (auto simp: command_convert_def Let_def split: if_splits sum.splits option.splits)

text \<open>A reservation file in the benchmark's own format, a JSON array, is not read: the exception is none of
  those the command line reports.\<close>

lemma reserve_rejects_array:
  assumes "loads (tx_rd T) line = Some (JArr items)" "strip line \<noteq> []"
  shows "\<exists>m. reserved_on_line T line = Inl (type_error m) \<and> main_exit (Inl (type_error m)) = Inl (type_error m)"
  using assms by (auto simp: reserved_on_line_def subscript_def main_exit_def type_error_def isinst_simps type_name_def)

text \<open>The extra sensitive columns of the settings reach neither the introspector nor the indexer.\<close>

lemma extra_sensitive_columns_ignored:
  "index_one (V\<lparr>ie_settings := (ie_settings V)\<lparr>rs_extra_sensitive_columns := xs\<rparr>\<rparr>) a db S = index_one V a db S"
proof -
  let ?W = "V\<lparr>ie_settings := (ie_settings V)\<lparr>rs_extra_sensitive_columns := xs\<rparr>\<rparr>"
  have same: "ie_schemas ?W = ie_schemas V" "ie_catalog ?W = ie_catalog V" "ie_width ?W = ie_width V" "ie_embedder ?W = ie_embedder V"
    "index_introspector (ie_settings ?W) = index_introspector (ie_settings V)"
    by (simp_all add: fun_eq_iff index_introspector_def)
  show ?thesis unfolding index_one_def same by (rule refl)
qed

end
