(* ===== verification/Configuration.thy ===== *)
theory Configuration
  imports Settings Llm
begin

text \<open>
  The rest of \<open>src/core/settings.py\<close>: the groups of settings with their field ranges and model
  validators, the safety check of the model endpoint, and the loading of all of them in order; and the
  model client the settings name (\<open>src/adapters/llm/factory.py\<close>). Reading the environment into typed
  fields is the settings library's. The URL parser, name resolution and the address classes of
  \<open>ipaddress\<close> are arguments. A value out of its range is the library's \<open>ValidationError\<close>, which is also what
  a \<open>ValueError\<close> inside a validator becomes; a \<open>ConfigurationError\<close> passes through.
\<close>

section \<open>Lists in the environment\<close>

fun comma_parts :: "string \<Rightarrow> string \<Rightarrow> string list" where
  "comma_parts w [] = [rev w]"
| "comma_parts w (c # cs) = (if c = CHR '','' then rev w # comma_parts [] cs else comma_parts (c # w) cs)"

definition split_csv :: "string \<Rightarrow> string list" where
  "split_csv s = filter (\<lambda>p. p \<noteq> []) (map strip (comma_parts [] s))"

section \<open>Addresses\<close>

record ip_address =
  ip_loopback :: bool
  ip_link_local :: bool
  ip_private :: bool
  ip_reserved :: bool
  ip_multicast :: bool

record network =
  nw_parse_ip :: "string \<Rightarrow> ip_address option"
  nw_scheme :: "string \<Rightarrow> string"
  nw_hostname :: "string \<Rightarrow> string option"
  nw_resolve :: "string \<Rightarrow> string list option"

definition is_loopback_host :: "network \<Rightarrow> string \<Rightarrow> bool" where
  "is_loopback_host N host =
     (if host = ''localhost'' then True
      else case nw_parse_ip N host of None \<Rightarrow> False | Some ip \<Rightarrow> ip_loopback ip)"

fun all_loopback :: "network \<Rightarrow> string list \<Rightarrow> bool" where
  "all_loopback N [] = True"
| "all_loopback N (a # as) =
     (case nw_parse_ip N a of None \<Rightarrow> False | Some ip \<Rightarrow> ip_loopback ip \<and> all_loopback N as)"

definition is_loopback_url :: "network \<Rightarrow> string \<Rightarrow> bool" where
  "is_loopback_url N url =
     (case nw_hostname N url of
        None \<Rightarrow> False
      | Some host \<Rightarrow> (case nw_resolve N host of None \<Rightarrow> False | Some addrs \<Rightarrow> all_loopback N addrs))"

definition blocked :: "string \<Rightarrow> string \<Rightarrow> exn" where
  "blocked addr why = ConfigurationError (''LLM_BASE_URL resolves to a blocked address ('' @ addr @ ''): '' @ why)"

definition validation_error :: exn where
  "validation_error = OtherError ''ValidationError'' []"

definition check_address :: "network \<Rightarrow> string \<Rightarrow> string \<Rightarrow> exn option" where
  "check_address N scheme addr =
     (case nw_parse_ip N addr of
        None \<Rightarrow> Some validation_error
      | Some ip \<Rightarrow>
          if ip_loopback ip then None
          else if ip_link_local ip then Some (blocked addr ''link-local'')
          else if ip_private ip then Some (blocked addr ''private range'')
          else if ip_reserved ip \<or> ip_multicast ip then Some (blocked addr ''reserved'')
          else if scheme \<noteq> ''https''
          then Some (ConfigurationError ''LLM_BASE_URL must use https for non-local endpoints (plaintext would expose LLM_API_KEY in transit)'')
          else None)"

fun check_addresses :: "network \<Rightarrow> string \<Rightarrow> string list \<Rightarrow> exn option" where
  "check_addresses N scheme [] = None"
| "check_addresses N scheme (a # as) =
     (case check_address N scheme a of Some e \<Rightarrow> Some e | None \<Rightarrow> check_addresses N scheme as)"

definition assert_endpoint_is_safe :: "network \<Rightarrow> string \<Rightarrow> string list \<Rightarrow> exn option" where
  "assert_endpoint_is_safe N url allowed =
     (let scheme = nw_scheme N url; host = of_option [] (nw_hostname N url) in
      if scheme \<notin> {''http'', ''https''} \<or> host = []
      then Some (ConfigurationError (''LLM_BASE_URL must be an http(s) URL, got '' @ py_repr url))
      else if allowed \<noteq> [] \<and> host \<notin> set allowed
      then Some (ConfigurationError (''LLM_BASE_URL host '' @ py_repr host @ '' is not in LLM_ALLOWED_HOSTS''))
      else case nw_resolve N host of
        None \<Rightarrow> Some (ConfigurationError (''LLM_BASE_URL host '' @ py_repr host @ '' does not resolve''))
      | Some addrs \<Rightarrow> check_addresses N scheme (remdups addrs))"

section \<open>Groups\<close>

datatype llm_provider = OPENAI_COMPATIBLE | ANTHROPIC | FAKE

record llm_settings =
  llm_provider :: llm_provider
  llm_base_url :: "string option"
  llm_model :: string
  llm_api_key :: "string option"
  llm_max_tokens :: int
  llm_temperature :: rat
  llm_timeout_ms :: int
  llm_allowed_hosts :: "string list"
  llm_model_fallbacks :: "string list"

definition llm_fields :: "llm_settings \<Rightarrow> bool" where
  "llm_fields s \<longleftrightarrow> 1 \<le> llm_max_tokens s \<and> llm_max_tokens s \<le> 200000 \<and> 0 \<le> llm_temperature s \<and> llm_temperature s \<le> 2
     \<and> 1000 \<le> llm_timeout_ms s \<and> llm_timeout_ms s \<le> 600000"

definition check_provider_requirements :: "network \<Rightarrow> llm_settings \<Rightarrow> exn option" where
  "check_provider_requirements N s =
     (if llm_provider s = FAKE then None
      else if llm_model s = [] then Some (ConfigurationError ''LLM_MODEL is required unless LLM_PROVIDER=fake'')
      else if llm_provider s = OPENAI_COMPATIBLE
      then (if \<not> truthy (llm_base_url s)
            then Some (ConfigurationError ''LLM_BASE_URL is required when LLM_PROVIDER=openai_compatible'')
            else case assert_endpoint_is_safe N (the (llm_base_url s)) (llm_allowed_hosts s) of
              Some e \<Rightarrow> Some e
            | None \<Rightarrow>
                if \<not> is_loopback_url N (the (llm_base_url s)) \<and> llm_api_key s = None
                then Some (ConfigurationError ''LLM_API_KEY is required for non-local endpoints'') else None)
      else if llm_api_key s = None
      then Some (ConfigurationError ''LLM_API_KEY is required when LLM_PROVIDER=anthropic'') else None)"

record database_settings =
  database_url :: "string option"
  database_ro_url :: "string option"
  db_pool_min_size :: int
  db_pool_max_size :: int
  db_connect_timeout_ms :: int
  db_target_schema :: string
  db_readonly_role :: string

definition database_fields :: "database_settings \<Rightarrow> bool" where
  "database_fields s \<longleftrightarrow> 1 \<le> db_pool_min_size s \<and> db_pool_min_size s \<le> 100 \<and> 1 \<le> db_pool_max_size s \<and> db_pool_max_size s \<le> 100
     \<and> 100 \<le> db_connect_timeout_ms s \<and> db_connect_timeout_ms s \<le> 60000"

definition check_pool_and_roles :: "database_settings \<Rightarrow> exn option" where
  "check_pool_and_roles s =
     (if db_pool_max_size s < db_pool_min_size s
      then Some (ConfigurationError ''DB_POOL_MAX_SIZE must be >= DB_POOL_MIN_SIZE'')
      else if database_url s \<noteq> None \<and> database_ro_url s \<noteq> None \<and> database_url s = database_ro_url s
      then Some (ConfigurationError ''DATABASE_RO_URL must differ from DATABASE_URL -- the read-only role is the outermost containment boundary and cannot be the same role that owns the schema'')
      else None)"

datatype embedder_provider = SENTENCE_TRANSFORMER | HASHING

record catalog_settings =
  rv_dataset :: string
  rv_embedder_provider :: embedder_provider
  rv_model :: string
  rv_local_files_only :: bool
  rv_sample_values :: bool
  rv_extra_sensitive_columns :: "string list"
  rv_sample_count :: int
  rv_sample_max_chars :: int
  rv_sample_scan_limit :: int
  rv_top_k :: int
  rv_ef_search :: int

definition retrieval_fields :: "catalog_settings \<Rightarrow> bool" where
  "retrieval_fields s \<longleftrightarrow> 0 \<le> rv_sample_count s \<and> rv_sample_count s \<le> 10 \<and> 1 \<le> rv_sample_max_chars s \<and> rv_sample_max_chars s \<le> 200
     \<and> 1 \<le> rv_sample_scan_limit s \<and> rv_sample_scan_limit s \<le> 100000 \<and> 1 \<le> rv_top_k s \<and> rv_top_k s \<le> 50
     \<and> 1 \<le> rv_ef_search s \<and> rv_ef_search s \<le> 1000"

record agent_settings =
  max_tool_calls_per_request :: int
  max_sql_retries :: int
  max_decomposition_steps :: int
  agent_timeout_ms :: int

definition agent_fields :: "agent_settings \<Rightarrow> bool" where
  "agent_fields s \<longleftrightarrow> 1 \<le> max_tool_calls_per_request s \<and> max_tool_calls_per_request s \<le> 200 \<and> 0 \<le> max_sql_retries s
     \<and> max_sql_retries s \<le> 20 \<and> 1 \<le> max_decomposition_steps s \<and> max_decomposition_steps s \<le> 20 \<and> 1000 \<le> agent_timeout_ms s"

record api_settings =
  api_host :: string
  api_port :: int
  api_allow_non_loopback :: bool
  api_docs_enabled :: bool
  api_cors_origins :: "string list"
  api_static_dir :: string
  api_max_body_bytes :: int
  api_max_question_chars :: int
  api_max_concurrent_requests :: int
  api_pool_min_size :: int
  api_pool_max_size :: int
  api_stream_keepalive_seconds :: rat

definition api_fields :: "api_settings \<Rightarrow> bool" where
  "api_fields s \<longleftrightarrow> 1 \<le> api_port s \<and> api_port s \<le> 65535 \<and> 1024 \<le> api_max_body_bytes s \<and> api_max_body_bytes s \<le> 10485760
     \<and> 1 \<le> api_max_question_chars s \<and> api_max_question_chars s \<le> 10000 \<and> 1 \<le> api_max_concurrent_requests s
     \<and> api_max_concurrent_requests s \<le> 64 \<and> 0 \<le> api_pool_min_size s \<and> api_pool_min_size s \<le> 64 \<and> 1 \<le> api_pool_max_size s
     \<and> api_pool_max_size s \<le> 128 \<and> 0 < api_stream_keepalive_seconds s \<and> api_stream_keepalive_seconds s \<le> 300"

definition check_cors :: "api_settings \<Rightarrow> exn option" where
  "check_cors s =
     (if list_ex (\<lambda>origin. origin = ''*'') (api_cors_origins s)
      then Some (ConfigurationError (''API_CORS_ORIGINS must not contain '' @ [squote] @ ''*'' @ [squote] @ ''. A wildcard origin on an API that reaches a database is an open proxy for every browser that visits any page -- name the origins that need access.''))
      else None)"

definition refuse_to_publish :: "network \<Rightarrow> api_settings \<Rightarrow> exn option" where
  "refuse_to_publish N s =
     (if \<not> is_loopback_host N (api_host s) \<and> \<not> api_allow_non_loopback s
      then Some (ConfigurationError (''API_HOST='' @ py_repr (api_host s) @ '' would serve this API beyond this machine, and it has no authentication yet -- any caller that can reach the port can run generated SQL against the target database and spend the LLM budget doing it. Bind 127.0.0.1, or set API_ALLOW_NON_LOOPBACK=true if this process runs in an isolated network namespace and something else decides what is published -- see docs/operations/DEPLOYMENT.md.''))
      else None)"

definition pool_must_outsize :: "api_settings \<Rightarrow> exn option" where
  "pool_must_outsize s =
     (if api_pool_max_size s \<le> api_max_concurrent_requests s
      then Some (ConfigurationError (''API_POOL_MAX_SIZE='' @ show_int (api_pool_max_size s) @ '' must exceed API_MAX_CONCURRENT_REQUESTS='' @ show_int (api_max_concurrent_requests s)
        @ ''. Saturated traffic would hold every connection and leave none for the readiness probe, so /ready would fail under load and the replica would be pulled out of rotation for being busy.''))
      else if api_pool_min_size s > api_pool_max_size s
      then Some (ConfigurationError (''API_POOL_MIN_SIZE='' @ show_int (api_pool_min_size s) @ '' exceeds API_POOL_MAX_SIZE='' @ show_int (api_pool_max_size s) @ ''.''))
      else None)"

record benchmark_settings =
  bm_data_dir :: string
  bm_max_archive_bytes :: int
  bm_max_archive_members :: int
  bm_max_member_bytes :: int
  bm_copy_batch_rows :: int
  bm_verify_timeout_ms :: int

definition benchmark_fields :: "benchmark_settings \<Rightarrow> bool" where
  "benchmark_fields s \<longleftrightarrow> 1024 \<le> bm_max_archive_bytes s \<and> 1 \<le> bm_max_archive_members s \<and> 1024 \<le> bm_max_member_bytes s
     \<and> 1 \<le> bm_copy_batch_rows s \<and> bm_copy_batch_rows s \<le> 1000000 \<and> 100 \<le> bm_verify_timeout_ms s \<and> bm_verify_timeout_ms s \<le> 600000"

section \<open>Loading\<close>

record all_settings =
  as_llm :: llm_settings
  as_database :: database_settings
  as_execution :: execution_settings
  as_retrieval :: catalog_settings
  as_profiling :: profiling_settings
  as_agent :: agent_settings
  as_api :: api_settings
  as_benchmark :: benchmark_settings

text \<open>A constructor: the fields in range, then the validators in the order they are written.\<close>

fun first_problem :: "exn option list \<Rightarrow> exn option" where
  "first_problem [] = None"
| "first_problem (p # ps) = (case p of Some e \<Rightarrow> Some e | None \<Rightarrow> first_problem ps)"

definition construct :: "bool \<Rightarrow> exn option list \<Rightarrow> exn option" where
  "construct in_range validators = (if \<not> in_range then Some validation_error else first_problem validators)"

text \<open>\<open>Settings.load\<close> on the typed values the environment gives: the first group that is refused ends it.\<close>

definition load_settings :: "network \<Rightarrow> all_settings \<Rightarrow> exn + all_settings" where
  "load_settings N s =
     (case first_problem
        [construct (llm_fields (as_llm s)) [check_provider_requirements N (as_llm s)],
         construct (database_fields (as_database s)) [check_pool_and_roles (as_database s)],
         construct (execution_fields (as_execution s))
           [case check_ceilings (as_execution s) of Inl e \<Rightarrow> Some e | Inr _ \<Rightarrow> None],
         construct (retrieval_fields (as_retrieval s)) [],
         construct (profiling_fields (as_profiling s)) [],
         construct (agent_fields (as_agent s)) [],
         construct (api_fields (as_api s))
           [check_cors (as_api s), refuse_to_publish N (as_api s), pool_must_outsize (as_api s)],
         construct (benchmark_fields (as_benchmark s)) []] of
        Some e \<Rightarrow> Inl e
      | None \<Rightarrow> Inr s)"

section \<open>The model client\<close>

datatype built_client = BuiltFake fake_client | BuiltOne openai_client | BuiltChain "openai_client chain"

definition build_openai :: "llm_settings \<Rightarrow> string \<Rightarrow> exn + openai_client" where
  "build_openai s model = make_openai model (llm_max_tokens s) (llm_temperature s) True"

fun build_each :: "('a \<Rightarrow> exn + 'b) \<Rightarrow> 'a list \<Rightarrow> exn + 'b list" where
  "build_each f [] = Inr []"
| "build_each f (x # xs) =
     (case f x of Inl e \<Rightarrow> Inl e | Inr y \<Rightarrow> (case build_each f xs of Inl e \<Rightarrow> Inl e | Inr ys \<Rightarrow> Inr (y # ys)))"

definition build_llm_client :: "llm_settings \<Rightarrow> exn + built_client" where
  "build_llm_client s =
     (case llm_provider s of
        FAKE \<Rightarrow> Inr (BuiltFake \<lparr>fk_responses = [], fk_model = (if llm_model s = [] then ''fake-model'' else llm_model s),
          fk_tools = True, fk_calls = []\<rparr>)
      | OPENAI_COMPATIBLE \<Rightarrow>
         (case build_openai s (llm_model s) of
            Inl e \<Rightarrow> Inl e
          | Inr primary \<Rightarrow>
              if llm_model_fallbacks s = [] then Inr (BuiltOne primary)
              else case build_each (build_openai s) (llm_model_fallbacks s) of
                Inl e \<Rightarrow> Inl e
              | Inr others \<Rightarrow> (case make_chain (primary # others) of Inl e \<Rightarrow> Inl e | Inr k \<Rightarrow> Inr (BuiltChain k)))
      | ANTHROPIC \<Rightarrow> Inl (ConfigurationError ''anthropic adapter is not implemented yet (Stage 1). Set LLM_PROVIDER=fake to run without a provider.''))"


section \<open>What loaded settings guarantee\<close>

lemma first_problem_None: "first_problem ps = None \<longleftrightarrow> (\<forall>p\<in>set ps. p = None)"
  by (induction ps) (auto split: option.splits)

lemma construct_None [simp]:
  "construct in_range validators = None \<longleftrightarrow> in_range \<and> (\<forall>p\<in>set validators. p = None)"
  by (simp add: construct_def first_problem_None)

lemma load_settings_InrD:
  assumes "load_settings N s = Inr s'"
  shows "s' = s" "llm_fields (as_llm s)" "check_provider_requirements N (as_llm s) = None"
    "database_fields (as_database s)" "check_pool_and_roles (as_database s) = None"
    "execution_ok (as_execution s)" "profiling_fields (as_profiling s)" "agent_fields (as_agent s)"
    "retrieval_fields (as_retrieval s)" "benchmark_fields (as_benchmark s)"
    "api_fields (as_api s)" "check_cors (as_api s) = None" "refuse_to_publish N (as_api s) = None"
    "pool_must_outsize (as_api s) = None"
  using assms
  by (auto simp: load_settings_def first_problem_None execution_ok_def check_ceilings_def
        simp del: first_problem.simps split: option.splits if_splits)

lemma all_loopback_iff:
  "all_loopback N as \<longleftrightarrow> (\<forall>a\<in>set as. \<exists>ip. nw_parse_ip N a = Some ip \<and> ip_loopback ip)"
  by (induction as) (auto split: option.splits)

definition address_ok :: "network \<Rightarrow> string \<Rightarrow> string \<Rightarrow> bool" where
  "address_ok N scheme a =
     (case nw_parse_ip N a of
        None \<Rightarrow> False
      | Some ip \<Rightarrow> ip_loopback ip
          \<or> (\<not> ip_link_local ip \<and> \<not> ip_private ip \<and> \<not> ip_reserved ip \<and> \<not> ip_multicast ip \<and> scheme = ''https''))"

lemma check_address_None: "check_address N scheme a = None \<longleftrightarrow> address_ok N scheme a"
  by (auto simp: check_address_def address_ok_def split: option.splits)

lemma check_addresses_None: "check_addresses N scheme as = None \<longleftrightarrow> (\<forall>a\<in>set as. address_ok N scheme a)"
  by (induction as) (auto simp: check_address_None [symmetric] split: option.splits)

lemma endpoint_safe_iff:
  "assert_endpoint_is_safe N url allowed = None \<longleftrightarrow>
     nw_scheme N url \<in> {''http'', ''https''} \<and>
     (\<exists>host addrs. nw_hostname N url = Some host \<and> host \<noteq> [] \<and> (allowed = [] \<or> host \<in> set allowed)
        \<and> nw_resolve N host = Some addrs \<and> (\<forall>a\<in>set addrs. address_ok N (nw_scheme N url) a))"
  by (cases "nw_hostname N url")
    (auto simp: assert_endpoint_is_safe_def of_option_def Let_def check_addresses_None split: option.splits)

lemma loopback_url_iff:
  "nw_hostname N url = Some host \<Longrightarrow> nw_resolve N host = Some addrs \<Longrightarrow>
   is_loopback_url N url \<longleftrightarrow> (\<forall>a\<in>set addrs. \<exists>ip. nw_parse_ip N a = Some ip \<and> ip_loopback ip)"
  by (simp add: is_loopback_url_def all_loopback_iff)

lemma provider_okD:
  assumes "check_provider_requirements N s = None" and "llm_provider s = OPENAI_COMPATIBLE"
  shows "llm_model s \<noteq> [] \<and> (\<exists>url. llm_base_url s = Some url \<and> assert_endpoint_is_safe N url (llm_allowed_hosts s) = None
    \<and> (llm_api_key s = None \<longrightarrow> is_loopback_url N url))"
  using assms by (cases "llm_base_url s") (auto simp: check_provider_requirements_def truthy_def split: if_splits option.splits)


definition public_ip :: ip_address where
  "public_ip = \<lparr>ip_loopback = False, ip_link_local = False, ip_private = False, ip_reserved = False, ip_multicast = False\<rparr>"

definition toy_network :: network where
  "toy_network = \<lparr>
     nw_parse_ip = (\<lambda>a. if a = ''127.0.0.1'' then Some (public_ip\<lparr>ip_loopback := True, ip_private := True\<rparr>)
                      else if a = ''8.8.8.8'' then Some public_ip
                      else if a = ''169.254.169.254'' then Some (public_ip\<lparr>ip_link_local := True, ip_private := True\<rparr>)
                      else None),
     nw_scheme = (\<lambda>u. ''https''), nw_hostname = (\<lambda>u. Some u),
     nw_resolve = (\<lambda>h. if h = ''llm'' then Some [''8.8.8.8''] else if h = ''meta'' then Some [''169.254.169.254''] else None)\<rparr>"

definition toy_settings :: all_settings where
  "toy_settings = \<lparr>
     as_llm = \<lparr>llm_provider = OPENAI_COMPATIBLE, llm_base_url = Some ''llm'', llm_model = ''m'', llm_api_key = Some ''k'',
       llm_max_tokens = 16000, llm_temperature = 0, llm_timeout_ms = 60000, llm_allowed_hosts = [], llm_model_fallbacks = [''n'']\<rparr>,
     as_database = \<lparr>database_url = Some ''a'', database_ro_url = Some ''b'', db_pool_min_size = 2, db_pool_max_size = 10,
       db_connect_timeout_ms = 5000, db_target_schema = ''public'', db_readonly_role = ''sql_agent_ro''\<rparr>,
     as_execution = default_execution,
     as_retrieval = \<lparr>rv_dataset = ''default'', rv_embedder_provider = HASHING, rv_model = ''m'', rv_local_files_only = False,
       rv_sample_values = False, rv_extra_sensitive_columns = [], rv_sample_count = 3, rv_sample_max_chars = 40, rv_sample_scan_limit = 1000, rv_top_k = 10, rv_ef_search = 40\<rparr>,
     as_profiling = default_profiling,
     as_agent = \<lparr>max_tool_calls_per_request = 20, max_sql_retries = 3, max_decomposition_steps = 5, agent_timeout_ms = 120000\<rparr>,
     as_api = \<lparr>api_host = ''127.0.0.1'', api_port = 8000, api_allow_non_loopback = False, api_docs_enabled = False,
       api_cors_origins = [], api_static_dir = [], api_max_body_bytes = 65536, api_max_question_chars = 2000,
       api_max_concurrent_requests = 4, api_pool_min_size = 1, api_pool_max_size = 8, api_stream_keepalive_seconds = 15\<rparr>,
     as_benchmark = \<lparr>bm_data_dir = ''data'', bm_max_archive_bytes = 8589934592, bm_max_archive_members = 200000, bm_max_member_bytes = 4294967296,
       bm_copy_batch_rows = 5000, bm_verify_timeout_ms = 30000\<rparr>\<rparr>"

lemma toy_settings_load: "load_settings toy_network toy_settings = Inr toy_settings"
  by (simp add: load_settings_def toy_settings_def construct_def llm_fields_def database_fields_def execution_fields_def
      retrieval_fields_def profiling_fields_def agent_fields_def api_fields_def benchmark_fields_def default_execution_def
      default_profiling_def check_provider_requirements_def assert_endpoint_is_safe_def toy_network_def public_ip_def
      check_address_def is_loopback_url_def of_option_def truthy_def check_pool_and_roles_def check_ceilings_def check_cors_def refuse_to_publish_def
      is_loopback_host_def pool_must_outsize_def Let_def)


section \<open>The client loaded settings name can be built\<close>

lemma split_csv_nonempty: "[] \<notin> set (split_csv s)"
  by (simp add: split_csv_def)

lemma build_each_Inr: "(\<And>x. x \<in> set xs \<Longrightarrow> \<exists>y. f x = Inr y) \<Longrightarrow> \<exists>ys. build_each f xs = Inr ys \<and> length ys = length xs"
proof (induction xs)
  case (Cons x xs)
  then obtain y ys where "f x = Inr y" "build_each f xs = Inr ys" "length ys = length xs" by fastforce
  then show ?case by simp
qed simp

lemma build_openai_Inr: "m \<noteq> [] \<Longrightarrow> \<exists>c. build_openai s m = Inr c \<and> oc_model c = m"
  by (simp add: build_openai_def make_openai_def)

text \<open>A client is built from every loaded settings value but those naming the provider that has no adapter; it is
  a chain of one client per model exactly when fallbacks are listed.\<close>

lemma loaded_settings_build_client:
  assumes "load_settings N s = Inr s'" and "llm_provider (as_llm s) \<noteq> ANTHROPIC"
    and F: "[] \<notin> set (llm_model_fallbacks (as_llm s))"
  shows "\<exists>c. build_llm_client (as_llm s) = Inr c \<and>
    (\<forall>k. c = BuiltChain k \<longrightarrow> length (ch_clients k) = Suc (length (llm_model_fallbacks (as_llm s))) \<and> ch_active k = 0)"
proof (cases "llm_provider (as_llm s)")
  case OPENAI_COMPATIBLE
  let ?s = "as_llm s"
  have "llm_model ?s \<noteq> []" using provider_okD [OF load_settings_InrD(3) [OF assms(1)] OPENAI_COMPATIBLE] by blast
  from build_openai_Inr [OF this, of ?s] obtain p where p: "build_openai ?s (llm_model ?s) = Inr p" by blast
  have each: "\<exists>y. build_openai ?s m = Inr y" if "m \<in> set (llm_model_fallbacks ?s)" for m
    using that F build_openai_Inr [of m ?s] by (metis)
  from build_each_Inr [where f = "build_openai ?s", OF each] obtain os where os: "build_each (build_openai ?s) (llm_model_fallbacks ?s) = Inr os"
    "length os = length (llm_model_fallbacks ?s)" by blast
  show ?thesis using p os by (simp add: build_llm_client_def OPENAI_COMPATIBLE make_chain_def)
qed (use assms(2) in \<open>auto simp: build_llm_client_def\<close>)


end
