(* ===== verification/Embedding.thy ===== *)
theory Embedding
  imports Configuration Indexer
begin

text \<open>
  The embedders of \<open>src/adapters/embedding/\<close>: feature hashing over character trigrams
  (\<open>hashing.py\<close>), the lazily opened sentence transformer (\<open>sentence_transformer.py\<close>), and the factory.
  The hash and the square root are arguments, as is the third-party model; quotients are exact.
\<close>

section \<open>Feature hashing\<close>

definition ngram_size :: nat where
  "ngram_size = 3"

definition default_dimensions :: nat where
  "default_dimensions = 384"

text \<open>\<open>text.split()\<close> joined by single blanks, between two blanks.\<close>

definition padded :: "string \<Rightarrow> string" where
  "padded s = '' '' @ join '' '' (split_ws s) @ '' ''"

definition trigrams :: "string \<Rightarrow> string list" where
  "trigrams s =
     (let p = padded s in
      if length p < ngram_size then [p]
      else map (\<lambda>start. take ngram_size (drop start p)) [0..<length p - ngram_size + 1])"

text \<open>The eight digest bytes of a gram: the first four choose the index, the low bit of the fifth the sign.\<close>

fun from_big_endian :: "nat list \<Rightarrow> nat" where
  "from_big_endian bs = foldl (\<lambda>n b. 256 * n + b) 0 bs"

definition gram_index :: "nat list \<Rightarrow> nat \<Rightarrow> nat" where
  "gram_index digest d = from_big_endian (take 4 digest) mod d"

definition gram_sign :: "nat list \<Rightarrow> int" where
  "gram_sign digest = (if odd (digest ! 4) then 1 else - 1)"

definition add_gram :: "(string \<Rightarrow> nat list) \<Rightarrow> nat \<Rightarrow> int list \<Rightarrow> string \<Rightarrow> int list" where
  "add_gram blake d v gram =
     (let digest = blake gram; i = gram_index digest d in v[i := v ! i + gram_sign digest])"

definition hashed :: "(string \<Rightarrow> nat list) \<Rightarrow> nat \<Rightarrow> string \<Rightarrow> int list" where
  "hashed blake d s = foldl (add_gram blake d) (replicate d 0) (trigrams (casefold s))"

definition normalise :: "(int \<Rightarrow> rat) \<Rightarrow> int list \<Rightarrow> rat list" where
  "normalise root_of v =
     (let norm = root_of (sum_list (map (\<lambda>x. x * x) v)) in
      if norm = 0 then map of_int v else map (\<lambda>x. of_int x / norm) v)"

definition embed_one :: "(string \<Rightarrow> nat list) \<Rightarrow> (int \<Rightarrow> rat) \<Rightarrow> nat \<Rightarrow> string \<Rightarrow> rat list" where
  "embed_one blake root_of d s = normalise root_of (hashed blake d s)"

section \<open>The two adapters\<close>

text \<open>What the source asks of a loaded sentence transformer.\<close>

record st_model =
  sm_dimension :: "nat option"
  sm_encode :: "string list \<Rightarrow> exn + rat list list"

record embedding_env =
  ee_blake :: "string \<Rightarrow> nat list"
  ee_sqrt :: "int \<Rightarrow> rat"
  ee_load :: "string \<Rightarrow> bool \<Rightarrow> exn + st_model"

datatype embedder_object =
    HashingEmbedder nat
  | SentenceTransformerEmbedder string bool "st_model option"

definition make_hashing :: "int \<Rightarrow> exn + embedder_object" where
  "make_hashing d =
     (if d < 1 then Inl (OtherError ''ValueError'' ''dimensions must be positive'') else Inr (HashingEmbedder (nat d)))"

definition make_sentence_transformer :: "string \<Rightarrow> bool \<Rightarrow> exn + embedder_object" where
  "make_sentence_transformer model_name local_only =
     (if model_name = [] then Inl (ConfigurationError ''RETRIEVER_MODEL must not be empty'')
      else Inr (SentenceTransformerEmbedder model_name local_only None))"

fun model_version :: "embedder_object \<Rightarrow> string" where
  "model_version (HashingEmbedder d) = ''hashing-trigram-'' @ show_nat d"
| "model_version (SentenceTransformerEmbedder model_name local_only m) = model_name"

definition load_model :: "embedding_env \<Rightarrow> string \<Rightarrow> bool \<Rightarrow> st_model option \<Rightarrow> exn + st_model" where
  "load_model V model_name local_only m =
     (case m of Some model \<Rightarrow> Inr model | None \<Rightarrow> ee_load V model_name local_only)"

text \<open>Reading the width and embedding both open the model once, and keep it.\<close>

fun embedder_dimensions :: "embedding_env \<Rightarrow> embedder_object \<Rightarrow> (exn + nat) \<times> embedder_object" where
  "embedder_dimensions V (HashingEmbedder d) = (Inr d, HashingEmbedder d)"
| "embedder_dimensions V (SentenceTransformerEmbedder model_name local_only m) =
     (case load_model V model_name local_only m of
        Inl e \<Rightarrow> (Inl e, SentenceTransformerEmbedder model_name local_only m)
      | Inr model \<Rightarrow>
         ((case sm_dimension model of
             None \<Rightarrow> Inl (ConfigurationError (''model '' @ py_repr model_name @ '' does not report an embedding dimension''))
           | Some n \<Rightarrow> Inr n),
          SentenceTransformerEmbedder model_name local_only (Some model)))"

fun embed_texts :: "embedding_env \<Rightarrow> embedder_object \<Rightarrow> string list \<Rightarrow> (exn + rat list list) \<times> embedder_object" where
  "embed_texts V (HashingEmbedder d) texts = (Inr (map (embed_one (ee_blake V) (ee_sqrt V) d) texts), HashingEmbedder d)"
| "embed_texts V (SentenceTransformerEmbedder model_name local_only m) texts =
     (if texts = [] then (Inr [], SentenceTransformerEmbedder model_name local_only m)
      else case load_model V model_name local_only m of
        Inl e \<Rightarrow> (Inl e, SentenceTransformerEmbedder model_name local_only m)
      | Inr model \<Rightarrow> (sm_encode model texts, SentenceTransformerEmbedder model_name local_only (Some model)))"

definition build_embedder :: "catalog_settings \<Rightarrow> exn + embedder_object" where
  "build_embedder s =
     (case rv_embedder_provider s of
        HASHING \<Rightarrow> make_hashing (int default_dimensions)
      | SENTENCE_TRANSFORMER \<Rightarrow> make_sentence_transformer (rv_model s) (rv_local_files_only s))"

text \<open>An opened embedder, as the indexer and the retriever use it.\<close>

definition opened :: "embedding_env \<Rightarrow> embedder_object \<Rightarrow> nat \<Rightarrow> rat list embedder" where
  "opened V em d = \<lparr>em_model = model_version em, em_dimensions = d, em_embed = (\<lambda>ts. fst (embed_texts V em ts))\<rparr>"

end
