(* ===== verification/Resources.thy ===== *)
theory Resources
  imports Embedding Dsn Catalog Retrieval
begin

text \<open>
  The connections and components of one process (\<open>src/composition/resources.py\<close>): opened on first use,
  cached, closed together. Connections are numbered in the order the driver hands them out; what the server
  answers on each of them, the driver, the pool and the vector extension are arguments. \<open>assert_read_only\<close>
  is the check of the read-only role, over the answers of the three privilege queries.
\<close>

section \<open>What a connection sees\<close>

record role_row =
  ro_superuser :: bool
  ro_createdb :: bool
  ro_createrole :: bool
  ro_bypassrls :: bool

record pg_relation =
  rl_schema :: string
  rl_name :: string
  rl_kind :: string

text \<open>The answers for the role of one connection: its row in \<open>pg_roles\<close>, the relations and schemas there are,
  and the privilege functions. Privileges on single columns and on functions are fields too, to say what the
  check does not ask.\<close>

record role_view =
  vw_attributes :: "role_row option"
  vw_relations :: "pg_relation list"
  vw_table_privilege :: "pg_relation \<Rightarrow> string \<Rightarrow> bool"
  vw_column_privilege :: "pg_relation \<Rightarrow> string \<Rightarrow> string \<Rightarrow> bool"
  vw_schemas :: "string list"
  vw_schema_privilege :: "string \<Rightarrow> string \<Rightarrow> bool"
  vw_default_read_only :: "string option"

section \<open>The check\<close>

definition system_schemas :: "string list" where
  "system_schemas = [''pg_catalog'', ''information_schema'']"

definition max_reported :: nat where
  "max_reported = 5"

definition system_prefix :: string where
  "system_prefix = ''pg_''"

definition user_schema :: "string \<Rightarrow> bool" where
  "user_schema n \<longleftrightarrow> n \<notin> set system_schemas \<and> \<not> prefix system_prefix n"

definition checked_kinds :: "string list" where
  "checked_kinds = [''r'', ''p'', ''v'', ''m'', ''f'']"

definition write_privileges :: "string list" where
  "write_privileges = [''INSERT'', ''UPDATE'', ''DELETE'', ''TRUNCATE'']"

definition writable_relation :: "role_view \<Rightarrow> pg_relation \<Rightarrow> bool" where
  "writable_relation v r \<longleftrightarrow> rl_kind r \<in> set checked_kinds \<and> user_schema (rl_schema r)
     \<and> list_ex (vw_table_privilege v r) write_privileges"

definition writable_relations :: "role_view \<Rightarrow> pg_relation list" where
  "writable_relations v =
     take max_reported (sort_key (\<lambda>r. (map code (rl_schema r), map code (rl_name r))) (filter (writable_relation v) (vw_relations v)))"

definition creatable_schema :: "role_view \<Rightarrow> string \<Rightarrow> bool" where
  "creatable_schema v n \<longleftrightarrow> user_schema n \<and> vw_schema_privilege v n ''CREATE''"

definition creatable_schemas :: "role_view \<Rightarrow> string list" where
  "creatable_schemas v = take max_reported (sort_key (map code) (filter (creatable_schema v) (vw_schemas v)))"

definition role_problems :: "role_row \<Rightarrow> string list" where
  "role_problems a =
     (if ro_superuser a then [''SUPERUSER (bypasses every grant, including all of the above)''] else [])
     @ (if ro_createdb a then [''CREATEDB''] else [])
     @ (if ro_createrole a then [''CREATEROLE (can grant itself anything)''] else [])
     @ (if ro_bypassrls a then [''BYPASSRLS (defeats row-level security)''] else [])"

definition reject_role_attributes :: "role_row \<Rightarrow> exn option" where
  "reject_role_attributes a =
     (if role_problems a \<noteq> []
      then Some (ConfigurationError (''DATABASE_RO_URL connects as a role with: '' @ join ''; '' (role_problems a)
        @ ''. The read-only boundary is enforced by grants, and these attributes are exemptions from grants.''))
      else None)"

definition writable_error :: "string list \<Rightarrow> exn" where
  "writable_error found =
     ConfigurationError (''DATABASE_RO_URL can write. The role it connects as holds INSERT, UPDATE, DELETE or TRUNCATE on: ''
       @ join '', '' found @ ''. Generated SQL runs under this role, so it is the boundary that makes every other control a defence in depth rather than the only one. Point DATABASE_RO_URL at the login role migration 002 creates, or revoke the grants.'')"

definition creatable_error :: "string list \<Rightarrow> exn" where
  "creatable_error found =
     ConfigurationError (''DATABASE_RO_URL can create objects in: '' @ join '', '' found
       @ ''. CREATE is a write: a role that can add a table can add a trigger, and the read-only guarantee is only as good as the objects it cannot introduce. REVOKE CREATE ON SCHEMA from this role, including the default grant PostgreSQL gives PUBLIC on ''
       @ py_repr ''public'' @ '' in versions before 15.'')"

definition judge_role :: "role_view \<Rightarrow> exn option" where
  "judge_role v =
     (case (case vw_attributes v of None \<Rightarrow> None | Some a \<Rightarrow> reject_role_attributes a) of
        Some e \<Rightarrow> Some e
      | None \<Rightarrow>
         (let writable = map (\<lambda>r. rl_schema r @ ''.'' @ rl_name r) (writable_relations v);
              creatable = creatable_schemas v in
          if writable \<noteq> [] then Some (writable_error writable)
          else if creatable \<noteq> [] then Some (creatable_error creatable) else None))"

section \<open>The driver, the pool and the process\<close>

record pool_config =
  pg_dsn :: string
  pg_min_size :: int
  pg_max_size :: int
  pg_timeout :: rat

text \<open>\<open>sv_connect\<close> is the driver's answer for a connection string, a timeout in seconds and the number the connection would
  get; \<open>sv_view\<close> and \<open>sv_scope\<close> what the privilege queries and \<open>set_config\<close> do on a connection; \<open>sv_rows\<close> the
  identifier rows of a dataset read over a connection; \<open>sv_vector\<close> the set-up of the vector type. A pool is opened with the function that
  configures each new connection; \<open>sv_lends\<close> are the connections an open pool can hand out.\<close>

record 'p server =
  sv_connect :: "string \<Rightarrow> int \<Rightarrow> nat \<Rightarrow> string option"
  sv_view :: "nat \<Rightarrow> exn + role_view"
  sv_scope :: "nat \<Rightarrow> string \<Rightarrow> exn option"
  sv_rows :: "nat \<Rightarrow> string \<Rightarrow> exn + (string \<times> string option) list"
  sv_vector :: "nat \<Rightarrow> exn + bool"
  sv_open_pool :: "(nat \<Rightarrow> exn option) \<Rightarrow> pool_config \<Rightarrow> string + 'p"
  sv_lends :: "'p \<Rightarrow> nat list"
  sv_embedding :: embedding_env
  sv_nearest :: "nat \<Rightarrow> rat list search_params \<Rightarrow> exn + retrieved_element list"

record 'p process =
  pw_next :: nat
  pw_open :: "nat list"
  pw_pools :: "'p list"

definition set_search_path :: "'p server \<Rightarrow> all_settings \<Rightarrow> nat \<Rightarrow> exn option" where
  "set_search_path V s c = sv_scope V c (db_target_schema (as_database s))"

definition assert_read_only :: "'p server \<Rightarrow> nat \<Rightarrow> exn option" where
  "assert_read_only V c = (case sv_view V c of Inl e \<Rightarrow> Some e | Inr v \<Rightarrow> judge_role v)"

definition prepare_pooled :: "'p server \<Rightarrow> all_settings \<Rightarrow> nat \<Rightarrow> exn option" where
  "prepare_pooled V s c =
     (case assert_read_only V c of Some e \<Rightarrow> Some e | None \<Rightarrow> set_search_path V s c)"

definition connect_timeout :: "int \<Rightarrow> int" where
  "connect_timeout ms = max 1 (ms div 1000)"

definition connect_url ::
  "'p server \<Rightarrow> string option \<Rightarrow> string \<Rightarrow> int \<Rightarrow> 'p process \<Rightarrow> (exn + nat) \<times> 'p process" where
  "connect_url V url variable timeout_ms w =
     (case url of
        None \<Rightarrow> (Inl (ConfigurationError (variable @ '' is required to run this MCP server'')), w)
      | Some u \<Rightarrow>
         (case sv_connect V (libpq_dsn u) (connect_timeout timeout_ms) (pw_next w) of
            Some message \<Rightarrow>
              (Inl (ConfigurationError (''could not connect using '' @ variable @ '': '' @ strip (redact_dsn message))),
               w\<lparr>pw_next := Suc (pw_next w)\<rparr>)
          | None \<Rightarrow> (Inr (pw_next w), w\<lparr>pw_next := Suc (pw_next w), pw_open := pw_next w # pw_open w\<rparr>)))"

definition close_connection :: "nat \<Rightarrow> 'p process \<Rightarrow> 'p process" where
  "close_connection c w = w\<lparr>pw_open := remove1 c (pw_open w)\<rparr>"

definition close_pool_of :: "'p \<Rightarrow> 'p process \<Rightarrow> 'p process" where
  "close_pool_of p w = w\<lparr>pw_pools := remove1 p (pw_pools w)\<rparr>"

section \<open>Resources\<close>

text \<open>A retriever with the connection and the embedder it holds; the embedder opens its model when asked.\<close>

record live_retriever =
  lv_connection :: nat
  lv_embedder :: embedder_object
  lv_dataset :: string
  lv_default_k :: int
  lv_ef_search :: int
  lv_iterative :: bool

record 'p resources =
  rs_owner :: "nat option"
  rs_readonly :: "nat option"
  rs_pool :: "'p option"
  rs_catalog :: "schema_catalog option"
  rs_retriever :: "live_retriever option"

definition fresh_resources :: "'p resources" where
  "fresh_resources = \<lparr>rs_owner = None, rs_readonly = None, rs_pool = None, rs_catalog = None, rs_retriever = None\<rparr>"

type_synonym 'p held = "'p resources \<times> 'p process"

definition owner :: "'p server \<Rightarrow> all_settings \<Rightarrow> 'p held \<Rightarrow> (exn + nat) \<times> 'p held" where
  "owner V s h =
     (let (R, w) = h in
      case rs_owner R of
        Some c \<Rightarrow> (Inr c, R, w)
      | None \<Rightarrow>
         (case connect_url V (database_url (as_database s)) ''DATABASE_URL'' (db_connect_timeout_ms (as_database s)) w of
            (Inl e, w1) \<Rightarrow> (Inl e, R, w1)
          | (Inr c, w1) \<Rightarrow> (Inr c, R\<lparr>rs_owner := Some c\<rparr>, w1)))"

definition readonly :: "'p server \<Rightarrow> all_settings \<Rightarrow> 'p held \<Rightarrow> (exn + nat) \<times> 'p held" where
  "readonly V s h =
     (let (R, w) = h in
      case rs_readonly R of
        Some c \<Rightarrow> (Inr c, R, w)
      | None \<Rightarrow>
         (case connect_url V (database_ro_url (as_database s)) ''DATABASE_RO_URL'' (db_connect_timeout_ms (as_database s)) w of
            (Inl e, w1) \<Rightarrow> (Inl e, R, w1)
          | (Inr c, w1) \<Rightarrow>
             (case prepare_pooled V s c of
                Some e \<Rightarrow> (Inl e, R, close_connection c w1)
              | None \<Rightarrow> (Inr c, R\<lparr>rs_readonly := Some c\<rparr>, w1))))"

definition pool_settings :: "all_settings \<Rightarrow> string \<Rightarrow> pool_config" where
  "pool_settings s url =
     \<lparr>pg_dsn = libpq_dsn url, pg_min_size = api_pool_min_size (as_api s), pg_max_size = api_pool_max_size (as_api s),
      pg_timeout = max 1 (of_int (db_connect_timeout_ms (as_database s)) / 1000)\<rparr>"

text \<open>A missing URL is not refused here: it reads as the text \<open>None\<close>.\<close>

definition readonly_pool :: "'p server \<Rightarrow> all_settings \<Rightarrow> 'p held \<Rightarrow> (exn + 'p) \<times> 'p held" where
  "readonly_pool V s h =
     (let (R, w) = h in
      case rs_pool R of
        Some p \<Rightarrow> (Inr p, R, w)
      | None \<Rightarrow>
         (case sv_open_pool V (prepare_pooled V s) (pool_settings s (of_option ''None'' (database_ro_url (as_database s)))) of
            Inl message \<Rightarrow>
              (Inl (ConfigurationError (''could not open the read-only connection pool using DATABASE_RO_URL: ''
                 @ strip (redact_dsn message))), R, w)
          | Inr p \<Rightarrow> (Inr p, R\<lparr>rs_pool := Some p\<rparr>, w\<lparr>pw_pools := p # pw_pools w\<rparr>)))"

definition catalog :: "'p server \<Rightarrow> all_settings \<Rightarrow> 'p held \<Rightarrow> (exn + schema_catalog) \<times> 'p held" where
  "catalog V s h =
     (case rs_catalog (fst h) of
        Some cat \<Rightarrow> (Inr cat, h)
      | None \<Rightarrow>
         (case owner V s h of
            (Inl e, h1) \<Rightarrow> (Inl e, h1)
          | (Inr c, h1) \<Rightarrow>
             (case sv_rows V c (rv_dataset (as_retrieval s)) of
                Inl e \<Rightarrow> (Inl e, h1)
              | Inr found \<Rightarrow>
                 (let cat = load_catalog found; h2 = ((fst h1)\<lparr>rs_catalog := Some cat\<rparr>, snd h1) in
                  if is_empty cat
                  then (Inl (ConfigurationError (''no catalog rows for dataset '' @ py_repr (rv_dataset (as_retrieval s))
                     @ ''. Run the indexer before starting the MCP servers -- every tool that resolves an identifier would otherwise reject every identifier.'')), h2)
                  else (Inr cat, h2)))))"

text \<open>The embedder is built before the owner connection is asked for; registering the vector type may fail.\<close>

definition open_retriever :: "'p server \<Rightarrow> nat \<Rightarrow> embedder_object \<Rightarrow> catalog_settings \<Rightarrow> exn + live_retriever" where
  "open_retriever V c em r =
     (case sv_vector V c of
        Inl e \<Rightarrow> Inl e
      | Inr iterative \<Rightarrow>
          Inr \<lparr>lv_connection = c, lv_embedder = em, lv_dataset = rv_dataset r, lv_default_k = clamp (rv_top_k r) 1 max_k,
               lv_ef_search = clamp (rv_ef_search r) 1 max_ef_search, lv_iterative = iterative\<rparr>)"

definition held_retriever :: "'p server \<Rightarrow> all_settings \<Rightarrow> 'p held \<Rightarrow> (exn + live_retriever) \<times> 'p held" where
  "held_retriever V s h =
     (case rs_retriever (fst h) of
        Some live \<Rightarrow> (Inr live, h)
      | None \<Rightarrow>
         (case build_embedder (as_retrieval s) of
            Inl e \<Rightarrow> (Inl e, h)
          | Inr em \<Rightarrow>
             (case owner V s h of
                (Inl e, h1) \<Rightarrow> (Inl e, h1)
              | (Inr c, h1) \<Rightarrow>
                 (case open_retriever V c em (as_retrieval s) of
                    Inl e \<Rightarrow> (Inl e, h1)
                  | Inr live \<Rightarrow> (Inr live, (fst h1)\<lparr>rs_retriever := Some live\<rparr>, snd h1)))))"

text \<open>Reading the width of the held retriever opens its model.\<close>

definition retriever_dimensions :: "'p server \<Rightarrow> live_retriever \<Rightarrow> 'p held \<Rightarrow> (exn + nat) \<times> 'p held" where
  "retriever_dimensions V live h =
     (case embedder_dimensions (sv_embedding V) (lv_embedder live) of
        (out, em) \<Rightarrow> (out, (fst h)\<lparr>rs_retriever := Some (live\<lparr>lv_embedder := em\<rparr>)\<rparr>, snd h))"

definition close_optional :: "nat option \<Rightarrow> 'p process \<Rightarrow> 'p process" where
  "close_optional c w = (case c of None \<Rightarrow> w | Some c \<Rightarrow> close_connection c w)"

definition close_resources :: "'p held \<Rightarrow> 'p process" where
  "close_resources h =
     (let (R, w) = h;
          w1 = (case rs_pool R of None \<Rightarrow> w | Some p \<Rightarrow> close_pool_of p w) in
      close_optional (rs_readonly R) (close_optional (rs_owner R) w1))"

text \<open>The retriever of an opened model, as \<open>Retrieval\<close> has it.\<close>

definition live_view :: "'p server \<Rightarrow> live_retriever \<Rightarrow> nat \<Rightarrow> rat list retriever" where
  "live_view V live d =
     \<lparr>rt_embedder = opened (sv_embedding V) (lv_embedder live) d, rt_is_zero = list_all (\<lambda>x. x = 0),
      rt_dataset = lv_dataset live, rt_default_k = lv_default_k live, rt_ef_search = lv_ef_search live,
      rt_iterative = lv_iterative live, rt_nearest = sv_nearest V (lv_connection live)\<rparr>"

section \<open>The check is exact\<close>

definition cannot_write :: "role_view \<Rightarrow> bool" where
  "cannot_write v \<longleftrightarrow>
     (\<forall>a. vw_attributes v = Some a \<longrightarrow> \<not> ro_superuser a \<and> \<not> ro_createdb a \<and> \<not> ro_createrole a \<and> \<not> ro_bypassrls a)
     \<and> (\<forall>r \<in> set (vw_relations v). rl_kind r \<in> set checked_kinds \<longrightarrow> user_schema (rl_schema r) \<longrightarrow>
          (\<forall>p \<in> set write_privileges. \<not> vw_table_privilege v r p))
     \<and> (\<forall>n \<in> set (vw_schemas v). user_schema n \<longrightarrow> \<not> vw_schema_privilege v n ''CREATE'')"

lemma take_sorted_empty: "0 < n \<Longrightarrow> take n (sort_key f xs) = [] \<longleftrightarrow> xs = []"
  by (metis length_0_conv length_sort list.size(3) take_eq_Nil less_numeral_extra(3))

lemma writable_relations_empty:
  "writable_relations v = [] \<longleftrightarrow> (\<forall>r \<in> set (vw_relations v). \<not> writable_relation v r)"
  by (simp add: writable_relations_def take_sorted_empty max_reported_def filter_empty_conv del: take_eq_Nil)

lemma creatable_schemas_empty:
  "creatable_schemas v = [] \<longleftrightarrow> (\<forall>n \<in> set (vw_schemas v). \<not> creatable_schema v n)"
  by (simp add: creatable_schemas_def take_sorted_empty max_reported_def filter_empty_conv del: take_eq_Nil)

lemma role_attributes_ok:
  "reject_role_attributes a = None \<longleftrightarrow> \<not> ro_superuser a \<and> \<not> ro_createdb a \<and> \<not> ro_createrole a \<and> \<not> ro_bypassrls a"
  by (simp add: reject_role_attributes_def role_problems_def)

lemma judge_role_None: "judge_role v = None \<longleftrightarrow> cannot_write v"
proof -
  have "judge_role v = None \<longleftrightarrow>
      (\<forall>a. vw_attributes v = Some a \<longrightarrow> reject_role_attributes a = None)
      \<and> writable_relations v = [] \<and> creatable_schemas v = []"
    by (auto simp: judge_role_def Let_def split: option.splits)
  then show ?thesis
    by (simp add: role_attributes_ok writable_relations_empty creatable_schemas_empty cannot_write_def
        writable_relation_def creatable_schema_def list_ex_iff) blast
qed

text \<open>What the check does not ask: privileges on single columns, and relations of other kinds, sequences among them.\<close>

lemma judge_role_cong:
  "vw_attributes v = vw_attributes u \<Longrightarrow> writable_relations v = writable_relations u \<Longrightarrow>
   creatable_schemas v = creatable_schemas u \<Longrightarrow> judge_role v = judge_role u"
  by (simp add: judge_role_def cong: option.case_cong)

lemma column_grants_unseen: "judge_role (v\<lparr>vw_column_privilege := f\<rparr>) = judge_role v"
  by (rule judge_role_cong)
    (simp_all add: writable_relations_def writable_relation_def [abs_def] creatable_schemas_def creatable_schema_def [abs_def])

lemma sequences_unseen:
  assumes "\<forall>r \<in> set xs. rl_kind r = ''S''"
  shows "judge_role (v\<lparr>vw_relations := vw_relations v @ xs\<rparr>) = judge_role v"
proof (rule judge_role_cong)
  have "filter (writable_relation v) xs = []"
    using assms by (auto simp: filter_empty_conv writable_relation_def checked_kinds_def)
  moreover have "writable_relation (v\<lparr>vw_relations := ys\<rparr>) = writable_relation v" for ys
    by (simp add: writable_relation_def fun_eq_iff)
  ultimately show "writable_relations (v\<lparr>vw_relations := vw_relations v @ xs\<rparr>) = writable_relations v"
    by (simp add: writable_relations_def)
qed (simp_all add: creatable_schemas_def creatable_schema_def [abs_def])

section \<open>Every held connection is proved, none is lost\<close>

text \<open>What the pool library documents: every connection a pool hands out has been configured.\<close>

definition pool_configures :: "'p server \<Rightarrow> bool" where
  "pool_configures V \<longleftrightarrow>
     (\<forall>f cfg p. sv_open_pool V f cfg = Inr p \<longrightarrow> (\<forall>c \<in> set (sv_lends V p). f c = None))"

definition session_ok :: "'p server \<Rightarrow> all_settings \<Rightarrow> nat \<Rightarrow> bool" where
  "session_ok V s c \<longleftrightarrow>
     (\<exists>v. sv_view V c = Inr v \<and> cannot_write v) \<and> sv_scope V c (db_target_schema (as_database s)) = None"

lemma prepare_pooled_None: "prepare_pooled V s c = None \<longleftrightarrow> session_ok V s c"
  by (auto simp: prepare_pooled_def assert_read_only_def set_search_path_def session_ok_def judge_role_None [symmetric]
      split: option.splits sum.splits)

inductive res_step :: "'p server \<Rightarrow> all_settings \<Rightarrow> 'p held \<Rightarrow> 'p held \<Rightarrow> bool" for V s where
  step_owner: "res_step V s h (snd (owner V s h))"
| step_readonly: "res_step V s h (snd (readonly V s h))"
| step_pool: "res_step V s h (snd (readonly_pool V s h))"
| step_catalog: "res_step V s h (snd (catalog V s h))"
| step_retriever: "res_step V s h (snd (held_retriever V s h))"
| step_dimensions: "rs_retriever (fst h) = Some live \<Longrightarrow> res_step V s h (snd (retriever_dimensions V live h))"

definition idle :: "'p process \<Rightarrow> bool" where
  "idle w \<longleftrightarrow> pw_open w = [] \<and> pw_pools w = []"

definition accounted :: "'p server \<Rightarrow> all_settings \<Rightarrow> 'p held \<Rightarrow> bool" where
  "accounted V s h \<longleftrightarrow>
     distinct (pw_open (snd h)) \<and> set (pw_open (snd h)) = set (somes [rs_owner (fst h), rs_readonly (fst h)])
     \<and> distinct (somes [rs_owner (fst h), rs_readonly (fst h)])
     \<and> (\<forall>c \<in> set (pw_open (snd h)). c < pw_next (snd h))
     \<and> pw_pools (snd h) = somes [rs_pool (fst h)]
     \<and> (\<forall>c. rs_readonly (fst h) = Some c \<longrightarrow> session_ok V s c)
     \<and> (\<forall>p. rs_pool (fst h) = Some p \<longrightarrow> (\<forall>c \<in> set (sv_lends V p). session_ok V s c))
     \<and> (\<forall>live. rs_retriever (fst h) = Some live \<longrightarrow> rs_owner (fst h) = Some (lv_connection live))"

lemma connect_url_cases:
  obtains e where "connect_url V url variable ms w = (Inl e, w)"
  | e where "connect_url V url variable ms w = (Inl e, w\<lparr>pw_next := Suc (pw_next w)\<rparr>)"
  | "connect_url V url variable ms w = (Inr (pw_next w), w\<lparr>pw_next := Suc (pw_next w), pw_open := pw_next w # pw_open w\<rparr>)"
  by (cases url; cases "sv_connect V (libpq_dsn (the url)) (connect_timeout ms) (pw_next w)") (auto simp: connect_url_def)

lemma accounted_owner: "accounted V s h \<Longrightarrow> accounted V s (snd (owner V s h))"
proof (cases "rs_owner (fst h)")
  case None
  assume a: "accounted V s h"
  then have n: "pw_next (snd h) \<notin> set (pw_open (snd h))" by (auto simp: accounted_def)
  show ?thesis
    by (rule connect_url_cases [of V "database_url (as_database s)" "''DATABASE_URL''" "db_connect_timeout_ms (as_database s)" "snd h"])
      (use a n None in \<open>auto simp: owner_def accounted_def split_beta intro: less_SucI split: option.splits\<close>)
qed (simp add: owner_def split_beta)

lemma accounted_readonly: "accounted V s h \<Longrightarrow> accounted V s (snd (readonly V s h))"
proof (cases "rs_readonly (fst h)")
  case None
  assume a: "accounted V s h"
  then have n: "pw_next (snd h) \<notin> set (pw_open (snd h))" by (auto simp: accounted_def)
  show ?thesis
    by (cases "rs_owner (fst h)"; rule connect_url_cases [of V "database_ro_url (as_database s)" "''DATABASE_RO_URL''" "db_connect_timeout_ms (as_database s)" "snd h"])
      (use a n None in \<open>auto simp: readonly_def accounted_def split_beta close_connection_def
        prepare_pooled_None [symmetric] intro: less_SucI split: option.splits\<close>)
qed (simp add: readonly_def split_beta)

lemma pool_proved:
  "pool_configures V \<Longrightarrow> sv_open_pool V (prepare_pooled V s) cfg = Inr p \<Longrightarrow> c \<in> set (sv_lends V p) \<Longrightarrow> session_ok V s c"
  by (metis pool_configures_def prepare_pooled_None)

lemma accounted_pool: "pool_configures V \<Longrightarrow> accounted V s h \<Longrightarrow> accounted V s (snd (readonly_pool V s h))"
  by (auto simp: readonly_pool_def accounted_def split_beta dest: pool_proved split: option.splits sum.splits)

lemma owner_frame:
  "rs_catalog (fst (snd (owner V s h))) = rs_catalog (fst h)" "rs_retriever (fst (snd (owner V s h))) = rs_retriever (fst h)"
  by (auto simp: owner_def split_beta split: option.splits sum.splits)

lemma owner_Inr: "owner V s h = (Inr c, h1) \<Longrightarrow> rs_owner (fst h1) = Some c"
  by (auto simp: owner_def split_beta split: option.splits sum.splits)

lemma accounted_catalog:
  assumes "accounted V s h"
  shows "accounted V s (snd (catalog V s h))"
proof -
  have "snd (catalog V s h) = h \<or> (\<exists>cat. fst (snd (catalog V s h)) = (fst (snd (owner V s h)))\<lparr>rs_catalog := cat\<rparr>
      \<and> snd (snd (catalog V s h)) = snd (snd (owner V s h)))"
    by (auto simp: catalog_def Let_def split_beta intro: exI [where x = "rs_catalog (fst (snd (owner V s h)))"]
        split: option.splits sum.splits)
  then show ?thesis using assms accounted_owner [OF assms] by (auto simp: accounted_def)
qed

lemma open_retriever_connection: "open_retriever V c em r = Inr live \<Longrightarrow> lv_connection live = c"
  by (auto simp: open_retriever_def split: sum.splits)

lemma accounted_retriever:
  assumes "accounted V s h"
  shows "accounted V s (snd (held_retriever V s h))"
proof (cases "rs_retriever (fst h)")
  case None
  obtain out h1 where o: "owner V s h = (out, h1)" by (cases "owner V s h")
  have h1: "accounted V s h1" using accounted_owner [OF assms] o by simp
  show ?thesis
    using assms h1 owner_Inr [of V s h] o
    by (auto simp: held_retriever_def None accounted_def dest: open_retriever_connection split: sum.splits)
qed (use assms in \<open>simp add: held_retriever_def\<close>)

lemma accounted_dimensions:
  "accounted V s h \<Longrightarrow> rs_retriever (fst h) = Some live \<Longrightarrow> accounted V s (snd (retriever_dimensions V live h))"
  by (auto simp: retriever_dimensions_def accounted_def split_beta)

lemma accounted_step: "pool_configures V \<Longrightarrow> res_step V s h h' \<Longrightarrow> accounted V s h \<Longrightarrow> accounted V s h'"
  by (erule res_step.cases)
    (simp_all add: accounted_owner accounted_readonly accounted_pool accounted_catalog accounted_retriever accounted_dimensions)

lemma accounted_fresh: "idle w \<Longrightarrow> accounted V s (fresh_resources, w)"
  by (simp add: accounted_def fresh_resources_def idle_def)

lemma accounted_reachable:
  assumes "pool_configures V" "(res_step V s)\<^sup>*\<^sup>* (fresh_resources, w) h" "idle w"
  shows "accounted V s h"
  using assms(2) by (induction rule: rtranclp_induct) (use assms accounted_fresh accounted_step in blast)+

lemma closed_idle: "accounted V s h \<Longrightarrow> idle (close_resources h)"
  by (cases "rs_owner (fst h)"; cases "rs_readonly (fst h)"; cases "rs_pool (fst h)")
    (auto simp: accounted_def close_resources_def close_optional_def close_connection_def close_pool_of_def idle_def
      split_beta set_empty [symmetric] simp del: set_empty)


definition reader_view :: role_view where
  "reader_view = \<lparr>vw_attributes = Some \<lparr>ro_superuser = False, ro_createdb = False, ro_createrole = False, ro_bypassrls = False\<rparr>,
     vw_relations = [\<lparr>rl_schema = ''public'', rl_name = ''t'', rl_kind = ''r''\<rparr>],
     vw_table_privilege = (\<lambda>r p. p = ''SELECT''), vw_column_privilege = (\<lambda>r c p. False),
     vw_schemas = [''public''], vw_schema_privilege = (\<lambda>n p. p = ''USAGE''), vw_default_read_only = Some ''on''\<rparr>"

definition toy_embedding :: embedding_env where
  "toy_embedding = \<lparr>ee_blake = (\<lambda>g. replicate 8 (length g)), ee_sqrt = (\<lambda>n. of_int n),
     ee_load = (\<lambda>n l. Inl (OtherError ''OSError'' []))\<rparr>"

text \<open>A server whose connection strings \<open>a\<close> and \<open>b\<close> connect; a pool is the connections it lends, configured one by one.\<close>

definition toy_pg_server :: "(nat \<Rightarrow> exn + role_view) \<Rightarrow> nat list server" where
  "toy_pg_server view = \<lparr>sv_connect = (\<lambda>dsn t n. if dsn = ''a'' \<or> dsn = ''b'' then None else Some ''no''), sv_view = view,
     sv_scope = (\<lambda>c n. None), sv_rows = (\<lambda>c d. if d = ''default'' then Inr [(''t'', Some ''x'')] else Inr []),
     sv_vector = (\<lambda>c. Inr True),
     sv_open_pool = (\<lambda>f cfg. if f 100 = None then Inr [100] else Inl ''timeout''), sv_lends = (\<lambda>p. p),
     sv_embedding = toy_embedding, sv_nearest = (\<lambda>c ps. Inr [])\<rparr>"

lemma toy_pool_configures: "pool_configures (toy_pg_server view)"
  by (auto simp: pool_configures_def toy_pg_server_def split: if_splits)

definition nothing_held :: "'p process" where
  "nothing_held = \<lparr>pw_next = 0, pw_open = [], pw_pools = []\<rparr>"

lemma toy_readonly:
  "readonly (toy_pg_server (\<lambda>c. Inr reader_view)) toy_settings (fresh_resources, nothing_held)
   = (Inr 0, fresh_resources\<lparr>rs_readonly := Some 0\<rparr>, \<lparr>pw_next = 1, pw_open = [0], pw_pools = []\<rparr>)"
proof -
  have "cannot_write reader_view"
    by (simp add: cannot_write_def reader_view_def write_privileges_def)
  then have "prepare_pooled (toy_pg_server (\<lambda>c. Inr reader_view)) toy_settings 0 = None"
    by (simp add: prepare_pooled_None session_ok_def) (simp add: toy_pg_server_def)
  moreover have "libpq_dsn ''b'' = ''b''" by code_simp
  ultimately show ?thesis
    by (simp add: readonly_def connect_url_def fresh_resources_def nothing_held_def toy_settings_def toy_pg_server_def)
qed


text \<open>A role that can insert is refused and its connection closed.\<close>

lemma writer_refused:
  assumes "sv_view V (pw_next w) = Inr v" "r \<in> set (vw_relations v)" "rl_kind r \<in> set checked_kinds" "user_schema (rl_schema r)"
    and "p \<in> set write_privileges" "vw_table_privilege v r p" and "rs_readonly R = None"
  shows "\<exists>e w'. readonly V s (R, w) = (Inl e, R, w') \<and> pw_open w' = pw_open w"
proof -
  have "\<not> cannot_write v" using assms unfolding cannot_write_def by blast
  then obtain e where e: "prepare_pooled V s (pw_next w) = Some e"
    using assms(1) judge_role_None [of v] by (cases "judge_role v") (auto simp: prepare_pooled_def assert_read_only_def)
  show ?thesis
    by (rule connect_url_cases [of V "database_ro_url (as_database s)" "''DATABASE_RO_URL''" "db_connect_timeout_ms (as_database s)" w])
      (simp_all add: readonly_def assms(7) e close_connection_def)
qed

text \<open>The catalog is kept before it is found empty: a second access returns the empty catalog without an error.\<close>

lemma empty_catalog_returned_later:
  assumes "rs_catalog (fst h) = None" "owner V s h = (Inr c, h1)" "sv_rows V c (rv_dataset (as_retrieval s)) = Inr []"
  shows "\<exists>e h2. catalog V s h = (Inl e, h2) \<and> catalog V s h2 = (Inr [], h2)"
  using assms by (simp add: catalog_def load_catalog_def is_empty_def Let_def)

end
