(* ===== verification/Service.thy ===== *)
theory Service
  imports Resources Gateway
begin

text \<open>
  The application (\<open>src/api/app.py\<close>) and the page it may serve (\<open>src/api/static.py\<close>): what
  \<open>create_app\<close> registers and in which order, the way of a response through the middleware, and the lifespan
  that opens every dependency before serving and closes them after. The framework's part is its documented
  order: the middleware added last runs first, handlers of single exception classes run inside the middleware, the
  handler of \<open>Exception\<close> outside of it. The file system is two predicates.
\<close>

section \<open>Security headers\<close>

definition content_security_policy :: string where
  "content_security_policy = join ''; ''
     [''default-src '' @ py_repr ''self'', ''script-src '' @ py_repr ''self'',
      ''style-src '' @ py_repr ''self'' @ '' '' @ py_repr ''unsafe-inline'', ''img-src '' @ py_repr ''self'' @ '' data:'',
      ''font-src '' @ py_repr ''self'', ''connect-src '' @ py_repr ''self'', ''form-action '' @ py_repr ''none'',
      ''frame-ancestors '' @ py_repr ''none'', ''base-uri '' @ py_repr ''none'', ''object-src '' @ py_repr ''none'']"

definition security_headers :: "(string, string) dict" where
  "security_headers = [(''Content-Security-Policy'', content_security_policy), (''X-Content-Type-Options'', ''nosniff''),
     (''X-Frame-Options'', ''DENY''), (''Referrer-Policy'', ''no-referrer'')]"

text \<open>Header names are compared without regard to case.\<close>

definition has_header :: "string \<Rightarrow> (string \<times> string) list \<Rightarrow> bool" where
  "has_header name hs \<longleftrightarrow> list_ex (\<lambda>h. py_lower (fst h) = py_lower name) hs"

definition add_missing :: "(string \<times> string) list \<Rightarrow> string \<times> string \<Rightarrow> (string \<times> string) list" where
  "add_missing hs h = (if has_header (fst h) hs then hs else hs @ [h])"

definition secure :: "response \<Rightarrow> response" where
  "secure r = r\<lparr>rs_headers := foldl add_missing (rs_headers r) security_headers\<rparr>"

section \<open>Static files\<close>

record file_system =
  fy_resolve :: "string \<Rightarrow> string"
  fy_is_dir :: "string \<Rightarrow> bool"
  fy_is_file :: "string \<Rightarrow> bool"

definition below_path :: "string \<Rightarrow> string \<Rightarrow> string" where
  "below_path dir name = dir @ ''/'' @ name"

definition resolve_static_dir :: "file_system \<Rightarrow> string \<Rightarrow> exn + string option" where
  "resolve_static_dir F configured =
     (if strip configured = [] then Inr None
      else let dir = fy_resolve F configured in
        if \<not> fy_is_dir F dir
        then Inl (ConfigurationError (''API_STATIC_DIR='' @ py_repr configured @ '' is not a directory''))
        else if \<not> fy_is_file F (below_path dir ''index.html'')
        then Inl (ConfigurationError (''API_STATIC_DIR='' @ py_repr configured
               @ '' has no index.html. Run `npm run build` in web/ first.''))
        else Inr (Some dir))"

section \<open>The application\<close>

datatype endpoint = HealthEndpoint | ReadyEndpoint | QueryEndpoint | AssetFiles string | IndexPage string

text \<open>A route answers one path, a mount everything under a prefix.\<close>

datatype route = Route string string endpoint | Mount string endpoint

datatype layer = RequestIds | BodyLimit int | SecurityHeaders | Cors "string list"

record app =
  ap_docs_url :: "string option"
  ap_redoc_url :: "string option"
  ap_openapi_url :: "string option"
  ap_routes :: "route list"
  ap_layers :: "layer list"

text \<open>\<open>ap_layers\<close> holds the middleware from the outside in.\<close>

definition add_middleware :: "layer \<Rightarrow> app \<Rightarrow> app" where
  "add_middleware l a = a\<lparr>ap_layers := l # ap_layers a\<rparr>"

definition include_routes :: "route list \<Rightarrow> app \<Rightarrow> app" where
  "include_routes rs a = a\<lparr>ap_routes := ap_routes a @ rs\<rparr>"

definition mount_ui :: "file_system \<Rightarrow> string \<Rightarrow> app \<Rightarrow> app" where
  "mount_ui F dir a =
     (let assets = below_path dir ''assets'';
          a1 = (if fy_is_dir F assets then include_routes [Mount ''/assets'' (AssetFiles assets)] a else a) in
      include_routes [Route ''GET'' ''/'' (IndexPage (below_path dir ''index.html''))] a1)"

definition new_app :: "api_settings \<Rightarrow> app" where
  "new_app s =
     \<lparr>ap_docs_url = (if api_docs_enabled s then Some ''/docs'' else None),
      ap_redoc_url = (if api_docs_enabled s then Some ''/redoc'' else None),
      ap_openapi_url = (if api_docs_enabled s then Some ''/openapi.json'' else None),
      ap_routes = [], ap_layers = []\<rparr>"

definition health_routes :: "route list" where
  "health_routes = [Route ''GET'' ''/health'' HealthEndpoint, Route ''GET'' ''/ready'' ReadyEndpoint]"

definition query_routes :: "route list" where
  "query_routes = [Route ''POST'' ''/v1/query'' QueryEndpoint]"

definition create_app :: "file_system \<Rightarrow> all_settings \<Rightarrow> exn + app" where
  "create_app F s =
     (let a0 = new_app (as_api s);
          a1 = add_middleware SecurityHeaders (add_middleware (BodyLimit (api_max_body_bytes (as_api s)))
                 (add_middleware RequestIds a0));
          a2 = include_routes query_routes (include_routes health_routes a1) in
      case resolve_static_dir F (api_static_dir (as_api s)) of
        Inl e \<Rightarrow> Inl e
      | Inr dir \<Rightarrow>
         (let a3 = (case dir of None \<Rightarrow> a2 | Some dir \<Rightarrow> mount_ui F dir a2) in
          Inr (if api_cors_origins (as_api s) \<noteq> [] then add_middleware (Cors (api_cors_origins (as_api s))) a3 else a3)))"

text \<open>The first registered route that matches the path; a route matches whatever the method, which is checked after.\<close>

fun matches :: "string \<Rightarrow> route \<Rightarrow> bool" where
  "matches path (Route verb p e) = (path = p)"
| "matches path (Mount p e) = (path = p \<or> prefix (p @ ''/'') path)"

definition route_for :: "app \<Rightarrow> string \<Rightarrow> route option" where
  "route_for a path = find (matches path) (ap_routes a)"

section \<open>The way of a response\<close>

record http_request =
  hq_request_id :: "string option"
  hq_length :: "int option"
  hq_preflight :: bool

record http_env =
  he_fresh :: string
  he_preflight :: "string list \<Rightarrow> response"
  he_cors_headers :: "string list \<Rightarrow> (string \<times> string) list"

definition request_id_in :: "http_env \<Rightarrow> http_request \<Rightarrow> string" where
  "request_id_in E q = assign_request_id (he_fresh E) (hq_request_id q)"

text \<open>Inside the middleware the handlers of the single classes run; what they do not take is raised through it.\<close>

definition handled_inside :: "http_env \<Rightarrow> http_request \<Rightarrow> failure + response \<Rightarrow> exn + response" where
  "handled_inside E q out =
     (case out of
        Inr r \<Rightarrow> Inr r
      | Inl f \<Rightarrow>
         (case f of
            Raised e \<Rightarrow>
              (case e of
                 ApiError st c msg \<Rightarrow> Inr (handle (request_id_in E q) f)
               | _ \<Rightarrow> if isinst e CTextToSQLError then Inr (handle (request_id_in E q) f) else Inl e)
          | _ \<Rightarrow> Inr (handle (request_id_in E q) f)))"

fun through :: "http_env \<Rightarrow> http_request \<Rightarrow> failure + response \<Rightarrow> layer list \<Rightarrow> exn + response" where
  "through E q out [] = handled_inside E q out"
| "through E q out (RequestIds # ls) =
     (case through E q out ls of
        Inl e \<Rightarrow> Inl e
      | Inr r \<Rightarrow> Inr (dispatch (he_fresh E) (hq_request_id q) (\<lambda>_. r)))"
| "through E q out (BodyLimit n # ls) =
     (case hq_length q of
        Some len \<Rightarrow> if len > n
          then Inr (envelope PAYLOAD_TOO_LARGE (''request body exceeds '' @ show_int n @ '' bytes'') (request_id_in E q) None)
          else through E q out ls
      | None \<Rightarrow> through E q out ls)"
| "through E q out (SecurityHeaders # ls) =
     (case through E q out ls of Inl e \<Rightarrow> Inl e | Inr r \<Rightarrow> Inr (secure r))"
| "through E q out (Cors origins # ls) =
     (if hq_preflight q then Inr (he_preflight E origins)
      else case through E q out ls of
        Inl e \<Rightarrow> Inl e
      | Inr r \<Rightarrow> Inr (r\<lparr>rs_headers := rs_headers r @ he_cors_headers E origins\<rparr>))"

text \<open>What is still raised outside the middleware is answered by the handler of \<open>Exception\<close>.\<close>

definition respond :: "http_env \<Rightarrow> app \<Rightarrow> http_request \<Rightarrow> failure + response \<Rightarrow> response" where
  "respond E a q out =
     (case through E q out (ap_layers a) of
        Inr r \<Rightarrow> r
      | Inl e \<Rightarrow> envelope INTERNAL_ERROR generic_failure (request_id_in E q) None)"

section \<open>The lifespan\<close>

definition and_then :: "(exn + 'a) \<times> 'h \<Rightarrow> ('a \<Rightarrow> 'h \<Rightarrow> (exn + 'b) \<times> 'h) \<Rightarrow> (exn + 'b) \<times> 'h" where
  "and_then r f = (case r of (Inl e, h) \<Rightarrow> (Inl e, h) | (Inr x, h) \<Rightarrow> f x h)"

text \<open>What \<open>build_answerer\<close> and \<open>build_executor\<close> hand to the service.\<close>

record 'p wired =
  wi_retriever :: live_retriever
  wi_client :: built_client
  wi_max_rows :: int
  wi_pool :: 'p
  wi_validator :: nat
  wi_catalog :: schema_catalog
  wi_audit :: nat
  wi_db_role :: string

definition answerer_parts :: "'p server \<Rightarrow> all_settings \<Rightarrow> 'p held \<Rightarrow> (exn + live_retriever \<times> built_client) \<times> 'p held" where
  "answerer_parts V s h =
     and_then (held_retriever V s h) (\<lambda>live h.
     and_then (build_llm_client (as_llm s), h) (\<lambda>client h. (Inr (live, client), h)))"

definition executor_parts :: "'p server \<Rightarrow> all_settings \<Rightarrow> 'p held \<Rightarrow> (exn + 'p \<times> nat \<times> schema_catalog \<times> nat) \<times> 'p held" where
  "executor_parts V s h =
     and_then (readonly_pool V s h) (\<lambda>p h.
     and_then (readonly V s h) (\<lambda>ro h.
     and_then (catalog V s h) (\<lambda>cat h.
     and_then (owner V s h) (\<lambda>ow h. (Inr (p, ro, cat, ow), h)))))"

definition wire_service :: "'p server \<Rightarrow> all_settings \<Rightarrow> 'p held \<Rightarrow> (exn + 'p wired) \<times> 'p held" where
  "wire_service V s h =
     and_then (answerer_parts V s h) (\<lambda>(live, client) h.
     and_then (executor_parts V s h) (\<lambda>(p, ro, cat, ow) h.
       (Inr \<lparr>wi_retriever = live, wi_client = client, wi_max_rows = max_rows_default (as_execution s), wi_pool = p,
             wi_validator = ro, wi_catalog = cat, wi_audit = ow, wi_db_role = db_readonly_role (as_database s)\<rparr>, h)))"

record 'p serving =
  srv_wired :: "'p wired"
  srv_limit :: int
  srv_keepalive :: rat
  srv_probes :: "(string \<times> nat) list"

definition lifespan_start :: "'p server \<Rightarrow> all_settings \<Rightarrow> 'p held \<Rightarrow> (exn + 'p serving) \<times> 'p held" where
  "lifespan_start V s h =
     and_then (readonly V s h) (\<lambda>ro h.
     and_then (owner V s h) (\<lambda>ow h.
     and_then (catalog V s h) (\<lambda>cat h.
     and_then (held_retriever V s h) (\<lambda>live h.
     and_then (retriever_dimensions V live h) (\<lambda>d h.
     and_then (wire_service V s h) (\<lambda>wired h.
       (Inr \<lparr>srv_wired = wired, srv_limit = api_max_concurrent_requests (as_api s),
             srv_keepalive = api_stream_keepalive_seconds (as_api s),
             srv_probes = [(''database'', ow), (''database_readonly'', ro)]\<rparr>, h)))))))"

text \<open>The whole lifespan: what is served, the process while serving, and the process after the \<open>finally\<close>.\<close>

definition lifespan :: "'p server \<Rightarrow> all_settings \<Rightarrow> 'p process \<Rightarrow> (exn + 'p serving) \<times> 'p held \<times> 'p process" where
  "lifespan V s w = (let (out, h) = lifespan_start V s (fresh_resources, w) in (out, h, close_resources h))"

text \<open>A route that needs the service before the lifespan has built it is told to come back.\<close>

definition query_service_of :: "'p serving option \<Rightarrow> exn + 'p serving" where
  "query_service_of st =
     (case st of
        None \<Rightarrow> Inl (ApiError (ec_status NOT_READY) (ec_code NOT_READY) ''the service is still starting'')
      | Some x \<Rightarrow> Inr x)"

section \<open>Starting up\<close>

lemma and_then_Inr: "and_then r f = (Inr y, h') \<longleftrightarrow> (\<exists>x h. r = (Inr x, h) \<and> f x h = (Inr y, h'))"
  by (auto simp: and_then_def split: prod.splits sum.splits)

lemma reach_and_then:
  assumes "(res_step V s)\<^sup>*\<^sup>* h (snd r)"
    and "\<And>x. fst r = Inr x \<Longrightarrow> (res_step V s)\<^sup>*\<^sup>* h (snd r) \<Longrightarrow> (res_step V s)\<^sup>*\<^sup>* h (snd (f x (snd r)))"
  shows "(res_step V s)\<^sup>*\<^sup>* h (snd (and_then r f))"
  using assms by (cases r; cases "fst r") (auto simp: and_then_def)

lemma reach_ops:
  assumes "(res_step V s)\<^sup>*\<^sup>* h0 h"
  shows "(res_step V s)\<^sup>*\<^sup>* h0 (snd (owner V s h))" "(res_step V s)\<^sup>*\<^sup>* h0 (snd (readonly V s h))"
    "(res_step V s)\<^sup>*\<^sup>* h0 (snd (readonly_pool V s h))" "(res_step V s)\<^sup>*\<^sup>* h0 (snd (catalog V s h))"
    "(res_step V s)\<^sup>*\<^sup>* h0 (snd (held_retriever V s h))"
    "rs_retriever (fst h) = Some live \<Longrightarrow> (res_step V s)\<^sup>*\<^sup>* h0 (snd (retriever_dimensions V live h))"
  using assms by (auto intro: rtranclp.rtrancl_into_rtrancl res_step.intros)

lemma retriever_Inr: "fst (held_retriever V s h) = Inr live \<Longrightarrow> rs_retriever (fst (snd (held_retriever V s h))) = Some live"
  by (auto simp: held_retriever_def split_beta split: option.splits sum.splits prod.splits)

lemma reach_answerer: "(res_step V s)\<^sup>*\<^sup>* h0 h \<Longrightarrow> (res_step V s)\<^sup>*\<^sup>* h0 (snd (answerer_parts V s h))"
  unfolding answerer_parts_def by (intro reach_and_then reach_ops) simp_all

lemma reach_executor: "(res_step V s)\<^sup>*\<^sup>* h0 h \<Longrightarrow> (res_step V s)\<^sup>*\<^sup>* h0 (snd (executor_parts V s h))"
  unfolding executor_parts_def by (intro reach_and_then reach_ops) simp_all

lemma reach_wire: "(res_step V s)\<^sup>*\<^sup>* h0 h \<Longrightarrow> (res_step V s)\<^sup>*\<^sup>* h0 (snd (wire_service V s h))"
  unfolding wire_service_def by (intro reach_and_then reach_answerer reach_executor) (auto intro!: reach_and_then reach_executor)

lemma reach_lifespan: "(res_step V s)\<^sup>*\<^sup>* h0 h \<Longrightarrow> (res_step V s)\<^sup>*\<^sup>* h0 (snd (lifespan_start V s h))"
  unfolding lifespan_start_def
  by (intro reach_and_then reach_ops reach_wire retriever_Inr) simp_all

lemma access_Inr:
  "readonly V s h = (Inr c, h') \<Longrightarrow> rs_readonly (fst h') = Some c"
  "readonly_pool V s h = (Inr p, h') \<Longrightarrow> rs_pool (fst h') = Some p"
  "catalog V s h = (Inr cat, h') \<Longrightarrow> rs_catalog (fst h') = Some cat"
  by (auto simp: readonly_def readonly_pool_def catalog_def split_beta Let_def
      split: option.splits sum.splits prod.splits if_splits)

definition keeps :: "'p held \<Rightarrow> 'p held \<Rightarrow> bool" where
  "keeps h h' \<longleftrightarrow> (\<forall>c. rs_owner (fst h) = Some c \<longrightarrow> rs_owner (fst h') = Some c)
     \<and> (\<forall>c. rs_readonly (fst h) = Some c \<longrightarrow> rs_readonly (fst h') = Some c)
     \<and> (\<forall>p. rs_pool (fst h) = Some p \<longrightarrow> rs_pool (fst h') = Some p)
     \<and> (\<forall>cat. rs_catalog (fst h) = Some cat \<longrightarrow> rs_catalog (fst h') = Some cat)"

lemma keeps_trans: "keeps a b \<Longrightarrow> keeps b c \<Longrightarrow> keeps a c"
  by (simp add: keeps_def)

lemma keeps_owner: "keeps h (snd (owner V s h))"
  by (auto simp: keeps_def owner_def split_beta split: option.splits sum.splits)

lemma keeps_readonly: "keeps h (snd (readonly V s h))"
  by (auto simp: keeps_def readonly_def split_beta split: option.splits sum.splits)

lemma keeps_pool: "keeps h (snd (readonly_pool V s h))"
  by (auto simp: keeps_def readonly_pool_def split_beta split: option.splits sum.splits)

lemma keeps_catalog: "keeps h (snd (catalog V s h))"
  using keeps_owner [of h V s]
  by (auto simp: keeps_def catalog_def split_beta Let_def split: option.splits sum.splits prod.splits)

lemma keeps_retriever: "keeps h (snd (held_retriever V s h))"
  using keeps_owner [of h V s]
  by (auto simp: keeps_def held_retriever_def split_beta Let_def split: option.splits sum.splits prod.splits)

lemma keeps_dimensions: "keeps h (snd (retriever_dimensions V live h))"
  by (auto simp: keeps_def retriever_dimensions_def split_beta)

lemma keeps_step: "res_step V s h h' \<Longrightarrow> keeps h h'"
  by (erule res_step.cases) (simp_all add: keeps_owner keeps_readonly keeps_pool keeps_catalog keeps_retriever keeps_dimensions)

lemma keeps_reach: "(res_step V s)\<^sup>*\<^sup>* h h' \<Longrightarrow> keeps h h'"
  by (induction rule: rtranclp_induct) (auto simp: keeps_def dest!: keeps_step)

lemma catalog_first: "rs_catalog (fst h) = None \<Longrightarrow> catalog V s h = (Inr cat, h') \<Longrightarrow> \<not> is_empty cat"
  by (auto simp: catalog_def Let_def split: sum.splits prod.splits if_splits)

lemma catalog_again: "rs_catalog (fst h) = Some cat \<Longrightarrow> catalog V s h = (Inr cat', h') \<Longrightarrow> cat' = cat"
  by (simp add: catalog_def)

lemma executor_parts_Inr:
  assumes "executor_parts V s h = (Inr (p, ro, cat, ow), h')"
  shows "rs_pool (fst h') = Some p" "rs_readonly (fst h') = Some ro" "rs_catalog (fst h') = Some cat" "rs_owner (fst h') = Some ow"
proof -
  from assms obtain h1 h2 h3 where o: "readonly_pool V s h = (Inr p, h1)" "readonly V s h1 = (Inr ro, h2)"
      "catalog V s h2 = (Inr cat, h3)" "owner V s h3 = (Inr ow, h')"
    by (auto simp: executor_parts_def and_then_Inr)
  have "keeps h1 h2" "keeps h2 h3" "keeps h3 h'"
    using keeps_readonly [of h1 V s] keeps_catalog [of h2 V s] keeps_owner [of h3 V s] o by simp_all
  then show "rs_pool (fst h') = Some p" "rs_readonly (fst h') = Some ro" "rs_catalog (fst h') = Some cat" "rs_owner (fst h') = Some ow"
    using access_Inr(1) [OF o(2)] access_Inr(2) [OF o(1)] access_Inr(3) [OF o(3)] owner_Inr [OF o(4)] by (simp_all add: keeps_def)
qed

lemma wire_service_Inr:
  assumes "wire_service V s h = (Inr wd, h')"
  shows "rs_pool (fst h') = Some (wi_pool wd)" "rs_readonly (fst h') = Some (wi_validator wd)"
    "rs_catalog (fst h') = Some (wi_catalog wd)" "rs_owner (fst h') = Some (wi_audit wd)"
  using assms executor_parts_Inr by (auto simp: wire_service_def and_then_Inr)

lemma started_parts:
  assumes "lifespan_start V s (fresh_resources, w) = (Inr srv, h)"
  shows "rs_pool (fst h) = Some (wi_pool (srv_wired srv))" "rs_readonly (fst h) = Some (wi_validator (srv_wired srv))"
    "rs_owner (fst h) = Some (wi_audit (srv_wired srv))" "\<not> is_empty (wi_catalog (srv_wired srv))"
    "srv_limit srv = api_max_concurrent_requests (as_api s)"
    "srv_probes srv = [(''database'', wi_audit (srv_wired srv)), (''database_readonly'', wi_validator (srv_wired srv))]"
proof -
  from assms obtain ro h1 ow h2 cat h3 live h4 d h5 where
    o: "readonly V s (fresh_resources, w) = (Inr ro, h1)" "owner V s h1 = (Inr ow, h2)" "catalog V s h2 = (Inr cat, h3)"
      "held_retriever V s h3 = (Inr live, h4)" "retriever_dimensions V live h4 = (Inr d, h5)"
      "wire_service V s h5 = (Inr (srv_wired srv), h)"
    and f: "srv_limit srv = api_max_concurrent_requests (as_api s)" "srv_probes srv = [(''database'', ow), (''database_readonly'', ro)]"
    by (auto simp: lifespan_start_def and_then_Inr)
  have n: "rs_catalog (fst h2) = None"
    using o(1,2) owner_frame(1) [of V s h1] by (auto simp: readonly_def fresh_resources_def split_beta split: sum.splits option.splits prod.splits)
  have r: "(res_step V s)\<^sup>*\<^sup>* h3 h" using o(4-6) reach_ops(5) [of V s h3 h3] reach_ops(6) [of V s h3 h4] reach_wire [of V s h3 h5]
      retriever_Inr [of V s h3] by simp
  have k: "keeps h3 h" "keeps h1 h2" "keeps h2 h3"
    using keeps_reach [OF r] keeps_owner [of h1 V s] keeps_catalog [of h2 V s] o(2,3) by auto
  note wi = wire_service_Inr [OF o(6)]
  have "wi_catalog (srv_wired srv) = cat" "wi_audit (srv_wired srv) = ow" "wi_validator (srv_wired srv) = ro"
    using k access_Inr(3) [OF o(3)] owner_Inr [OF o(2)] access_Inr(1) [OF o(1)] wi by (simp_all add: keeps_def)
  then show "\<not> is_empty (wi_catalog (srv_wired srv))"
    "srv_probes srv = [(''database'', wi_audit (srv_wired srv)), (''database_readonly'', wi_validator (srv_wired srv))]"
    using catalog_first [OF n o(3)] f by simp_all
  show "rs_pool (fst h) = Some (wi_pool (srv_wired srv))" "rs_readonly (fst h) = Some (wi_validator (srv_wired srv))"
    "rs_owner (fst h) = Some (wi_audit (srv_wired srv))" by (fact wi)+
  show "srv_limit srv = api_max_concurrent_requests (as_api s)" by (fact f(1))
qed


lemma toy_session: "prepare_pooled (toy_pg_server (\<lambda>c. Inr reader_view)) toy_settings c = None"
  by (simp add: prepare_pooled_None session_ok_def cannot_write_def) (simp add: toy_pg_server_def reader_view_def write_privileges_def)

lemma toy_start:
  "\<exists>srv h. lifespan_start (toy_pg_server (\<lambda>c. Inr reader_view)) toy_settings (fresh_resources, nothing_held) = (Inr srv, h)
     \<and> wi_validator (srv_wired srv) = 0 \<and> wi_audit (srv_wired srv) = 1 \<and> wi_pool (srv_wired srv) = [100]"
proof -
  let ?V = "toy_pg_server (\<lambda>c. Inr reader_view)"
  have dsn: "libpq_dsn ''a'' = ''a''" "libpq_dsn ''b'' = ''b''" by code_simp+
  have ow: "owner ?V toy_settings (R, w) = (if rs_owner R = None
      then (Inr (pw_next w), R\<lparr>rs_owner := Some (pw_next w)\<rparr>, w\<lparr>pw_next := Suc (pw_next w), pw_open := pw_next w # pw_open w\<rparr>)
      else (Inr (the (rs_owner R)), R, w))" for R w
    by (auto simp: owner_def connect_url_def toy_settings_def toy_pg_server_def dsn split: option.splits)
  have ro: "readonly ?V toy_settings (R, w) = (if rs_readonly R = None
      then (Inr (pw_next w), R\<lparr>rs_readonly := Some (pw_next w)\<rparr>, w\<lparr>pw_next := Suc (pw_next w), pw_open := pw_next w # pw_open w\<rparr>)
      else (Inr (the (rs_readonly R)), R, w))" for R w
    using toy_session
    by (auto simp: readonly_def connect_url_def toy_settings_def dsn split: option.splits) (auto simp: toy_pg_server_def dsn)
  have po: "readonly_pool ?V toy_settings (R, w) = (if rs_pool R = None
      then (Inr [100], R\<lparr>rs_pool := Some [100]\<rparr>, w\<lparr>pw_pools := [100] # pw_pools w\<rparr>) else (Inr (the (rs_pool R)), R, w))" for R w
    using toy_session [of 100] by (auto simp: readonly_pool_def toy_pg_server_def split: option.splits)
  have cat: "sv_rows ?V c (rv_dataset (as_retrieval toy_settings)) = Inr [(''t'', Some ''x'')]" for c
    by (simp add: toy_pg_server_def toy_settings_def)
  have em: "build_embedder (as_retrieval toy_settings) = Inr (HashingEmbedder 384)"
    by (simp add: build_embedder_def toy_settings_def make_hashing_def default_dimensions_def)
  have vec: "sv_vector ?V c = Inr True" for c by (simp add: toy_pg_server_def)
  have "\<not> is_empty (load_catalog [(''t'', Some ''x'')])" by code_simp
  moreover obtain client where "build_llm_client (as_llm toy_settings) = Inr client"
    using loaded_settings_build_client [OF toy_settings_load] by (auto simp: toy_settings_def)
  ultimately show ?thesis
    by (simp add: lifespan_start_def and_then_def wire_service_def answerer_parts_def executor_parts_def catalog_def
        held_retriever_def open_retriever_def retriever_dimensions_def ow ro po cat em vec fresh_resources_def nothing_held_def Let_def)
qed


section \<open>Which responses carry the headers\<close>

lemma has_header_add: "has_header n hs \<Longrightarrow> has_header n (add_missing hs h)" "has_header n (add_missing hs (n, v))"
  by (auto simp: add_missing_def has_header_def)

lemma has_header_fold: "has_header n hs \<or> n \<in> fst ` set xs \<Longrightarrow> has_header n (foldl add_missing hs xs)"
  by (induction xs arbitrary: hs) (auto simp: has_header_add)

lemma secure_headers: "h \<in> set security_headers \<Longrightarrow> has_header (fst h) (rs_headers (secure r))"
  by (simp add: secure_def has_header_fold)

lemma create_app_layers:
  "create_app F s = Inr a \<Longrightarrow> ap_layers a =
     (if api_cors_origins (as_api s) = [] then [] else [Cors (api_cors_origins (as_api s))])
     @ [SecurityHeaders, BodyLimit (api_max_body_bytes (as_api s)), RequestIds]"
  by (auto simp: create_app_def Let_def add_middleware_def include_routes_def mount_ui_def new_app_def split: sum.splits option.splits if_splits)

text \<open>Every response carries the security headers but two: a preflight answered before them, and the answer to an exception no
  handler of the application takes, which is written outside of all middleware.\<close>

lemma responses_are_secured:
  assumes a: "create_app F s = Inr a" and p: "\<not> (hq_preflight q \<and> api_cors_origins (as_api s) \<noteq> [])"
    and h: "h \<in> set security_headers"
  shows "has_header (fst h) (rs_headers (respond E a q out))
    \<or> (\<exists>e. out = Inl (Raised e) \<and> \<not> isinst e CTextToSQLError
          \<and> respond E a q out = envelope INTERNAL_ERROR generic_failure (request_id_in E q) None)"
proof (cases "through E q out [SecurityHeaders, BodyLimit (api_max_body_bytes (as_api s)), RequestIds]")
  case (Inl e)
  then have "handled_inside E q out = Inl e"
    by (auto split: sum.splits option.splits if_splits)
  then have "out = Inl (Raised e) \<and> \<not> isinst e CTextToSQLError"
    by (auto simp: handled_inside_def split: sum.splits failure.splits exn.splits if_splits)
  then show ?thesis using Inl p by (auto simp: respond_def create_app_layers [OF a] simp del: through.simps(2-4))
next
  case (Inr r)
  then obtain r0 where "r = secure r0" by (auto split: sum.splits)
  then have "has_header (fst h) (rs_headers r)" using h by (simp add: secure_headers)
  then show ?thesis using Inr p by (auto simp: respond_def create_app_layers [OF a] has_header_def simp del: through.simps(2-4))
qed

lemma unhandled_is_unsecured:
  assumes "create_app F s = Inr a" "hq_length q = None" "api_cors_origins (as_api s) = []"
    and "\<not> isinst e CTextToSQLError" "\<forall>st c m. e \<noteq> ApiError st c m"
  shows "\<not> has_header ''X-Content-Type-Options'' (rs_headers (respond E a q (Inl (Raised e))))"
proof -
  have "handled_inside E q (Inl (Raised e)) = Inl e"
    using assms(4,5) by (cases e) (simp_all add: handled_inside_def isinst_simps)
  then show ?thesis
    using assms by (simp add: respond_def create_app_layers [OF assms(1)] envelope_def has_header_def py_lower_def lower_char_def code_def)
qed

text \<open>The page never takes a path of the API, and a path nobody claims stays a 404.\<close>

lemma routes_of_app:
  assumes "create_app F s = Inr a"
  shows "route_for a ''/v1/query'' = Some (Route ''POST'' ''/v1/query'' QueryEndpoint)"
    and "route_for a path = Some r \<Longrightarrow> r \<notin> set (health_routes @ query_routes) \<Longrightarrow>
      path = ''/'' \<or> path = ''/assets'' \<or> prefix ''/assets/'' path"
  using assms
  by (auto simp: create_app_def Let_def add_middleware_def include_routes_def mount_ui_def new_app_def route_for_def
      health_routes_def query_routes_def split: sum.splits option.splits if_splits)

end
