(* ===== verification/Cost.thy ===== *)
theory Cost
  imports Runs Lockfile
begin

text \<open>
  What recorded runs would have cost (\<open>src/evals/cost.py\<close>): the price list, the usage read back from the
  summaries of the run directories, and the table. Decimal amounts are exact rationals: the products and sums stay
  below the 28 digits of the context for any count of tokens below \<open>10^20\<close>.
\<close>

section \<open>Prices\<close>

definition prices_as_of :: string where
  "prices_as_of = ''2026-08-08''"

definition pricing_basis :: string where
  "pricing_basis = ''standard on-demand requests''"

definition per_million :: rat where
  "per_million = 1000000"

text \<open>A \<open>Decimal\<close> written in the source: its text and its value.\<close>

fun digits_from :: "nat \<Rightarrow> string \<Rightarrow> nat" where
  "digits_from n [] = n"
| "digits_from n (c # cs) = digits_from (10 * n + (code c - 48)) cs"

definition decimal :: "string \<Rightarrow> rat" where
  "decimal s =
     (let whole = takeWhile (\<lambda>c. c \<noteq> CHR ''.'') s; fraction = drop (Suc (length whole)) s in
      of_nat (digits_from 0 (whole @ fraction)) / 10 ^ length fraction)"

record price =
  pr_provider :: string
  pr_model :: string
  pr_input_usd :: string
  pr_output_usd :: string

definition price_of :: "price \<Rightarrow> int \<times> int \<Rightarrow> rat" where
  "price_of p tokens =
     (of_int (fst tokens) * decimal (pr_input_usd p) + of_int (snd tokens) * decimal (pr_output_usd p)) / per_million"

definition prices :: "price list" where
  "prices = map (\<lambda>(provider, model, inp, out).
       \<lparr>pr_provider = provider, pr_model = model, pr_input_usd = inp, pr_output_usd = out\<rparr>)
     [(''Groq'', ''openai/gpt-oss-120b'', ''0.15'', ''0.60''),
      (''Groq'', ''qwen/qwen3.6-27b'', ''0.60'', ''3.00''),
      (''Groq'', ''llama-3.3-70b-versatile'', ''0.59'', ''0.79''),
      (''Groq'', ''llama-3.1-8b-instant'', ''0.05'', ''0.08''),
      (''Groq'', ''openai/gpt-oss-20b'', ''0.075'', ''0.30''),
      (''DeepSeek'', ''DeepSeek V3.2'', ''0.28'', ''0.42''),
      (''Google'', ''Gemini 3.1 Flash-Lite'', ''0.25'', ''1.50''),
      (''OpenAI'', ''GPT-4.1 mini'', ''0.40'', ''1.60''),
      (''Google'', ''Gemini 3 Pro'', ''2.00'', ''12.00''),
      (''OpenAI'', ''GPT-4.1'', ''2.00'', ''8.00''),
      (''Anthropic'', ''Claude Sonnet 5'', ''2.00'', ''10.00''),
      (''Anthropic'', ''Claude Opus 5'', ''5.00'', ''25.00''),
      (''local'', ''Ollama / vLLM (self-hosted)'', ''0'', ''0'')]"

section \<open>Usage\<close>

record run_usage =
  ru_run_id :: string
  ru_questions :: int
  ru_input_tokens :: int
  ru_output_tokens :: int
  ru_baseline :: string

definition total_tokens :: "run_usage \<Rightarrow> int" where
  "total_tokens r = ru_input_tokens r + ru_output_tokens r"

text \<open>What is at a run's \<open>summary.json\<close>: no file, a file whose reading raises, or its text.\<close>

datatype summary_file = NoSummary | SummaryError exn | SummaryText string

definition or_else :: "json \<Rightarrow> json \<Rightarrow> json" where
  "or_else a b = (if jtruthy a then a else b)"

definition get_member :: "json \<Rightarrow> string \<Rightarrow> exn + json" where
  "get_member j k = (case j of JObj d \<Rightarrow> Inr (entry_of d k JNull) | _ \<Rightarrow> Inl (no_attribute j ''get''))"

definition baseline_of :: "(rat \<Rightarrow> string) \<Rightarrow> (string, json) dict \<Rightarrow> exn + string" where
  "baseline_of fr d =
     (case get_member (or_else (entry_of d ''manifest'' JNull) (JObj [])) ''baseline'' of
        Inl e \<Rightarrow> Inl e
      | Inr b \<Rightarrow> Inr (json_str fr (or_else (or_else b (entry_of d ''baseline'' JNull)) (JStr ''unknown''))))"

definition usage_of :: "(rat \<Rightarrow> string) \<Rightarrow> string \<Rightarrow> json \<Rightarrow> exn + run_usage" where
  "usage_of fr name j =
     (case j of
        JObj d \<Rightarrow>
         (case int_of_json (entry_of d ''total'' (JInt 0)) of Inl e \<Rightarrow> Inl e | Inr questions \<Rightarrow>
          case int_of_json (entry_of d ''input_tokens'' (JInt 0)) of Inl e \<Rightarrow> Inl e | Inr inp \<Rightarrow>
          case int_of_json (entry_of d ''output_tokens'' (JInt 0)) of Inl e \<Rightarrow> Inl e | Inr out \<Rightarrow>
          case baseline_of fr d of Inl e \<Rightarrow> Inl e | Inr b \<Rightarrow>
            Inr \<lparr>ru_run_id = name, ru_questions = questions, ru_input_tokens = inp, ru_output_tokens = out, ru_baseline = b\<rparr>)
      | _ \<Rightarrow> Inl (no_attribute j ''get''))"

fun load_each :: "(rat \<Rightarrow> string) \<Rightarrow> (string \<Rightarrow> rat) \<Rightarrow> (string \<times> summary_file) list \<Rightarrow> exn + run_usage list" where
  "load_each fr rd [] = Inr []"
| "load_each fr rd ((name, file) # rest) =
     (case file of
        NoSummary \<Rightarrow> load_each fr rd rest
      | SummaryError e \<Rightarrow>
          (case e of OtherError c t \<Rightarrow> if c = ''OSError'' then load_each fr rd rest else Inl e | _ \<Rightarrow> Inl e)
      | SummaryText s \<Rightarrow>
         (case loads rd s of
            None \<Rightarrow> load_each fr rd rest
          | Some j \<Rightarrow>
             (case usage_of fr name j of
                Inl e \<Rightarrow> Inl e
              | Inr u \<Rightarrow> (case load_each fr rd rest of Inl e \<Rightarrow> Inl e | Inr us \<Rightarrow> Inr (u # us)))))"

definition load_usage :: "(rat \<Rightarrow> string) \<Rightarrow> (string \<Rightarrow> rat) \<Rightarrow> (string \<times> summary_file) list \<Rightarrow> exn + run_usage list" where
  "load_usage fr rd directories = load_each fr rd (sort_key (\<lambda>d. map code (fst d)) directories)"

definition totals :: "run_usage list \<Rightarrow> int \<times> int" where
  "totals runs = foldl (\<lambda>(i, out) r. (i + ru_input_tokens r, out + ru_output_tokens r)) (0, 0) runs"

section \<open>The table\<close>

definition zero_padded :: "nat \<Rightarrow> nat \<Rightarrow> string" where
  "zero_padded k n = replicate (k - length (show_nat n)) (CHR ''0'') @ show_nat n"

text \<open>A decimal with a fixed number of places, rounded half to even.\<close>

definition fixed_places :: "nat \<Rightarrow> rat \<Rightarrow> string" where
  "fixed_places k x =
     (let n = nat (round_half_even (\<bar>x\<bar> * 10 ^ k)) in
      (if x < 0 then ''-'' else []) @ show_nat (n div 10 ^ k) @ ''.'' @ zero_padded k (n mod 10 ^ k))"

definition usd :: "rat \<Rightarrow> string" where
  "usd amount = (if amount < 1 / 100 then ''$'' @ fixed_places 4 amount else ''$'' @ fixed_places 2 amount)"

definition table_row :: "int \<times> int \<Rightarrow> int \<times> int \<Rightarrow> price \<Rightarrow> string" where
  "table_row one_run everything p =
     ''| '' @ pr_provider p @ '' | `'' @ pr_model p @ ''` | '' @ pr_input_usd p @ '' | '' @ pr_output_usd p
     @ '' | **'' @ usd (price_of p one_run) @ ''** | '' @ usd (price_of p everything) @ '' |''"

definition markdown_table :: "int \<times> int \<Rightarrow> int \<times> int \<Rightarrow> string" where
  "markdown_table one_run everything = join [newline]
     ([''*Standard on-demand rates as of '' @ prices_as_of @ ''. Batch tiers are commonly half these rates and are not modelled.*'', [],
       ''| Provider | Model | Input $/1M | Output $/1M | One full split (921 q) | Everything recorded |'',
       ''|---|---|---:|---:|---:|---:|''] @ map (table_row one_run everything) prices)"

text \<open>The command: the code it exits with and the table it prints last. \<open>None\<close> is a missing results directory.\<close>

definition cost_main :: "(rat \<Rightarrow> string) \<Rightarrow> (string \<Rightarrow> rat) \<Rightarrow> (string \<times> summary_file) list option \<Rightarrow> exn + int \<times> string" where
  "cost_main fr rd results =
     (case results of
        None \<Rightarrow> Inr (1, ''no results/ directory; nothing to price'')
      | Some directories \<Rightarrow>
         (case load_usage fr rd directories of
            Inl e \<Rightarrow> Inl e
          | Inr runs \<Rightarrow>
             (let everything = totals runs;
                  one_run = (case find (\<lambda>r. ru_run_id r = ''spider-full-20260806'') runs of
                      Some full \<Rightarrow> (ru_input_tokens full, ru_output_tokens full) | None \<Rightarrow> everything) in
              Inr (0, markdown_table one_run everything))))"

section \<open>Facts\<close>

lemma totals_add: "totals runs = (sum_list (map ru_input_tokens runs), sum_list (map ru_output_tokens runs))"
proof -
  have "foldl (\<lambda>(i, out) r. (i + ru_input_tokens r, out + ru_output_tokens r)) (a, b) runs
      = (a + sum_list (map ru_input_tokens runs), b + sum_list (map ru_output_tokens runs))" for a b
    by (induction runs arbitrary: a b) auto
  then show ?thesis by (simp add: totals_def)
qed

text \<open>Pricing everything at once is adding up the prices of the runs.\<close>

lemma price_of_totals:
  "price_of p (totals runs) = sum_list (map (\<lambda>r. price_of p (ru_input_tokens r, ru_output_tokens r)) runs)"
  by (induction runs) (simp_all add: totals_add price_of_def algebra_simps add_divide_distrib)

text \<open>A readable summary that is no object ends the whole listing, where a corrupt one is passed over.\<close>

lemma array_summary_ends_listing:
  "load_each fr rd ((name, SummaryText ''[]'') # rest) = Inl (no_attribute (JArr []) ''get'')"
  "load_each fr rd ((name, SummaryText ''['') # rest) = load_each fr rd rest"
proof -
  have "loads rd ''[]'' = Some (JArr [])" "loads rd ''['' = None" for rd
    by (simp_all add: loads_def skip_ws_def dquote_def backslash_def json_space_def code_def)
  then show "load_each fr rd ((name, SummaryText ''[]'') # rest) = Inl (no_attribute (JArr []) ''get'')"
    "load_each fr rd ((name, SummaryText ''['') # rest) = load_each fr rd rest"
    by (simp_all add: usage_of_def)
qed

section \<open>A recorded run is priced as it was measured\<close>

lemma distinct_tally:
  assumes "distinct (map fst d)"
  shows "distinct (map fst (foldl (\<lambda>d m. dict_set d (f m) (g d m)) d ms))"
  using assms by (induction ms arbitrary: d) auto

lemma distinct_recall: "distinct (map fst (recall_summary as))"
proof -
  have "inj (\<lambda>k. ''recall@'' @ show_int k)" by (auto intro: injI)
  then have "distinct (map (\<lambda>k. ''recall@'' @ show_int k) (sort (remdups ks)))" for ks :: "int list"
    by (simp add: distinct_map inj_on_subset [of _ UNIV])
  then show ?thesis by (auto simp: recall_summary_def comp_def)
qed

lemma summary_text_loads:
  assumes "float_reads rd fr"
  shows "loads rd (file_text fr (JObj (summary_json (summarise as) @ [(''manifest'', manifest_json sha fr m)])))
    = Some (JObj (summary_json (summarise as) @ [(''manifest'', manifest_json sha fr m)]))"
proof (rule file_text_loads [OF assms])
  have d: "distinct (map fst (rs_answered_by (summarise as)))" "distinct (map fst (rs_failures (summarise as)))"
      "distinct (map fst (rs_recall (summarise as)))"
    by (simp_all add: summarise_def counts_def distinct_tally distinct_recall all_categories_def Let_def)
  show "json_ok (JObj (summary_json (summarise as) @ [(''manifest'', manifest_json sha fr m)]))"
    using d by (auto simp: summary_json_def manifest_json_def null_or_def comp_def split: option.splits)
qed

lemma usage_of_summary:
  "usage_of fr name (JObj (summary_json sm @ [(''manifest'', manifest_json sha fr m)])) =
     Inr \<lparr>ru_run_id = name, ru_questions = int (rs_total sm), ru_input_tokens = rs_input_tokens sm,
       ru_output_tokens = rs_output_tokens sm, ru_baseline = (if mf_baseline m = [] then ''unknown'' else mf_baseline m)\<rparr>"
  by (simp add: usage_of_def summary_json_def entry_of_def of_option_def baseline_of_def get_member_def or_else_def
      manifest_json_def json_str_def)

text \<open>C37: The summary a run leaves is read back by the cost report as the run's own count of questions and the sums of the tokens
  of its records, under its baseline; and its price is linear in them.\<close>

theorem recorded_run_is_priced:
  assumes "run V E halt_after s d qs = (Inr sm, s', d')" and "float_reads (se_rd V) (se_fr V)"
  shows "\<exists>written as u. rd_summary d' = Some written \<and> artifacts V (d'\<lparr>rd_summary := rd_summary (start V d)\<rparr>) = Inr as
    \<and> load_usage (se_fr V) (se_rd V) [(name, SummaryText written)] = Inr [u]
    \<and> ru_run_id u = name \<and> ru_questions u = int (length as)
    \<and> ru_input_tokens u = sum_list (map qa_input_tokens as) \<and> ru_output_tokens u = sum_list (map qa_output_tokens as)
    \<and> ru_baseline u = (if mf_baseline (se_manifest V) = [] then ''unknown'' else mf_baseline (se_manifest V))
    \<and> price_of p (totals [u]) = sum_list (map (\<lambda>a. price_of p (qa_input_tokens a, qa_output_tokens a)) as)"
proof -
  have "run_checked V E halt_after s d qs = (Inr sm, s', d')"
    using assms(1) by (auto simp: run_def split: option.splits if_splits)
  then obtain files as where d': "d' = (start V d)\<lparr>rd_files := files, rd_summary := Some (file_text (se_fr V) (JObj (summary_json sm
       @ [(''manifest'', manifest_json (se_sha V) (se_fr V) (se_manifest V))])))\<rparr>"
    and as: "artifacts V ((start V d)\<lparr>rd_files := files\<rparr>) = Inr as" and sm: "sm = summarise as"
    by (auto simp: run_checked_def Let_def split: sum.splits prod.splits option.splits)
  have usage: "load_usage (se_fr V) (se_rd V) [(name, SummaryText (the (rd_summary d')))] =
      Inr [\<lparr>ru_run_id = name, ru_questions = int (rs_total sm), ru_input_tokens = rs_input_tokens sm,
       ru_output_tokens = rs_output_tokens sm,
       ru_baseline = (if mf_baseline (se_manifest V) = [] then ''unknown'' else mf_baseline (se_manifest V))\<rparr>]"
    by (simp add: load_usage_def d' sm summary_text_loads [OF assms(2)] usage_of_summary)
  have linear: "price_of p (sum_list (map qa_input_tokens as), sum_list (map qa_output_tokens as))
      = sum_list (map (\<lambda>a. price_of p (qa_input_tokens a, qa_output_tokens a)) as)"
    by (induction as) (simp_all add: price_of_def algebra_simps add_divide_distrib)
  show ?thesis
    using usage as linear by (simp add: d' sm summarise_def Let_def totals_add)
qed

theorem recorded_run_is_priced_witness:
  "\<exists>sm s' d' written u. run toy_store_env toy_eval None 0 toy_dir [toy_question ''a'', toy_question ''b''] = (Inr sm, s', d')
     \<and> rd_summary d' = Some written
     \<and> load_usage (se_fr toy_store_env) (se_rd toy_store_env) [(''r'', SummaryText written)] = Inr [u] \<and> ru_run_id u = ''r''"
proof -
  have m: "rd_manifest toy_dir = None \<or> rd_manifest toy_dir = Some (file_text (se_fr toy_store_env)
      (manifest_json (se_sha toy_store_env) (se_fr toy_store_env) (se_manifest toy_store_env)))"
    using toy_distinct(3) by simp
  from resumed_run [OF toy_reads(1) toy_reads(2) toy_pure toy_distinct(1) m toy_distinct(2) toy_left, of 0]
  obtain sm s' d' where run: "run toy_store_env toy_eval None 0 toy_dir [toy_question ''a'', toy_question ''b''] = (Inr sm, s', d')"
    by blast
  from recorded_run_is_priced [OF run toy_reads(1), of "''r''"] run show ?thesis by blast
qed

end
