(* ===== verification/TransportCheck.thy ===== *)
theory TransportCheck
  imports Pipeline
begin

text \<open>
  The command that asks every question of a split both ways, over the wire and in process, and compares what comes back
  (\<open>scripts/compare_mcp_retrieval.py\<close>): its report, the nearest-rank percentile, the loop over the questions with the
  client pool and the retrievers of \<open>Pipeline\<close>, and its exit exit_code. Timings are an argument; the product of a
  fraction and a count is exact.
\<close>

section \<open>The report\<close>

definition elements_of :: "retrieval_result \<Rightarrow> (string \<times> string option) list" where
  "elements_of r = map (\<lambda>e. (re_table e, re_column e)) (rr_elements r)"

definition percentile :: "rat list \<Rightarrow> rat \<Rightarrow> rat" where
  "percentile vals fraction =
     (if vals = [] then 0
      else let ordered = sort vals;
               i = min (int (length ordered) - 1) (max 0 (round_half_even (fraction * of_nat (length ordered)) - 1)) in
        round_places 2 (ordered ! nat i))"

record difference =
  df_question_id :: string
  df_only_direct :: "(string \<times> string option) list"
  df_only_wire :: "(string \<times> string option) list"
  df_same_set :: bool

record transport_report =
  tc_identical :: nat
  tc_differing :: nat
  tc_empty_both :: nat
  tc_failed :: nat
  tc_examples :: "difference list"
  tc_direct_ms :: "rat list"
  tc_wire_ms :: "rat list"

definition fresh_report :: transport_report where
  "fresh_report = \<lparr>tc_identical = 0, tc_differing = 0, tc_empty_both = 0, tc_failed = 0, tc_examples = [],
     tc_direct_ms = [], tc_wire_ms = []\<rparr>"

text \<open>\<open>str\<close> of a pair of a table and a column.\<close>

definition pair_text :: "string \<times> string option \<Rightarrow> string" where
  "pair_text e = ''('' @ py_repr (fst e) @ '', '' @ (case snd e of None \<Rightarrow> ''None'' | Some c \<Rightarrow> py_repr c) @ '')''"

definition report_latency :: "transport_report \<Rightarrow> (string, rat) dict" where
  "report_latency r =
     [(''direct_p50_ms'', percentile (tc_direct_ms r) (1 / 2)), (''direct_p95_ms'', percentile (tc_direct_ms r) (19 / 20)),
      (''wire_p50_ms'', percentile (tc_wire_ms r) (1 / 2)), (''wire_p95_ms'', percentile (tc_wire_ms r) (19 / 20)),
      (''overhead_p50_ms'', round_places 2 (percentile (tc_wire_ms r) (1 / 2) - percentile (tc_direct_ms r) (1 / 2)))]"

definition record_pair ::
  "string \<Rightarrow> (string \<times> string option) list \<Rightarrow> (string \<times> string option) list \<Rightarrow> transport_report \<Rightarrow> transport_report" where
  "record_pair question_id direct wire r =
     (if direct = wire
      then r\<lparr>tc_identical := tc_identical r + 1, tc_empty_both := tc_empty_both r + (if direct = [] then 1 else 0)\<rparr>
      else r\<lparr>tc_differing := tc_differing r + 1,
        tc_examples := tc_examples r @ (if length (tc_examples r) < 5
          then [\<lparr>df_question_id = question_id, df_only_direct = take 8 (filter (\<lambda>e. e \<notin> set wire) direct),
                 df_only_wire = take 8 (filter (\<lambda>e. e \<notin> set direct) wire),
                 df_same_set = (sorted_texts (map pair_text direct) = sorted_texts (map pair_text wire))\<rparr>]
          else [])\<rparr>)"

section \<open>The loop\<close>

record 's transport_state =
  tt_pool :: "'s client_pool"
  tt_databases :: "string list"
  tt_report :: transport_report

text \<open>A \<open>RetrievalError\<close> fails the question; anything else ends the command.\<close>

definition question_failed :: "exn \<Rightarrow> 's transport_state \<Rightarrow> (exn + unit) \<times> 's transport_state" where
  "question_failed e st =
     (if isinst e CRetrievalError
      then (Inr (), st\<lparr>tt_report := (tt_report st)\<lparr>tc_failed := tc_failed (tt_report st) + 1\<rparr>\<rparr>)
      else (Inl e, st))"

definition search_directly ::
  "('v, 'n, 's, 'l) pipeline \<Rightarrow> string \<Rightarrow> string \<Rightarrow> int \<Rightarrow> 's transport_state \<Rightarrow> (exn + retrieval_result) \<times> 's transport_state" where
  "search_directly P dataset question k st =
     (case build_retriever P dataset of
        Inl e \<Rightarrow> (Inl e, st)
      | Inr R \<Rightarrow>
         (let st1 = st\<lparr>tt_databases := (if dataset \<in> set (tt_databases st) then tt_databases st else tt_databases st @ [dataset])\<rparr> in
          case pi_store P dataset of
            Inl e \<Rightarrow> (Inl e, st1)
          | Inr S \<Rightarrow> (search R S question (Some k) None, st1)))"

text \<open>\<open>None\<close> is an acquisition that does not return.\<close>

definition compare_one ::
  "('v, 'n, 's, 'l) pipeline \<Rightarrow> int \<Rightarrow> question \<times> rat \<times> rat \<Rightarrow> 's transport_state \<Rightarrow> ((exn + unit) \<times> 's transport_state) option" where
  "compare_one P k timed_question st =
     (let (q, wire_ms, direct_ms) = timed_question in
      case dataset_for P (qn_db_id q) of
        Inl e \<Rightarrow> Some (Inl e, st)
      | Inr dataset \<Rightarrow>
         (case pool_search (pi_world P) (pi_modules P) (tt_pool st) dataset (qn_question q) k of
            None \<Rightarrow> None
          | Some (out, pool) \<Rightarrow>
             (let st1 = st\<lparr>tt_pool := pool\<rparr> in
              case out of
                Inl e \<Rightarrow> Some (question_failed e st1)
              | Inr wire \<Rightarrow>
                 (case search_directly P dataset (qn_question q) k st1 of
                    (Inl e, st2) \<Rightarrow> Some (question_failed e st2)
                  | (Inr direct, st2) \<Rightarrow>
                     (let r = record_pair (qn_id q) (elements_of direct) (elements_of wire) (tt_report st2) in
                      Some (Inr (), st2\<lparr>tt_report := r\<lparr>tc_direct_ms := tc_direct_ms r @ [direct_ms],
                        tc_wire_ms := tc_wire_ms r @ [wire_ms]\<rparr>\<rparr>))))))"

fun compare_all ::
  "('v, 'n, 's, 'l) pipeline \<Rightarrow> int \<Rightarrow> (question \<times> rat \<times> rat) list \<Rightarrow> 's transport_state
     \<Rightarrow> ((exn + unit) \<times> 's transport_state) option" where
  "compare_all P k [] st = Some (Inr (), st)"
| "compare_all P k (q # qs) st =
     (case compare_one P k q st of
        None \<Rightarrow> None
      | Some (Inl e, st1) \<Rightarrow> Some (Inl e, st1)
      | Some (Inr _, st1) \<Rightarrow> compare_all P k qs st1)"

definition compare_exit :: "transport_report \<Rightarrow> int" where
  "compare_exit r = (if tc_differing r = 0 \<and> tc_failed r = 0 then 0 else 1)"

text \<open>\<open>main\<close> once the settings and the questions are loaded: \<open>owner_url\<close> is the owner connection, or why there is none.\<close>

datatype owner_connection = NoUrl | Refused string | Connected

definition compare_main ::
  "('v, 'n, 's, 'l) pipeline \<Rightarrow> int \<Rightarrow> int \<Rightarrow> owner_connection \<Rightarrow> (question \<times> rat \<times> rat) list
     \<Rightarrow> (exn + int \<times> transport_report option) option" where
  "compare_main P k max_live owner_url qs =
     (case owner_url of
        NoUrl \<Rightarrow> Some (Inr (2, None))
      | Refused message \<Rightarrow> Some (Inr (3, None))
      | Connected \<Rightarrow>
         (case make_pool max_live of
            Inl e \<Rightarrow> Some (Inl e)
          | Inr pool \<Rightarrow>
             (case compare_all P k qs \<lparr>tt_pool = pool, tt_databases = [], tt_report = fresh_report\<rparr> of
                None \<Rightarrow> None
              | Some (Inl e, st) \<Rightarrow> Some (Inl e)
              | Some (Inr _, st) \<Rightarrow> Some (Inr (compare_exit (tt_report st), Some (tt_report st))))))"

section \<open>Facts\<close>

lemma elements_of_wire: "elements_of (wire_form r) = elements_of r"
  by (simp add: elements_of_def wire_form_def comp_def)

definition asked_count :: "transport_report \<Rightarrow> nat" where
  "asked_count r = tc_identical r + tc_differing r + tc_failed r"

lemma question_failed_count:
  "question_failed e st = (Inr u, st') \<Longrightarrow> asked_count (tt_report st') = asked_count (tt_report st) + 1"
  by (auto simp: question_failed_def asked_count_def split: if_splits)

lemma search_directly_report: "search_directly P dataset q k st = (out, st') \<Longrightarrow> tt_report st' = tt_report st"
  by (auto simp: search_directly_def Let_def split: sum.splits)

lemma record_pair_count: "asked_count (record_pair i d w r) = asked_count r + 1"
  by (simp add: record_pair_def asked_count_def)

lemma compare_one_count:
  assumes "compare_one P k timed_question st = Some (Inr u, st')"
  shows "asked_count (tt_report st') = asked_count (tt_report st) + 1"
proof -
  have t: "asked_count (r\<lparr>tc_direct_ms := a, tc_wire_ms := b\<rparr>) = asked_count r" for r a b
    by (simp add: asked_count_def)
  show ?thesis
    using assms
    by (auto simp: compare_one_def Let_def t record_pair_count dest!: question_failed_count search_directly_report
        split: prod.splits sum.splits option.splits)
qed

lemma compare_all_count:
  "compare_all P k qs st = Some (Inr u, st') \<Longrightarrow> asked_count (tt_report st') = asked_count (tt_report st) + length qs"
  by (induction qs arbitrary: st) (auto dest: compare_one_count split: option.splits prod.splits sum.splits)

text \<open>One question over servers for the same catalog comes back the same.\<close>

lemma compare_one_agrees:
  assumes W: "well_served P fr conforms" "cw_show (pi_world P) = fr" and q: "retrievable P conforms q"
    and ok: "pool_ok (pi_world P) (pi_modules P) (tt_pool st)"
  shows "\<exists>st'. compare_one P (pi_top_k P) (q, wm, dm) st = Some (Inr (), st')
    \<and> pool_ok (pi_world P) (pi_modules P) (tt_pool st')
    \<and> tc_identical (tt_report st') = tc_identical (tt_report st) + 1
    \<and> tc_differing (tt_report st') = tc_differing (tt_report st) \<and> tc_failed (tt_report st') = tc_failed (tt_report st)
    \<and> tc_examples (tt_report st') = tc_examples (tt_report st)"
proof -
  obtain dataset S R r where q': "qn_db_id q \<noteq> []" "dataset_for P (qn_db_id q) = Inr dataset" "pi_store P dataset = Inr S"
      "build_retriever P dataset = Inr R" "search R S (qn_question q) (Some (pi_top_k P)) None = Inr r"
      "\<forall>e \<in> set (rr_elements r). re_table e \<noteq> []"
      "conforms search_input_schema [(''query'', JStr (qn_question q)), (''k'', JInt (pi_top_k P))] = None"
    using q unfolding retrievable_def by auto
  have d: "dataset \<noteq> []" using q'(2) to_pg_ok(2) by (auto simp: dataset_for_def schema_name_for_def)
  have own: "own_search (pi_world P) (pi_modules P) dataset (qn_question q) (pi_top_k P) = Inr (wire_form r)"
    by (rule wire_search [OF W(1) d q'(4,3,5,6,7) W(2)])
  obtain pool' where run: "pool_search (pi_world P) (pi_modules P) (tt_pool st) dataset (qn_question q) (pi_top_k P)
      = Some (Inr (wire_form r), pool')"
    using pool_search_own [OF ok, of dataset "qn_question q" "pi_top_k P"] W(1) own by (auto simp: well_served_def)
  have ok': "pool_ok (pi_world P) (pi_modules P) pool'"
    using pool_search_ok [OF ok, of dataset "qn_question q" "pi_top_k P"] run by auto
  show ?thesis
    using ok' by (simp add: compare_one_def q' run search_directly_def record_pair_def elements_of_wire Let_def)
qed

lemma compare_all_agrees:
  assumes W: "well_served P fr conforms" "cw_show (pi_world P) = fr" and q: "\<forall>(q, t) \<in> set qs. retrievable P conforms q"
    and ok: "pool_ok (pi_world P) (pi_modules P) (tt_pool st)"
  shows "\<exists>st'. compare_all P (pi_top_k P) qs st = Some (Inr (), st')
    \<and> tc_identical (tt_report st') = tc_identical (tt_report st) + length qs
    \<and> tc_differing (tt_report st') = tc_differing (tt_report st) \<and> tc_failed (tt_report st') = tc_failed (tt_report st)
    \<and> tc_examples (tt_report st') = tc_examples (tt_report st)"
  using q ok
proof (induction qs arbitrary: st)
  case (Cons x qs)
  obtain q wm dm where x: "x = (q, wm, dm)" by (cases x)
  then have "retrievable P conforms q" using Cons.prems(1) by simp
  from compare_one_agrees [OF W this Cons.prems(2), of wm dm] obtain st1 where one: "compare_one P (pi_top_k P) x st = Some (Inr (), st1)"
      "pool_ok (pi_world P) (pi_modules P) (tt_pool st1)" "tc_identical (tt_report st1) = tc_identical (tt_report st) + 1"
      "tc_differing (tt_report st1) = tc_differing (tt_report st)" "tc_failed (tt_report st1) = tc_failed (tt_report st)"
      "tc_examples (tt_report st1) = tc_examples (tt_report st)" unfolding x by blast
  from Cons.IH [OF _ one(2)] Cons.prems(1) show ?case using one by auto
qed simp



text \<open>A percentile is one of the values, rounded.\<close>

lemma percentile_is_a_value:
  assumes "vals \<noteq> []"
  shows "\<exists>v \<in> set vals. percentile vals fraction = round_places 2 v"
proof -
  let ?i = "nat (min (int (length vals) - 1) (max 0 (round_half_even (fraction * of_nat (length vals)) - 1)))"
  have "?i < length (sort vals)" using assms by (cases vals) auto
  then have "sort vals ! ?i \<in> set vals" by (metis nth_mem set_sort)
  then show ?thesis using assms by (auto simp: percentile_def Let_def)
qed

end
