(* ===== verification/Evaluation.thy ===== *)
theory Evaluation
  imports LoaderCommands Pipeline Configuration Embedding Dsn
begin

text \<open>
  The evaluation command (\<open>src/evals/run.py\<close>) with the provenance a run records
  (\<open>current_commit\<close>, \<open>answering_path_digest\<close> and \<open>new_run_id\<close> of \<open>src/evals/artifacts.py\<close>): what is read, built,
  opened and closed, in order, around the run of \<open>Runs\<close> over the pipeline of \<open>Pipeline\<close>. Files, git, the imported
  modules, the driver and the clock are arguments; argument parsing and log lines are left out. A reading error is an
  \<open>OSError\<close> or, when the file is not UTF-8, a \<open>ValueError\<close>.
\<close>

section \<open>Provenance\<close>

text \<open>What running git gives: nothing when it is not there or does not end in time, else its exit code and output.\<close>

type_synonym git = "string list \<Rightarrow> (int \<times> string) option"

definition git_commands :: "string list list" where
  "git_commands = [[''rev-parse'', ''--short'', ''HEAD''], [''status'', ''--porcelain'']]"

definition git_output :: "git \<Rightarrow> string list \<Rightarrow> exn + string option" where
  "git_output git args =
     (if args \<notin> set git_commands
      then Inl (value_error (''refusing to run an unlisted git command: ('' @ join '', '' (map py_repr args) @ (if length args = 1 then '','' else []) @ '')''))
      else case git args of
        None \<Rightarrow> Inr None
      | Some (status, out) \<Rightarrow> if status \<noteq> 0 then Inr None else Inr (Some out))"

definition current_commit :: "git \<Rightarrow> exn + string" where
  "current_commit git =
     (case git_output git [''rev-parse'', ''--short'', ''HEAD''] of
        Inl e \<Rightarrow> Inl e
      | Inr None \<Rightarrow> Inr ''unknown''
      | Inr (Some head) \<Rightarrow>
          if strip head = [] then Inr ''unknown''
          else case git_output git [''status'', ''--porcelain''] of
            Inl e \<Rightarrow> Inl e
          | Inr None \<Rightarrow> Inr (strip head @ ''-unverified'')
          | Inr (Some status) \<Rightarrow> Inr (if strip status \<noteq> [] then strip head @ ''-dirty'' else strip head))"

definition answering_path_modules :: "string list" where
  "answering_path_modules =
     [''adapters.embedding.factory'', ''adapters.embedding.hashing'', ''adapters.embedding.sentence_transformer'',
      ''adapters.llm.factory'', ''adapters.llm.fake'', ''adapters.llm.fallback'', ''adapters.llm.openai_compatible'',
      ''answering.answerer'', ''core.settings'', ''evals.mcp_client'', ''evals.pipeline'', ''execution.executor'',
      ''generation.generator'', ''generation.prompts'', ''schema.catalog'', ''schema.models'', ''schema.retrieval'',
      ''schema.sensitivity'', ''schema.serialization'', ''validation.validator'']"

text \<open>Importing a module gives its file, if it has one; the digest is of the names and the contents, one after the other.\<close>

fun digest_material ::
  "(string \<Rightarrow> exn + string option) \<Rightarrow> (string \<Rightarrow> exn + string) \<Rightarrow> string list \<Rightarrow> exn + string" where
  "digest_material import_module read_bytes [] = Inr []"
| "digest_material import_module read_bytes (name # names) =
     (case import_module name of
        Inl e \<Rightarrow> Inl e
      | Inr None \<Rightarrow> Inl (value_error (name @ '' has no file to hash; it cannot be fingerprinted''))
      | Inr (Some source) \<Rightarrow>
         (case read_bytes source of
            Inl e \<Rightarrow> Inl e
          | Inr content \<Rightarrow>
             (case digest_material import_module read_bytes names of
                Inl e \<Rightarrow> Inl e | Inr rest \<Rightarrow> Inr (name @ content @ rest))))"

definition answering_path_digest ::
  "(string \<Rightarrow> string) \<Rightarrow> (string \<Rightarrow> exn + string option) \<Rightarrow> (string \<Rightarrow> exn + string) \<Rightarrow> string list \<Rightarrow> exn + string" where
  "answering_path_digest sha import_module read_bytes modules =
     (case digest_material import_module read_bytes (sorted_texts modules) of
        Inl e \<Rightarrow> Inl e | Inr material \<Rightarrow> Inr (take 16 (sha material)))"

definition new_run_id :: "string \<Rightarrow> string \<Rightarrow> string" where
  "new_run_id label moment = label @ ''-'' @ moment"

section \<open>Arguments and surroundings\<close>

record eval_args =
  ea_questions :: string
  ea_split :: split
  ea_out :: string
  ea_run_id :: "string option"
  ea_dataset :: string
  ea_model :: string
  ea_retriever :: string
  ea_prompt_version :: string
  ea_seed :: int
  ea_notes :: string
  ea_limit :: "int option"
  ea_gold :: string
  ea_baseline :: baseline
  ea_prefix :: string
  ea_top_k :: "int option"
  ea_mcp_max_live :: int
  ea_halt_after :: int

text \<open>The two options the parser requires, and the defaults of the others.\<close>

definition parser_defaults :: "string \<Rightarrow> string \<Rightarrow> eval_args" where
  "parser_defaults questions gold = \<lparr>ea_questions = questions, ea_split = DEV, ea_out = ''results'', ea_run_id = None,
     ea_dataset = ''default'', ea_model = [], ea_retriever = [], ea_prompt_version = ''sql_gen/v1'', ea_seed = 0, ea_notes = [],
     ea_limit = None, ea_gold = gold, ea_baseline = RETRIEVAL_ONLY, ea_prefix = [], ea_top_k = None, ea_mcp_max_live = 1,
     ea_halt_after = default_halt_after\<rparr>"

text \<open>\<open>ew_parts\<close> and \<open>ew_env\<close> give the third-party parts of the pipeline and of the comparison; the fields the
  command sets itself are overwritten. \<open>ew_client\<close> is how a model client that was built completes, with its state.
  \<open>ew_dirs\<close> is the results root: the directory of each run.\<close>

record ('n, 's, 'l) eval_world =
  ew_read :: "string \<Rightarrow> exn + string"
  ew_why :: "string \<Rightarrow> string"
  ew_sha :: "string \<Rightarrow> string"
  ew_fr :: "rat \<Rightarrow> string"
  ew_rd :: "string \<Rightarrow> rat"
  ew_network :: network
  ew_values :: all_settings
  ew_git :: git
  ew_import :: "string \<Rightarrow> exn + string option"
  ew_bytes :: "string \<Rightarrow> exn + string"
  ew_stamp :: string
  ew_connect :: "string \<Rightarrow> int \<Rightarrow> string option"
  ew_embedding :: embedding_env
  ew_client :: "built_client \<Rightarrow> 'l complete \<times> 'l"
  ew_run_sql :: "string \<Rightarrow> int \<Rightarrow> string \<Rightarrow> exn + db_value list list option"
  ew_parts :: "(rat list, 'n, 's, 'l) pipeline"
  ew_env :: "('n, (rat list, 's, 'l) pipeline_state) eval_env"
  ew_dirs :: "string \<Rightarrow> run_dir"

section \<open>Questions, retriever and manifest\<close>

definition prepare_questions :: "('n, 's, 'l) eval_world \<Rightarrow> eval_args \<Rightarrow> exn + question list \<times> applied" where
  "prepare_questions W a =
     (case ew_read W (ea_questions a) of Inl e \<Rightarrow> Inl e | Inr file \<Rightarrow>
      case load_questions (ew_fr W) (ew_rd W) (ew_why W) (ea_questions a) (Some (ea_split a)) file of
        Inl e \<Rightarrow> Inl e | Inr questions \<Rightarrow>
      case ew_read W (ea_gold a) of Inl e \<Rightarrow> Inl e | Inr gold_file \<Rightarrow>
      case load_verified_gold (ew_fr W) (ew_rd W) (ew_why W) (ea_gold a) gold_file of
        Inl e \<Rightarrow> Inl e | Inr gold \<Rightarrow>
      case apply_verified_gold questions gold of
        Inl e \<Rightarrow> Inl e
      | Inr applied \<Rightarrow>
          Inr ((case ea_limit a of None \<Rightarrow> ap_questions applied | Some n \<Rightarrow> slice_to n (ap_questions applied)), applied))"

definition retriever_version :: "string \<Rightarrow> catalog_settings \<Rightarrow> exn + string" where
  "retriever_version stated s =
     (case build_embedder s of
        Inl e \<Rightarrow> Inl e
      | Inr em \<Rightarrow>
          if stated \<noteq> [] \<and> stated \<noteq> model_version em
          then Inl (ConfigurationError (''--retriever says '' @ py_repr stated @ '' but the configured embedder is ''
            @ py_repr (model_version em)
            @ ''. Omit the flag to record what the run will use, or fix EMBEDDER_PROVIDER / RETRIEVER_MODEL to match''))
          else Inr (model_version em))"

definition build_manifest ::
  "('n, 's, 'l) eval_world \<Rightarrow> eval_args \<Rightarrow> all_settings \<Rightarrow> string \<Rightarrow> exn + run_manifest" where
  "build_manifest W a settings version =
     (case current_commit (ew_git W) of Inl e \<Rightarrow> Inl e | Inr commit \<Rightarrow>
      case answering_path_digest (ew_sha W) (ew_import W) (ew_bytes W) answering_path_modules of
        Inl e \<Rightarrow> Inl e
      | Inr digest \<Rightarrow> Inr
         \<lparr>mf_run_id = (if truthy (ea_run_id a) then the (ea_run_id a)
            else new_run_id (ea_dataset a @ ''-'' @ split_value (ea_split a)) (ew_stamp W)),
          mf_dataset = ea_dataset a, mf_split = split_value (ea_split a),
          mf_model = (if ea_model a \<noteq> [] then ea_model a else llm_model (as_llm settings)),
          mf_retriever_model_version = version, mf_prompt_version = ea_prompt_version a, mf_commit = commit,
          mf_seed = ea_seed a, mf_started_at = [], mf_notes = ea_notes a, mf_baseline = baseline_value (ea_baseline a),
          mf_code_digest = digest\<rparr>)"

definition eval_store :: "('n, 's, 'l) eval_world \<Rightarrow> eval_args \<Rightarrow> run_manifest \<Rightarrow> store_env" where
  "eval_store W a m = \<lparr>se_sha = ew_sha W, se_fr = ew_fr W, se_rd = ew_rd W, se_why = ew_why W,
     se_root = ea_out a @ ''/'' @ mf_run_id m, se_manifest = m\<rparr>"

section \<open>Connections\<close>

definition connect_role :: "('n, 's, 'l) eval_world \<Rightarrow> string option \<Rightarrow> string \<Rightarrow> all_settings \<Rightarrow> exn + unit" where
  "connect_role W url variable settings =
     (case url of
        None \<Rightarrow> Inl (ConfigurationError (variable @ '' is required to run an evaluation''))
      | Some u \<Rightarrow>
         (case ew_connect W (libpq_dsn u) (max 1 (db_connect_timeout_ms (as_database settings) div 1000)) of
            Some message \<Rightarrow>
              Inl (ConfigurationError (''could not connect using '' @ variable @ '': '' @ strip (redact_dsn message)))
          | None \<Rightarrow> Inr ()))"

definition open_connections ::
  "('n, 's, 'l) eval_world \<Rightarrow> all_settings \<Rightarrow> (exn + unit) \<times> connection_event list" where
  "open_connections W settings =
     (case connect_role W (database_url (as_database settings)) ''DATABASE_URL'' settings of
        Inl e \<Rightarrow> (Inl e, [])
      | Inr _ \<Rightarrow>
         (case connect_role W (database_ro_url (as_database settings)) ''DATABASE_RO_URL'' settings of
            Inl e \<Rightarrow> (Inl e, Opened Owner # (if isinst e CConfigurationError then [Closed Owner] else []))
          | Inr _ \<Rightarrow> (Inr (), [Opened Owner, Opened Readonly])))"

section \<open>The pipeline\<close>

text \<open>The pipeline, the runner of its queries, the pool when the baseline has one, and the state of the client.\<close>

record ('n, 's, 'l) built =
  bu_pipeline :: "(rat list, 'n, 's, 'l) pipeline"
  bu_runner :: query_runner
  bu_pool :: "'s client_pool option"
  bu_llm :: 'l

text \<open>The embedder a scope opens; the width is read when the index is written, never when it is searched.\<close>

definition open_embedder :: "embedding_env \<Rightarrow> embedder_object \<Rightarrow> rat list embedder" where
  "open_embedder V em = opened V em (case fst (embedder_dimensions V em) of Inl _ \<Rightarrow> 0 | Inr d \<Rightarrow> d)"

definition build_pipeline ::
  "('n, 's, 'l) eval_world \<Rightarrow> eval_args \<Rightarrow> all_settings \<Rightarrow> (string, string) dict \<Rightarrow> exn + ('n, 's, 'l) built" where
  "build_pipeline W a settings schemas =
     (let rs = as_retrieval settings in
      case (if ea_baseline a = MCP_RETRIEVAL then map_sum id Some (make_pool (ea_mcp_max_live a)) else Inr None) of
        Inl e \<Rightarrow> Inl e
      | Inr pool \<Rightarrow>
         (case (if needs_retrieval (ea_baseline a) then map_sum id Some (build_embedder rs) else Inr None) of
            Inl e \<Rightarrow> Inl e
          | Inr em \<Rightarrow>
             (case registry_refuses (ea_baseline a) pool of
                Some e \<Rightarrow> Inl e
              | None \<Rightarrow>
                 (case build_llm_client (as_llm settings) of
                    Inl e \<Rightarrow> Inl e
                  | Inr client \<Rightarrow> Inr
                     \<lparr>bu_pipeline = (ew_parts W)\<lparr>
                        pi_baseline := ea_baseline a, pi_prefix := ea_prefix a,
                        pi_top_k := registry_top_k (ea_top_k a) (rv_top_k rs), pi_default_k := rv_top_k rs,
                        pi_ef_search := rv_ef_search rs, pi_embedder := map_option (open_embedder (ew_embedding W)) em,
                        pi_settings := as_execution settings, pi_call := fst (ew_client W client),
                        pi_generator := \<lparr>ge_dialect = ''PostgreSQL'', ge_max_rows = Some (max_rows_default (as_execution settings))\<rparr>\<rparr>,
                      bu_runner = \<lparr>qx_run = ew_run_sql W, qx_schema_for = schemas,
                        qx_timeout_ms = clamp_timeout_ms (as_execution settings) None, qx_max_rows = max_result_rows,
                        qx_prefix = ea_prefix a\<rparr>,
                      bu_pool = pool, bu_llm = snd (ew_client W client)\<rparr>))))"

text \<open>The state a run starts in. Without a pool the baseline never searches one, and an empty one stands in its place.\<close>

definition first_state :: "('n, 's, 'l) built \<Rightarrow> (rat list, 's, 'l) pipeline_state" where
  "first_state b = \<lparr>ps_scopes = [], ps_pool = (case bu_pool b of None \<Rightarrow> \<lparr>pl_max_live = 1, pl_clients = [], pl_starts = 0\<rparr> | Some p \<Rightarrow> p),
     ps_path = [], ps_llm = bu_llm b, ps_explained = []\<rparr>"

section \<open>The command\<close>

text \<open>What an evaluation leaves: its exit code or the exception it ends in, the connections it opened and closed, the
  clients its pool closed, what it printed, and the run directory.\<close>

record 's evaluated =
  en_exit :: "exn + int"
  en_connections :: "connection_event list"
  en_pool :: "'s client_pool option"
  en_closed :: "'s search_client list"
  en_printed :: "(string, json) dict option"
  en_dir :: "(string \<times> run_dir) option"

definition ended :: "exn + int \<Rightarrow> connection_event list \<Rightarrow> 's evaluated" where
  "ended x cs = \<lparr>en_exit = x, en_connections = cs, en_pool = None, en_closed = [], en_printed = None, en_dir = None\<rparr>"

definition evaluation_payload :: "run_summary \<Rightarrow> store_env \<Rightarrow> eval_args \<Rightarrow> applied \<Rightarrow> (string, json) dict" where
  "evaluation_payload sm V a applied = summary_json sm @
     [(''run_id'', JStr (mf_run_id (se_manifest V))), (''out'', JStr (se_root V)),
      (''baseline'', JStr (baseline_value (ea_baseline a))), (''questions'', applied_dict applied)]"

definition halt_bound :: "eval_args \<Rightarrow> int option" where
  "halt_bound a = (if ea_halt_after a > 0 then Some (ea_halt_after a) else None)"

definition run_evaluation ::
  "('n, 's, 'l) eval_world \<Rightarrow> eval_args \<Rightarrow> all_settings \<Rightarrow> store_env \<Rightarrow> question list \<Rightarrow> applied \<Rightarrow> 's evaluated" where
  "run_evaluation W a settings V questions applied =
     (let events = [Opened Owner, Opened Readonly, Closed Owner, Closed Readonly] in
      case build_pipeline W a settings (ap_schemas applied) of
        Inl e \<Rightarrow> ended (Inl e) events
      | Inr b \<Rightarrow>
         (let run_id = mf_run_id (se_manifest V);
              E = pipeline_eval (bu_pipeline b) (bu_runner b) (ew_env W);
              (out, st, dir) = run V E (halt_bound a) (first_state b)
                (ew_dirs W run_id) questions;
              (shut, pool) = close_pool (ps_pool st) in
          \<lparr>en_exit = map_sum id (\<lambda>_. 0) out, en_connections = events,
           en_pool = (if bu_pool b = None then None else Some pool),
           en_closed = (if bu_pool b = None then [] else shut),
           en_printed = (case out of Inl _ \<Rightarrow> None | Inr sm \<Rightarrow> Some (evaluation_payload sm V a applied)),
           en_dir = Some (run_id, dir)\<rparr>))"

definition is_os_error :: "exn \<Rightarrow> bool" where
  "is_os_error e \<longleftrightarrow> (case e of OtherError c m \<Rightarrow> c = ''OSError'' | _ \<Rightarrow> False)"

definition exit_on :: "exn \<Rightarrow> bool \<Rightarrow> int \<Rightarrow> 's evaluated" where
  "exit_on e caught_here status = ended (if caught_here then Inr status else Inl e) []"

definition evaluation_main :: "('n, 's, 'l) eval_world \<Rightarrow> eval_args \<Rightarrow> 's evaluated" where
  "evaluation_main W a =
     (case prepare_questions W a of
        Inl e \<Rightarrow> exit_on e (is_value_error e \<or> is_os_error e) 2
      | Inr (questions, applied) \<Rightarrow>
          if questions = [] then ended (Inr 2) []
          else case load_settings (ew_network W) (ew_values W) of
            Inl e \<Rightarrow> exit_on e (isinst e CConfigurationError) 2
          | Inr settings \<Rightarrow>
             (case retriever_version (ea_retriever a) (as_retrieval settings) of
                Inl e \<Rightarrow> exit_on e (isinst e CConfigurationError) 2
              | Inr version \<Rightarrow>
                 (case build_manifest W a settings version of
                    Inl e \<Rightarrow> ended (Inl e) []
                  | Inr m \<Rightarrow>
                     (case open_connections W settings of
                        (Inl e, cs) \<Rightarrow> ended (if isinst e CConfigurationError then Inr 3 else Inl e) cs
                      | (Inr _, cs) \<Rightarrow> run_evaluation W a settings (eval_store W a m) questions applied))))"

section \<open>Facts\<close>

subsection \<open>Provenance\<close>

lemma git_output_listed:
  "args \<in> set git_commands \<Longrightarrow> git_output git args = Inr (case git args of None \<Rightarrow> None | Some (status, out) \<Rightarrow> if status \<noteq> 0 then None else Some out)"
  by (auto simp: git_output_def split: option.splits)

text \<open>Recording the commit never fails, and a tree git could not describe is never recorded as clean.\<close>

lemma commit_recorded: "\<exists>c. current_commit git = Inr c"
  by (auto simp: current_commit_def git_output_listed git_commands_def split: option.splits prod.splits if_splits)

lemma commit_marked:
  assumes "git [''rev-parse'', ''--short'', ''HEAD''] = Some (0, head)" "strip head \<noteq> []"
  shows "current_commit git = Inr (strip head @
    (case git [''status'', ''--porcelain''] of
       Some (status, out) \<Rightarrow> if status \<noteq> 0 then ''-unverified'' else if strip out \<noteq> [] then ''-dirty'' else []
     | None \<Rightarrow> ''-unverified''))"
  using assms by (auto simp: current_commit_def git_output_listed git_commands_def split: option.splits prod.splits)

subsection \<open>Questions\<close>

lemma load_loop_split: "load_loop fr rd why path wanted n ls = Inr qs \<Longrightarrow> q \<in> set qs \<Longrightarrow> wanted = None \<or> wanted = Some (qn_split q)"
  by (induction ls arbitrary: n qs) (auto simp: Let_def split: if_splits sum.splits)

lemma loaded_split: "load_questions fr rd why path (Some s) file = Inr qs \<Longrightarrow> q \<in> set qs \<Longrightarrow> qn_split q = s"
  using load_loop_split by (fastforce simp: load_questions_def split: sum.splits option.splits)

lemma gold_loop_carries:
  "gold_loop fr rd why path entries n ls = Inr gold \<Longrightarrow>
     (\<And>i e. dict_get entries i = Some e \<Longrightarrow> ge_scoreable e \<Longrightarrow> strip (ge_sql e) \<noteq> []) \<Longrightarrow>
     dict_get gold i = Some e \<Longrightarrow> ge_scoreable e \<Longrightarrow> strip (ge_sql e) \<noteq> []"
proof (induction ls arbitrary: n entries)
  case (Cons l ls)
  show ?case
  proof (cases "strip l = []")
    case True
    with Cons.prems Cons.IH show ?thesis by simp
  next
    case False
    then obtain d where d: "\<not> (ge_scoreable (read_gold fr d) \<and> strip (ge_sql (read_gold fr d)) = [])"
        "gold_loop fr rd why path (dict_set entries (ge_question_id (read_gold fr d)) (read_gold fr d)) (Suc n) ls = Inr gold"
      using Cons.prems(1) by (auto simp: Let_def split: sum.splits if_splits)
    show ?thesis
      by (rule Cons.IH [OF d(2) _ Cons.prems(3,4)]) (use d(1) Cons.prems(2) in \<open>auto split: if_splits\<close>)
  qed
qed simp

lemma scoreable_carries:
  "load_verified_gold fr rd why path file = Inr gold \<Longrightarrow> dict_get gold i = Some e \<Longrightarrow> ge_scoreable e \<Longrightarrow> strip (ge_sql e) \<noteq> []"
  unfolding load_verified_gold_def by (erule gold_loop_carries) auto

lemma set_slice: "set (slice_to n xs) \<subseteq> set xs"
  by (auto simp: slice_to_def dest: in_set_takeD)

text \<open>What is scored: the questions of the split with their verified statements.\<close>

lemma applied_questions:
  assumes "apply_verified_gold qs gold = Inr a"
  shows "ap_questions a = map (with_gold gold) (filter (scored gold) qs)"
proof -
  obtain b unverified where run:
    "foldl (apply_gold_one gold) (\<lparr>ap_questions = [], ap_excluded = [], ap_schemas = []\<rparr>, []) qs = (b, unverified)" by fastforce
  then have "a = b" using assms by (simp add: apply_verified_gold_def split: if_splits)
  then show ?thesis using apply_gold_fold [OF run] by simp
qed

lemma prepared:
  assumes "prepare_questions W a = Inr (questions, applied)"
  shows "\<exists>file qs gold_file gold. ew_read W (ea_questions a) = Inr file
    \<and> load_questions (ew_fr W) (ew_rd W) (ew_why W) (ea_questions a) (Some (ea_split a)) file = Inr qs
    \<and> ew_read W (ea_gold a) = Inr gold_file
    \<and> load_verified_gold (ew_fr W) (ew_rd W) (ew_why W) (ea_gold a) gold_file = Inr gold
    \<and> apply_verified_gold qs gold = Inr applied
    \<and> questions = (case ea_limit a of None \<Rightarrow> ap_questions applied | Some n \<Rightarrow> slice_to n (ap_questions applied))"
  using assms by (auto simp: prepare_questions_def split: sum.splits)

lemma prepared_verified:
  assumes "apply_verified_gold qs gold = Inr applied" "q' \<in> set (ap_questions applied)"
  shows "\<exists>q \<in> set qs. \<exists>e. dict_get gold (qn_id q) = Some e \<and> ge_scoreable e \<and> q' = q\<lparr>qn_gold_sql := ge_sql e\<rparr>"
  using assms(2) unfolding applied_questions [OF assms(1)] by (auto simp: scored_def with_gold_def split: option.splits) blast

subsection \<open>Runs\<close>

lemma dict_set_members: "y \<in> set (dict_set d k v) \<Longrightarrow> y \<in> set d \<or> y = (k, v)"
  by (induction d k v rule: dict_set.induct) (auto split: if_splits)

text \<open>Whatever a loop adds to the directory is the record of one of its questions.\<close>

lemma evaluate_record:
  "fst (evaluate E s q) = Inr r \<Longrightarrow> qa_question_id r = qn_id q \<and> qa_gold_sql r = qn_gold_sql q"
  by (drule evaluate_artifact) (auto simp: make_artifact_def Let_def)

lemma run_loop_records:
  "run_loop V E h c s files qs = (err, s', files') \<Longrightarrow> x \<in> set files' \<Longrightarrow>
     x \<in> set files \<or> (\<exists>q \<in> set qs. \<exists>r. qa_question_id r = qn_id q \<and> qa_gold_sql r = qn_gold_sql q \<and> snd x = record_text V r)"
proof (induction qs arbitrary: c s files)
  case (Cons q qs)
  obtain out s1 where ev: "evaluate E s q = (out, s1)" by fastforce
  show ?case
  proof (cases out)
    case (Inl e)
    then show ?thesis using Cons.prems ev by simp
  next
    case (Inr r)
    then have r: "qa_question_id r = qn_id q" "qa_gold_sql r = qn_gold_sql q" using evaluate_record [of E s q r] ev by auto
    have added: "y \<in> set files \<or> snd y = record_text V r" if "y \<in> set (record_artifact V r files)" for y
      using that dict_set_members unfolding record_artifact_set [OF r(1)] by fastforce
    show ?thesis
    proof (cases "x \<in> set (record_artifact V r files)")
      case True
      then show ?thesis using added [OF True] r by auto
    next
      case False
      then show ?thesis
        using Cons.prems ev Inr Cons.IH [of _ s1 "record_artifact V r files"]
        by (auto simp: Let_def split: if_splits)
    qed
  qed
qed simp

lemma run_leaves:
  assumes "run V E h s d qs = (Inr sm, s', d')"
  shows "\<exists>as. artifacts V d' = Inr as \<and> sm = summarise as"
  using assms
  by (auto simp: run_def run_checked_def artifacts_def record_names_def Let_def split: option.splits sum.splits prod.splits if_splits)

subsection \<open>Connections and the pipeline\<close>

lemma connect_role_refusal: "connect_role W url variable settings = Inl e \<Longrightarrow> isinst e CConfigurationError"
  by (auto simp: connect_role_def isinst_simps split: option.splits)

lemma opened_connections:
  "open_connections W settings = (Inr u, cs) \<Longrightarrow> cs = [Opened Owner, Opened Readonly]"
  "open_connections W settings = (Inl e, cs) \<Longrightarrow> cs = [] \<or> cs = [Opened Owner, Closed Owner]"
  by (auto simp: open_connections_def dest: connect_role_refusal split: sum.splits)

lemma map_sum_Some [simp]: "map_sum id Some x = Inr y \<longleftrightarrow> (\<exists>z. x = Inr z \<and> y = Some z)" "map_sum id Some x = Inl e \<longleftrightarrow> x = Inl e"
  by (cases x; auto)+

lemma built_pipeline:
  assumes "build_pipeline W a settings schemas = Inr b"
  shows "pi_baseline (bu_pipeline b) = ea_baseline a"
    and "bu_pool b = None \<longleftrightarrow> ea_baseline a \<noteq> MCP_RETRIEVAL"
    and "pi_embedder (bu_pipeline b) = Some em \<Longrightarrow> \<exists>o'. build_embedder (as_retrieval settings) = Inr o' \<and> em_model em = model_version o'"
    and "pi_embedder (bu_pipeline b) = None \<longleftrightarrow> \<not> needs_retrieval (ea_baseline a)"
  using assms by (auto simp: build_pipeline_def open_embedder_def opened_def Let_def split: sum.splits option.splits if_splits)

text \<open>The version a run records is the one its retriever filters by.\<close>

lemma recorded_retriever_is_searched:
  assumes "retriever_version stated (as_retrieval settings) = Inr version" "build_pipeline W a settings schemas = Inr b"
    and "build_retriever (bu_pipeline b) dataset = Inr R"
  shows "em_model (rt_embedder R) = version \<and> (stated = [] \<or> stated = version)"
  using assms built_pipeline(3) [OF assms(2)]
  by (auto simp: retriever_version_def build_retriever_def make_retriever_def split: sum.splits option.splits if_splits)

section \<open>Properties\<close>

text \<open>However an evaluation ends, every connection it opened was closed again, owner before read-only, and
  its pool holds no server any more.\<close>

theorem evaluation_leaves_nothing_open:
  "en_connections (evaluation_main W a) \<in> {[], [Opened Owner, Closed Owner], [Opened Owner, Opened Readonly, Closed Owner, Closed Readonly]}
   \<and> (case en_pool (evaluation_main W a) of None \<Rightarrow> en_closed (evaluation_main W a) = [] | Some p \<Rightarrow> pl_clients p = [])"
proof -
  have inner: "en_connections (run_evaluation W a settings V questions applied)
        = [Opened Owner, Opened Readonly, Closed Owner, Closed Readonly]
      \<and> (case en_pool (run_evaluation W a settings V questions applied) of
          None \<Rightarrow> en_closed (run_evaluation W a settings V questions applied) = [] | Some p \<Rightarrow> pl_clients p = [])"
    for settings V questions applied
    by (auto simp: run_evaluation_def ended_def close_pool_def Let_def split: sum.splits prod.splits)
  have "(\<exists>x cs. evaluation_main W a = ended x cs \<and> cs \<in> {[], [Opened Owner, Closed Owner]})
      \<or> (\<exists>settings V questions applied. evaluation_main W a = run_evaluation W a settings V questions applied)"
    using opened_connections
    by (auto simp: evaluation_main_def exit_on_def split: sum.splits prod.splits) blast+
  then show ?thesis
  proof (elim disjE exE)
    fix settings V questions applied
    assume main: "evaluation_main W a = run_evaluation W a settings V questions applied"
    show ?thesis unfolding main using inner [of settings V questions applied] by simp
  qed (auto simp: ended_def)
qed

lemma main_success:
  assumes "en_exit (evaluation_main W a) = Inr 0"
  shows "\<exists>questions applied settings version m. prepare_questions W a = Inr (questions, applied) \<and> questions \<noteq> []
    \<and> load_settings (ew_network W) (ew_values W) = Inr settings
    \<and> retriever_version (ea_retriever a) (as_retrieval settings) = Inr version
    \<and> build_manifest W a settings version = Inr m
    \<and> evaluation_main W a = run_evaluation W a settings (eval_store W a m) questions applied"
  using assms
  by (auto simp: evaluation_main_def ended_def exit_on_def split: sum.splits prod.splits if_splits)

lemma run_evaluation_success:
  assumes "en_exit (run_evaluation W a settings V questions applied) = Inr 0"
  shows "\<exists>b st dir sm. build_pipeline W a settings (ap_schemas applied) = Inr b
    \<and> run V (pipeline_eval (bu_pipeline b) (bu_runner b) (ew_env W)) (halt_bound a)
        (first_state b) (ew_dirs W (mf_run_id (se_manifest V))) questions = (Inr sm, st, dir)
    \<and> en_dir (run_evaluation W a settings V questions applied) = Some (mf_run_id (se_manifest V), dir)
    \<and> en_printed (run_evaluation W a settings V questions applied) = Some (evaluation_payload sm V a applied)"
  using assms
  by (auto simp: run_evaluation_def ended_def Let_def split: sum.splits prod.splits)


text \<open>A run of one question over a new directory ends whenever the question can be evaluated.\<close>

lemma run_single:
  assumes F: "float_reads (se_rd V) (se_fr V)" and P: "\<And>v. json_ok (ev_persist E v)"
    and d: "rd_manifest d = None" "rd_files d = []" and h: "h = None \<or> (\<exists>n. h = Some n \<and> 1 \<le> n)"
    and ev: "evaluate E s q = (Inr r, s')"
  shows "\<exists>sm d'. run V E h s d [q] = (Inr sm, s', d')"
proof -
  have r: "artifact_ok r" "qa_question_id r = qn_id q"
    using evaluate_artifact [of E s q r] ev make_artifact_ok [OF P] by auto
  have "resume V (start V d) = Inr {}"
    using own_manifest [OF F, of d] d by (simp add: answered_in_def record_names_def)
  moreover have "run_loop V E h 0 s [] [q] = (None, s', [(record_name V q, record_text V r)])"
    using h ev by (auto simp: record_artifact_set [OF r(2)] Let_def)
  moreover have "artifacts V (d1\<lparr>rd_files := [(record_name V q, record_text V r)]\<rparr>) = Inr [bounded r]" for d1
    using read_artifact_text [OF F artifact_ok_bounded [OF r(1)]] record_name_json
    by (simp add: artifacts_def record_names_def record_text_def)
  ultimately show ?thesis using h d by (auto simp: run_def run_checked_def Let_def)
qed

definition toy_parts :: "(rat list, toy_node, unit, unit) pipeline" where
  "toy_parts = \<lparr>pi_baseline = FULL_SCHEMA, pi_prefix = [], pi_top_k = 5, pi_default_k = 10, pi_ef_search = 40, pi_iterative = True,
     pi_embedder = None, pi_is_zero = (\<lambda>v. False), pi_nearest = (\<lambda>_. Inr []),
     pi_store = (\<lambda>d. Inr \<lparr>st_elements = [], st_edges = [], st_next = 0\<rparr>), pi_collate = map code,
     pi_sqlglot = toy (\<lambda>_. Inr [Some toy_select]), pi_enum = (\<lambda>_. []), pi_settings = default_execution, pi_to_str = (\<lambda>_. []),
     pi_explain = (\<lambda>path. toy_plan_db 5), pi_world = wired_world, pi_modules = [''s''], pi_call = toy_answer,
     pi_generator = \<lparr>ge_dialect = ''PostgreSQL'', ge_max_rows = None\<rparr>\<rparr>"

definition toy_eval_world :: "(toy_node, unit, unit) eval_world" where
  "toy_eval_world = \<lparr>
     ew_read = (\<lambda>p. Inr (if p = ''q'' then write_questions show_ratio [toy_gold_question]
        else write_jsonl show_ratio (concat (map gold_lines [toy_report])))),
     ew_why = (\<lambda>_. []), ew_sha = (\<lambda>s. s), ew_fr = show_ratio, ew_rd = read_ratio, ew_network = toy_network, ew_values = toy_settings,
     ew_git = (\<lambda>_. None), ew_import = (\<lambda>m. Inr (Some m)), ew_bytes = (\<lambda>_. Inr []), ew_stamp = ''now'', ew_connect = (\<lambda>u t. None),
     ew_embedding = \<lparr>ee_blake = (\<lambda>_. []), ee_sqrt = of_int, ee_load = (\<lambda>n l. Inl (OtherError ''OSError'' []))\<rparr>,
     ew_client = (\<lambda>c. (toy_answer, ())), ew_run_sql = (\<lambda>schema ms q. Inr (Some [])), ew_parts = toy_parts,
     ew_env = \<lparr>ev_answer = (\<lambda>s q. (Inl (OtherError [] []), s)), ev_query = (\<lambda>s _ _. (Inl (OtherError [] []), s)),
       ev_now = (\<lambda>_. 0), ev_sqlglot = toy (\<lambda>_. Inl []), ev_fl = (\<lambda>x. x), ev_pr = (\<lambda>_. []), ev_persist = (\<lambda>_. JNull)\<rparr>,
     ew_dirs = (\<lambda>_. \<lparr>rd_manifest = None, rd_files = [], rd_summary = None\<rparr>)\<rparr>"

definition toy_eval_args :: eval_args where
  "toy_eval_args = (parser_defaults ''q'' ''g'')\<lparr>ea_limit := Some 5, ea_baseline := FULL_SCHEMA\<rparr>"

lemma toy_prepared: "\<exists>q ap. prepare_questions toy_eval_world toy_eval_args = Inr ([q], ap) \<and> qn_db_id q = ''d''"
proof -
  let ?e = "\<lparr>ge_question_id = ''1'', ge_sql = ''SELECT 1'', ge_outcome = ''match'', ge_scoreable = True, ge_db_id = ''d'', ge_schema = ''s''\<rparr>"
  have gold: "load_verified_gold show_ratio read_ratio (\<lambda>_. []) ''g'' (write_jsonl show_ratio (concat (map gold_lines [toy_report])))
      = Inr [(''1'', ?e), (''2'', \<lparr>ge_question_id = ''2'', ge_sql = [], ge_outcome = ''gold_error'', ge_scoreable = False, ge_db_id = ''d'', ge_schema = ''s''\<rparr>)]"
    by (rule gold_file_roundtrip_witness)
  then have gold': "load_verified_gold show_ratio read_ratio (\<lambda>_. []) ''g'' (write_jsonl show_ratio (gold_lines toy_report))
      = Inr [(''1'', ?e), (''2'', \<lparr>ge_question_id = ''2'', ge_sql = [], ge_outcome = ''gold_error'', ge_scoreable = False, ge_db_id = ''d'', ge_schema = ''s''\<rparr>)]"
    by simp
  have qs: "load_questions show_ratio read_ratio (\<lambda>_. []) ''q'' (Some DEV) (write_questions show_ratio [toy_gold_question])
      = Inr [toy_gold_question]"
    by (subst load_written_all [OF ratios_read]) (simp add: toy_gold_question_def)
  let ?gold = "[(''1'', ?e), (''2'', \<lparr>ge_question_id = ''2'', ge_sql = [], ge_outcome = ''gold_error'', ge_scoreable = False, ge_db_id = ''d'', ge_schema = ''s''\<rparr>)]"
  have "\<exists>ap. apply_verified_gold [toy_gold_question] ?gold = Inr ap \<and> ap_questions ap = [toy_gold_question\<lparr>qn_gold_sql := ''SELECT 1''\<rparr>]"
    by (simp add: apply_verified_gold_def apply_gold_one_def toy_gold_question_def Let_def)
  then obtain ap where ap: "apply_verified_gold [toy_gold_question] ?gold = Inr ap"
      "ap_questions ap = [toy_gold_question\<lparr>qn_gold_sql := ''SELECT 1''\<rparr>]" by blast
  have "prepare_questions toy_eval_world toy_eval_args = Inr ([toy_gold_question\<lparr>qn_gold_sql := ''SELECT 1''\<rparr>], ap)"
    by (simp add: prepare_questions_def toy_eval_world_def toy_eval_args_def parser_defaults_def qs gold' ap slice_to_def)
  then show ?thesis by (intro exI conjI) (assumption, simp add: toy_gold_question_def)
qed

lemma toy_built: "\<exists>b. build_pipeline toy_eval_world toy_eval_args toy_settings schemas = Inr b"
  by (simp add: build_pipeline_def toy_eval_args_def parser_defaults_def needs_retrieval_def registry_refuses_def build_llm_client_def toy_settings_def
      build_openai_def make_openai_def make_chain_def Let_def)

lemma toy_evaluated:
  assumes "build_pipeline toy_eval_world toy_eval_args toy_settings schemas = Inr b" "qn_db_id q = ''d''"
  shows "\<exists>r s'. evaluate (pipeline_eval (bu_pipeline b) (bu_runner b) (ew_env toy_eval_world)) (first_state b) q = (Inr r, s')"
proof -
  have P: "pi_store (bu_pipeline b) = pi_store toy_parts" "pi_prefix (bu_pipeline b) = []" "qx_run (bu_runner b) = (\<lambda>schema ms q. Inr (Some []))"
    using assms(1)
    by (auto simp: build_pipeline_def toy_eval_world_def toy_eval_args_def parser_defaults_def Let_def split: sum.splits option.splits if_splits)
  have name: "schema_name_for ''d'' [] = Inr ''d''" by code_simp
  have scope: "\<exists>m. resolve_scope (bu_pipeline b) ''d'' [] = (Inl (RetrievalError m), [])"
    by (simp add: resolve_scope_def open_scope_def dataset_for_def P name toy_parts_def catalog_of_def dataset_rows_def
        load_catalog_def is_empty_def Let_def)
  then obtain m where m: "resolve_scope (bu_pipeline b) ''d'' [] = (Inl (RetrievalError m), [])" by blast
  show ?thesis
    by (simp add: evaluate_def run_sql_def answer_one_def caught_def pipeline_eval_def run_scoped_def P assms(2) pipeline_answer_def
        first_state_def m isinst_simps failed_attempt_def no_attempt_def truthy_def Let_def)
qed


text \<open>A provider whose adapter is missing is refused after the connections are open and outside every handler: the
  command ends in the exception, not in one of its exit codes.\<close>

lemma provider_refusal_escapes:
  assumes "llm_provider (as_llm settings) = ANTHROPIC" "ea_baseline a = FULL_SCHEMA"
  shows "\<exists>m. en_exit (run_evaluation W a settings V questions applied) = Inl (ConfigurationError m)"
  using assms by (simp add: run_evaluation_def build_pipeline_def build_llm_client_def needs_retrieval_def registry_refuses_def ended_def)

end
