(* ===== verification/Demo.thy ===== *)
theory Demo
  imports Introspection Configuration Embedding Loading Scoring Dsn
begin

text \<open>
  The demo dataset (\<open>src/demo/dataset.py\<close>) and its seeding (\<open>src/demo/seed.py\<close>): the rows the seeded generator
  gives, the statements that create the schema, load it and grant it, and the index written over it. The standard
  library's generator is an argument, with the ranges its documentation promises; so are binary rounding and the server.
  A date is its ordinal. The owner's connection commits every statement by itself, so what was executed stays.
\<close>

section \<open>The data\<close>

definition demo_schema :: string where
  "demo_schema = ''demo''"

definition demo_genres :: "string list" where
  "demo_genres = [''rock'', ''jazz'', ''folk'', ''electronic'', ''classical'']"

definition demo_cities :: "(string \<times> int) list" where
  "demo_cities = [(''Ashford'', 1800), (''Bellhaven'', 950), (''Cranmoor'', 4200), (''Dunwick'', 620), (''Elmsworth'', 2400), (''Fairhollow'', 1150)]"

definition venue_suffixes :: "string list" where
  "venue_suffixes = [''Hall'', ''Arena'', ''Playhouse'', ''Gardens'']"

definition artist_first :: "string list" where
  "artist_first = [''Amber'', ''Bracken'', ''Cinder'', ''Driftwood'', ''Ember'', ''Fenwick'', ''Glass'', ''Harrow'', ''Iron'', ''Juniper'',
     ''Kestrel'', ''Lantern'', ''Marrow'', ''Nettle'', ''Opal'', ''Pewter'', ''Quarry'', ''Rowan'', ''Sable'', ''Thistle'']"

definition artist_second :: "string list" where
  "artist_second = [''Choir'', ''Collective'', ''Ensemble'', ''Quartet'', ''Union'', ''Trio'']"

record demo_venue =
  dv_id :: int
  dv_name :: string
  dv_city :: string
  dv_capacity :: int

record demo_artist =
  da_id :: int
  da_name :: string
  da_genre :: string
  da_formed :: int

record demo_event =
  de_id :: int
  de_venue :: int
  de_artist :: int
  de_date :: int
  de_price :: rat
  de_sold :: int

record demo_rows =
  dr_venues :: "demo_venue list"
  dr_artists :: "demo_artist list"
  dr_events :: "demo_event list"

text \<open>The generator: an integer between two bounds, the position \<open>choice\<close> picks in a list of that length, and a float between
  two bounds; and the rounding of a binary float.\<close>

record 'r random =
  rn_int :: "'r \<Rightarrow> int \<Rightarrow> int \<Rightarrow> int \<times> 'r"
  rn_choice :: "'r \<Rightarrow> nat \<Rightarrow> nat \<times> 'r"
  rn_float :: "'r \<Rightarrow> rat \<Rightarrow> rat \<Rightarrow> rat \<times> 'r"
  rn_fl :: "rat \<Rightarrow> rat"

fun venues_of :: "nat \<Rightarrow> nat \<Rightarrow> (string \<times> int) list \<Rightarrow> demo_venue list" where
  "venues_of i seen [] = []"
| "venues_of i seen ((city, base) # cities) =
     (let chosen = take (1 + i mod 3) venue_suffixes in
      map (\<lambda>(offset, suffix). \<lparr>dv_id = int (seen + offset + 1), dv_name = city @ '' '' @ suffix, dv_city = city,
          dv_capacity = base + int offset * 300\<rparr>) (enumerate 0 chosen)
      @ venues_of (Suc i) (seen + length chosen) cities)"

definition demo_venues :: "demo_venue list" where
  "demo_venues = venues_of 1 0 demo_cities"

fun artists_of :: "'r random \<Rightarrow> nat \<Rightarrow> string list \<Rightarrow> 'r \<Rightarrow> demo_artist list \<times> 'r" where
  "artists_of G i [] r = ([], r)"
| "artists_of G i (first # names) r =
     (let (year, r1) = rn_int G r 1985 2020;
          (artists, r2) = artists_of G (Suc i) names r1 in
      (\<lparr>da_id = int i, da_name = first @ '' '' @ (artist_second ! (i mod length artist_second)),
         da_genre = demo_genres ! (i mod length demo_genres), da_formed = year\<rparr> # artists, r2))"

definition first_day :: int where
  "first_day = 739257"

definition least_sold :: "'r random \<Rightarrow> int \<Rightarrow> int" where
  "least_sold G capacity = truncated (rn_fl G (of_int capacity * rn_fl G (35 / 100)))"

definition draw_event ::
  "'r random \<Rightarrow> demo_venue list \<Rightarrow> demo_artist list \<Rightarrow> nat \<Rightarrow> 'r \<Rightarrow> demo_event \<times> 'r" where
  "draw_event G venues artists i r =
     (let (v, r1) = rn_choice G r (length venues);
          (a, r2) = rn_choice G r1 (length artists);
          (sold, r3) = rn_int G r2 (least_sold G (dv_capacity (venues ! v))) (dv_capacity (venues ! v));
          (day, r4) = rn_int G r3 0 364;
          (price, r5) = rn_float G r4 12 95 in
      (\<lparr>de_id = int i, de_venue = dv_id (venues ! v), de_artist = da_id (artists ! a), de_date = first_day + day,
         de_price = round_places 2 price, de_sold = sold\<rparr>, r5))"

fun events_of :: "'r random \<Rightarrow> demo_venue list \<Rightarrow> demo_artist list \<Rightarrow> nat list \<Rightarrow> 'r \<Rightarrow> demo_event list" where
  "events_of G venues artists [] r = []"
| "events_of G venues artists (i # ids) r =
     (let (e, r1) = draw_event G venues artists i r in e # events_of G venues artists ids r1)"

definition build_rows_of :: "'r random \<Rightarrow> 'r \<Rightarrow> demo_rows" where
  "build_rows_of G r =
     (let (artists, r1) = artists_of G 1 artist_first r in
      \<lparr>dr_venues = demo_venues, dr_artists = artists, dr_events = events_of G demo_venues artists [1..<401] r1\<rparr>)"

section \<open>The schema\<close>

definition ddl_text :: "string list \<Rightarrow> string" where
  "ddl_text ls = newline # concat (map (\<lambda>l. ''    '' @ l @ [newline]) ls) @ ''    ''"

definition demo_ddl :: "string list" where
  "demo_ddl = map ddl_text
     [[''CREATE TABLE venue ('', ''    id            integer PRIMARY KEY,'', ''    name          text    NOT NULL,'',
       ''    city          text    NOT NULL,'', ''    capacity      integer NOT NULL'', '')''],
      [''CREATE TABLE artist ('', ''    id            integer PRIMARY KEY,'', ''    name          text    NOT NULL,'',
       ''    genre         text    NOT NULL,'', ''    formed_year   integer NOT NULL'', '')''],
      [''CREATE TABLE event ('', ''    id            integer PRIMARY KEY,'', ''    venue_id      integer NOT NULL REFERENCES venue(id),'',
       ''    artist_id     integer NOT NULL REFERENCES artist(id),'', ''    event_date    date    NOT NULL,'',
       ''    ticket_price  numeric(6, 2) NOT NULL,'', ''    tickets_sold  integer NOT NULL'', '')'']]"

definition demo_comments :: "(string \<times> string option \<times> string) list" where
  "demo_comments =
     [(''venue'', None, ''Places a performance can happen.''), (''venue'', Some ''capacity'', ''Maximum ticketed attendance.''),
      (''artist'', None, ''Performing acts.''), (''artist'', Some ''genre'', ''One of: rock, jazz, folk, electronic, classical.''),
      (''artist'', Some ''formed_year'', ''Year the act started performing together.''),
      (''event'', None, ''One performance by one artist at one venue.''),
      (''event'', Some ''ticket_price'', ''Face value per ticket, in the local currency.''),
      (''event'', Some ''tickets_sold'', ''Never exceeds the venue capacity.'')]"

section \<open>Statements\<close>

datatype demo_value = DInt int | DText string | DDate int | DFloat rat

datatype demo_statement = Plain string | Many string "demo_value list list"

text \<open>The server of the owner: quoting of names and texts, the error it answers to a statement after those already
  executed, and the catalog the read-only role then sees.\<close>

record demo_server =
  dm_ident :: "string \<Rightarrow> string"
  dm_literal :: "string \<Rightarrow> string"
  dm_refuses :: "demo_statement list \<Rightarrow> demo_statement \<Rightarrow> exn option"
  dm_catalog :: "demo_statement list \<Rightarrow> pg_catalog"

definition readonly_role :: string where
  "readonly_role = ''sql_agent_ro''"

text \<open>Statements one after the other: the exception that ended them, if any, and what was executed.\<close>

fun execute_all :: "demo_server \<Rightarrow> demo_statement list \<Rightarrow> demo_statement list \<Rightarrow> exn option \<times> demo_statement list" where
  "execute_all sv [] sent = (None, sent)"
| "execute_all sv (s # ss) sent =
     (case dm_refuses sv sent s of Some e \<Rightarrow> (Some e, sent) | None \<Rightarrow> execute_all sv ss (sent @ [s]))"

text \<open>\<open>try: ... finally: ...\<close>: what is in the \<open>finally\<close> runs, and an exception of its own replaces the first.\<close>

definition execute_finally ::
  "demo_server \<Rightarrow> demo_statement list \<Rightarrow> demo_statement list \<Rightarrow> demo_statement list \<Rightarrow> exn option \<times> demo_statement list" where
  "execute_finally sv body last_ones sent =
     (case execute_all sv body sent of
        (e, sent1) \<Rightarrow> (case execute_all sv last_ones sent1 of
           (Some e', sent2) \<Rightarrow> (Some e', sent2) | (None, sent2) \<Rightarrow> (e, sent2)))"

definition set_path :: "demo_server \<Rightarrow> string \<Rightarrow> demo_statement" where
  "set_path sv schema = Plain (''SET search_path TO '' @ dm_ident sv schema)"

definition reset_path :: demo_statement where
  "reset_path = Plain ''RESET search_path''"

definition comment_statement :: "demo_server \<Rightarrow> string \<Rightarrow> string \<times> string option \<times> string \<Rightarrow> demo_statement" where
  "comment_statement sv schema c =
     (case c of (tab, col, comment) \<Rightarrow>
        Plain (''COMMENT ON '' @ (case col of
             None \<Rightarrow> ''TABLE '' @ dm_ident sv schema @ ''.'' @ dm_ident sv tab
           | Some n \<Rightarrow> ''COLUMN '' @ dm_ident sv schema @ ''.'' @ dm_ident sv tab @ ''.'' @ dm_ident sv n)
         @ '' IS '' @ dm_literal sv comment))"

definition demo_grants :: "demo_server \<Rightarrow> string \<Rightarrow> demo_statement list" where
  "demo_grants sv schema =
     [Plain (''GRANT USAGE ON SCHEMA '' @ dm_ident sv schema @ '' TO '' @ dm_ident sv readonly_role),
      Plain (''GRANT SELECT ON ALL TABLES IN SCHEMA '' @ dm_ident sv schema @ '' TO '' @ dm_ident sv readonly_role)]"

definition create_schema :: "demo_server \<Rightarrow> string \<Rightarrow> demo_statement list \<Rightarrow> exn option \<times> demo_statement list" where
  "create_schema sv schema sent =
     (case execute_all sv [Plain (''DROP SCHEMA IF EXISTS '' @ dm_ident sv schema @ '' CASCADE''),
          Plain (''CREATE SCHEMA '' @ dm_ident sv schema)] sent of
        (Some e, sent1) \<Rightarrow> (Some e, sent1)
      | (None, sent1) \<Rightarrow>
         (case execute_finally sv (set_path sv schema # map Plain demo_ddl) [reset_path] sent1 of
            (Some e, sent2) \<Rightarrow> (Some e, sent2)
          | (None, sent2) \<Rightarrow> execute_all sv (map (comment_statement sv schema) demo_comments @ demo_grants sv schema) sent2))"

definition venue_values :: "demo_venue \<Rightarrow> demo_value list" where
  "venue_values v = [DInt (dv_id v), DText (dv_name v), DText (dv_city v), DInt (dv_capacity v)]"

definition artist_values :: "demo_artist \<Rightarrow> demo_value list" where
  "artist_values a = [DInt (da_id a), DText (da_name a), DText (da_genre a), DInt (da_formed a)]"

definition event_values :: "demo_event \<Rightarrow> demo_value list" where
  "event_values e = [DInt (de_id e), DInt (de_venue e), DInt (de_artist e), DDate (de_date e), DFloat (de_price e), DInt (de_sold e)]"

definition table_records :: "demo_rows \<Rightarrow> (string \<times> demo_value list list) list" where
  "table_records dr = [(''venue'', map venue_values (dr_venues dr)), (''artist'', map artist_values (dr_artists dr)),
     (''event'', map event_values (dr_events dr))]"

definition insert_statement :: "demo_server \<Rightarrow> string \<Rightarrow> string \<Rightarrow> demo_value list list \<Rightarrow> demo_statement" where
  "insert_statement sv schema tab records =
     Many (''INSERT INTO '' @ dm_ident sv schema @ ''.'' @ dm_ident sv tab @ '' VALUES (''
       @ join '', '' (replicate (length (hd records)) ''%s'') @ '')'') records"

definition load_rows ::
  "demo_server \<Rightarrow> string \<Rightarrow> demo_rows \<Rightarrow> demo_statement list \<Rightarrow> (exn + (string \<times> nat) list) \<times> demo_statement list" where
  "load_rows sv schema dr sent =
     (let given = filter (\<lambda>(tab, records). records \<noteq> []) (table_records dr) in
      case execute_all sv (map (\<lambda>(tab, records). insert_statement sv schema tab records) given) sent of
        (Some e, sent') \<Rightarrow> (Inl e, sent')
      | (None, sent') \<Rightarrow> (Inr (map (\<lambda>(tab, records). (tab, length records)) given), sent'))"

section \<open>Indexing\<close>

text \<open>The indexer reads the width of the embedder after that of the stored vectors; the widths are the arguments of
  \<open>assert_dimensions\<close>.\<close>

definition index_demo ::
  "embedding_env \<Rightarrow> string option \<Rightarrow> pg_catalog \<Rightarrow> string \<Rightarrow> catalog_settings \<Rightarrow> rat list store
     \<Rightarrow> (exn + nat) \<times> rat list store" where
  "index_demo EE width C schema s S =
     (case make_introspector True schema (rv_sample_values s) (nat (rv_sample_count s)) (nat (rv_sample_max_chars s))
          (nat (rv_sample_scan_limit s)) default_sensitive_patterns of
        Inl e \<Rightarrow> (Inl e, S)
      | Inr I \<Rightarrow>
         (case build_embedder s of
            Inl e \<Rightarrow> (Inl e, S)
          | Inr em \<Rightarrow>
             (let snap = fst (snapshot C I) in
              case (case width of None \<Rightarrow> Inr 0 | Some t \<Rightarrow> if read_width t = None then Inr 0 else fst (embedder_dimensions EE em)) of
                Inl e \<Rightarrow> (Inl e, S)
              | Inr d \<Rightarrow>
                 (case index width schema default_sensitive_patterns (opened EE em d) snap S of
                    (Inl e, S') \<Rightarrow> (Inl e, S') | (Inr report, S') \<Rightarrow> (Inr (ir_written report), S')))))"

section \<open>The command\<close>

record 'r seed_env =
  sn_database :: database_settings
  sn_retrieval :: catalog_settings
  sn_connect :: "string \<Rightarrow> string option"
  sn_server :: demo_server
  sn_random :: "'r random"
  sn_seed :: 'r
  sn_embedding :: embedding_env
  sn_width :: "string option"

definition seed_connect :: "(string \<Rightarrow> string option) \<Rightarrow> string option \<Rightarrow> string \<Rightarrow> exn + unit" where
  "seed_connect connect url variable =
     (case url of
        None \<Rightarrow> Inl (ConfigurationError (variable @ '' is required to seed the demo dataset''))
      | Some u \<Rightarrow>
         (case connect (libpq_dsn u) of
            Some message \<Rightarrow> Inl (ConfigurationError (variable @ '': '' @ redact_dsn message))
          | None \<Rightarrow> Inr ()))"

text \<open>The exit code or the exception, the connections, the statements executed, and the store.\<close>

record seeded =
  sx_exit :: "exn + int"
  sx_connections :: "connection_event list"
  sx_sent :: "demo_statement list"
  sx_store :: "rat list store"

definition seed_work :: "'r seed_env \<Rightarrow> string \<Rightarrow> rat list store \<Rightarrow> (exn + int) \<times> demo_statement list \<times> rat list store" where
  "seed_work V schema S =
     (let sv = sn_server V; dr = build_rows_of (sn_random V) (sn_seed V) in
      case create_schema sv schema [] of
        (Some e, sent) \<Rightarrow> (Inl e, sent, S)
      | (None, sent) \<Rightarrow>
         (case load_rows sv schema dr sent of
            (Inl e, sent1) \<Rightarrow> (Inl e, sent1, S)
          | (Inr loaded, sent1) \<Rightarrow>
             (case index_demo (sn_embedding V) (sn_width V) (dm_catalog sv sent1) schema (sn_retrieval V) S of
                (Inl e, S') \<Rightarrow> (Inl e, sent1, S') | (Inr written, S') \<Rightarrow> (Inr 0, sent1, S'))))"

definition seed_main :: "'r seed_env \<Rightarrow> string \<Rightarrow> rat list store \<Rightarrow> seeded" where
  "seed_main V schema S =
     (case first_problem [construct (database_fields (sn_database V)) [check_pool_and_roles (sn_database V)],
          construct (retrieval_fields (sn_retrieval V)) []] of
        Some e \<Rightarrow> \<lparr>sx_exit = (if isinst e CConfigurationError then Inr 2 else Inl e), sx_connections = [], sx_sent = [], sx_store = S\<rparr>
      | None \<Rightarrow>
         (case seed_connect (sn_connect V) (database_url (sn_database V)) ''DATABASE_URL'' of
            Inl e \<Rightarrow> \<lparr>sx_exit = Inr 3, sx_connections = [], sx_sent = [], sx_store = S\<rparr>
          | Inr _ \<Rightarrow>
             (case seed_connect (sn_connect V) (database_ro_url (sn_database V)) ''DATABASE_RO_URL'' of
                Inl e \<Rightarrow> \<lparr>sx_exit = Inr 3, sx_connections = [Opened Owner, Closed Owner], sx_sent = [], sx_store = S\<rparr>
              | Inr _ \<Rightarrow>
                 (case seed_work V schema S of
                    (out, sent, S') \<Rightarrow> \<lparr>sx_exit = out,
                      sx_connections = [Opened Owner, Opened Readonly, Closed Readonly, Closed Owner],
                      sx_sent = sent, sx_store = S'\<rparr>))))"

section \<open>Facts\<close>

subsection \<open>The rows\<close>

text \<open>What the generator promises: an integer between the bounds, both possible, a position in the list, a float between the bounds.
  Binary rounding keeps the least number of tickets of a venue between nothing and its capacity.\<close>

definition fair :: "'r random \<Rightarrow> bool" where
  "fair G \<longleftrightarrow> (\<forall>r a b. a \<le> b \<longrightarrow> a \<le> fst (rn_int G r a b) \<and> fst (rn_int G r a b) \<le> b)
     \<and> (\<forall>r n. 0 < n \<longrightarrow> fst (rn_choice G r n) < n)
     \<and> (\<forall>r a b. a \<le> b \<longrightarrow> a \<le> fst (rn_float G r a b) \<and> fst (rn_float G r a b) \<le> b)
     \<and> (\<forall>v \<in> set demo_venues. 0 \<le> least_sold G (dv_capacity v) \<and> least_sold G (dv_capacity v) \<le> dv_capacity v)"

lemma fairD:
  assumes "fair G"
  shows "a \<le> b \<Longrightarrow> a \<le> fst (rn_int G r a b)" "a \<le> b \<Longrightarrow> fst (rn_int G r a b) \<le> b"
    and "0 < n \<Longrightarrow> fst (rn_choice G r n) < n"
    and "x \<le> y \<Longrightarrow> x \<le> fst (rn_float G r x y)" "x \<le> y \<Longrightarrow> fst (rn_float G r x y) \<le> y"
    and "v \<in> set demo_venues \<Longrightarrow> 0 \<le> least_sold G (dv_capacity v)" "v \<in> set demo_venues \<Longrightarrow> least_sold G (dv_capacity v) \<le> dv_capacity v"
  using assms by (auto simp: fair_def)

lemma venue_facts: "map dv_id demo_venues = map int [1..<13]" "distinct (map dv_name demo_venues)" "list_all (\<lambda>v. 0 < dv_capacity v) demo_venues"
  by code_simp+

lemma artist_ids: "map da_id (fst (artists_of G i names r)) = map int [i..<i + length names]"
  by (induction G i names r rule: artists_of.induct) (auto simp: Let_def split: prod.splits simp del: upt_Suc simp: upt_conv_Cons)

lemma artist_facts:
  assumes "fair G" "a \<in> set (fst (artists_of G i names r))"
  shows "da_genre a \<in> set demo_genres \<and> 1985 \<le> da_formed a \<and> da_formed a \<le> 2020"
  using assms(2)
proof (induction names arbitrary: i r)
  case (Cons first names)
  have "demo_genres ! (i mod length demo_genres) \<in> set demo_genres" by (rule nth_mem) (simp add: demo_genres_def)
  moreover obtain year r1 where year: "rn_int G r 1985 2020 = (year, r1)" by fastforce
  moreover obtain rest r2 where "artists_of G (Suc i) names r1 = (rest, r2)" by fastforce
  moreover have "1985 \<le> year" "year \<le> 2020" using fairD(1,2) [OF assms(1), of 1985 2020 r] year by simp_all
  ultimately show ?case using Cons.IH [of "Suc i" r1] Cons.prems by auto
qed simp

text \<open>Whatever the draws, an event is between rows there are, within the capacity, in the year, at a price of whole cents.\<close>

definition event_ok :: "'r random \<Rightarrow> demo_venue list \<Rightarrow> demo_artist list \<Rightarrow> demo_event \<Rightarrow> bool" where
  "event_ok G venues artists e \<longleftrightarrow>
     (\<exists>v \<in> set venues. de_venue e = dv_id v \<and> least_sold G (dv_capacity v) \<le> de_sold e \<and> de_sold e \<le> dv_capacity v)
     \<and> de_artist e \<in> da_id ` set artists \<and> first_day \<le> de_date e \<and> de_date e \<le> first_day + 364
     \<and> (\<exists>cents. 1200 \<le> cents \<and> cents \<le> 9500 \<and> de_price e = of_int cents / 100)"

lemma cents:
  assumes "12 \<le> x" "x \<le> 95"
  shows "\<exists>c. 1200 \<le> c \<and> c \<le> 9500 \<and> round_places 2 x = of_int c / 100"
proof -
  have "round_half_even (of_int 1200) \<le> round_half_even (x * 100)" "round_half_even (x * 100) \<le> round_half_even (of_int 9500)"
    by (rule half_even_mono; use assms in simp)+
  then have "1200 \<le> round_half_even (x * 100)" "round_half_even (x * 100) \<le> 9500" by (simp_all only: half_even_int)
  then show ?thesis by (intro exI [of _ "round_half_even (x * 100)"]) (simp add: round_places_def)
qed

lemma draw_event_ok:
  assumes G: "fair G" and "venues \<noteq> []" "artists \<noteq> []" "set venues \<subseteq> set demo_venues"
  shows "event_ok G venues artists (fst (draw_event G venues artists i r)) \<and> de_id (fst (draw_event G venues artists i r)) = int i"
proof -
  obtain v r1 where v: "rn_choice G r (length venues) = (v, r1)" by fastforce
  obtain a r2 where a: "rn_choice G r1 (length artists) = (a, r2)" by fastforce
  let ?c = "dv_capacity (venues ! v)"
  obtain sold r3 where sold: "rn_int G r2 (least_sold G ?c) ?c = (sold, r3)" by fastforce
  obtain day r4 where day: "rn_int G r3 0 364 = (day, r4)" by fastforce
  obtain price r5 where price: "rn_float G r4 12 95 = (price, r5)" by fastforce
  have vn: "venues ! v \<in> set venues" using fairD(3) [OF G, of "length venues" r] v assms(2) by simp
  have an: "artists ! a \<in> set artists" using fairD(3) [OF G, of "length artists" r1] a assms(3) by simp
  have "least_sold G ?c \<le> ?c" using fairD(7) [OF G] vn assms(4) by blast
  then have s: "least_sold G ?c \<le> sold" "sold \<le> ?c" using fairD(1,2) [OF G, of "least_sold G ?c" ?c r2] sold by simp_all
  have d: "0 \<le> day" "day \<le> 364" using fairD(1,2) [OF G, of 0 364 r3] day by simp_all
  have "12 \<le> price" "price \<le> 95" using fairD(4,5) [OF G, of 12 95 r4] price by simp_all
  from cents [OF this] show ?thesis
    using vn an s d by (auto simp: draw_event_def v a sold day price event_ok_def)
qed

lemma events_ok:
  assumes "fair G" "venues \<noteq> []" "artists \<noteq> []" "set venues \<subseteq> set demo_venues"
  shows "list_all (event_ok G venues artists) (events_of G venues artists ids r) \<and> map de_id (events_of G venues artists ids r) = map int ids"
proof (induction ids arbitrary: r)
  case (Cons i ids)
  then show ?case using draw_event_ok [OF assms, of i r] by (simp add: Let_def split_def)
qed simp

text \<open>The rows keep what the schema and its comments say of them: keys count up from one, every event is of a venue and an
  artist that are there, never sells more than the venue holds, and a genre is of the vocabulary.\<close>

theorem demo_rows_consistent:
  assumes "fair G"
  shows "map dv_id (dr_venues (build_rows_of G r)) = map int [1..<13]
    \<and> map da_id (dr_artists (build_rows_of G r)) = map int [1..<21]
    \<and> map de_id (dr_events (build_rows_of G r)) = map int [1..<401]
    \<and> (\<forall>a \<in> set (dr_artists (build_rows_of G r)). da_genre a \<in> set demo_genres \<and> 1985 \<le> da_formed a \<and> da_formed a \<le> 2020)
    \<and> (\<forall>e \<in> set (dr_events (build_rows_of G r)). event_ok G (dr_venues (build_rows_of G r)) (dr_artists (build_rows_of G r)) e)"
proof -
  obtain artists r1 where a: "artists_of G 1 artist_first r = (artists, r1)" by fastforce
  have ids: "map da_id artists = map int [1..<21]"
  proof -
    have "length artist_first = 20" "1 + 20 = (21 :: nat)" by (simp_all add: artist_first_def)
    then show ?thesis using artist_ids [of G 1 artist_first r] by (simp only: a fst_conv)
  qed
  then have "artists \<noteq> []" by force
  moreover have "demo_venues \<noteq> []" using venue_facts(1) by force
  ultimately have ok: "list_all (event_ok G demo_venues artists) (events_of G demo_venues artists [1..<401] r1)"
      "map de_id (events_of G demo_venues artists [1..<401] r1) = map int [1..<401]"
    using events_ok [OF assms, of demo_venues artists "[1..<401]" r1] by simp_all
  have art: "da_genre x \<in> set demo_genres \<and> 1985 \<le> da_formed x \<and> da_formed x \<le> 2020" if "x \<in> set artists" for x
    using artist_facts [OF assms, of x 1 artist_first r] that a by simp
  have parts: "dr_venues (build_rows_of G r) = demo_venues" "dr_artists (build_rows_of G r) = artists"
      "dr_events (build_rows_of G r) = events_of G demo_venues artists [1..<401] r1"
    unfolding build_rows_of_def a by simp_all
  show ?thesis unfolding parts using venue_facts(1) ids ok art by (simp only: list_all_iff) blast
qed

text \<open>A generator that always draws the least value keeps the promise.\<close>

definition least_draws :: "unit random" where
  "least_draws = \<lparr>rn_int = (\<lambda>r a b. (a, r)), rn_choice = (\<lambda>r n. (0, r)), rn_float = (\<lambda>r a b. (a, r)), rn_fl = (\<lambda>x. x)\<rparr>"

lemma least_draws_fair: "fair least_draws"
proof -
  have "list_all (\<lambda>v. 0 \<le> least_sold least_draws (dv_capacity v) \<and> least_sold least_draws (dv_capacity v) \<le> dv_capacity v) demo_venues"
    by code_simp
  then have "\<forall>v \<in> set demo_venues. 0 \<le> least_sold least_draws (dv_capacity v) \<and> least_sold least_draws (dv_capacity v) \<le> dv_capacity v"
    by (simp only: list_all_iff)
  then show ?thesis by (simp add: fair_def) (simp add: least_draws_def)
qed

subsection \<open>The search path\<close>

lemma execute_all_sent:
  "execute_all sv ss sent = (e, sent') \<Longrightarrow> \<exists>don. prefix don ss \<and> sent' = sent @ don \<and> (e = None \<longrightarrow> don = ss)"
proof (induction sv ss sent rule: execute_all.induct)
  case (2 sv s ss sent)
  show ?case
  proof (cases "dm_refuses sv sent s")
    case None
    then obtain don where "prefix don ss" "sent' = (sent @ [s]) @ don" "e = None \<longrightarrow> don = ss" using 2 by auto
    then show ?thesis by (intro exI [of _ "s # don"]) simp
  next
    case (Some x)
    then have "e = Some x" "sent' = sent" using 2 by auto
    then show ?thesis by simp
  qed
qed simp

text \<open>The session's path is what it was exactly when no statement set it after the last reset.\<close>

fun path_set :: "demo_server \<Rightarrow> string \<Rightarrow> bool \<Rightarrow> demo_statement list \<Rightarrow> bool" where
  "path_set sv schema b [] = b"
| "path_set sv schema b (s # ss) = path_set sv schema (if s = set_path sv schema then True else if s = reset_path then False else b) ss"

lemma path_set_append: "path_set sv schema b (xs @ ys) = path_set sv schema (path_set sv schema b xs) ys"
  by (induction xs arbitrary: b) auto

lemma path_kept: "\<forall>s \<in> set ss. s \<noteq> set_path sv schema \<and> s \<noteq> reset_path \<Longrightarrow> path_set sv schema b ss = b"
  by (induction ss arbitrary: b) auto

text \<open>The path is put back whatever happens in between, unless the server refuses the reset itself.\<close>

theorem search_path_restored:
  assumes "\<And>sent. dm_refuses sv sent reset_path = None" "create_schema sv schema [] = (e, sent)"
  shows "\<not> path_set sv schema False sent"
proof -
  have open_ok: "\<not> path_set sv schema False don"
    if "prefix don [Plain (''DROP SCHEMA IF EXISTS '' @ dm_ident sv schema @ '' CASCADE''), Plain (''CREATE SCHEMA '' @ dm_ident sv schema)]" for don
    using that by (auto simp: set_path_def reset_path_def prefix_Cons)
  have close_ok: "path_set sv schema b don = b"
    if "prefix don (map (comment_statement sv schema) demo_comments @ demo_grants sv schema)" for b don
  proof -
    have "\<forall>s \<in> set don. s \<noteq> set_path sv schema \<and> s \<noteq> reset_path"
      using set_mono_prefix [OF that] by (auto simp: comment_statement_def demo_grants_def set_path_def reset_path_def split: prod.splits)
    then show ?thesis by (rule path_kept)
  qed
  obtain e1 sent1 where one: "execute_all sv [Plain (''DROP SCHEMA IF EXISTS '' @ dm_ident sv schema @ '' CASCADE''),
      Plain (''CREATE SCHEMA '' @ dm_ident sv schema)] [] = (e1, sent1)" by fastforce
  then have sent1: "\<not> path_set sv schema False sent1" using execute_all_sent [OF one] open_ok by auto
  show ?thesis
  proof (cases e1)
    case (Some x)
    then show ?thesis using assms(2) one sent1 by (simp add: create_schema_def)
  next
    case None
    obtain e2 sent2 where two: "execute_finally sv (set_path sv schema # map Plain demo_ddl) [reset_path] sent1 = (e2, sent2)" by fastforce
    obtain mid where "sent2 = mid @ [reset_path]"
      using two assms(1) by (auto simp: execute_finally_def split: prod.splits option.splits)
    then have sent2: "\<not> path_set sv schema False sent2" by (simp add: path_set_append set_path_def reset_path_def)
    show ?thesis
    proof (cases e2)
      case (Some x)
      then show ?thesis using assms(2) one None two sent2 by (simp add: create_schema_def)
    next
      case none: None
      then have "execute_all sv (map (comment_statement sv schema) demo_comments @ demo_grants sv schema) sent2 = (e, sent)"
        using assms(2) one None two by (simp add: create_schema_def)
      from execute_all_sent [OF this] obtain don where "sent = sent2 @ don"
          "prefix don (map (comment_statement sv schema) demo_comments @ demo_grants sv schema)" by blast
      then show ?thesis using sent2 close_ok by (simp add: path_set_append)
    qed
  qed
qed

subsection \<open>The command\<close>

text \<open>However seeding ends, what it opened is closed again, the connection opened last first.\<close>

lemma seeding_closes:
  "sx_connections (seed_main V schema S) \<in> {[], [Opened Owner, Closed Owner], [Opened Owner, Opened Readonly, Closed Readonly, Closed Owner]}"
  by (simp add: seed_main_def split: option.splits sum.splits prod.splits)

end
