(* ===== verification/ProviderCheck.thy ===== *)
theory ProviderCheck
  imports Configuration
begin

text \<open>
  The smoke check of the configured provider (\<open>src/generation/check.py\<close>): the settings it reads, what it prints and
  its exit codes. The provider is the way a built client completes; the time a call takes is an argument.
\<close>

definition probe_text :: string where
  "probe_text = ''Reply with exactly: OK''"

definition probe_request :: llm_request where
  "probe_request = \<lparr>rq_messages = [\<lparr>msg_role = USER, msg_content = probe_text, msg_tool_call_id = None\<rparr>],
     rq_tools = None, rq_max_tokens = Some 16, rq_timeout_ms = None\<rparr>"

definition probe_lines :: "llm_response \<Rightarrow> rat \<Rightarrow> string list" where
  "probe_lines r elapsed_ms =
     [''  model      '' @ lr_model r,
      ''  latency    '' @ show_int (round_half_even elapsed_ms) @ '' ms'',
      ''  reply      '' @ py_repr (take 60 (strip (lr_text r))),
      ''  tokens     in='' @ show_int (input_tokens (lr_usage r)) @ '' out='' @ show_int (output_tokens (lr_usage r))
        @ '' cached='' @ show_int (cache_read_tokens (lr_usage r))]
     @ (if cache_read_tokens (lr_usage r) = 0
        then [''  note       no cached tokens -- expected for a single probe''] else [])"

text \<open>What is printed on the two streams, with the exit code or the exception.\<close>

record checked =
  ck_exit :: "exn + int"
  ck_out :: "string list"
  ck_err :: "string list"

definition provider_value :: "llm_provider \<Rightarrow> string" where
  "provider_value p = (case p of OPENAI_COMPATIBLE \<Rightarrow> ''openai_compatible'' | ANTHROPIC \<Rightarrow> ''anthropic'' | FAKE \<Rightarrow> ''fake'')"

definition settings_lines :: "llm_settings \<Rightarrow> string list" where
  "settings_lines s =
     [''provider     '' @ provider_value (llm_provider s),
      ''base_url     '' @ (if truthy (llm_base_url s) then the (llm_base_url s) else ''(provider default)''),
      ''model        '' @ llm_model s]
     @ (if llm_model_fallbacks s \<noteq> [] then [''fallbacks    '' @ join '', '' (llm_model_fallbacks s)] else [])
     @ [''api key      '' @ (if truthy (llm_api_key s) then ''set'' else ''not set''), []]"

definition override_model :: "string option \<Rightarrow> llm_settings \<Rightarrow> llm_settings" where
  "override_model model s = (if truthy model then s\<lparr>llm_model := the model\<rparr> else s)"

definition probe_provider :: "(llm_request \<Rightarrow> exn + llm_response \<times> rat) \<Rightarrow> exn + string list" where
  "probe_provider ask = (case ask probe_request of Inl e \<Rightarrow> Inl e | Inr (r, elapsed_ms) \<Rightarrow> Inr (probe_lines r elapsed_ms))"

definition check_main ::
  "network \<Rightarrow> llm_settings \<Rightarrow> string option \<Rightarrow> (built_client \<Rightarrow> llm_request \<Rightarrow> exn + llm_response \<times> rat) \<Rightarrow> checked" where
  "check_main N given model client_call =
     (case construct (llm_fields given) [check_provider_requirements N given] of
        Some e \<Rightarrow>
          if isinst e CTextToSQLError
          then \<lparr>ck_exit = Inr 2, ck_out = [], ck_err = [''configuration rejected: '' @ exn_str e]\<rparr>
          else \<lparr>ck_exit = Inl e, ck_out = [], ck_err = []\<rparr>
      | None \<Rightarrow>
         (let s = override_model model given in
          case (case build_llm_client s of Inl e \<Rightarrow> Inl e | Inr c \<Rightarrow> probe_provider (client_call c)) of
            Inr ls \<Rightarrow> \<lparr>ck_exit = Inr 0, ck_out = settings_lines s @ ls, ck_err = []\<rparr>
          | Inl e \<Rightarrow>
              if isinst e CLLMError
              then \<lparr>ck_exit = Inr 1, ck_out = settings_lines s, ck_err = [''provider call failed: '' @ exn_str e]\<rparr>
              else if isinst e CTextToSQLError
              then \<lparr>ck_exit = Inr 2, ck_out = settings_lines s, ck_err = [''failed: '' @ exn_str e]\<rparr>
              else \<lparr>ck_exit = Inl e, ck_out = settings_lines s, ck_err = []\<rparr>))"

section \<open>Facts\<close>

text \<open>The check reads the key only to see that it is there: with another key it prints the same on both streams and
  exits the same, as long as the provider answers the same.\<close>

lemma construct_key:
  "k \<noteq> [] \<Longrightarrow> k' \<noteq> [] \<Longrightarrow> construct (llm_fields (s\<lparr>llm_api_key := Some k\<rparr>)) [check_provider_requirements N (s\<lparr>llm_api_key := Some k\<rparr>)]
     = construct (llm_fields (s\<lparr>llm_api_key := Some k'\<rparr>)) [check_provider_requirements N (s\<lparr>llm_api_key := Some k'\<rparr>)]"
  by (simp add: construct_def llm_fields_def check_provider_requirements_def split: option.splits)

lemma build_key: "build_llm_client (s\<lparr>llm_api_key := k\<rparr>) = build_llm_client s"
proof -
  have "build_openai (s\<lparr>llm_api_key := k\<rparr>) = build_openai s" by (simp add: build_openai_def fun_eq_iff)
  then show ?thesis by (simp add: build_llm_client_def split: llm_provider.split sum.split)
qed

theorem check_never_prints_key:
  assumes "k \<noteq> []" "k' \<noteq> []"
  shows "check_main N (s\<lparr>llm_api_key := Some k\<rparr>) model call = check_main N (s\<lparr>llm_api_key := Some k'\<rparr>) model call"
proof -
  have over: "override_model model (s\<lparr>llm_api_key := Some x\<rparr>) = (override_model model s)\<lparr>llm_api_key := Some x\<rparr>" for x
    by (simp add: override_model_def)
  have lines: "settings_lines (t\<lparr>llm_api_key := Some k\<rparr>) = settings_lines (t\<lparr>llm_api_key := Some k'\<rparr>)" for t
    using assms by (simp add: settings_lines_def truthy_def)
  show ?thesis
    unfolding check_main_def construct_key [OF assms] Let_def over build_key lines by (rule refl)
qed

text \<open>Its exit code tells a provider that failed from a configuration that is wrong.\<close>

lemma check_exits:
  "ck_exit (check_main N s model call) = Inr n \<Longrightarrow>
     n = 0 \<and> ck_err (check_main N s model call) = [] \<or> n \<in> {1, 2} \<and> length (ck_err (check_main N s model call)) = 1"
  by (cases "construct (llm_fields s) [check_provider_requirements N s]")
     (auto simp: check_main_def Let_def simp del: construct_None split: sum.splits if_splits)

text \<open>The scripted provider, whose queue is empty, can never pass it.\<close>

lemma fake_never_passes:
  assumes "llm_provider s = FAKE"
    and "\<And>c rq. call (BuiltFake c) rq = (case fst (fake_complete rq c) of Inl e \<Rightarrow> Inl e | Inr r \<Rightarrow> Inr (r, t))"
  shows "ck_exit (check_main N s model call) \<noteq> Inr 0"
  using assms
  by (cases "construct (llm_fields s) [check_provider_requirements N s]")
     (auto simp: check_main_def override_model_def build_llm_client_def probe_provider_def fake_complete_def Let_def simp del: construct_None)

text \<open>A value out of its range is not one of the exceptions caught: the check ends in a traceback.\<close>

lemma range_error_escapes: "\<not> llm_fields s \<Longrightarrow> ck_exit (check_main N s model call) = Inl validation_error"
  by (simp add: check_main_def construct_def validation_error_def isinst_simps)

end
