(* ===== verification/Migrations.thy ===== *)
theory Migrations
  imports Resources Demo
begin

text \<open>
  The migrations (\<open>migrations/versions/\<close>) as lists of statements, and what they do to the roles and privileges of a
  cluster. The statements are the source's, one constructor for each kind; their effect, \<open>ddl_step\<close>, is what the database
  documents of \<open>GRANT\<close>, \<open>REVOKE\<close>, default privileges, role membership and \<open>DROP ROLE\<close>, and no more: columns, indexes and
  comments carry no privilege.
\<close>

section \<open>Roles and privileges\<close>

datatype grantee = Public | Named string

datatype db_object = Database | Schema string | Relation string string

text \<open>\<open>cl_members\<close> are pairs of a member and its group; \<open>cl_defaults\<close> the privileges a new relation of a schema gets;
  \<open>cl_owner\<close> who owns what.\<close>

record cluster =
  cl_roles :: "(string, role_row) dict"
  cl_members :: "(string \<times> string) list"
  cl_grants :: "(grantee \<times> db_object \<times> string) list"
  cl_defaults :: "(string \<times> grantee \<times> string) list"
  cl_relations :: "pg_relation list"
  cl_schemas :: "string list"
  cl_owner :: "db_object \<Rightarrow> string"
  cl_settings :: "(string \<times> string, string) dict"

datatype ddl =
    CreateExtension string
  | CreateSchemaIfMissing string
  | CreateTable string string "string list"
  | CreateIndex string string
  | CommentOn string string
  | EnsureRole string
  | EnsureLogin string
  | GrantRole string string
  | RevokeAll db_object grantee
  | GrantOn string db_object grantee
  | GrantOnAll string string grantee
  | RevokeOnAll string grantee
  | DefaultGrant string string grantee
  | DefaultRevoke string string grantee
  | RoleSetting string string string
  | ReplaceUnique string bool
  | DropRoleIfExists string
  | DropSchemaCascade string

definition plain_role :: role_row where
  "plain_role = \<lparr>ro_superuser = False, ro_createdb = False, ro_createrole = False, ro_bypassrls = False\<rparr>"

definition relation_object :: "pg_relation \<Rightarrow> db_object" where
  "relation_object r = Relation (rl_schema r) (rl_name r)"

fun schema_of :: "db_object \<Rightarrow> string option" where
  "schema_of Database = None"
| "schema_of (Schema n) = Some n"
| "schema_of (Relation n t) = Some n"

text \<open>The effect of a statement that \<open>who\<close> runs. A role that privileges or default privileges still name is not dropped.\<close>

fun ddl_step :: "string \<Rightarrow> ddl \<Rightarrow> cluster \<Rightarrow> string + cluster" where
  "ddl_step who (CreateSchemaIfMissing n) c =
     Inr (if n \<in> set (cl_schemas c) then c else c\<lparr>cl_schemas := n # cl_schemas c, cl_owner := (cl_owner c)(Schema n := who)\<rparr>)"
| "ddl_step who (CreateTable n t columns) c =
     Inr (c\<lparr>cl_relations := \<lparr>rl_schema = n, rl_name = t, rl_kind = ''r''\<rparr> # cl_relations c,
        cl_owner := (cl_owner c)(Relation n t := who),
        cl_grants := map (\<lambda>(s, g, p). (g, Relation n t, p)) (filter (\<lambda>(s, g, p). s = n) (cl_defaults c)) @ cl_grants c\<rparr>)"
| "ddl_step who (EnsureRole r) c =
     Inr (if dict_get (cl_roles c) r = None then c\<lparr>cl_roles := dict_set (cl_roles c) r plain_role\<rparr> else c)"
| "ddl_step who (EnsureLogin r) c =
     Inr (if dict_get (cl_roles c) r = None then c\<lparr>cl_roles := dict_set (cl_roles c) r plain_role\<rparr> else c)"
| "ddl_step who (GrantRole g m) c = Inr (c\<lparr>cl_members := (m, g) # cl_members c\<rparr>)"
| "ddl_step who (RevokeAll ob g) c = Inr (c\<lparr>cl_grants := filter (\<lambda>(g', ob', p). \<not> (g' = g \<and> ob' = ob)) (cl_grants c)\<rparr>)"
| "ddl_step who (GrantOn p ob g) c = Inr (c\<lparr>cl_grants := (g, ob, p) # cl_grants c\<rparr>)"
| "ddl_step who (GrantOnAll p n g) c =
     Inr (c\<lparr>cl_grants := map (\<lambda>r. (g, relation_object r, p)) (filter (\<lambda>r. rl_schema r = n) (cl_relations c)) @ cl_grants c\<rparr>)"
| "ddl_step who (RevokeOnAll n g) c =
     Inr (c\<lparr>cl_grants := filter (\<lambda>(g', ob, p). \<not> (g' = g \<and> (\<exists>r \<in> set (cl_relations c). rl_schema r = n \<and> ob = relation_object r))) (cl_grants c)\<rparr>)"
| "ddl_step who (DefaultGrant p n g) c = Inr (c\<lparr>cl_defaults := (n, g, p) # cl_defaults c\<rparr>)"
| "ddl_step who (DefaultRevoke p n g) c = Inr (c\<lparr>cl_defaults := filter (\<lambda>d. d \<noteq> (n, g, p)) (cl_defaults c)\<rparr>)"
| "ddl_step who (RoleSetting r k v) c = Inr (c\<lparr>cl_settings := dict_set (cl_settings c) (r, k) v\<rparr>)"
| "ddl_step who (DropRoleIfExists r) c =
     (if (\<exists>x \<in> set (cl_grants c). fst x = Named r) \<or> (\<exists>x \<in> set (cl_defaults c). fst (snd x) = Named r)
      then Inl (''role '' @ [dquote] @ r @ [dquote] @ '' cannot be dropped because some objects depend on it'')
      else Inr (c\<lparr>cl_roles := filter (\<lambda>x. fst x \<noteq> r) (cl_roles c),
        cl_members := filter (\<lambda>(m, g). m \<noteq> r \<and> g \<noteq> r) (cl_members c),
        cl_settings := filter (\<lambda>x. fst (fst x) \<noteq> r) (cl_settings c)\<rparr>))"
| "ddl_step who (DropSchemaCascade n) c =
     Inr (c\<lparr>cl_schemas := filter (\<lambda>s. s \<noteq> n) (cl_schemas c), cl_relations := filter (\<lambda>r. rl_schema r \<noteq> n) (cl_relations c),
        cl_grants := filter (\<lambda>(g, ob, p). schema_of ob \<noteq> Some n) (cl_grants c),
        cl_defaults := filter (\<lambda>(s, g, p). s \<noteq> n) (cl_defaults c)\<rparr>)"
| "ddl_step who _ c = Inr c"

fun run_ddl :: "string \<Rightarrow> ddl list \<Rightarrow> cluster \<Rightarrow> string + cluster" where
  "run_ddl who [] c = Inr c"
| "run_ddl who (d # ds) c = (case ddl_step who d c of Inl m \<Rightarrow> Inl m | Inr c' \<Rightarrow> run_ddl who ds c')"

section \<open>The migrations\<close>

definition embedding_dim :: nat where
  "embedding_dim = 384"

definition embedding_type :: string where
  "embedding_type = ''vector('' @ show_nat embedding_dim @ '')''"

text \<open>A text in single quotes; the columns and constraints of a table, one a line, with single blanks.\<close>

definition sql_text :: "string \<Rightarrow> string" where
  "sql_text s = [squote] @ s @ [squote]"

definition schema_elements_columns :: "string list" where
  "schema_elements_columns =
     [''id bigserial PRIMARY KEY'', ''dataset text NOT NULL'', ''element_type text NOT NULL'', ''table_name text NOT NULL'', ''column_name text'',
      ''data_type text'', ''comment text'', ''serialized text NOT NULL'', ''embedding '' @ embedding_type, ''model_version text NOT NULL'',
      ''updated_at timestamptz NOT NULL DEFAULT now()'',
      ''CONSTRAINT schema_elements_type_ck CHECK (element_type IN ('' @ sql_text ''table'' @ '', '' @ sql_text ''column'' @ ''))'',
      ''CONSTRAINT schema_elements_unique UNIQUE (dataset, table_name, column_name, model_version)'']"

definition foreign_keys_columns :: "string list" where
  "foreign_keys_columns =
     [''id bigserial PRIMARY KEY'', ''dataset text NOT NULL'', ''from_table text NOT NULL'', ''from_column text NOT NULL'', ''to_table text NOT NULL'',
      ''to_column text NOT NULL'', ''constraint_name text'',
      ''CONSTRAINT foreign_keys_unique UNIQUE (dataset, from_table, from_column, to_table, to_column)'']"

definition query_audit_columns :: "string list" where
  "query_audit_columns =
     [''id bigserial PRIMARY KEY'', ''created_at timestamptz NOT NULL DEFAULT now()'', ''request_id text'', ''trace_id text'', ''session_id text'',
      ''question text'', ''generated_sql text'', ''validation_attempts integer'', ''db_role text'', ''duration_ms integer'', ''row_count integer'',
      ''truncated boolean'', ''outcome text NOT NULL'', ''error_type text'']"

definition session_columns :: "string list" where
  "session_columns =
     [''id text PRIMARY KEY'', ''created_at timestamptz NOT NULL DEFAULT now()'', ''last_seen_at timestamptz NOT NULL DEFAULT now()'']"

definition session_turn_columns :: "string list" where
  "session_turn_columns =
     [''id bigserial PRIMARY KEY'', ''session_id text NOT NULL REFERENCES agent_meta.sessions(id) ON DELETE CASCADE'', ''question text NOT NULL'',
      ''generated_sql text'', ''row_count integer'', ''truncated boolean'', ''created_at timestamptz NOT NULL DEFAULT now()'']"

definition upgrade_001 :: "ddl list" where
  "upgrade_001 =
     [CreateExtension ''vector'', CreateSchemaIfMissing ''agent_meta'',
      CreateTable ''agent_meta'' ''schema_elements'' schema_elements_columns,
      CommentOn ''agent_meta.schema_elements.model_version'' ''Vectors from different models are NOT comparable -- queries must filter on this.'',
      CreateTable ''agent_meta'' ''foreign_keys'' foreign_keys_columns, CreateTable ''agent_meta'' ''sessions'' session_columns,
      CreateTable ''agent_meta'' ''session_turns'' session_turn_columns, CreateTable ''agent_meta'' ''query_audit'' query_audit_columns,
      CreateIndex ''schema_elements_dataset_model_ix'' ''agent_meta.schema_elements (dataset, model_version)'',
      CreateIndex ''schema_elements_dataset_table_ix'' ''agent_meta.schema_elements (dataset, table_name)'',
      CreateIndex ''schema_elements_embedding_ix'' ''agent_meta.schema_elements USING hnsw (embedding vector_cosine_ops)'',
      CreateIndex ''foreign_keys_from_ix'' ''agent_meta.foreign_keys (dataset, from_table)'',
      CreateIndex ''session_turns_session_ix'' ''agent_meta.session_turns (session_id, created_at)'',
      CreateIndex ''query_audit_created_ix'' ''agent_meta.query_audit (created_at)'',
      CreateIndex ''query_audit_request_ix'' ''agent_meta.query_audit (request_id)'']"

definition downgrade_001 :: "ddl list" where
  "downgrade_001 = [DropSchemaCascade ''agent_meta'']"

definition group_role :: string where
  "group_role = ''sql_agent_ro''"

definition login_role :: string where
  "login_role = ''sql_agent_login''"

definition role_settings :: "string \<Rightarrow> ddl list" where
  "role_settings r = [RoleSetting r ''statement_timeout'' ''30s'', RoleSetting r ''idle_in_transaction_session_timeout'' ''10s'',
     RoleSetting r ''work_mem'' ''32MB'', RoleSetting r ''default_transaction_read_only'' ''on'']"

definition upgrade_002 :: "ddl list" where
  "upgrade_002 =
     [EnsureRole group_role, EnsureLogin login_role, GrantRole group_role login_role, RevokeAll Database Public,
      RevokeAll (Schema ''public'') Public, GrantOn ''CONNECT'' Database (Named group_role),
      GrantOn ''USAGE'' (Schema ''public'') (Named group_role), GrantOnAll ''SELECT'' ''public'' (Named group_role),
      DefaultGrant ''SELECT'' ''public'' (Named group_role)]
     @ role_settings group_role @ role_settings login_role"

text \<open>Without a password the migration stops after the first statement, in a transaction that is rolled back.\<close>

definition migrate_002 :: "string \<Rightarrow> string option \<Rightarrow> cluster \<Rightarrow> exn + cluster" where
  "migrate_002 who password c =
     (if \<not> truthy password
      then Inl (OtherError ''RuntimeError'' ''SQL_AGENT_RO_PASSWORD is not set. The read-only login role needs a password, and it must not be hardcoded in a migration.'')
      else case run_ddl who upgrade_002 c of Inl m \<Rightarrow> Inl (OtherError ''ProgrammingError'' m) | Inr c' \<Rightarrow> Inr c')"

definition downgrade_002 :: "ddl list" where
  "downgrade_002 =
     [DefaultRevoke ''SELECT'' ''public'' (Named group_role), RevokeOnAll ''public'' (Named group_role),
      RevokeAll (Schema ''public'') (Named group_role), RevokeAll Database (Named group_role),
      DropRoleIfExists login_role, DropRoleIfExists group_role]"

definition upgrade_003 :: "ddl list" where
  "upgrade_003 = [ReplaceUnique ''schema_elements_unique'' True]"

definition downgrade_003 :: "ddl list" where
  "downgrade_003 = [ReplaceUnique ''schema_elements_unique'' False]"

text \<open>\<open>_database_url\<close> of \<open>migrations/env.py\<close>.\<close>

definition migration_url :: "string option \<Rightarrow> exn + string" where
  "migration_url url =
     (if \<not> truthy url
      then Inl (OtherError ''RuntimeError'' ''DATABASE_URL is not set. Migrations run as the owner role, not the read-only role -- see docs/architecture/DATABASE.md section 7.'')
      else let u = the url in
        Inr (if startswith u ''postgresql://'' then ''postgresql+psycopg://'' @ drop (length ''postgresql://'') u else u))"

section \<open>What a role may do\<close>

definition role_holds :: "cluster \<Rightarrow> string \<Rightarrow> db_object \<Rightarrow> string \<Rightarrow> bool" where
  "role_holds c role ob p \<longleftrightarrow>
     (\<exists>r. (role, r) \<in> (set (cl_members c))\<^sup>* \<and> ((Named r, ob, p) \<in> set (cl_grants c) \<or> cl_owner c ob = r))
     \<or> (Public, ob, p) \<in> set (cl_grants c)"

text \<open>What the checks of \<open>Resources\<close> see when they connect as a role.\<close>

definition view_of :: "cluster \<Rightarrow> string \<Rightarrow> role_view" where
  "view_of c role = (let super = (case dict_get (cl_roles c) role of None \<Rightarrow> False | Some a \<Rightarrow> ro_superuser a) in
     \<lparr>vw_attributes = dict_get (cl_roles c) role, vw_relations = cl_relations c,
      vw_table_privilege = (\<lambda>r p. super \<or> role_holds c role (relation_object r) p), vw_column_privilege = (\<lambda>_ _ _. super),
      vw_schemas = cl_schemas c, vw_schema_privilege = (\<lambda>n p. super \<or> role_holds c role (Schema n) p),
      vw_default_read_only = dict_get (cl_settings c) (role, ''default_transaction_read_only'')\<rparr>)"

section \<open>Facts\<close>

text \<open>For a set of roles \<open>Rs\<close> and a schema \<open>n\<close>: a statement that gives nobody more than reading, gives \<open>Rs\<close> and \<open>PUBLIC\<close> nothing in
  that schema, and makes none of the roles a member of another one.\<close>

definition reads_only :: "string \<Rightarrow> bool" where
  "reads_only p \<longleftrightarrow> p \<notin> set write_privileges \<and> p \<noteq> ''CREATE''"

fun harmless :: "string set \<Rightarrow> string \<Rightarrow> ddl \<Rightarrow> bool" where
  "harmless Rs n (GrantOn p ob g) \<longleftrightarrow> reads_only p \<and> schema_of ob \<noteq> Some n"
| "harmless Rs n (GrantOnAll p s g) \<longleftrightarrow> reads_only p \<and> s \<noteq> n"
| "harmless Rs n (DefaultGrant p s g) \<longleftrightarrow> reads_only p \<and> s \<noteq> n"
| "harmless Rs n (GrantRole g m) \<longleftrightarrow> (m \<in> Rs \<longrightarrow> g \<in> Rs)"
| "harmless Rs n _ \<longleftrightarrow> True"

text \<open>What is true of a cluster in which the roles \<open>Rs\<close> cannot write and cannot see the schema \<open>n\<close>: the grants and defaults
  that name them or \<open>PUBLIC\<close> only read, but for \<open>CREATE\<close> to \<open>PUBLIC\<close> on the schemas of \<open>N\<close>, and are of other schemas; they own nothing, and
  are members of none but each other.\<close>

fun safe_grant :: "string set \<Rightarrow> string \<Rightarrow> string set \<Rightarrow> grantee \<times> db_object \<times> string \<Rightarrow> bool" where
  "safe_grant Rs n N (g, ob, p) \<longleftrightarrow> (g \<in> insert Public (Named ` Rs) \<longrightarrow>
     schema_of ob \<noteq> Some n \<and> (reads_only p \<or> (g = Public \<and> p = ''CREATE'' \<and> ob \<in> Schema ` N)))"

fun safe_default :: "string set \<Rightarrow> string \<Rightarrow> string \<times> grantee \<times> string \<Rightarrow> bool" where
  "safe_default Rs n (s, g, p) \<longleftrightarrow> (g \<in> insert Public (Named ` Rs) \<longrightarrow> s \<noteq> n \<and> reads_only p)"

declare safe_grant.simps [simp del] safe_default.simps [simp del]

definition walled :: "string set \<Rightarrow> string \<Rightarrow> string set \<Rightarrow> cluster \<Rightarrow> bool" where
  "walled Rs n N c \<longleftrightarrow> (\<forall>x \<in> set (cl_grants c). safe_grant Rs n N x) \<and> (\<forall>x \<in> set (cl_defaults c). safe_default Rs n x)
     \<and> (\<forall>ob. cl_owner c ob \<notin> Rs) \<and> (\<forall>x \<in> set (cl_members c). fst x \<in> Rs \<longrightarrow> snd x \<in> Rs)"

lemma reading_safe [simp]:
  "reads_only p \<Longrightarrow> schema_of ob \<noteq> Some n \<Longrightarrow> safe_grant Rs n N (g, ob, p)"
  "reads_only p \<Longrightarrow> s \<noteq> n \<Longrightarrow> safe_default Rs n (s, g, p)"
  by (simp_all add: safe_grant.simps safe_default.simps)

lemma default_safe: "safe_default Rs n (s, g, p) \<Longrightarrow> safe_grant Rs n N (g, Relation s t, p)"
  by (auto simp: safe_grant.simps safe_default.simps)

lemma revoked_safe: "safe_grant Rs n {s} (g, ob, p) \<Longrightarrow> \<not> (g = Public \<and> ob = Schema s) \<Longrightarrow> safe_grant Rs n {} (g, ob, p)"
  by (auto simp: safe_grant.simps)

lemma walled_step:
  assumes "walled Rs n N c" "who \<notin> Rs"
    and "\<forall>x \<in> set (cl_grants c'). x \<in> set (cl_grants c) \<or> safe_grant Rs n N x"
    and "\<forall>x \<in> set (cl_defaults c'). x \<in> set (cl_defaults c) \<or> safe_default Rs n x"
    and "\<forall>ob. cl_owner c' ob \<in> {cl_owner c ob, who}"
    and "\<forall>x \<in> set (cl_members c'). x \<in> set (cl_members c) \<or> (fst x \<in> Rs \<longrightarrow> snd x \<in> Rs)"
  shows "walled Rs n N c'"
  using assms unfolding walled_def by (metis insertE singletonD)

lemma harmless_walled:
  assumes "ddl_step who d c = Inr c'" "harmless Rs n d" "walled Rs n N c" "who \<notin> Rs"
  shows "walled Rs n N c'"
proof -
  have granted: "safe_grant Rs n N (g, Relation s t, p)" if "(s, g, p) \<in> set (cl_defaults c)" for g s t p
    using that assms(3) default_safe unfolding walled_def by blast
  show ?thesis
    by (rule walled_step [OF assms(3,4)]; use assms(1,2) granted in \<open>cases d; auto simp: relation_object_def split: if_splits\<close>)
qed

lemma run_walled:
  "run_ddl who ds c = Inr c' \<Longrightarrow> list_all (harmless Rs n) ds \<Longrightarrow> walled Rs n N c \<Longrightarrow> who \<notin> Rs \<Longrightarrow> walled Rs n N c'"
  by (induction who ds c rule: run_ddl.induct) (auto split: sum.splits dest: harmless_walled)

lemma run_append: "run_ddl who (ds @ es) c = (case run_ddl who ds c of Inl m \<Rightarrow> Inl m | Inr c' \<Rightarrow> run_ddl who es c')"
  by (induction who ds c rule: run_ddl.induct) (auto split: sum.splits)

lemma revoke_public:
  assumes "walled Rs n {s} c" "ddl_step who (RevokeAll (Schema s) Public) c = Inr c'"
  shows "walled Rs n {} c'"
proof -
  have c': "c' = c\<lparr>cl_grants := filter (\<lambda>(g', ob', p). \<not> (g' = Public \<and> ob' = Schema s)) (cl_grants c)\<rparr>" using assms(2) by simp
  have "safe_grant Rs n {} (g, ob, p)" if "(g, ob, p) \<in> set (cl_grants c')" for g ob p
  proof -
    have "(g, ob, p) \<in> set (cl_grants c)" "\<not> (g = Public \<and> ob = Schema s)" using that by (auto simp: c')
    then show ?thesis using revoked_safe [of Rs n s g ob p] assms(1) unfolding walled_def by blast
  qed
  then show ?thesis using assms(1) by (auto simp: walled_def c')
qed

text \<open>The roles a role acts as.\<close>

lemma closure_within:
  assumes "(a, r) \<in> M\<^sup>*" "a \<in> Rs" "\<And>x y. (x, y) \<in> M \<Longrightarrow> x \<in> Rs \<Longrightarrow> y \<in> Rs"
  shows "r \<in> Rs"
  using assms(1) by (induction rule: rtrancl_induct) (use assms(2,3) in auto)

lemma walled_holds:
  assumes "walled Rs n N c" "role \<in> Rs" "role_holds c role ob p"
  shows "\<exists>g. (g, ob, p) \<in> set (cl_grants c) \<and> g \<in> insert Public (Named ` Rs) \<and> safe_grant Rs n N (g, ob, p)"
proof -
  have "r \<in> Rs" if "(role, r) \<in> (set (cl_members c))\<^sup>*" for r
    by (rule closure_within [OF that assms(2)]) (use assms(1) in \<open>force simp: walled_def\<close>)
  then show ?thesis using assms(1,3) unfolding role_holds_def walled_def by blast
qed

lemma walled_cannot_write:
  assumes "walled Rs n {} c" "role \<in> Rs" "dict_get (cl_roles c) role = Some plain_role"
  shows "judge_role (view_of c role) = None"
proof -
  have no: "\<not> role_holds c role ob p" if p: "p \<in> set write_privileges \<or> p = ''CREATE''" for ob p
    using walled_holds [OF assms(1,2), of ob p] p by (auto simp: safe_grant.simps reads_only_def)
  then show ?thesis
    unfolding judge_role_None cannot_write_def
    using assms(3) by (auto simp: view_of_def plain_role_def Let_def)
qed

section \<open>Properties\<close>

text \<open>A cluster the migrations start from: neither role is there, nothing names them or makes them a member of anything,
  \<open>PUBLIC\<close> writes nothing but what every cluster before version 15 gives it, \<open>CREATE\<close> on the schema \<open>public\<close>, and
  has nothing in \<open>agent_meta\<close>.\<close>

definition unmigrated :: "cluster \<Rightarrow> bool" where
  "unmigrated c \<longleftrightarrow> dict_get (cl_roles c) group_role = None \<and> dict_get (cl_roles c) login_role = None
     \<and> walled {group_role, login_role} ''agent_meta'' {''public''} c"

lemma reading_privileges [simp]: "reads_only ''SELECT''" "reads_only ''USAGE''" "reads_only ''CONNECT''"
  by (simp_all add: reads_only_def write_privileges_def)

definition opening_002 :: "ddl list" where
  "opening_002 = [EnsureRole group_role, EnsureLogin login_role, GrantRole group_role login_role, RevokeAll Database Public]"

definition closing_002 :: "ddl list" where
  "closing_002 = [GrantOn ''CONNECT'' Database (Named group_role), GrantOn ''USAGE'' (Schema ''public'') (Named group_role),
     GrantOnAll ''SELECT'' ''public'' (Named group_role), DefaultGrant ''SELECT'' ''public'' (Named group_role)]
     @ role_settings group_role @ role_settings login_role @ upgrade_003"

definition all_upgrades :: "ddl list" where
  "all_upgrades = upgrade_001 @ upgrade_002 @ upgrade_003"

lemma all_upgrades_split: "all_upgrades = (upgrade_001 @ opening_002) @ RevokeAll (Schema ''public'') Public # closing_002"
  by (simp add: all_upgrades_def upgrade_002_def opening_002_def closing_002_def)

lemma harmless_parts:
  "list_all (harmless {group_role, login_role} ''agent_meta'') (upgrade_001 @ opening_002)"
  "list_all (harmless {group_role, login_role} ''agent_meta'') closing_002"
  by (simp_all add: upgrade_001_def opening_002_def closing_002_def role_settings_def upgrade_003_def)

lemma roles_apart [simp]: "group_role \<noteq> login_role" "login_role \<noteq> group_role"
  by (simp_all add: group_role_def login_role_def)

lemma upgrade_001_end: "\<exists>c'. run_ddl who upgrade_001 c = Inr c' \<and> cl_roles c' = cl_roles c"
  by (simp add: upgrade_001_def)

lemma upgrade_002_end:
  assumes "dict_get (cl_roles c) group_role = None" "dict_get (cl_roles c) login_role = None"
  shows "\<exists>c'. run_ddl who upgrade_002 c = Inr c' \<and> dict_get (cl_roles c') login_role = Some plain_role
    \<and> dict_get (cl_settings c') (login_role, ''default_transaction_read_only'') = Some ''on''
    \<and> (login_role, group_role) \<in> set (cl_members c')
    \<and> (\<forall>r \<in> set (cl_relations c'). rl_schema r = ''public'' \<longrightarrow> (Named group_role, relation_object r, ''SELECT'') \<in> set (cl_grants c'))"
  using assms by (simp add: upgrade_002_def role_settings_def image_iff) blast

lemma all_upgrades_end:
  assumes "dict_get (cl_roles c) group_role = None" "dict_get (cl_roles c) login_role = None"
  shows "\<exists>c'. run_ddl who all_upgrades c = Inr c' \<and> dict_get (cl_roles c') login_role = Some plain_role
    \<and> dict_get (cl_settings c') (login_role, ''default_transaction_read_only'') = Some ''on''
    \<and> (login_role, group_role) \<in> set (cl_members c')
    \<and> (\<forall>r \<in> set (cl_relations c'). rl_schema r = ''public'' \<longrightarrow> (Named group_role, relation_object r, ''SELECT'') \<in> set (cl_grants c'))"
proof -
  obtain c1 where c1: "run_ddl who upgrade_001 c = Inr c1" "cl_roles c1 = cl_roles c" using upgrade_001_end by blast
  then have absent: "dict_get (cl_roles c1) group_role = None" "dict_get (cl_roles c1) login_role = None" using assms by simp_all
  have "run_ddl who upgrade_003 c' = Inr c'" for c' by (simp add: upgrade_003_def)
  then show ?thesis using upgrade_002_end [OF absent, of who] c1(1) by (auto simp: all_upgrades_def run_append)
qed


definition fresh_cluster :: cluster where
  "fresh_cluster = \<lparr>cl_roles = [(''admin'', plain_role\<lparr>ro_superuser := True\<rparr>)], cl_members = [],
     cl_grants = [(Public, Database, ''CONNECT''), (Public, Schema ''public'', ''USAGE''), (Public, Schema ''public'', ''CREATE'')],
     cl_defaults = [], cl_relations = [\<lparr>rl_schema = ''public'', rl_name = ''orders'', rl_kind = ''r''\<rparr>], cl_schemas = [''public''],
     cl_owner = (\<lambda>_. ''admin''), cl_settings = []\<rparr>"

lemma fresh_unmigrated: "unmigrated fresh_cluster"
  by (simp add: unmigrated_def fresh_cluster_def walled_def safe_grant.simps group_role_def login_role_def)


subsection \<open>What the migrations do not do\<close>

text \<open>A login role that is already there keeps its attributes: the migration only sets its password. A superuser stays one, and
  the service refuses it.\<close>

lemma existing_superuser_refused:
  assumes "dict_get (cl_roles c) group_role = None" "dict_get (cl_roles c) login_role = Some (plain_role\<lparr>ro_superuser := True\<rparr>)"
  shows "\<exists>c' e. run_ddl who upgrade_002 c = Inr c' \<and> judge_role (view_of c' login_role) = Some e"
  using assms
  by (simp add: upgrade_002_def role_settings_def judge_role_def reject_role_attributes_def role_problems_def view_of_def plain_role_def Let_def)

text \<open>The downgrade does not give \<open>PUBLIC\<close> back what the upgrade took.\<close>

definition revoked_public :: "cluster \<Rightarrow> bool" where
  "revoked_public c \<longleftrightarrow> (\<forall>x \<in> set (cl_grants c). fst x \<noteq> Public)"

lemma public_not_restored:
  "\<exists>c1 c2. run_ddl ''admin'' upgrade_002 fresh_cluster = Inr c1 \<and> run_ddl ''admin'' downgrade_002 c1 = Inr c2
     \<and> cl_roles c2 = cl_roles fresh_cluster \<and> revoked_public c2 \<and> \<not> revoked_public fresh_cluster"
  by (simp add: upgrade_002_def downgrade_002_def role_settings_def fresh_cluster_def revoked_public_def group_role_def login_role_def
      relation_object_def)

text \<open>Once another schema was granted to the role, as seeding the demo or converting a benchmark does, the downgrade stops at dropping it.\<close>

lemma readonly_role_granted: "readonly_role = group_role"
  by (simp add: readonly_role_def group_role_def)

lemma drop_refused:
  "(Named r, ob, p) \<in> set (cl_grants c) \<Longrightarrow> \<exists>m. ddl_step who (DropRoleIfExists r) c = Inl m"
  by force

lemma downgrade_refused_after_grant:
  assumes "n \<noteq> ''public''" "run_ddl who (upgrade_002 @ [GrantOn ''USAGE'' (Schema n) (Named readonly_role)]) fresh_cluster = Inr c"
  shows "\<exists>m. run_ddl who downgrade_002 c = Inl m"
proof -
  have "(Named group_role, Schema n, ''USAGE'') \<in> set (cl_grants c)"
    using assms(2) by (auto simp: run_append readonly_role_granted split: sum.splits)
  then show ?thesis
    using assms(1)
    by (auto simp: downgrade_002_def relation_object_def split: sum.splits)
qed

subsection \<open>The catalog's tables\<close>

text \<open>The width of the stored vectors is that of the hashing embedder, and the width check reads it.\<close>

lemma migrated_width: "read_width embedding_type = Some embedding_dim" "default_dimensions = embedding_dim"
  by code_simp+

text \<open>The uniqueness of 001 and that of 003, on the key of a row: with \<open>NULL\<close> distinct, two rows of a table never conflict.\<close>

definition unique_conflict :: "bool \<Rightarrow> element_key \<Rightarrow> element_key \<Rightarrow> bool" where
  "unique_conflict nulls_not_distinct k k' \<longleftrightarrow>
     (case (k, k') of ((d, t, col, m), (d', t', col', m')) \<Rightarrow>
        d = d' \<and> t = t' \<and> m = m' \<and> (if nulls_not_distinct then col = col' else col \<noteq> None \<and> col = col'))"

lemma uniqueness_003: "unique_conflict True k k' \<longleftrightarrow> k = k'"
  by (cases k; cases k') (auto simp: unique_conflict_def)

lemma uniqueness_001: "\<not> unique_conflict False (d, t, None, m) k"
  by (cases k) (auto simp: unique_conflict_def)

end
