(* ===== verification/Spec2Isabelle.thy ===== *)
theory Spec2Isabelle
  imports Comparison Query Corpus Gateway Tools Runs Loading Pipeline Acquisition LoaderCommands Service Cost TransportCheck Evaluation Demo ProviderCheck Migrations
begin

text \<open>
  A model of the text-to-SQL agent in this repository: a service that retrieves a part of a database
  schema, asks a language model for a query, validates that query, runs it under limits as a
  read-only role, and answers over HTTP, as a stream or through tool servers; and the evaluation
  harness and benchmark tools that measure it. All source files named below are under
  \<open>src/src/\<close>.

  \<^bold>\<open>The path of a question.\<close> \<open>api/middleware.py\<close> bounds the body and names the request (\<open>Gateway\<close>);
  \<open>api/query.py\<close> admits it, answers it or streams the answer, and gives its slot back (\<open>Query\<close>,
  with the frames of \<open>api/sse.py\<close> in \<open>Sse\<close> and the error vocabulary of \<open>api/errors.py\<close> in
  \<open>ApiErrors\<close>). The answer itself is \<open>answering/answerer.py\<close>: the retriever of
  \<open>schema/retrieval.py\<close> (\<open>Retrieval\<close>) searches what \<open>schema/indexer.py\<close> wrote (\<open>Indexer\<close>, over
  the texts of \<open>schema/serialization.py\<close> in \<open>Serialization\<close>), the prompt and the repair of the model's
  output are \<open>generation/prompts.py\<close> and \<open>generation/generator.py\<close> (\<open>Generation\<close>), and the model is
  called through the clients of \<open>adapters/llm/\<close> (\<open>Llm\<close>). The query that comes back is validated by
  \<open>validation/validator.py\<close> (\<open>Validation\<close>) against the allowlist of \<open>schema/catalog.py\<close> (\<open>Catalog\<close>)
  and run by \<open>execution/executor.py\<close> (\<open>Execution\<close>) under the limits of \<open>core/settings.py\<close>
  (\<open>Settings\<close>). This theory composes them as \<open>composition/answering.py\<close> does.

  \<^bold>\<open>Conventions.\<close> A class is a record, an enumeration a datatype, a raised exception the left side of a
  sum over the hierarchy of \<open>core/exceptions.py\<close> (\<open>Exceptions\<close>, with \<open>isinst\<close> for
  \<open>isinstance\<close>). State is passed explicitly: the world of the executor is the list of statements
  sent to the database and the audit entries written; the vector store is the list of its rows. A
  Python dictionary whose order matters is an association list (\<open>Prelude\<close>). Text is a list of
  characters below code point 256. Floating-point numbers are exact rationals, so what depends on binary
  rounding is outside the model; printing a float and the shortest representation are arguments.

  \<^bold>\<open>What is an argument.\<close> Code that is not in the repository enters as an argument of the definitions
  that use it, with what the code relies on as named hypotheses: the \<open>sqlglot\<close> parser (\<open>Sqlglot\<close>, a
  record of functions over an open type of nodes), the database (a function from a timeout and a text to rows or
  a driver error), the provider's SDK, the nearest-neighbour search of the vector extension
  (\<open>nearest_ok\<close>: at most k rows of the store that pass the filter), hashes, clocks, fresh identifiers, and the schedule on which
  a stream reads its queue.

  \<^bold>\<open>Interfaces.\<close> \<open>request_clamp\<close> is the contract of the four clamps of the settings; \<open>name_index\<close> that of
  the case-folding lookups of the catalog; \<open>gatekeeper\<close> what the executor relies on in a validator;
  \<open>llm_client\<close> what a chain relies on in its clients, interpreted for the scripted client, the
  provider client and the chains of both.

  \<^bold>\<open>What the theorems show.\<close> No text but a planning one reaches the database unless it is the model's
  answer to the question, statically valid and rendered with the row limit, and no more rows than the ceiling
  come back (\<open>only_generated_text_runs\<close>, over \<open>Validation\<close> and \<open>Execution\<close>); every attempt is
  audited once; indexing replaces one catalog and is idempotent, and what a search returns was
  indexed (\<open>context_is_indexed\<close>); row data never enters a prompt; the stream and the plain response tell
  the same outcome; slots are bounded and returned; the comparison of results decides its specification.
  Several theorems state behaviour that the code does not mean to have (an INTO below the root
  is not refused, a FETCH FIRST is replaced by the ceiling, a stream dropped before its
  first chunk keeps its slot, a service configured with no probes reports ready).

  \<^bold>\<open>Process and configuration.\<close> \<open>Configuration\<close> models the groups of \<open>core/settings.py\<close>, the safety check of
  the model endpoint and the loading of all of them, and the client \<open>adapters/llm/factory.py\<close> builds; \<open>Dsn\<close> the connection
  strings of \<open>core/dsn.py\<close>; \<open>Embedding\<close> the adapters of \<open>adapters/embedding/\<close>; \<open>Resources\<close> the connections of
  \<open>composition/resources.py\<close>, whose invariant is that a connection it hands out as read-only was proved so;
  \<open>Service\<close> the routes, middleware and lifespan of \<open>api/app.py\<close>. \<open>Introspection\<close> models
  \<open>schema/introspection.py\<close> over the relations of PostgreSQL's catalog, \<open>Migrations\<close> what \<open>migrations/versions/\<close> do
  to roles and privileges (the role they create passes the check of \<open>Resources\<close>), and \<open>Profiler\<close> \<open>profiling/profiler.py\<close>.

  \<^bold>\<open>Tools.\<close> \<open>Tools\<close> models the servers of \<open>mcp_servers/\<close>, the registry of \<open>agent/discovery.py\<close> and the reply
  conversion of \<open>evals/mcp_client.py\<close>, whose client threads and pool are \<open>SearchClients\<close>. \<open>marking_handler\<close>
  is what a server relies on in a handler, interpreted for the four handlers.

  \<^bold>\<open>Evaluation.\<close> \<open>Comparison\<close> models \<open>evals/comparison.py\<close>, \<open>Dataset\<close> the question files and verified gold of
  \<open>evals/\<close>, read with the JSON reader of \<open>JsonText\<close>; \<open>Scoring\<close> \<open>evals/recall.py\<close> and \<open>evals/taxonomy.py\<close>;
  \<open>Pipeline\<close> the pipelines of \<open>evals/pipeline.py\<close> with their baselines; \<open>Runs\<close> the run directory of
  \<open>evals/artifacts.py\<close> with the loop and the summary of \<open>evals/runner.py\<close>: a resumed run ends as an
  uninterrupted one, keeps every answer it has, and stops on an outage; \<open>Cost\<close> \<open>evals/cost.py\<close>;
  \<open>TransportCheck\<close> the command of \<open>scripts/compare_mcp_retrieval.py\<close>.
  \<open>Evaluation\<close> composes them as the command \<open>evals/run.py\<close> does: an evaluation that ends well scored only
  verified gold, and closed what it opened. \<open>ProviderCheck\<close> models \<open>generation/check.py\<close>.

  \<^bold>\<open>Benchmarks.\<close> The modules of \<open>benchmark/\<close>: \<open>Corpus\<close> the identifiers and splits, \<open>Lockfile\<close> the allowlist and
  the digests of \<open>sources.py\<close>, \<open>Acquisition\<close> the download and extraction of \<open>acquire.py\<close>, \<open>Readers\<close> the question
  files, \<open>SqliteSource\<close> the reading of a SQLite database, \<open>Conversion\<close> the types and values of
  \<open>convert.py\<close> and \<open>Loading\<close> the transaction that loads them, \<open>GoldCheck\<close> the comparison of \<open>verify.py\<close>, and
  \<open>LoaderCommands\<close> the commands of \<open>load.py\<close> over them. \<open>Demo\<close> models the generated dataset of \<open>demo/\<close> and its seeding.

  \<^bold>\<open>Bounds and fuel.\<close> Loops are structural recursions over lists; a stream is driven by the list of its wake-ups and a
  download by the list of its chunks, so these definitions are total. The JSON reader spends one unit of fuel per call and a
  text never needs more than its length (the round trips of \<open>JsonText\<close> are proved with exactly that). The walk to the parents of a
  query's node takes a bound on its depth as an argument. The eviction loop of the client pool is partial, and every pool an
  evaluation reaches makes it return (\<open>pool_searches_return\<close>).

  \<^bold>\<open>Not modelled.\<close> Event loops and threads as such, argument parsing and log lines; the web client, which
  is in another language; the link checker of the documentation.
\<close>

section \<open>The assembled service\<close>

text \<open>\<open>build_answerer\<close>: retrieve with the retriever's own \<open>k\<close>, generate for the configured row default.\<close>

definition build_answerer ::
  "'v retriever \<Rightarrow> 'v store \<Rightarrow> 's complete \<Rightarrow> execution_settings
     \<Rightarrow> string \<Rightarrow> 's \<Rightarrow> string list \<times> (exn + candidate) \<times> 's" where
  "build_answerer R S call settings question s =
     answer_candidate (retriever_context R S None) call
       \<lparr>ge_dialect = ''PostgreSQL'', ge_max_rows = Some (max_rows_default settings)\<rparr> question None None s"

definition assembled ::
  "'v retriever \<Rightarrow> 'v store \<Rightarrow> 's complete \<Rightarrow> 'n executor \<Rightarrow> rat \<times> rat \<Rightarrow> rat \<times> rat \<Rightarrow> 's service" where
  "assembled R S call E clock durations =
     \<lparr>sv_answerer = build_answerer R S call (ex_settings E), sv_clock = clock, sv_durations = durations\<rparr>"

text \<open>The one request that is sent to the model for a question in a context.\<close>

definition model_request :: "execution_settings \<Rightarrow> string \<Rightarrow> retrieval_result \<Rightarrow> llm_request" where
  "model_request settings question ctx =
     \<lparr>rq_messages = build_messages question ctx ''PostgreSQL'' (Some (max_rows_default settings)) None None,
      rq_tools = None, rq_max_tokens = None, rq_timeout_ms = None\<rparr>"

section \<open>Facts\<close>

lemma answered_sql:
  assumes "build_answerer R S call settings question s = (stages, Inr c, s')"
  shows "\<exists>ctx r. search R S question None None = Inr ctx
    \<and> call (model_request settings question ctx) s = (Inr r, s') \<and> cd_sql c = strip_formatting (lr_text r)"
  using assms
  by (auto simp: build_answerer_def answer_candidate_def generate_def generate_detailed_def Let_def
      retriever_context_def model_request_def read_response_def
      split: sum.splits prod.splits if_splits)

text \<open>A new text at the database that is no planning text is the bounded form of a valid query.\<close>

lemma executed_text:
  assumes t: "RunText t \<in> set (drop (length (w_db w)) (w_db (snd (execute E m clk mr tm sql w))))"
    and p: "\<not> prefix explain_prefix t"
  shows "statically_ok E sql
    \<and> (\<exists>eff capped. apply_row_limit (ex_sqlglot E) sql (clamp_rows (ex_settings E) mr) = Inr (t, eff, capped))"
proof -
  have g: "RunText t \<in> set (guarded (ex_validate E) valid
     (\<lambda>q v. case apply_row_limit (ex_sqlglot E) q (clamp_rows (ex_settings E) mr) of
        Inl _ \<Rightarrow> [] | Inr (b, _) \<Rightarrow> [SetTimeout (clamp_timeout_ms (ex_settings E) tm), RunText b]) sql)"
    using t by (simp add: execute_db)
  have h: "\<not> planning (RunText t)" using p by (simp add: planning_def)
  obtain v where "RunText t \<in> set (case apply_row_limit (ex_sqlglot E) sql (clamp_rows (ex_settings E) mr) of
        Inl _ \<Rightarrow> [] | Inr (b, _) \<Rightarrow> [SetTimeout (clamp_timeout_ms (ex_settings E) tm), RunText b])"
    using gate.guarded_acts [OF g h] by blast
  then have "\<exists>eff capped.
      apply_row_limit (ex_sqlglot E) sql (clamp_rows (ex_settings E) mr) = Inr (t, eff, capped)"
    by (cases "apply_row_limit (ex_sqlglot E) sql (clamp_rows (ex_settings E) mr)") auto
  moreover have "statically_ok E sql"
    by (rule gate.guarded_safe [where E = E and x = "RunText t" and q = sql]) (rule g, rule h)
  ultimately show ?thesis by blast
qed

lemma explained_text:
  assumes "RunText t \<in> set (drop (length (w_db w)) (w_db (snd (explain E m tm sql w))))"
  shows "prefix explain_prefix t"
proof -
  have "planning (RunText t)" using assms gate.check_log [of "RunText t" E sql] by (auto simp: explain_db)
  then show ?thesis by (simp add: planning_def)
qed

lemma execute_rows:
  assumes ok: "execution_ok (ex_settings E)" and run: "fst (execute E m clk mr tm sql w) = Inr q"
  shows "int (length (qr_rows q)) \<le> max_rows_ceiling (ex_settings E)"
proof -
  obtain b eff cap fetched where
    b: "apply_row_limit (ex_sqlglot E) sql (clamp_rows (ex_settings E) mr) = Inr (b, eff, cap)"
    and q: "qr_rows q = take (nat eff) fetched"
    using execute_success [OF run] by metis
  note c = rows_clamp.in_range [OF ok, of mr]
  have "0 \<le> eff" "eff \<le> clamp_rows (ex_settings E) mr" using apply_row_limit_bounds [OF b] c by simp_all
  then have "int (length (qr_rows q)) \<le> eff" using q by simp
  with \<open>eff \<le> _\<close> c show ?thesis by simp
qed

text \<open>The columns and tables of a snapshot, as a search may give them back.\<close>

definition from_snapshot :: "string list \<Rightarrow> schema_snapshot \<Rightarrow> retrieved_element \<Rightarrow> bool" where
  "from_snapshot patterns snap e \<longleftrightarrow> (\<exists>t \<in> set (snap_tables snap).
     re_table e = tab_name t \<and> re_column e = None \<and> re_serialized e = serialize_table t
     \<or> (\<exists>c \<in> set (tab_columns t). re_table e = col_table c \<and> re_column e = Some (col_name c)
          \<and> re_serialized e = serialize_column patterns c))"

lemma last_row_member:
  assumes "last_row (map (\<lambda>(r, v). f r v) rvs) k = Some x"
  shows "\<exists>(r, v) \<in> set rvs. x = f r v"
proof -
  have "x \<in> set (rev (map (\<lambda>(r, v). f r v) rvs))"
    using assms unfolding last_row_def find_Some_iff by (metis nth_mem)
  then show ?thesis by auto
qed

lemma written_from_snapshot:
  assumes "(row, v) \<in> set (zip (build_rows ds patterns snap) vs)"
    and "re_table e = el_table (row_element mv row v)" "re_column e = el_column (row_element mv row v)"
      "re_serialized e = el_serialized (row_element mv row v)"
  shows "from_snapshot patterns snap e"
  using assms(2-4) set_zip_leftD [OF assms(1)]
  by (fastforce simp: build_rows_def row_element_def from_snapshot_def)

lemma setdefault_values:
  "set (map snd (foldl (\<lambda>seen fk. dict_setdefault seen (edge_key fk) fk) d fks)) \<subseteq> set (map snd d) \<union> set fks"
proof (induction fks arbitrary: d)
  case (Cons fk fks)
  have "set (map snd (dict_setdefault d (edge_key fk) fk)) \<subseteq> insert fk (set (map snd d))"
    by (auto simp: dict_setdefault_def split: option.splits)
  then show ?case using Cons.IH [of "dict_setdefault d (edge_key fk) fk"] by (simp del: set_map) blast
qed simp

lemma distinct_edges_subset: "set (distinct_edges fks) \<subseteq> set fks"
  using setdefault_values [of "[]" fks] by (simp add: distinct_edges_def)

section \<open>Properties\<close>

text \<open>C1: the guard holds end to end. Whatever the retriever finds, the model answers and the caller asks,
  a text other than a planning one reaches the database only for a question that is to be executed,
  and it is then what the model was asked for in that question's one request, with its formatting
  stripped, accepted by every static stage, and rendered with the row limit; and no answer carries
  more rows than the configured ceiling.\<close>

theorem only_generated_text_runs:
  assumes ok: "execution_ok (ex_settings E)"
    and run: "serve E (assembled R S call E clock durations) rq rid (a, s, w) = (out, a', s', w')"
  shows "(\<forall>t. RunText t \<in> set (drop (length (w_db w)) (w_db w')) \<and> \<not> prefix explain_prefix t \<longrightarrow>
      \<not> qo_explain_only (qq_options rq)
      \<and> (\<exists>ctx r eff capped. search R S (qq_question rq) None None = Inr ctx
          \<and> call (model_request (ex_settings E) (qq_question rq) ctx) s = (Inr r, s')
          \<and> statically_ok E (strip_formatting (lr_text r))
          \<and> apply_row_limit (ex_sqlglot E) (strip_formatting (lr_text r))
               (clamp_rows (ex_settings E) (qo_max_rows (qq_options rq))) = Inr (t, eff, capped)))
    \<and> (\<forall>ans q. out = Inr ans \<and> an_result ans = Some q \<longrightarrow>
          int (length (qr_rows q)) \<le> max_rows_ceiling (ex_settings E))"
proof (cases "acquire a")
  case (Inl e)
  then show ?thesis using run by (auto simp: serve_def)
next
  case (Inr a1)
  let ?sv = "assembled R S call E clock durations" and ?q = "qq_question rq" and ?o = "qq_options rq"
  obtain told where A: "answer_question E ?sv rq rid (s, w) = (told, out, s', w')"
    using run Inr by (auto simp: serve_def Let_def split: prod.splits)
  obtain stages c s1 where B: "build_answerer R S call (ex_settings E) ?q s = (stages, c, s1)"
    by (metis prod_cases3)
  show ?thesis
  proof (cases c)
    case (Inl e)
    then show ?thesis using A B by (auto simp: answer_question_def assembled_def Let_def)
  next
    case cand: (Inr cd)
    obtain ctx r where model: "search R S ?q None None = Inr ctx"
        "call (model_request (ex_settings E) ?q ctx) s = (Inr r, s1)" "cd_sql cd = strip_formatting (lr_text r)"
      using answered_sql [OF B [unfolded cand]] by blast
    show ?thesis
    proof (cases "qo_explain_only ?o")
      case True
      then have "w' = snd (explain E plain_meta (qo_timeout_ms ?o) (cd_sql cd) w)"
          "\<And>ans. out = Inr ans \<Longrightarrow> an_result ans = None"
        using A B cand by (auto simp: answer_question_def assembled_def Let_def split: prod.splits sum.splits)
      then show ?thesis using explained_text by fastforce
    next
      case False
      let ?m = "plain_meta\<lparr>rm_question := Some ?q, rm_request_id := Some rid\<rparr>"
      let ?run = "execute E ?m clock (qo_max_rows ?o) (qo_timeout_ms ?o) (cd_sql cd) w"
      have w': "w' = snd ?run" "s' = s1"
        and res: "\<And>ans q. out = Inr ans \<Longrightarrow> an_result ans = Some q \<Longrightarrow> fst ?run = Inr q"
        using A B cand False by (auto simp: answer_question_def assembled_def Let_def split: prod.splits sum.splits)
      have texts: "statically_ok E (cd_sql cd) \<and> (\<exists>eff capped. apply_row_limit (ex_sqlglot E) (cd_sql cd)
            (clamp_rows (ex_settings E) (qo_max_rows ?o)) = Inr (t, eff, capped))"
        if "RunText t \<in> set (drop (length (w_db w)) (w_db w'))" "\<not> prefix explain_prefix t" for t
        using executed_text [OF that(1) [unfolded w'] that(2)] .
      show ?thesis
        using texts res model False execute_rows [OF ok] unfolding w'(2) model(3) by blast
    qed
  qed
qed

text \<open>A model that always answers with one query, asked over the toy catalog and executor.\<close>

definition toy_model :: "unit complete" where
  "toy_model rq s = (Inr (text_response ''SELECT 1'' ''m''), s)"

definition toy_asked :: query_request where
  "toy_asked = \<lparr>qq_question = ''q'', qq_stream = False, qq_options =
     \<lparr>qo_max_rows = Some 2, qo_timeout_ms = None, qo_explain_only = False\<rparr>\<rparr>"

lemma toy_strips: "strip_formatting ''SELECT 1'' = ''SELECT 1''"
proof -
  have s: "strip ''SELECT 1'' = ''SELECT 1''"
    by (simp add: strip_def lstrip_def rstrip_def py_space_def code_def)
  have "\<not> opens_think ''SELECT 1''"
    by (simp add: opens_think_def py_lower_def lower_char_def char_eval)
  moreover have "unfence ''SELECT 1'' = None" by (simp add: unfence_def fence_def)
  moreover have "drop_label ''SELECT 1'' = ''SELECT 1''"
    by (simp add: drop_label_def py_lower_def lower_char_def char_eval)
  ultimately show ?thesis by (simp add: strip_formatting_def drop_think_def s)
qed

lemma toy_answers:
  "\<exists>stages c. build_answerer toy_retriever toy_store toy_model (ex_settings toy_executor) ''q'' ()
     = (stages, Inr c, ()) \<and> cd_sql c = ''SELECT 1''"
proof -
  have q: "strip ''q'' = ''q''" by (simp add: strip_def lstrip_def rstrip_def py_space_def code_def)
  obtain res where run: "search toy_retriever toy_store ''q'' None None = Inr res"
    by (simp add: search_def Let_def q clean_table_filter_def toy_retriever_def make_retriever_def
        embed_query_def toy_embedder_def clamp_def max_k_def max_ef_search_def)
  have "\<not> startswith (py_upper ''SELECT 1'') ''CANNOT_ANSWER''"
    by (simp add: startswith_def py_upper_def upper_char_def char_eval)
  then have "\<exists>x. read_response (text_response ''SELECT 1'' ''m'') = Inr x \<and> gn_sql x = ''SELECT 1''"
    by (simp add: read_response_def toy_strips text_response_def)
  then show ?thesis
    by (auto simp: build_answerer_def answer_candidate_def retriever_context_def run generate_def
        generate_detailed_def q toy_model_def Let_def)
qed

theorem only_generated_text_runs_witness:
  "\<exists>out a' s' w'. serve toy_executor (assembled toy_retriever toy_store toy_model toy_executor (0, 0) (0, 0))
      toy_asked ''r'' (\<lparr>ad_limit = 1, ad_held = 0\<rparr>, (), empty_world) = (out, a', s', w')
    \<and> RunText ''SELECT 1 LIMIT 3'' \<in> set (w_db w') \<and> statically_ok toy_executor ''SELECT 1''"
proof -
  let ?m = "plain_meta\<lparr>rm_question := Some ''q'', rm_request_id := Some ''r''\<rparr>"
  let ?run = "execute toy_executor ?m (0, 0) (Some 2) None ''SELECT 1'' empty_world"
  obtain out a' s' w' where run: "serve toy_executor
      (assembled toy_retriever toy_store toy_model toy_executor (0, 0) (0, 0))
      toy_asked ''r'' (\<lparr>ad_limit = 1, ad_held = 0\<rparr>, (), empty_world) = (out, a', s', w')"
    by (metis prod_cases4)
  obtain stages c where c: "build_answerer toy_retriever toy_store toy_model (ex_settings toy_executor) ''q'' ()
     = (stages, Inr c, ())" "cd_sql c = ''SELECT 1''" using toy_answers by blast
  have w': "w' = snd ?run"
    using run c by (auto simp: serve_def acquire_def answer_question_def assembled_def toy_asked_def Let_def
        split: prod.splits sum.splits)
  obtain l where v: "ex_validate toy_executor ''SELECT 1''
      = (Inr ((ok_result ''SELECT 1'' [])\<lparr>estimated_cost := Some 5\<rparr>), l)"
    using toy_validates by (metis prod.collapse)
  have t: "RunText ''SELECT 1 LIMIT 3'' \<in> set (drop (length (w_db empty_world)) (w_db w'))"
    unfolding w' by (simp add: execute_db guarded_def v toy_limits ok_result_def empty_world_def)
  have "\<not> prefix explain_prefix ''SELECT 1 LIMIT 3''" by (simp add: explain_prefix_def)
  moreover have "execution_ok (ex_settings toy_executor)" by (simp add: toy_executor_def default_execution_ok)
  ultimately have "\<exists>r. toy_model r () = (Inr (text_response ''SELECT 1'' ''m''), ())
      \<and> statically_ok toy_executor (strip_formatting ''SELECT 1'')"
    using conjunct1 [OF only_generated_text_runs [OF _ run]] t
    by (auto simp: toy_model_def text_response_def)
  then show ?thesis using run t by (auto simp: toy_strips empty_world_def)
qed

text \<open>C2: what the model is shown exists. After a snapshot has been indexed under the retriever's own
  dataset and embedder, every element a search returns is a table of the snapshot or a column of one,
  with the text it was serialized to, and every join path is a foreign key of the snapshot
  between two retrieved tables.\<close>

theorem context_is_indexed:
  assumes ok: "store_ok S"
    and run: "index width (rt_dataset R) patterns (rt_embedder R) snap S = (Inr rep, S')"
    and rows: "build_rows (rt_dataset R) patterns snap \<noteq> []"
    and near: "nearest_ok S' (rt_nearest R)"
    and found: "search R S' question k tables = Inr ctx"
  shows "(\<forall>e \<in> set (rr_elements ctx). from_snapshot patterns snap e)
    \<and> (\<forall>fk \<in> set (rr_foreign_keys ctx). fk \<in> set (snap_foreign_keys snap)
         \<and> from_table fk \<in> re_table ` set (rr_elements ctx) \<and> to_table fk \<in> re_table ` set (rr_elements ctx))"
proof -
  let ?ds = "rt_dataset R" and ?mv = "em_model (rt_embedder R)"
  obtain vs where "let written = map (\<lambda>(r, v). row_element ?mv r v) (zip (build_rows ?ds patterns snap) vs) in
       (\<forall>e \<in> set (st_elements S'). belongs ?ds ?mv e \<longrightarrow>
            (\<exists>r. last_row written (el_key e) = Some r \<and> e = r\<lparr>el_id := el_id e\<rparr>))
       \<and> st_edges S' = filter (\<lambda>e. fst e \<noteq> ?ds) (st_edges S) @ map (Pair ?ds) (distinct_edges (snap_foreign_keys snap))"
    using index_effect [OF ok run rows] by (auto simp: Let_def)
  then have stored: "\<exists>(row, v) \<in> set (zip (build_rows ?ds patterns snap) vs).
        x = (row_element ?mv row v)\<lparr>el_id := el_id x\<rparr>"
      if "x \<in> set (st_elements S')" "belongs ?ds ?mv x" for x
    using that last_row_member [of "row_element ?mv" "zip (build_rows ?ds patterns snap) vs" "el_key x"]
    unfolding Let_def by blast
  have edges: "fk \<in> set (snap_foreign_keys snap)" if "(?ds, fk) \<in> set (st_edges S')" for fk
    using that distinct_edges_subset [of "snap_foreign_keys snap"]
      index_effect [OF ok run rows] by (auto simp: Let_def)
  have "from_snapshot patterns snap e" if e: "e \<in> set (rr_elements ctx)" for e
  proof -
    obtain x where x: "x \<in> set (st_elements S')" "belongs ?ds ?mv x"
      and same: "re_table e = el_table x" "re_column e = el_column x" "re_serialized e = el_serialized x"
      using search_elements [OF near found e] by blast
    obtain row v where rv: "(row, v) \<in> set (zip (build_rows ?ds patterns snap) vs)"
        "x = (row_element ?mv row v)\<lparr>el_id := el_id x\<rparr>" using stored [OF x] by blast
    then have "el_table x = el_table (row_element ?mv row v)" "el_column x = el_column (row_element ?mv row v)"
      "el_serialized x = el_serialized (row_element ?mv row v)"
      by (metis element.select_convs element.surjective element.update_convs(1))+
    then show ?thesis by (intro written_from_snapshot [OF rv(1)]) (simp_all add: same)
  qed
  moreover have "fk \<in> set (snap_foreign_keys snap) \<and> from_table fk \<in> re_table ` set (rr_elements ctx)
      \<and> to_table fk \<in> re_table ` set (rr_elements ctx)" if "fk \<in> set (rr_foreign_keys ctx)" for fk
    using search_edges [OF found] that edges by auto
  ultimately show ?thesis by blast
qed

definition toy_search :: "nat retriever" where
  "toy_search = toy_retriever\<lparr>rt_dataset := ''d'', rt_nearest := (\<lambda>p.
     if sp_dataset p = ''d'' \<and> sp_model p = ''m'' \<and> sp_tables p = None \<and> 1 \<le> sp_k p
     then Inr [\<lparr>re_type = ''table'', re_table = ''t'', re_column = None, re_data_type = None,
       re_comment = None, re_serialized = serialize_table \<lparr>tab_name = ''t'', tab_comment = None, tab_columns = []\<rparr>,
       re_score = 1\<rparr>] else Inr [])\<rparr>"

theorem context_is_indexed_witness:
  "\<exists>ctx e. search toy_search (snd (index (Some ''vector(3)'') ''d'' [] toy_embedder toy_snapshot toy_store))
      ''q'' None None = Inr ctx \<and> rr_elements ctx = [e] \<and> from_snapshot [] toy_snapshot e"
proof -
  let ?S' = "snd (index (Some ''vector(3)'') ''d'' [] toy_embedder toy_snapshot toy_store)"
  let ?T = "\<lparr>tab_name = ''t'', tab_comment = None, tab_columns = []\<rparr>"
  obtain rep where run: "index (Some ''vector(3)'') ''d'' [] toy_embedder toy_snapshot toy_store = (Inr rep, ?S')"
    using toy_index by blast
  have emb: "rt_dataset toy_search = ''d''" "rt_embedder toy_search = toy_embedder"
    by (simp_all add: toy_search_def toy_retriever_def make_retriever_def toy_embedder_def)
  have rows: "build_rows ''d'' [] toy_snapshot = [(''d'', ''table'', ''t'', None, None, None, serialize_table ?T)]"
    by (simp add: build_rows_def toy_snapshot_def)
  then have ne: "build_rows ''d'' [] toy_snapshot \<noteq> []" by simp
  let ?row = "(''d'', ''table'', ''t'', None, None, None, serialize_table ?T)"
  define v where "v = length (row_text ?row)"
  have written: "let W = map (\<lambda>(r, v). row_element ''m'' r v) (zip (build_rows ''d'' [] toy_snapshot) [v]) in
      el_key ` {e \<in> set (st_elements ?S'). belongs ''d'' ''m'' e} = el_key ` set W
      \<and> (\<forall>e \<in> set (st_elements ?S'). belongs ''d'' ''m'' e \<longrightarrow>
            (\<exists>r. last_row W (el_key e) = Some r \<and> e = r\<lparr>el_id := el_id e\<rparr>))"
  proof -
    have em: "em_model toy_embedder = ''m''" "em_embed toy_embedder (map row_text [?row]) = Inr [v]"
      by (simp_all add: toy_embedder_def v_def)
    show ?thesis
      using index_effect [OF toy_store_ok run ne] unfolding rows em sum.inject Let_def by blast
  qed
  have keys: "el_key ` {e \<in> set (st_elements ?S'). belongs ''d'' ''m'' e} = {(''d'', ''t'', None, ''m'')}"
    using written by (simp add: Let_def rows row_element_def el_key_def)
  have all: "el_serialized e = serialize_table ?T"
    if stored: "e \<in> set (st_elements ?S')" "belongs ''d'' ''m'' e" for e
  proof -
    obtain r where r: "last_row (map (\<lambda>(r, v). row_element ''m'' r v) (zip (build_rows ''d'' [] toy_snapshot) [v])) (el_key e) = Some r"
      "e = r\<lparr>el_id := el_id e\<rparr>" using written stored unfolding Let_def by blast
    have "el_serialized e = el_serialized r" using arg_cong [OF r(2), of el_serialized] by simp
    then show ?thesis using last_row_member [OF r(1)] by (auto simp: rows row_element_def)
  qed
  have "(''d'', ''t'', None, ''m'') \<in> el_key ` {e \<in> set (st_elements ?S'). belongs ''d'' ''m'' e}"
    unfolding keys by simp
  then obtain x where x: "x \<in> set (st_elements ?S')" "belongs ''d'' ''m'' x" "el_key x = (''d'', ''t'', None, ''m'')"
    by force
  then have "el_table x = ''t''" "el_column x = None" "el_serialized x = serialize_table ?T"
    using all by (simp_all add: el_key_def)
  then have near: "nearest_ok ?S' (rt_nearest toy_search)"
    using x(1,2) by (fastforce simp: nearest_ok_def from_store_def toy_search_def)
  have q: "strip ''q'' = ''q''" by (simp add: strip_def lstrip_def rstrip_def py_space_def code_def)
  obtain ctx e where found: "search toy_search ?S' ''q'' None None = Inr ctx" "rr_elements ctx = [e]"
    by (simp add: search_def Let_def q clean_table_filter_def toy_search_def toy_retriever_def make_retriever_def
        embed_query_def toy_embedder_def clamp_def max_k_def max_ef_search_def rank_def)
  from context_is_indexed [where R = toy_search, unfolded emb, OF toy_store_ok run ne near found(1)] found
  show ?thesis by auto
qed

end
